(* ===== verification/Prelude.thy ===== *)
theory Prelude
  imports
    Main
    "HOL-Library.AList"
    "HOL-Library.Char_ord"
    "HOL-Library.Code_Target_Nat"
    "HOL-Library.List_Lexorder"
    "HOL-Library.Product_Lexorder"
begin

text \<open>
  The vocabulary that every component of the development shares.

  Go values are modelled as follows. A byte string is a \<^typ>\<open>string\<close> (a list of 8-bit
  characters, compared lexicographically as Go compares strings). An instant
  (\<^verbatim>\<open>time.Time\<close>) is the number of nanoseconds since the zero time, so \<^verbatim>\<open>IsZero\<close> is equality
  with \<open>0\<close>, and a \<^verbatim>\<open>time.Duration\<close> is a number of nanoseconds. A call that reads the clock
  takes the reading as an argument, one argument per reading. A Go map is an association
  list with distinct keys, which keeps it finite and executable. A call that returns a value
  or an error returns a sum with the error on the left.

  A context is what the code can see of it: each look at the context during a call
  (\<^verbatim>\<open>ctx.Err()\<close>, \<^verbatim>\<open>checkContext\<close>, a blocked lock) may report an error, and a context that is
  alive at one look may be cancelled at the next. A \<open>ctx\<close> therefore maps the number of the
  look, counted from 0 in program order of the call, to what that look reports.
\<close>

named_theorems wf_intros \<open>introduction rules for the components' invariants\<close>
named_theorems op_defs \<open>definitions of the operations of the components\<close>

type_synonym instant = int
type_synonym duration = int
type_synonym ('k, 'v) gomap = "('k \<times> 'v) list"

datatype ctx_error = Canceled | DeadlineExceeded

type_synonym ctx = "nat \<Rightarrow> ctx_error option"

text \<open>A context argument may also be nil, which is \<open>None\<close>.\<close>

type_synonym goctx = "ctx option"

definition background :: ctx where
  "background = (\<lambda>_. None)"

lemma background_apply [simp]: "background i = None"
  by (simp add: background_def)

subsection \<open>Go maps\<close>

abbreviation get :: "('k, 'v) gomap \<Rightarrow> 'k \<Rightarrow> 'v option" where
  "get m k \<equiv> map_of m k"

abbreviation put :: "'k \<Rightarrow> 'v \<Rightarrow> ('k, 'v) gomap \<Rightarrow> ('k, 'v) gomap" where
  "put k v m \<equiv> AList.update k v m"

abbreviation del :: "'k \<Rightarrow> ('k, 'v) gomap \<Rightarrow> ('k, 'v) gomap" where
  "del k m \<equiv> AList.delete k m"

abbreviation well_keyed :: "('k, 'v) gomap \<Rightarrow> bool" where
  "well_keyed m \<equiv> distinct (map fst m)"

text \<open>A lookup stays a lookup: simplification does not unfold it into membership.\<close>

declare map_of_eq_Some_iff [simp del]

lemma get_put [simp]: "get (put k v m) k' = (if k' = k then Some v else get m k')"
  by (simp add: update_conv')

lemma get_del [simp]: "get (del k m) k' = (if k' = k then None else get m k')"
  by (simp add: delete_conv')

lemma well_keyed_put [simp, intro]: "well_keyed m \<Longrightarrow> well_keyed (put k v m)"
  by (rule distinct_update)

lemma well_keyed_del [simp, intro]: "well_keyed m \<Longrightarrow> well_keyed (del k m)"
  by (rule distinct_delete)

lemma well_keyed_get_iff: "well_keyed m \<Longrightarrow> get m k = Some v \<longleftrightarrow> (k, v) \<in> set m"
  by (rule map_of_eq_Some_iff)

lemma well_keyed_filter [simp, intro]: "well_keyed m \<Longrightarrow> well_keyed (filter P m)"
  by (rule distinct_map_filter)

lemma get_filter:
  assumes "well_keyed m"
  shows "get (filter P m) k =
    (case get m k of None \<Rightarrow> None | Some v \<Rightarrow> if P (k, v) then Some v else None)"
proof (cases "get m k")
  case None
  then have "k \<notin> fst ` set m" by (simp add: map_of_eq_None_iff)
  then have "k \<notin> fst ` set (filter P m)" by auto
  then have "get (filter P m) k = None" by (simp add: map_of_eq_None_iff)
  with None show ?thesis by simp
next
  case (Some v)
  then have mem: "(k, v) \<in> set m" by (rule map_of_SomeD)
  show ?thesis
  proof (cases "P (k, v)")
    case True
    with mem assms Some show ?thesis by (simp add: well_keyed_get_iff)
  next
    case False
    have "k \<notin> fst ` set (filter P m)"
    proof
      assume "k \<in> fst ` set (filter P m)"
      then obtain w where w: "(k, w) \<in> set m" "P (k, w)" by auto
      from map_of_is_SomeI [OF assms w(1)] Some have "w = v" by simp
      with w False show False by simp
    qed
    then have "get (filter P m) k = None" by (simp add: map_of_eq_None_iff)
    with Some False show ?thesis by simp
  qed
qed

lemma get_SomeD: "get m k = Some v \<Longrightarrow> (k, v) \<in> set m"
  by (rule map_of_SomeD)

subsection \<open>Machine integers\<close>

text \<open>Two's complement wrap-around of Go's \<^verbatim>\<open>int64\<close> (and \<^verbatim>\<open>int\<close> on 64-bit targets).\<close>

definition wrap64 :: "int \<Rightarrow> int" where
  "wrap64 x = (x + 2 ^ 63) mod 2 ^ 64 - 2 ^ 63"

definition in_int64 :: "int \<Rightarrow> bool" where
  "in_int64 x \<longleftrightarrow> - (2 ^ 63) \<le> x \<and> x < 2 ^ 63"

lemma wrap64_id [simp]: "in_int64 x \<Longrightarrow> wrap64 x = x"
  by (simp add: wrap64_def in_int64_def)

lemma wrap64_range: "in_int64 (wrap64 x)"
proof -
  have "0 \<le> (x + 2 ^ 63) mod 2 ^ 64" "(x + 2 ^ 63) mod 2 ^ 64 < (2 ^ 64 :: int)"
    by (simp_all only: pos_mod_sign pos_mod_bound zero_less_power zero_less_numeral)
  then show ?thesis by (simp add: wrap64_def in_int64_def)
qed

lemma wrap64_add [simp]: "wrap64 (wrap64 a + b) = wrap64 (a + b)"
proof -
  have "wrap64 a + b + 2 ^ 63 = (a + 2 ^ 63) mod 2 ^ 64 + b" by (simp add: wrap64_def)
  moreover have "((a + 2 ^ 63) mod 2 ^ 64 + b) mod 2 ^ 64 = (a + b + 2 ^ 63) mod 2 ^ 64"
    by (simp only: mod_add_left_eq) (simp only: ac_simps)
  ultimately show ?thesis by (simp only: wrap64_def [of "wrap64 a + b"] wrap64_def [of "a + b"])
qed

text \<open>Go's integer division truncates towards zero.\<close>

definition quot :: "int \<Rightarrow> int \<Rightarrow> int" where
  "quot a b = sgn a * sgn b * (\<bar>a\<bar> div \<bar>b\<bar>)"

lemma quot_nonneg: "0 \<le> a \<Longrightarrow> 0 < b \<Longrightarrow> quot a b = a div b"
  by (cases "a = 0") (simp_all add: quot_def sgn_if)

subsection \<open>Floating point\<close>

text \<open>
  A \<^verbatim>\<open>float64\<close> is not a number, infinite, the negative zero, or the dyadic rational \<open>m * 2 ^ e\<close>;
  the comparisons are those of the language.
\<close>

datatype float64 = Float_NaN | Float_Inf bool | Float_NegZero | Float int int

fun float_less :: "float64 \<Rightarrow> float64 \<Rightarrow> bool" where
  "float_less Float_NaN y = False"
| "float_less (Float_Inf neg) y = (neg \<and> y \<noteq> Float_NaN \<and> y \<noteq> Float_Inf True)"
| "float_less Float_NegZero y =
     (case y of Float m e \<Rightarrow> 0 < m | Float_Inf neg \<Rightarrow> \<not> neg | _ \<Rightarrow> False)"
| "float_less (Float m e) y =
     (case y of
        Float_NaN \<Rightarrow> False
      | Float_Inf neg \<Rightarrow> \<not> neg
      | Float_NegZero \<Rightarrow> m < 0
      | Float m' e' \<Rightarrow> m * 2 ^ nat (e - min e e') < m' * 2 ^ nat (e' - min e e'))"

definition float_eq :: "float64 \<Rightarrow> float64 \<Rightarrow> bool" where
  "float_eq x y \<longleftrightarrow> x \<noteq> Float_NaN \<and> y \<noteq> Float_NaN \<and> \<not> float_less x y \<and> \<not> float_less y x"

lemma float_eq_refl [simp]: "float_eq x x \<longleftrightarrow> x \<noteq> Float_NaN"
  by (cases x) (auto simp: float_eq_def)

definition float_IsInf :: "float64 \<Rightarrow> bool" where
  "float_IsInf x = (case x of Float_Inf _ \<Rightarrow> True | _ \<Rightarrow> False)"

definition float_of_int :: "int \<Rightarrow> float64" where
  "float_of_int i = Float i 0"

subsection \<open>Early returns\<close>

text \<open>
  The shape of most operations: a check that may return early, a lookup that may fail, a call
  whose error is passed on; each leaves the state as it is when it returns.
\<close>

definition fails :: "bool \<Rightarrow> 'e \<Rightarrow> 'e option" where
  "fails b e = (if b then Some e else None)"

fun first_error :: "'e option list \<Rightarrow> 'e option" where
  "first_error [] = None"
| "first_error (Some e # _) = Some e"
| "first_error (None # es) = first_error es"

definition check :: "'e option \<Rightarrow> 's \<Rightarrow> ('e + 'a) \<times> 's \<Rightarrow> ('e + 'a) \<times> 's" where
  "check err s rest = (case err of Some e \<Rightarrow> (Inl e, s) | None \<Rightarrow> rest)"

definition fetch :: "'v option \<Rightarrow> 'e \<Rightarrow> 's \<Rightarrow> ('v \<Rightarrow> ('e + 'a) \<times> 's) \<Rightarrow> ('e + 'a) \<times> 's" where
  "fetch x e s rest = (case x of None \<Rightarrow> (Inl e, s) | Some v \<Rightarrow> rest v)"

definition proceed :: "'e + 'v \<Rightarrow> 's \<Rightarrow> ('v \<Rightarrow> ('e + 'a) \<times> 's) \<Rightarrow> ('e + 'a) \<times> 's" where
  "proceed r s rest = (case r of Inl e \<Rightarrow> (Inl e, s) | Inr v \<Rightarrow> rest v)"

text \<open>The same without a state.\<close>

definition ensure :: "'e option \<Rightarrow> 'e + 'a \<Rightarrow> 'e + 'a" where
  "ensure err rest = (case err of Some e \<Rightarrow> Inl e | None \<Rightarrow> rest)"

definition require :: "'v option \<Rightarrow> 'e \<Rightarrow> ('v \<Rightarrow> 'e + 'a) \<Rightarrow> 'e + 'a" where
  "require x e rest = (case x of None \<Rightarrow> Inl e | Some v \<Rightarrow> rest v)"

definition andthen :: "'e + 'v \<Rightarrow> ('v \<Rightarrow> 'e + 'a) \<Rightarrow> 'e + 'a" where
  "andthen r rest = (case r of Inl e \<Rightarrow> Inl e | Inr v \<Rightarrow> rest v)"

text \<open>The error of a call whose value is not used.\<close>

definition error_of :: "'e + 'a \<Rightarrow> 'e option" where
  "error_of r = (case r of Inl e \<Rightarrow> Some e | Inr _ \<Rightarrow> None)"

lemma error_of_simps [simp]: "error_of (Inl e) = Some e" "error_of (Inr a) = None"
  by (simp_all add: error_of_def)

lemma error_of_None: "error_of r = None \<longleftrightarrow> (\<exists>a. r = Inr a)"
  by (cases r) simp_all

text \<open>An error that is replaced on its way to the caller.\<close>

definition map_error :: "('e \<Rightarrow> 'f) \<Rightarrow> 'e + 'a \<Rightarrow> 'f + 'a" where
  "map_error f x = (case x of Inl e \<Rightarrow> Inl (f e) | Inr a \<Rightarrow> Inr a)"

lemma map_error_Inr [simp]: "map_error f x = Inr a \<longleftrightarrow> x = Inr a"
  by (cases x) (simp_all add: map_error_def)

lemma map_error_value [simp]: "map_error f (Inl e) = Inl (f e)" "map_error f (Inr a) = Inr a"
  by (simp_all add: map_error_def)

lemma fails_eq [simp]:
  "fails b e = None \<longleftrightarrow> \<not> b" "fails b e = Some e' \<longleftrightarrow> b \<and> e' = e"
  by (auto simp: fails_def)

lemma fails_simps [simp]: "fails True e = Some e" "fails False e = None"
  by (simp_all add: fails_def)

lemma first_error_Cons [simp]: "first_error (e # es) = None \<longleftrightarrow> e = None \<and> first_error es = None"
  by (cases e) simp_all

lemma first_error_Some: "first_error es = Some e \<Longrightarrow> Some e \<in> set es"
  by (induction es rule: first_error.induct) auto

lemma check_simps [simp]:
  "check None s rest = rest" "check (Some e) s rest = (Inl e, s)"
  by (simp_all add: check_def)

lemma fetch_simps [simp]:
  "fetch None e s rest' = (Inl e, s)" "fetch (Some v) e s rest' = rest' v"
  by (simp_all add: fetch_def)

lemma proceed_simps [simp]:
  "proceed (Inl e) s rest' = (Inl e, s)" "proceed (Inr v) s rest' = rest' v"
  by (simp_all add: proceed_def)

lemma ensure_simps [simp]: "ensure None r = r" "ensure (Some e) r = Inl e"
  by (simp_all add: ensure_def)

lemma require_simps [simp]: "require None e k = Inl e" "require (Some v) e k = k v"
  by (simp_all add: require_def)

lemma andthen_simps [simp]: "andthen (Inl e) k = Inl e" "andthen (Inr v) k = k v"
  by (simp_all add: andthen_def)

text \<open>What a success says.\<close>

lemma check_Inr [simp]:
  "check err s rest = (Inr a, s') \<longleftrightarrow> err = None \<and> rest = (Inr a, s')"
  by (cases err) simp_all

lemma fetch_Inr [simp]:
  "fetch x e s rest' = (Inr a, s') \<longleftrightarrow> (\<exists>v. x = Some v \<and> rest' v = (Inr a, s'))"
  by (cases x) simp_all

lemma proceed_Inr [simp]:
  "proceed r s rest' = (Inr a, s') \<longleftrightarrow> (\<exists>v. r = Inr v \<and> rest' v = (Inr a, s'))"
  by (cases r) simp_all

lemma ensure_Inr [simp]: "ensure err r = Inr a \<longleftrightarrow> err = None \<and> r = Inr a"
  by (cases err) simp_all

lemma require_Inr [simp]: "require x e k = Inr a \<longleftrightarrow> (\<exists>v. x = Some v \<and> k v = Inr a)"
  by (cases x) simp_all

lemma andthen_Inr [simp]: "andthen r k = Inr a \<longleftrightarrow> (\<exists>v. r = Inr v \<and> k v = Inr a)"
  by (cases r) simp_all

text \<open>An operation that returns an error leaves the state as it was.\<close>

definition keeps :: "'s \<Rightarrow> ('e + 'a) \<times> 's \<Rightarrow> bool" where
  "keeps s m \<longleftrightarrow> (case m of (Inl e, s') \<Rightarrow> s' = s | (Inr a, s') \<Rightarrow> True)"

lemma keepsD: "keeps s m \<Longrightarrow> m = (Inl e, s') \<Longrightarrow> s' = s"
  by (simp add: keeps_def)

lemma keeps_refused:
  assumes "keeps s m" and "\<And>a s'. m \<noteq> (Inr a, s')"
  shows "\<exists>e. m = (Inl e, s)"
  using assms by (cases m; cases "fst m") (auto simp: keeps_def)

lemma keeps_intros [wf_intros]:
  "keeps s (Inl e, s)" "keeps s (Inr a, s')"
  "keeps s rest \<Longrightarrow> keeps s (check err s rest)"
  "(\<And>v. keeps s (rest' v)) \<Longrightarrow> keeps s (fetch x e s rest')"
  "(\<And>v. keeps s (rest' v)) \<Longrightarrow> keeps s (proceed r s rest')"
  "keeps s m \<Longrightarrow> keeps s n \<Longrightarrow> keeps s (if b then m else n)"
  by (auto simp: keeps_def check_def fetch_def proceed_def split: option.splits sum.splits)

end
