(* ===== verification/Contracts.thy ===== *)
theory Contracts
  imports Prelude
begin

text \<open>
  The contracts that several components share, each as a locale whose laws the component
  discharges by an interpretation on its own definitions.

  \<^item> \<open>evolving\<close>: a state that evolves by steps, with what only grows along them.
  \<^item> \<open>versioned\<close>: optimistic locking. An update names the version it was computed from; it is
    applied only on that version and advances it, so of two updates computed from one
    version at most one is applied, whatever happens in between.
  \<^item> \<open>fenced\<close>: lease fencing. A claim hands out a token larger than every earlier one and a
    commit is accepted only under the current token, so a holder whose lease was taken over
    never commits again.
\<close>

subsection \<open>Quantities that only grow\<close>

locale evolving =
  fixes step :: "'s \<Rightarrow> 's \<Rightarrow> bool"
    and level :: "'s \<Rightarrow> 'k \<Rightarrow> int"
  assumes level_mono: "step s s' \<Longrightarrow> level s k \<le> level s' k"
begin

lemma level_mono_star: "step\<^sup>*\<^sup>* s s' \<Longrightarrow> level s k \<le> level s' k"
proof (induction rule: rtranclp_induct)
  case base
  show ?case by simp
next
  case (step y z)
  then show ?case using level_mono [of y z k] by linarith
qed

end

subsection \<open>Optimistic locking\<close>

locale versioned = evolving step version
  for step :: "'s \<Rightarrow> 's \<Rightarrow> bool" and version :: "'s \<Rightarrow> 'k \<Rightarrow> int" +
  fixes applied :: "'s \<Rightarrow> 'k \<Rightarrow> int \<Rightarrow> 's \<Rightarrow> bool"
  assumes applied_step: "applied s k v s' \<Longrightarrow> step s s'"
    and applied_current: "applied s k v s' \<Longrightarrow> version s k = v"
    and applied_advances: "applied s k v s' \<Longrightarrow> version s' k = v + 1"
begin

text \<open>No lost update: the loser of a race on one version is refused, also later.\<close>

lemma no_lost_update:
  assumes "applied s k v s1" and "step\<^sup>*\<^sup>* s1 s2"
  shows "\<not> applied s2 k v s3"
proof
  assume "applied s2 k v s3"
  then have "version s2 k = v" by (rule applied_current)
  moreover have "version s1 k = v + 1" using assms(1) by (rule applied_advances)
  ultimately show False using level_mono_star [OF assms(2), of k] by linarith
qed

lemma stale_update_refused:
  assumes "v < version s k" and "step\<^sup>*\<^sup>* s s'"
  shows "\<not> applied s' k v s''"
  using applied_current [of s' k v s''] level_mono_star [OF assms(2), of k] assms(1) by auto

end

subsection \<open>Lease fencing\<close>

locale fenced = evolving step fence
  for step :: "'s \<Rightarrow> 's \<Rightarrow> bool" and fence :: "'s \<Rightarrow> 'k \<Rightarrow> int" +
  fixes claimed :: "'s \<Rightarrow> 'k \<Rightarrow> int \<Rightarrow> 's \<Rightarrow> bool"
    and committed :: "'s \<Rightarrow> 'k \<Rightarrow> int \<Rightarrow> 's \<Rightarrow> bool"
  assumes claimed_step: "claimed s k f s' \<Longrightarrow> step s s'"
    and claimed_fresh: "claimed s k f s' \<Longrightarrow> fence s k < f"
    and claimed_current: "claimed s k f s' \<Longrightarrow> fence s' k = f"
    and committed_current: "committed s k f s' \<Longrightarrow> fence s k = f"
begin

text \<open>Tokens of one record are handed out in increasing order.\<close>

lemma tokens_increase:
  assumes "claimed s k f s1" and "step\<^sup>*\<^sup>* s1 s2" and "claimed s2 k f' s3"
  shows "f < f'"
  using claimed_current [OF assms(1)] level_mono_star [OF assms(2), of k]
    claimed_fresh [OF assms(3)]
  by linarith

text \<open>After a takeover the previous holder never commits.\<close>

lemma stale_holder_never_commits:
  assumes "claimed s k f s1" and "step\<^sup>*\<^sup>* s1 s2" and "claimed s2 k f' s3" and "step\<^sup>*\<^sup>* s3 s4"
  shows "\<not> committed s4 k f s5"
proof
  assume "committed s4 k f s5"
  then have "fence s4 k = f" by (rule committed_current)
  moreover have "f < f'" by (rule tokens_increase [OF assms(1-3)])
  moreover have "fence s3 k = f'" using assms(3) by (rule claimed_current)
  ultimately show False using level_mono_star [OF assms(4), of k] by linarith
qed

end

end
