(* ===== verification/Go_Text.thy ===== *)
theory Go_Text
  imports Prelude
begin

text \<open>
  The parts of Go's \<^verbatim>\<open>strings\<close>, \<^verbatim>\<open>strconv\<close>, \<^verbatim>\<open>unicode\<close> and \<^verbatim>\<open>utf8\<close> that the platform's
  validators use. A string is cut into chunks, one per iteration of a \<^verbatim>\<open>range\<close> loop: the rune
  that the loop sees (\<open>rune_error\<close> for an invalid byte) and the bytes it covers. Trimming and
  rune counting work on the chunks. UTF-8 is self-synchronising, so trimming the last chunks
  is what the backwards decoder of \<^verbatim>\<open>strings.TrimSpace\<close> does.
\<close>

abbreviation byte :: "char \<Rightarrow> nat" where
  "byte \<equiv> of_char"

definition rune_error :: nat where
  "rune_error = 0xFFFD"

definition cont :: "nat \<Rightarrow> nat \<Rightarrow> char \<Rightarrow> bool" where
  "cont lo hi c \<longleftrightarrow> lo \<le> byte c \<and> byte c \<le> hi"

definition tail6 :: "char \<Rightarrow> nat" where
  "tail6 c = byte c - 0x80"

text \<open>
  \<^verbatim>\<open>utf8.DecodeRuneInString\<close>: the rune and its width in bytes. The three helpers decode a
  sequence of two, three and four bytes from its first byte and the bytes that follow.
\<close>

abbreviation invalid_rune :: "nat \<times> nat" where
  "invalid_rune \<equiv> (rune_error, 1)"

fun decode2 :: "nat \<Rightarrow> string \<Rightarrow> nat \<times> nat" where
  "decode2 b (c1 # cs) =
     (if cont 0x80 0xBF c1 then ((b - 0xC0) * 64 + tail6 c1, 2) else invalid_rune)"
| "decode2 b [] = invalid_rune"

fun decode3 :: "nat \<Rightarrow> string \<Rightarrow> nat \<times> nat" where
  "decode3 b (c1 # c2 # cs) =
     (if cont (if b = 0xE0 then 0xA0 else 0x80) (if b = 0xED then 0x9F else 0xBF) c1
         \<and> cont 0x80 0xBF c2
      then ((b - 0xE0) * 4096 + tail6 c1 * 64 + tail6 c2, 3)
      else invalid_rune)"
| "decode3 b _ = invalid_rune"

fun decode4 :: "nat \<Rightarrow> string \<Rightarrow> nat \<times> nat" where
  "decode4 b (c1 # c2 # c3 # cs) =
     (if cont (if b = 0xF0 then 0x90 else 0x80) (if b = 0xF4 then 0x8F else 0xBF) c1
         \<and> cont 0x80 0xBF c2 \<and> cont 0x80 0xBF c3
      then ((b - 0xF0) * 262144 + tail6 c1 * 4096 + tail6 c2 * 64 + tail6 c3, 4)
      else invalid_rune)"
| "decode4 b _ = invalid_rune"

definition decode_first :: "nat \<Rightarrow> string \<Rightarrow> nat \<times> nat" where
  "decode_first b cs =
     (if b < 0x80 then (b, 1)
      else if b < 0xC2 then invalid_rune
      else if b < 0xE0 then decode2 b cs
      else if b < 0xF0 then decode3 b cs
      else if b < 0xF5 then decode4 b cs
      else invalid_rune)"

fun decode_rune :: "string \<Rightarrow> nat \<times> nat" where
  "decode_rune [] = (rune_error, 0)"
| "decode_rune (c # cs) = decode_first (byte c) cs"

lemma decode_width:
  "1 \<le> snd (decode2 b cs) \<and> snd (decode2 b cs) \<le> Suc (length cs)"
  "1 \<le> snd (decode3 b cs) \<and> snd (decode3 b cs) \<le> Suc (length cs)"
  "1 \<le> snd (decode4 b cs) \<and> snd (decode4 b cs) \<le> Suc (length cs)"
proof -
  show "1 \<le> snd (decode2 b cs) \<and> snd (decode2 b cs) \<le> Suc (length cs)"
    by (cases "(b, cs)" rule: decode2.cases) simp_all
  show "1 \<le> snd (decode3 b cs) \<and> snd (decode3 b cs) \<le> Suc (length cs)"
    by (cases "(b, cs)" rule: decode3.cases) simp_all
  show "1 \<le> snd (decode4 b cs) \<and> snd (decode4 b cs) \<le> Suc (length cs)"
    by (cases "(b, cs)" rule: decode4.cases) simp_all
qed

lemma decode_rune_width:
  "s \<noteq> [] \<Longrightarrow> 1 \<le> snd (decode_rune s) \<and> snd (decode_rune s) \<le> length s"
  using decode_width by (cases s) (simp_all add: decode_first_def)

function chunks :: "string \<Rightarrow> (nat \<times> string) list" where
  "chunks s =
    (if s = [] then []
     else (fst (decode_rune s), take (snd (decode_rune s)) s)
          # chunks (drop (snd (decode_rune s)) s))"
  by pat_completeness auto
termination
proof (relation "measure length", simp)
  fix s :: string
  assume "s \<noteq> []"
  then show "(drop (snd (decode_rune s)) s, s) \<in> measure length"
    using decode_rune_width [of s] by simp
qed

declare chunks.simps [simp del]

lemma chunks_Nil [simp]: "chunks [] = []"
  by (simp add: chunks.simps)

lemma chunks_ne:
  "s \<noteq> [] \<Longrightarrow> chunks s =
     (fst (decode_rune s), take (snd (decode_rune s)) s) # chunks (drop (snd (decode_rune s)) s)"
  by (subst chunks.simps) simp

definition rune_count :: "string \<Rightarrow> nat" where
  "rune_count s = length (chunks s)"

definition runes :: "string \<Rightarrow> nat list" where
  "runes s = map fst (chunks s)"

definition unchunk :: "(nat \<times> string) list \<Rightarrow> string" where
  "unchunk cs = concat (map snd cs)"

lemma unchunk_simps [simp]:
  "unchunk [] = []" "unchunk ((r, s) # cs) = s @ unchunk cs"
  "unchunk (cs @ ds) = unchunk cs @ unchunk ds"
  by (simp_all add: unchunk_def)

lemma unchunk_chunks [simp]: "unchunk (chunks s) = s"
proof (induction s rule: chunks.induct)
  case (1 s)
  then show ?case by (cases "s = []") (simp_all add: chunks_ne)
qed

text \<open>\<^verbatim>\<open>unicode.IsSpace\<close>: the White_Space property.\<close>

definition is_space :: "nat \<Rightarrow> bool" where
  "is_space r \<longleftrightarrow> (9 \<le> r \<and> r \<le> 13) \<or> r = 32 \<or> r = 0x85 \<or> r = 0xA0 \<or> r = 0x1680
     \<or> (0x2000 \<le> r \<and> r \<le> 0x200A) \<or> r = 0x2028 \<or> r = 0x2029 \<or> r = 0x202F \<or> r = 0x205F
     \<or> r = 0x3000"

definition trim_chunks :: "(nat \<times> string) list \<Rightarrow> (nat \<times> string) list" where
  "trim_chunks cs =
     rev (dropWhile (is_space \<circ> fst) (rev (dropWhile (is_space \<circ> fst) cs)))"

definition trim_space :: "string \<Rightarrow> string" where
  "trim_space s = unchunk (trim_chunks (chunks s))"

subsection \<open>Trimming is idempotent\<close>

text \<open>Decoding a prefix that ends at a chunk boundary gives the same chunk.\<close>

lemma decode_prefix:
  "snd (decode2 b (cs @ ys)) \<le> Suc (length cs) \<Longrightarrow> decode2 b (cs @ ys) = decode2 b cs"
  "snd (decode3 b (cs @ ys)) \<le> Suc (length cs) \<Longrightarrow> decode3 b (cs @ ys) = decode3 b cs"
  "snd (decode4 b (cs @ ys)) \<le> Suc (length cs) \<Longrightarrow> decode4 b (cs @ ys) = decode4 b cs"
proof -
  show "snd (decode2 b (cs @ ys)) \<le> Suc (length cs) \<Longrightarrow> decode2 b (cs @ ys) = decode2 b cs"
    by (cases "(b, cs)" rule: decode2.cases; cases "(b, cs @ ys)" rule: decode2.cases)
      (simp_all split: if_splits)
  show "snd (decode3 b (cs @ ys)) \<le> Suc (length cs) \<Longrightarrow> decode3 b (cs @ ys) = decode3 b cs"
    by (cases "(b, cs)" rule: decode3.cases; cases "(b, cs @ ys)" rule: decode3.cases)
      (simp_all split: if_split_asm)
  show "snd (decode4 b (cs @ ys)) \<le> Suc (length cs) \<Longrightarrow> decode4 b (cs @ ys) = decode4 b cs"
    by (cases "(b, cs)" rule: decode4.cases; cases "(b, cs @ ys)" rule: decode4.cases)
      (simp_all split: if_split_asm)
qed

lemma decode_rune_prefix:
  "xs \<noteq> [] \<Longrightarrow> snd (decode_rune (xs @ ys)) \<le> length xs \<Longrightarrow> decode_rune xs = decode_rune (xs @ ys)"
  by (cases xs)
    (auto simp: decode_first_def split: if_splits intro: decode_prefix [symmetric])

lemma chunks_prefix:
  "chunks s = cs @ ds \<Longrightarrow> chunks (unchunk cs) = cs"
proof (induction cs arbitrary: s)
  case Nil
  then show ?case by simp
next
  case (Cons c cs)
  from Cons.prems have "s \<noteq> []" by auto
  let ?w = "snd (decode_rune s)"
  from Cons.prems \<open>s \<noteq> []\<close> have c: "c = (fst (decode_rune s), take ?w s)"
    and rest: "chunks (drop ?w s) = cs @ ds"
    by (simp_all add: chunks_ne)
  have ih: "chunks (unchunk cs) = cs" by (rule Cons.IH [OF rest])
  let ?xs = "take ?w s @ unchunk cs"
  have w: "1 \<le> ?w" "?w \<le> length s" using decode_rune_width [OF \<open>s \<noteq> []\<close>] by auto
  have s: "s = ?xs @ unchunk ds"
  proof -
    have "s = take ?w s @ unchunk (chunks (drop ?w s))" by simp
    also have "\<dots> = ?xs @ unchunk ds" by (simp only: rest unchunk_simps append_assoc)
    finally show ?thesis .
  qed
  have ne: "?xs \<noteq> []" using w \<open>s \<noteq> []\<close> by auto
  have "decode_rune ?xs = decode_rune (?xs @ unchunk ds)"
    by (rule decode_rune_prefix) (use w s ne in auto)
  then have dec: "decode_rune ?xs = decode_rune s" using s by simp
  have "chunks ?xs = (fst (decode_rune s), take ?w ?xs) # chunks (drop ?w ?xs)"
    using chunks_ne [OF ne] dec by simp
  also have "\<dots> = c # cs" using w ih c by simp
  finally show ?case using c by simp
qed

lemma chunks_suffix:
  "chunks s = cs @ ds \<Longrightarrow> chunks (unchunk ds) = ds"
proof (induction cs arbitrary: s)
  case Nil
  then have "unchunk ds = s" using unchunk_chunks [of s] by simp
  with Nil show ?case by simp
next
  case (Cons c cs)
  then have "s \<noteq> []" by auto
  with Cons.prems have "chunks (drop (snd (decode_rune s)) s) = cs @ ds"
    by (simp add: chunks_ne)
  then show ?case by (rule Cons.IH)
qed

lemma trim_chunks_decomp: "\<exists>ps qs. cs = ps @ trim_chunks cs @ qs"
proof -
  let ?d = "dropWhile (is_space \<circ> fst) cs"
  have "?d = rev (dropWhile (is_space \<circ> fst) (rev ?d)) @ rev (takeWhile (is_space \<circ> fst) (rev ?d))"
    by (metis rev_append rev_rev_ident takeWhile_dropWhile_id)
  moreover have "cs = takeWhile (is_space \<circ> fst) cs @ ?d" by simp
  ultimately show ?thesis unfolding trim_chunks_def by metis
qed

lemma chunks_trim_space: "chunks (trim_space s) = trim_chunks (chunks s)"
proof -
  obtain ps qs where d: "chunks s = ps @ trim_chunks (chunks s) @ qs"
    using trim_chunks_decomp by blast
  have "chunks (unchunk (trim_chunks (chunks s) @ qs)) = trim_chunks (chunks s) @ qs"
    using chunks_suffix [OF d] .
  then show ?thesis unfolding trim_space_def by (rule chunks_prefix)
qed

lemma dropWhile_rev_dropWhile:
  assumes "dropWhile P xs = xs"
  shows "dropWhile P (rev (dropWhile P (rev xs))) = rev (dropWhile P (rev xs))"
proof (cases "rev (dropWhile P (rev xs))")
  case Nil
  then show ?thesis by (simp only: dropWhile.simps)
next
  case (Cons y ys)
  obtain zs where zs: "xs = rev (dropWhile P (rev xs)) @ zs"
    by (metis rev_append rev_rev_ident takeWhile_dropWhile_id)
  then have "hd xs = y" "xs \<noteq> []" using Cons by (metis append_Cons list.sel(1), auto)
  then have "\<not> P y" using assms by (metis hd_dropWhile)
  then show ?thesis using Cons by simp
qed

lemma trim_chunks_idem [simp]: "trim_chunks (trim_chunks cs) = trim_chunks cs"
  unfolding trim_chunks_def by (simp add: dropWhile_rev_dropWhile)

lemma trim_space_idem [simp]: "trim_space (trim_space s) = trim_space s"
  by (simp add: trim_space_def [of "trim_space s"] chunks_trim_space)
     (simp add: trim_space_def)

lemma unchunk_eq_Nil: "chunks s = cs @ ds \<Longrightarrow> unchunk cs = [] \<longleftrightarrow> cs = []"
  using chunks_prefix by fastforce

lemma trim_chunks_eq_Nil: "trim_chunks cs = [] \<longleftrightarrow> (\<forall>c \<in> set cs. is_space (fst c))"
proof (cases "dropWhile (is_space \<circ> fst) cs")
  case Nil
  then show ?thesis
    by (auto simp: trim_chunks_def dropWhile_eq_Nil_conv dest: set_dropWhileD)
next
  case (Cons d ds)
  then have "\<not> is_space (fst d)" using hd_dropWhile [of "is_space \<circ> fst" cs] by simp
  moreover have "d \<in> set cs" using Cons set_dropWhileD [of d "is_space \<circ> fst" cs] by simp
  ultimately show ?thesis
    by (auto simp: trim_chunks_def Cons dropWhile_eq_Nil_conv)
qed

lemma trim_space_empty_iff: "trim_space s = [] \<longleftrightarrow> list_all is_space (runes s)"
proof -
  have "trim_space s = [] \<longleftrightarrow> trim_chunks (chunks s) = []"
    using chunks_trim_space [of s] by (auto simp: trim_space_def)
  then show ?thesis by (simp add: trim_chunks_eq_Nil runes_def list_all_iff)
qed

lemma rune_count_trim_space: "rune_count (trim_space s) \<le> rune_count s"
proof -
  obtain ps qs where "chunks s = ps @ trim_chunks (chunks s) @ qs"
    using trim_chunks_decomp by blast
  then have "length (chunks s) = length ps + length (trim_chunks (chunks s)) + length qs"
    by (metis add.assoc length_append)
  then show ?thesis by (simp add: rune_count_def chunks_trim_space)
qed

lemma rune_count_pos: "0 < rune_count s \<longleftrightarrow> s \<noteq> []"
  by (cases "s = []") (simp_all add: rune_count_def chunks_ne)

text \<open>\<^verbatim>\<open>unicode.IsControl\<close>: the category Cc.\<close>

definition is_control :: "nat \<Rightarrow> bool" where
  "is_control r \<longleftrightarrow> r < 0x20 \<or> (0x7F \<le> r \<and> r < 0xA0)"

subsection \<open>ASCII strings\<close>

definition ascii :: "string \<Rightarrow> bool" where
  "ascii s \<longleftrightarrow> list_all (\<lambda>c. byte c < 0x80) s"

lemma ascii_simps [simp]:
  "ascii []" "ascii (c # s) \<longleftrightarrow> byte c < 0x80 \<and> ascii s"
  by (simp_all add: ascii_def)

lemma chunks_ascii: "ascii s \<Longrightarrow> chunks s = map (\<lambda>c. (byte c, [c])) s"
  by (induction s) (simp_all add: chunks_ne decode_first_def)

lemma rune_count_ascii: "ascii s \<Longrightarrow> rune_count s = length s"
  by (simp add: rune_count_def chunks_ascii)

lemma trim_space_visible:
  assumes "ascii s" and "\<And>c. c \<in> set s \<Longrightarrow> \<not> is_space (byte c)"
  shows "trim_space s = s"
proof -
  have id: "dropWhile (is_space \<circ> fst) cs = cs"
    if "\<forall>c \<in> set cs. \<not> is_space (fst c)" for cs :: "(nat \<times> string) list"
    using that by (cases cs) auto
  have "trim_chunks (chunks s) = chunks s"
    unfolding trim_chunks_def using assms by (simp add: id chunks_ascii)
  then show ?thesis by (simp add: trim_space_def)
qed

text \<open>Printable ASCII without spaces, for which trimming and counting are the identity and the length.\<close>

definition visible :: "string \<Rightarrow> bool" where
  "visible s \<longleftrightarrow> list_all (\<lambda>c. 0x20 < byte c \<and> byte c < 0x7F) s"

lemma visible_trim:
  assumes "visible s"
  shows "trim_space s = s" "rune_count s = length s"
proof -
  have "ascii s" using assms by (auto simp: ascii_def visible_def list_all_iff)
  moreover have "\<not> is_space (byte c)" if "c \<in> set s" for c
    using assms that by (auto simp: visible_def is_space_def list_all_iff)
  ultimately show "trim_space s = s" "rune_count s = length s"
    by (simp_all add: trim_space_visible rune_count_ascii)
qed

text \<open>The bytes after the first one of a code point lie outside ASCII.\<close>

lemma decode_wide:
  "c \<in> set (take (snd (decode2 b cs) - 1) cs) \<Longrightarrow> 0x80 \<le> byte c"
  "c \<in> set (take (snd (decode3 b cs) - 1) cs) \<Longrightarrow> 0x80 \<le> byte c"
  "c \<in> set (take (snd (decode4 b cs) - 1) cs) \<Longrightarrow> 0x80 \<le> byte c"
proof -
  show "0x80 \<le> byte c" if "c \<in> set (take (snd (decode2 b cs) - 1) cs)"
    using that by (cases "(b, cs)" rule: decode2.cases) (auto simp: cont_def split: if_splits)
  show "0x80 \<le> byte c" if "c \<in> set (take (snd (decode3 b cs) - 1) cs)"
    using that by (cases "(b, cs)" rule: decode3.cases) (auto simp: cont_def split: if_splits)
  show "0x80 \<le> byte c" if "c \<in> set (take (snd (decode4 b cs) - 1) cs)"
    using that by (cases "(b, cs)" rule: decode4.cases) (auto simp: cont_def split: if_splits)
qed

lemma decode_ascii_byte:
  assumes "c \<in> set (take (snd (decode_rune s)) s)" and "byte c < 0x80"
  shows "fst (decode_rune s) = byte c"
proof (cases s)
  case Nil
  with assms show ?thesis by simp
next
  case (Cons d ds)
  show ?thesis
  proof (cases "byte d < 0x80")
    case True
    with Cons assms show ?thesis by (simp add: decode_first_def)
  next
    case False
    then have "c \<noteq> d" using assms(2) by auto
    moreover have "0 < snd (decode_rune s)" using decode_rune_width [of s] Cons by simp
    ultimately have "c \<in> set (take (snd (decode_rune s) - 1) ds)"
      using assms(1) Cons by (cases "snd (decode_rune s)") auto
    with False have "0x80 \<le> byte c"
      using decode_wide Cons by (auto simp: decode_first_def split: if_splits)
    with assms(2) show ?thesis by simp
  qed
qed

lemma ascii_byte_rune: "c \<in> set s \<Longrightarrow> byte c < 0x80 \<Longrightarrow> byte c \<in> set (runes s)"
proof (induction s rule: chunks.induct)
  case (1 s)
  let ?w = "snd (decode_rune s)"
  have ne: "s \<noteq> []" using 1(2) by auto
  consider "c \<in> set (take ?w s)" | "c \<in> set (drop ?w s)"
    using 1(2) by (metis UnE append_take_drop_id set_append)
  then show ?case
  proof cases
    case 1
    from decode_ascii_byte [OF this \<open>byte c < 0x80\<close>] show ?thesis by (simp add: runes_def chunks_ne [OF ne])
  next
    case 2
    from 1(1) [OF ne 2 \<open>byte c < 0x80\<close>] show ?thesis by (simp add: runes_def chunks_ne [OF ne])
  qed
qed

subsection \<open>Lower case\<close>

text \<open>
  \<^verbatim>\<open>strings.ToLower\<close>. The two code points outside ASCII whose lower case is an ASCII letter
  (the dotted capital I and the Kelvin sign) are mapped as Unicode maps them; every other
  code point outside ASCII has a lower case outside ASCII and is kept here, which is exact
  for the callers: they refuse every byte outside ASCII in the result, or only look for ASCII
  words in it.
\<close>

definition lower_rune :: "nat \<Rightarrow> nat" where
  "lower_rune r = (if 65 \<le> r \<and> r \<le> 90 then r + 32
     else if r = 0x130 then 0x69 else if r = 0x212A then 0x6B else r)"

definition encode_rune :: "nat \<Rightarrow> string" where
  "encode_rune r =
     (if r < 0x80 then [char_of r]
      else if r < 0x800 then [char_of (0xC0 + r div 64), char_of (0x80 + r mod 64)]
      else if r < 0x10000 then
        [char_of (0xE0 + r div 4096), char_of (0x80 + r div 64 mod 64), char_of (0x80 + r mod 64)]
      else
        [char_of (0xF0 + r div 262144), char_of (0x80 + r div 4096 mod 64),
         char_of (0x80 + r div 64 mod 64), char_of (0x80 + r mod 64)])"

definition to_lower :: "string \<Rightarrow> string" where
  "to_lower s = concat (map (encode_rune \<circ> lower_rune) (runes s))"

lemma to_lower_id:
  assumes "ascii s" and "\<And>c. c \<in> set s \<Longrightarrow> \<not> (65 \<le> byte c \<and> byte c \<le> 90)"
  shows "to_lower s = s"
  using assms
proof (induction s)
  case Nil
  then show ?case by (simp add: to_lower_def runes_def)
next
  case (Cons c s)
  then have "\<not> (65 \<le> byte c \<and> byte c \<le> 90)" "byte c < 0x80" by simp_all
  then have "encode_rune (lower_rune (byte c)) = [c]"
    by (auto simp: encode_rune_def lower_rune_def)
  with Cons show ?case by (simp add: to_lower_def runes_def chunks_ascii)
qed

subsection \<open>Decimal numerals\<close>

definition digit :: "nat \<Rightarrow> char" where
  "digit n = char_of (48 + n)"

function decimal :: "nat \<Rightarrow> string" where
  "decimal n = (if n < 10 then [digit n] else decimal (n div 10) @ [digit (n mod 10)])"
  by pat_completeness auto
termination by (relation "measure id") auto

declare decimal.simps [simp del]

text \<open>\<^verbatim>\<open>strconv.Itoa\<close>.\<close>

definition itoa :: "int \<Rightarrow> string" where
  "itoa i = (if i < 0 then CHR ''-'' # decimal (nat (- i)) else decimal (nat i))"

definition is_digit :: "char \<Rightarrow> bool" where
  "is_digit c \<longleftrightarrow> 48 \<le> byte c \<and> byte c \<le> 57"

fun undecimal :: "nat \<Rightarrow> string \<Rightarrow> nat" where
  "undecimal acc [] = acc"
| "undecimal acc (c # cs) = undecimal (acc * 10 + (byte c - 48)) cs"

lemma byte_digit: "n < 10 \<Longrightarrow> byte (digit n) = 48 + n"
  by (simp add: digit_def)

lemma decimal_digits: "list_all is_digit (decimal n)"
proof (induction n rule: decimal.induct)
  case (1 n)
  then show ?case
    by (subst decimal.simps) (auto simp: is_digit_def [of "digit _"] byte_digit)
qed

lemma decimal_ne [simp]: "decimal n \<noteq> []"
  by (subst decimal.simps) simp

lemma undecimal_append: "undecimal acc (xs @ ys) = undecimal (undecimal acc xs) ys"
  by (induction xs arbitrary: acc) simp_all

lemma undecimal_decimal [simp]: "undecimal 0 (decimal n) = n"
proof (induction n rule: decimal.induct)
  case (1 n)
  then show ?case
    by (subst decimal.simps) (simp add: undecimal_append byte_digit)
qed

lemma decimal_inj [simp]: "decimal m = decimal n \<longleftrightarrow> m = n"
  using undecimal_decimal by metis

lemma minus_not_digit: "\<not> is_digit CHR ''-''"
  by (simp add: is_digit_def)

lemma decimal_not_minus: "decimal n \<noteq> CHR ''-'' # s"
  using decimal_digits [of n] minus_not_digit by auto

lemma itoa_inj [simp]: "itoa i = itoa j \<longleftrightarrow> i = j"
  by (auto simp: itoa_def decimal_not_minus decimal_not_minus [symmetric] nat_eq_iff split: if_splits)

end
