(* ===== verification/Exec_Queue.thy ===== *)
theory Exec_Queue
  imports Contracts Go_Text
begin

text \<open>
  The tenant-scoped execution queue of \<^verbatim>\<open>runtime/queue/queue.go\<close>: tasks with a lease, the
  in-memory store that several views share, and its operations. Every operation holds the
  backend's mutex from its first look at the task map to its return, so an execution of
  several workers is a sequence of these operations. Fencing tokens and attempts start at zero,
  grow by one per claim and are counted without a bound.
\<close>

subsection \<open>Data\<close>

datatype queue_error = QErrInvalid | QErrNotFound | QErrConflict | QErrClosed | QErrCtx ctx_error

datatype task_status = StatusQueued | StatusLeased | StatusRetryable | StatusCompleted | StatusFailed

record task =
  task_TenantID :: string
  task_TaskID :: string
  task_Kind :: string
  task_Payload :: string
  task_Status :: task_status
  task_Attempts :: int
  task_FencingToken :: int
  task_LeaseOwner :: string
  task_LeaseExpiresAt :: "instant option"
  task_NextAttemptAt :: instant
  task_LastErrorClass :: string
  task_CreatedAt :: instant
  task_UpdatedAt :: instant

record task_input =
  in_TenantID :: string
  in_TaskID :: string
  in_Kind :: string
  in_Payload :: string

record queue_backend =
  q_tasks :: "(string, task) gomap"
  q_refs :: int
  q_closed :: bool

subsection \<open>Operations\<close>

definition queue_contextErr :: "goctx \<Rightarrow> nat \<Rightarrow> queue_error option" where
  "queue_contextErr c i =
     (case c of None \<Rightarrow> Some QErrInvalid | Some look \<Rightarrow> map_option QErrCtx (look i))"

definition queue_validateInput :: "task_input \<Rightarrow> queue_error option" where
  "queue_validateInput v =
     (if in_TenantID v = [] \<or> in_TaskID v = [] \<or> in_Kind v = [] \<or> length (in_Payload v) = 0
      then Some QErrInvalid else None)"

text \<open>The composite key \<^verbatim>\<open>tenantID + "\x00" + taskID\<close>.\<close>

definition queue_key :: "string \<Rightarrow> string \<Rightarrow> string" where
  "queue_key tenantID taskID = tenantID @ CHR 0x00 # taskID"

definition FormatTaskKey :: "string \<Rightarrow> string \<Rightarrow> string" where
  "FormatTaskKey tenantID taskID = tenantID @ '':'' @ taskID"

definition NewBackend :: queue_backend where
  "NewBackend = \<lparr>q_tasks = [], q_refs = 1, q_closed = False\<rparr>"

definition queue_Enqueue ::
  "goctx \<Rightarrow> task_input \<Rightarrow> instant \<Rightarrow> queue_backend \<Rightarrow> (queue_error + task \<times> bool) \<times> queue_backend" where
  "queue_Enqueue c input now b =
     (case queue_contextErr c 0 of
        Some e \<Rightarrow> (Inl e, b)
      | None \<Rightarrow>
     (case queue_validateInput input of
        Some e \<Rightarrow> (Inl e, b)
      | None \<Rightarrow>
     if q_closed b then (Inl QErrClosed, b)
     else
       (let k = queue_key (in_TenantID input) (in_TaskID input) in
        case get (q_tasks b) k of
          Some existing \<Rightarrow>
            if task_Kind existing \<noteq> in_Kind input \<or> task_Payload existing \<noteq> in_Payload input
            then (Inl QErrConflict, b)
            else (Inr (existing, True), b)
        | None \<Rightarrow>
            (let t = \<lparr>task_TenantID = in_TenantID input, task_TaskID = in_TaskID input,
                      task_Kind = in_Kind input, task_Payload = in_Payload input,
                      task_Status = StatusQueued, task_Attempts = 0, task_FencingToken = 0,
                      task_LeaseOwner = [], task_LeaseExpiresAt = None, task_NextAttemptAt = now,
                      task_LastErrorClass = [], task_CreatedAt = now, task_UpdatedAt = now\<rparr>
             in (Inr (t, False), b\<lparr>q_tasks := put k t (q_tasks b)\<rparr>)))))"

definition queue_Get :: "goctx \<Rightarrow> string \<Rightarrow> string \<Rightarrow> queue_backend \<Rightarrow> queue_error + task" where
  "queue_Get c tenantID taskID b =
     (case queue_contextErr c 0 of
        Some e \<Rightarrow> Inl e
      | None \<Rightarrow>
        if tenantID = [] \<or> taskID = [] then Inl QErrInvalid
        else (case get (q_tasks b) (queue_key tenantID taskID) of
                None \<Rightarrow> Inl QErrNotFound
              | Some t \<Rightarrow> Inr t))"

text \<open>The guard of the loop in \<^verbatim>\<open>Claim\<close>: which tasks a worker may lease now.\<close>

definition claim_eligible :: "string \<Rightarrow> instant \<Rightarrow> task \<Rightarrow> bool" where
  "claim_eligible tenantID now t \<longleftrightarrow>
     \<not> (tenantID \<noteq> [] \<and> task_TenantID t \<noteq> tenantID)
     \<and> (((task_Status t = StatusQueued \<or> task_Status t = StatusRetryable)
          \<and> \<not> task_NextAttemptAt t > now)
        \<or> (task_Status t = StatusLeased
           \<and> (case task_LeaseExpiresAt t of None \<Rightarrow> False | Some e \<Rightarrow> \<not> e > now)))"

definition eligible_keys :: "string \<Rightarrow> instant \<Rightarrow> (string, task) gomap \<Rightarrow> string list" where
  "eligible_keys tenantID now m = map fst (filter (\<lambda>(k, t). claim_eligible tenantID now t) m)"

text \<open>The order of \<^verbatim>\<open>sort.Slice\<close>: creation time, then key.\<close>

definition claim_rank :: "(string, task) gomap \<Rightarrow> string \<Rightarrow> instant \<times> string" where
  "claim_rank m k = (case get m k of None \<Rightarrow> (0, k) | Some t \<Rightarrow> (task_CreatedAt t, k))"

definition claim_lease :: "string \<Rightarrow> duration \<Rightarrow> instant \<Rightarrow> task \<Rightarrow> task" where
  "claim_lease owner leaseDuration now t =
     t\<lparr>task_Status := StatusLeased, task_Attempts := task_Attempts t + 1,
       task_FencingToken := task_FencingToken t + 1, task_LeaseOwner := owner,
       task_LeaseExpiresAt := Some (now + leaseDuration), task_UpdatedAt := now\<rparr>"

definition queue_Claim ::
  "goctx \<Rightarrow> string \<Rightarrow> string \<Rightarrow> duration \<Rightarrow> instant \<Rightarrow> queue_backend
   \<Rightarrow> (queue_error + task) \<times> queue_backend" where
  "queue_Claim c tenantID owner leaseDuration now b =
     (case queue_contextErr c 0 of
        Some e \<Rightarrow> (Inl e, b)
      | None \<Rightarrow>
     if owner = [] \<or> leaseDuration \<le> 0 then (Inl QErrInvalid, b)
     else if q_closed b then (Inl QErrClosed, b)
     else
       (case sort_key (claim_rank (q_tasks b)) (eligible_keys tenantID now (q_tasks b)) of
          [] \<Rightarrow> (Inl QErrNotFound, b)
        | k # _ \<Rightarrow>
           (case get (q_tasks b) k of
              None \<Rightarrow> (Inl QErrNotFound, b)
            | Some t \<Rightarrow>
               (let t' = claim_lease owner leaseDuration now t
                in (Inr t', b\<lparr>q_tasks := put k t' (q_tasks b)\<rparr>)))))"

text \<open>
  \<^verbatim>\<open>transition\<close> reads the clock twice: \<open>now1\<close> when it checks the lease, \<open>now2\<close> for the update
  time.
\<close>

definition transition_allowed :: "string \<Rightarrow> int \<Rightarrow> instant \<Rightarrow> task \<Rightarrow> bool" where
  "transition_allowed owner fence now t \<longleftrightarrow>
     \<not> (task_Status t \<noteq> StatusLeased \<or> task_LeaseOwner t \<noteq> owner \<or> task_FencingToken t \<noteq> fence
        \<or> (case task_LeaseExpiresAt t of None \<Rightarrow> False | Some e \<Rightarrow> \<not> e > now))"

definition transition_task :: "task_status \<Rightarrow> string \<Rightarrow> instant \<Rightarrow> instant \<Rightarrow> task \<Rightarrow> task" where
  "transition_task status cls nxt now t =
     t\<lparr>task_Status := status, task_LastErrorClass := cls, task_UpdatedAt := now,
       task_NextAttemptAt := nxt, task_LeaseOwner := [], task_LeaseExpiresAt := None\<rparr>"

definition queue_transition ::
  "goctx \<Rightarrow> string \<Rightarrow> string \<Rightarrow> string \<Rightarrow> int \<Rightarrow> task_status \<Rightarrow> string \<Rightarrow> instant \<Rightarrow> instant \<Rightarrow> instant
   \<Rightarrow> queue_backend \<Rightarrow> (queue_error + task) \<times> queue_backend" where
  "queue_transition c tenantID taskID owner fence status cls nxt now1 now2 b =
     (case queue_contextErr c 0 of
        Some e \<Rightarrow> (Inl e, b)
      | None \<Rightarrow>
     if tenantID = [] \<or> taskID = [] \<or> owner = [] \<or> fence \<le> 0 then (Inl QErrInvalid, b)
     else
       (case get (q_tasks b) (queue_key tenantID taskID) of
          None \<Rightarrow> (Inl QErrNotFound, b)
        | Some t \<Rightarrow>
            if \<not> transition_allowed owner fence now1 t then (Inl QErrConflict, b)
            else
              (let t' = transition_task status cls nxt now2 t
               in (Inr t', b\<lparr>q_tasks := put (queue_key tenantID taskID) t' (q_tasks b)\<rparr>))))"

definition queue_Complete ::
  "goctx \<Rightarrow> string \<Rightarrow> string \<Rightarrow> string \<Rightarrow> int \<Rightarrow> instant \<Rightarrow> instant
   \<Rightarrow> queue_backend \<Rightarrow> (queue_error + task) \<times> queue_backend" where
  "queue_Complete c tenantID taskID owner fence now1 now2 =
     queue_transition c tenantID taskID owner fence StatusCompleted [] 0 now1 now2"

definition queue_Retry ::
  "goctx \<Rightarrow> string \<Rightarrow> string \<Rightarrow> string \<Rightarrow> int \<Rightarrow> instant \<Rightarrow> string \<Rightarrow> instant \<Rightarrow> instant
   \<Rightarrow> queue_backend \<Rightarrow> (queue_error + task) \<times> queue_backend" where
  "queue_Retry c tenantID taskID owner fence nxt cls now1 now2 =
     queue_transition c tenantID taskID owner fence StatusRetryable cls nxt now1 now2"

definition queue_Fail ::
  "goctx \<Rightarrow> string \<Rightarrow> string \<Rightarrow> string \<Rightarrow> int \<Rightarrow> string \<Rightarrow> instant \<Rightarrow> instant
   \<Rightarrow> queue_backend \<Rightarrow> (queue_error + task) \<times> queue_backend" where
  "queue_Fail c tenantID taskID owner fence cls now1 now2 =
     queue_transition c tenantID taskID owner fence StatusFailed cls 0 now1 now2"

text \<open>
  Views. \<^verbatim>\<open>NewMemoryWithBackend\<close> retains a reference on an open backend; \<^verbatim>\<open>Close\<close> releases
  it once per view (\<^verbatim>\<open>sync.Once\<close>), which the flag of the view records.
\<close>

record queue_view =
  view_released :: bool

definition NewMemory :: "queue_view \<times> queue_backend" where
  "NewMemory = (\<lparr>view_released = False\<rparr>, NewBackend)"

definition NewMemoryWithBackend :: "queue_backend option \<Rightarrow> queue_view \<times> queue_backend" where
  "NewMemoryWithBackend backend =
     (case backend of
        None \<Rightarrow> (\<lparr>view_released = False\<rparr>, NewBackend)
      | Some b \<Rightarrow>
          (\<lparr>view_released = False\<rparr>, if \<not> q_closed b then b\<lparr>q_refs := q_refs b + 1\<rparr> else b))"

definition queue_Close :: "queue_view \<Rightarrow> queue_backend \<Rightarrow> queue_view \<times> queue_backend" where
  "queue_Close v b =
     (if view_released v then (v, b)
      else
        (let refs = (if q_refs b > 0 then q_refs b - 1 else q_refs b)
         in (v\<lparr>view_released := True\<rparr>,
             b\<lparr>q_refs := refs, q_closed := (if refs = 0 then True else q_closed b)\<rparr>)))"

subsection \<open>What a successful operation did\<close>

lemma queue_Enqueue_cases:
  assumes "queue_Enqueue c input now b = (r, b')"
  obtains (refused) e where "r = Inl e" "b' = b"
  | (replayed) t where "r = Inr (t, True)" "b' = b"
      "get (q_tasks b) (queue_key (in_TenantID input) (in_TaskID input)) = Some t"
      "task_Kind t = in_Kind input" "task_Payload t = in_Payload input"
  | (stored) t where "r = Inr (t, False)" "\<not> q_closed b"
      "b' = b\<lparr>q_tasks := put (queue_key (in_TenantID input) (in_TaskID input)) t (q_tasks b)\<rparr>"
      "get (q_tasks b) (queue_key (in_TenantID input) (in_TaskID input)) = None"
      "queue_validateInput input = None"
      "t = \<lparr>task_TenantID = in_TenantID input, task_TaskID = in_TaskID input,
            task_Kind = in_Kind input, task_Payload = in_Payload input,
            task_Status = StatusQueued, task_Attempts = 0, task_FencingToken = 0,
            task_LeaseOwner = [], task_LeaseExpiresAt = None, task_NextAttemptAt = now,
            task_LastErrorClass = [], task_CreatedAt = now, task_UpdatedAt = now\<rparr>"
proof -
  let ?k = "queue_key (in_TenantID input) (in_TaskID input)"
  consider (err) e where "r = Inl e" "b' = b"
    | (go) "queue_contextErr c 0 = None" "queue_validateInput input = None" "\<not> q_closed b"
    using assms by (auto simp: queue_Enqueue_def split: option.splits if_splits)
  then show thesis
  proof cases
    case err
    then show thesis by (rule refused)
  next
    case go
    show thesis
    proof (cases "get (q_tasks b) ?k")
      case None
      with go assms show thesis
        by (intro stored) (auto simp: queue_Enqueue_def Let_def)
    next
      case (Some t)
      with go assms refused replayed show thesis
        by (auto simp: queue_Enqueue_def Let_def split: if_splits)
    qed
  qed
qed

lemma eligible_keysD:
  assumes "k \<in> set (eligible_keys tenantID now m)" and "well_keyed m"
  obtains t where "get m k = Some t" "claim_eligible tenantID now t"
proof -
  from assms(1) obtain t where "(k, t) \<in> set m" "claim_eligible tenantID now t"
    by (auto simp: eligible_keys_def)
  with assms(2) that show thesis by (auto simp: well_keyed_get_iff)
qed

lemma eligible_keysI:
  "get m k = Some t \<Longrightarrow> claim_eligible tenantID now t \<Longrightarrow> k \<in> set (eligible_keys tenantID now m)"
  by (force simp: eligible_keys_def dest: map_of_SomeD)

lemma queue_Claim_cases:
  assumes "queue_Claim c tenantID owner d now b = (r, b')" and "well_keyed (q_tasks b)"
  obtains (refused) e where "r = Inl e" "b' = b"
  | (leased) k t where "r = Inr (claim_lease owner d now t)"
      "b' = b\<lparr>q_tasks := put k (claim_lease owner d now t) (q_tasks b)\<rparr>"
      "get (q_tasks b) k = Some t" "claim_eligible tenantID now t"
      "owner \<noteq> []" "0 < d" "\<not> q_closed b"
      "\<And>k' t'. get (q_tasks b) k' = Some t' \<Longrightarrow> claim_eligible tenantID now t'
         \<Longrightarrow> (task_CreatedAt t, k) \<le> (task_CreatedAt t', k')"
proof -
  let ?m = "q_tasks b"
  let ?ks = "sort_key (claim_rank ?m) (eligible_keys tenantID now ?m)"
  consider (err) e where "r = Inl e" "b' = b"
    | (go) "queue_contextErr c 0 = None" "owner \<noteq> []" "0 < d" "\<not> q_closed b"
    using assms(1) by (force simp: queue_Claim_def split: option.splits if_splits)
  then show thesis
  proof cases
    case err
    then show thesis by (rule refused)
  next
    case go
    show thesis
    proof (cases ?ks)
      case Nil
      with go assms(1) have "r = Inl QErrNotFound" "b' = b" by (simp_all add: queue_Claim_def)
      then show thesis by (rule refused)
    next
      case (Cons k ks)
      then have mem: "k \<in> set (eligible_keys tenantID now ?m)"
        by (metis list.set_intros(1) set_sort)
      then obtain t where t: "get ?m k = Some t" "claim_eligible tenantID now t"
        using assms(2) by (rule eligible_keysD)
      have least: "(task_CreatedAt t, k) \<le> (task_CreatedAt t', k')"
        if "get ?m k' = Some t'" "claim_eligible tenantID now t'" for k' t'
      proof -
        have "k' \<in> set ?ks" using eligible_keysI [OF that] by simp
        moreover have "sorted (map (claim_rank ?m) (k # ks))" using Cons by (metis sorted_sort_key)
        ultimately have "claim_rank ?m k \<le> claim_rank ?m k'" using Cons by auto
        with that t show ?thesis by (simp add: claim_rank_def)
      qed
      have "r = Inr (claim_lease owner d now t)"
        and "b' = b\<lparr>q_tasks := put k (claim_lease owner d now t) ?m\<rparr>"
        using go assms(1) Cons t by (simp_all add: queue_Claim_def Let_def)
      then show thesis using t go least by (intro leased) auto
    qed
  qed
qed

lemma queue_transition_cases:
  assumes "queue_transition c tenantID taskID owner fence status cls nxt now1 now2 b = (r, b')"
  obtains (refused) e where "r = Inl e" "b' = b"
  | (moved) t where "r = Inr (transition_task status cls nxt now2 t)"
      "b' = b\<lparr>q_tasks := put (queue_key tenantID taskID) (transition_task status cls nxt now2 t)
                          (q_tasks b)\<rparr>"
      "get (q_tasks b) (queue_key tenantID taskID) = Some t"
      "transition_allowed owner fence now1 t"
      "tenantID \<noteq> []" "taskID \<noteq> []" "owner \<noteq> []" "0 < fence"
  using assms
  by (force simp: queue_transition_def Let_def split: option.splits if_splits)

subsection \<open>The steps of the store\<close>

inductive queue_step :: "queue_backend \<Rightarrow> queue_backend \<Rightarrow> bool" where
  enqueue: "queue_Enqueue c input now b = (r, b') \<Longrightarrow> queue_step b b'"
| claim: "queue_Claim c tenantID owner d now b = (r', b') \<Longrightarrow> queue_step b b'"
| complete: "queue_Complete c tenantID taskID owner fence now1 now2 b = (r', b') \<Longrightarrow> queue_step b b'"
| retry: "queue_Retry c tenantID taskID owner fence nxt cls now1 now2 b = (r', b') \<Longrightarrow> queue_step b b'"
| fail: "queue_Fail c tenantID taskID owner fence cls now1 now2 b = (r', b') \<Longrightarrow> queue_step b b'"
| attach: "NewMemoryWithBackend (Some b) = (v, b') \<Longrightarrow> queue_step b b'"
| release: "queue_Close v b = (v', b') \<Longrightarrow> queue_step b b'"

text \<open>One task, seen across one step: left alone, created, leased or moved on by its holder.\<close>

inductive task_step :: "task \<Rightarrow> task \<Rightarrow> bool" where
  same: "task_step t t"
| lease: "claim_eligible tenantID now t \<Longrightarrow> owner \<noteq> [] \<Longrightarrow> 0 < d
    \<Longrightarrow> task_step t (claim_lease owner d now t)"
| move: "transition_allowed owner fence now1 t \<Longrightarrow> owner \<noteq> [] \<Longrightarrow> 0 < fence
    \<Longrightarrow> status \<in> {StatusCompleted, StatusRetryable, StatusFailed}
    \<Longrightarrow> task_step t (transition_task status cls nxt now2 t)"

definition fresh_task :: "task \<Rightarrow> bool" where
  "fresh_task t \<longleftrightarrow> task_Status t = StatusQueued \<and> task_Attempts t = 0 \<and> task_FencingToken t = 0
     \<and> task_LeaseOwner t = [] \<and> task_LeaseExpiresAt t = None
     \<and> task_TenantID t \<noteq> [] \<and> task_TaskID t \<noteq> [] \<and> task_Kind t \<noteq> [] \<and> task_Payload t \<noteq> []"

lemma queue_step_cases:
  assumes "queue_step b b'" and "well_keyed (q_tasks b)"
  obtains (same) "q_tasks b' = q_tasks b"
  | (new) t where "q_tasks b' = put (queue_key (task_TenantID t) (task_TaskID t)) t (q_tasks b)"
      "get (q_tasks b) (queue_key (task_TenantID t) (task_TaskID t)) = None" "fresh_task t"
  | (change) k t t' where "q_tasks b' = put k t' (q_tasks b)" "get (q_tasks b) k = Some t"
      "task_step t t'"
  using assms(1)
proof cases
  case (enqueue c input now r)
  then show thesis
  proof (cases rule: queue_Enqueue_cases)
    case (stored t)
    then have "fresh_task t"
      by (auto simp: fresh_task_def queue_validateInput_def split: if_splits)
    with stored show thesis by (intro new [of t]) auto
  qed (use same in auto)
next
  case (claim c tenantID owner d now r)
  from claim assms(2) show thesis
    by (cases rule: queue_Claim_cases) (auto intro: same change task_step.lease)
next
  case (complete c tenantID taskID owner fence now1 now2 r)
  then show thesis unfolding queue_Complete_def
    by (cases rule: queue_transition_cases) (auto intro: same change task_step.move)
next
  case (retry c tenantID taskID owner fence nxt cls now1 now2 r)
  then show thesis unfolding queue_Retry_def
    by (cases rule: queue_transition_cases) (auto intro: same change task_step.move)
next
  case (fail c tenantID taskID owner fence cls now1 now2 r)
  then show thesis unfolding queue_Fail_def
    by (cases rule: queue_transition_cases) (auto intro: same change task_step.move)
next
  case (attach v)
  then show thesis by (intro same) (auto simp: NewMemoryWithBackend_def split: if_splits)
next
  case (release v v')
  then show thesis by (intro same) (auto simp: queue_Close_def Let_def split: if_splits)
qed

subsection \<open>The invariant of the store\<close>

definition task_ok :: "task \<Rightarrow> bool" where
  "task_ok t \<longleftrightarrow>
     task_TenantID t \<noteq> [] \<and> task_TaskID t \<noteq> [] \<and> task_Kind t \<noteq> [] \<and> task_Payload t \<noteq> []
     \<and> task_Attempts t = task_FencingToken t \<and> 0 \<le> task_FencingToken t
     \<and> (task_FencingToken t = 0 \<longleftrightarrow> task_Status t = StatusQueued)
     \<and> (task_Status t = StatusLeased \<longleftrightarrow> task_LeaseOwner t \<noteq> [])
     \<and> (task_Status t = StatusLeased \<longleftrightarrow> task_LeaseExpiresAt t \<noteq> None)"

definition queue_ok :: "queue_backend \<Rightarrow> bool" where
  "queue_ok b \<longleftrightarrow> well_keyed (q_tasks b) \<and> 0 \<le> q_refs b \<and> (q_closed b \<longleftrightarrow> q_refs b = 0)
     \<and> (\<forall>k t. get (q_tasks b) k = Some t
          \<longrightarrow> task_ok t \<and> k = queue_key (task_TenantID t) (task_TaskID t))"

inductive queue_reachable :: "queue_backend \<Rightarrow> bool" where
  start: "queue_reachable NewBackend"
| step: "queue_reachable b \<Longrightarrow> queue_step b b' \<Longrightarrow> queue_reachable b'"

lemma queue_okD:
  assumes "queue_ok b"
  shows "well_keyed (q_tasks b)" "get (q_tasks b) k = Some t \<Longrightarrow> task_ok t"
    "get (q_tasks b) k = Some t \<Longrightarrow> k = queue_key (task_TenantID t) (task_TaskID t)"
  using assms by (auto simp: queue_ok_def)

lemmas task_update_defs = claim_lease_def transition_task_def

lemma task_step_identity:
  "task_step t t' \<Longrightarrow> task_TenantID t' = task_TenantID t \<and> task_TaskID t' = task_TaskID t
     \<and> task_Kind t' = task_Kind t \<and> task_Payload t' = task_Payload t
     \<and> task_CreatedAt t' = task_CreatedAt t"
  by (auto simp: task_update_defs elim!: task_step.cases)

lemma claim_lease_ok: "task_ok t \<Longrightarrow> owner \<noteq> [] \<Longrightarrow> task_ok (claim_lease owner d now t)"
  by (simp add: task_ok_def claim_lease_def)

lemma transition_task_ok:
  "task_ok t \<Longrightarrow> transition_allowed owner fence now1 t \<Longrightarrow> 0 < fence
   \<Longrightarrow> status \<in> {StatusCompleted, StatusRetryable, StatusFailed}
   \<Longrightarrow> task_ok (transition_task status cls nxt now2 t)"
  unfolding task_ok_def transition_task_def transition_allowed_def by simp blast

lemma task_step_ok: "task_step t t' \<Longrightarrow> task_ok t \<Longrightarrow> task_ok t'"
  by (erule task_step.cases) (simp_all add: claim_lease_ok transition_task_ok)

lemma task_step_fence: "task_step t t' \<Longrightarrow> task_FencingToken t \<le> task_FencingToken t'"
  by (auto simp: task_update_defs elim!: task_step.cases)

lemma fresh_task_ok: "fresh_task t \<Longrightarrow> task_ok t"
  by (simp add: fresh_task_def task_ok_def)

lemma queue_step_refs:
  assumes "queue_step b b'" and "0 \<le> q_refs b" and "q_closed b \<longleftrightarrow> q_refs b = 0"
  shows "0 \<le> q_refs b' \<and> (q_closed b' \<longleftrightarrow> q_refs b' = 0)"
  using assms
proof cases
  case (enqueue c input now r)
  then show ?thesis using assms(2,3) by (cases rule: queue_Enqueue_cases) auto
next
  case (claim c tenantID owner d now r)
  then show ?thesis using assms(2,3)
    by (auto simp: queue_Claim_def Let_def split: option.splits if_splits list.splits)
next
  case (complete c tenantID taskID owner fence now1 now2 r)
  then show ?thesis unfolding queue_Complete_def using assms(2,3) by (cases rule: queue_transition_cases) auto
next
  case (retry c tenantID taskID owner fence nxt cls now1 now2 r)
  then show ?thesis unfolding queue_Retry_def using assms(2,3) by (cases rule: queue_transition_cases) auto
next
  case (fail c tenantID taskID owner fence cls now1 now2 r)
  then show ?thesis unfolding queue_Fail_def using assms(2,3) by (cases rule: queue_transition_cases) auto
next
  case (attach v)
  then show ?thesis using assms(2,3) by (auto simp: NewMemoryWithBackend_def)
next
  case (release v v')
  then show ?thesis using assms(2,3) by (auto simp: queue_Close_def Let_def split: if_splits)
qed

lemma queue_step_ok [wf_intros]:
  assumes "queue_step b b'" and ok: "queue_ok b"
  shows "queue_ok b'"
proof -
  have refs: "0 \<le> q_refs b' \<and> (q_closed b' \<longleftrightarrow> q_refs b' = 0)"
    using queue_step_refs [OF assms(1)] ok by (simp add: queue_ok_def)
  from assms(1) queue_okD(1) [OF ok] show ?thesis
  proof (cases rule: queue_step_cases)
    case same
    with ok refs show ?thesis by (simp add: queue_ok_def)
  next
    case (new t)
    with ok refs show ?thesis by (auto simp: queue_ok_def fresh_task_ok)
  next
    case (change k t t')
    from change(2) ok have "task_ok t" "k = queue_key (task_TenantID t) (task_TaskID t)"
      by (auto dest: queue_okD)
    with change(3) have "task_ok t'" "k = queue_key (task_TenantID t') (task_TaskID t')"
      using task_step_ok task_step_identity by auto
    with change ok refs show ?thesis by (auto simp: queue_ok_def)
  qed
qed

lemma queue_reachable_ok: "queue_reachable b \<Longrightarrow> queue_ok b"
proof (induction rule: queue_reachable.induct)
  case start
  show ?case by (simp add: queue_ok_def NewBackend_def)
next
  case (step b b')
  then show ?case by (blast intro: queue_step_ok)
qed

lemma queue_reachable_star: "queue_step\<^sup>*\<^sup>* b b' \<Longrightarrow> queue_reachable b \<Longrightarrow> queue_reachable b'"
  by (induction rule: rtranclp_induct) (auto intro: queue_reachable.step)

text \<open>A task is never lost: it is there after every step, moved on by at most one task step.\<close>

lemma queue_step_task:
  assumes "queue_step b b'" and "well_keyed (q_tasks b)" and "get (q_tasks b) k = Some t"
  shows "\<exists>t'. get (q_tasks b') k = Some t' \<and> task_step t t'"
  using assms(1,2)
  by (cases rule: queue_step_cases) (use assms(3) in \<open>auto intro: task_step.same\<close>)

lemma queue_star_task:
  assumes "queue_step\<^sup>*\<^sup>* b b'" and "queue_ok b" and "get (q_tasks b) k = Some t"
  shows "\<exists>t'. get (q_tasks b') k = Some t' \<and> task_step\<^sup>*\<^sup>* t t'"
proof -
  from assms(1) have "queue_ok b' \<and> (\<exists>t'. get (q_tasks b') k = Some t' \<and> task_step\<^sup>*\<^sup>* t t')"
  proof (induction rule: rtranclp_induct)
    case base
    with assms show ?case by auto
  next
    case (step y z)
    then obtain t1 where t1: "get (q_tasks y) k = Some t1" "task_step\<^sup>*\<^sup>* t t1" and ok: "queue_ok y"
      by auto
    obtain t2 where "get (q_tasks z) k = Some t2" "task_step t1 t2"
      using queue_step_task [OF step.hyps(2) queue_okD(1) [OF ok] t1(1)] by blast
    with t1 ok step.hyps(2) show ?case
      by (auto intro: queue_step_ok rtranclp.rtrancl_into_rtrancl)
  qed
  then show ?thesis by blast
qed

subsection \<open>Finished tasks\<close>

definition task_finished :: "task \<Rightarrow> bool" where
  "task_finished t \<longleftrightarrow> task_Status t = StatusCompleted \<or> task_Status t = StatusFailed"

lemma task_step_finished: "task_step t t' \<Longrightarrow> task_finished t \<Longrightarrow> t' = t"
  by (auto simp: task_finished_def claim_eligible_def transition_allowed_def elim!: task_step.cases)

lemma task_star_finished: "task_step\<^sup>*\<^sup>* t t' \<Longrightarrow> task_finished t \<Longrightarrow> t' = t"
  by (induction rule: rtranclp_induct) (auto dest: task_step_finished)

subsection \<open>Fencing\<close>

definition queue_fence :: "queue_backend \<Rightarrow> string \<Rightarrow> int" where
  "queue_fence b k = (case get (q_tasks b) k of None \<Rightarrow> 0 | Some t \<Rightarrow> task_FencingToken t)"

definition ok_step :: "queue_backend \<Rightarrow> queue_backend \<Rightarrow> bool" where
  "ok_step b b' \<longleftrightarrow> queue_ok b \<and> queue_step b b'"

definition claim_grants :: "queue_backend \<Rightarrow> string \<Rightarrow> int \<Rightarrow> queue_backend \<Rightarrow> bool" where
  "claim_grants b k f b' \<longleftrightarrow> queue_ok b \<and>
     (\<exists>c tenantID owner d now t. queue_Claim c tenantID owner d now b = (Inr t, b')
        \<and> k = queue_key (task_TenantID t) (task_TaskID t) \<and> f = task_FencingToken t)"

definition holder_commits :: "queue_backend \<Rightarrow> string \<Rightarrow> int \<Rightarrow> queue_backend \<Rightarrow> bool" where
  "holder_commits b k f b' \<longleftrightarrow>
     (\<exists>c tenantID taskID owner status cls nxt now1 now2 t.
        queue_transition c tenantID taskID owner f status cls nxt now1 now2 b = (Inr t, b')
        \<and> k = queue_key tenantID taskID)"

lemma queue_step_fence:
  assumes "queue_step b b'" and "queue_ok b"
  shows "queue_fence b k \<le> queue_fence b' k"
  using assms(1) queue_okD(1) [OF assms(2)]
proof (cases rule: queue_step_cases)
  case (change k' t t')
  then show ?thesis by (auto simp: queue_fence_def dest: task_step_fence)
qed (auto simp: queue_fence_def fresh_task_def split: option.split)

lemma claim_grantsE:
  assumes "claim_grants b k f b'"
  obtains owner d now t where "queue_ok b" "get (q_tasks b) k = Some t"
    "b' = b\<lparr>q_tasks := put k (claim_lease owner d now t) (q_tasks b)\<rparr>"
    "f = task_FencingToken t + 1" "queue_step b b'"
proof -
  from assms obtain c tenantID owner d now t' where ok: "queue_ok b"
    and cl: "queue_Claim c tenantID owner d now b = (Inr t', b')"
    and k: "k = queue_key (task_TenantID t') (task_TaskID t')" and f: "f = task_FencingToken t'"
    by (auto simp: claim_grants_def)
  from cl queue_okD(1) [OF ok] show thesis
  proof (cases rule: queue_Claim_cases)
    case (leased k' t)
    from queue_okD(3) [OF ok leased(3)] leased(1) have "k' = k"
      by (simp add: k claim_lease_def)
    with leased ok f cl that [of t owner d now] show thesis
      by (auto simp: claim_lease_def intro: queue_step.claim)
  qed simp
qed

interpretation queue_fencing: fenced ok_step queue_fence claim_grants holder_commits
proof
  show "ok_step s s' \<Longrightarrow> queue_fence s k \<le> queue_fence s' k" for s s' k
    by (simp add: ok_step_def queue_step_fence)
  show "claim_grants s k f s' \<Longrightarrow> ok_step s s'" for s k f s'
    by (auto simp: ok_step_def elim!: claim_grantsE)
  show "claim_grants s k f s' \<Longrightarrow> queue_fence s k < f" for s k f s'
    by (auto simp: queue_fence_def elim!: claim_grantsE)
  show "claim_grants s k f s' \<Longrightarrow> queue_fence s' k = f" for s k f s'
    by (auto simp: queue_fence_def claim_lease_def elim!: claim_grantsE)
  show "holder_commits s k f s' \<Longrightarrow> queue_fence s k = f" for s k f s'
    by (auto simp: holder_commits_def queue_fence_def transition_allowed_def
        elim!: queue_transition_cases)
qed

lemma ok_star: "queue_step\<^sup>*\<^sup>* b b' \<Longrightarrow> queue_ok b \<Longrightarrow> ok_step\<^sup>*\<^sup>* b b' \<and> queue_ok b'"
  by (induction rule: rtranclp_induct)
     (auto simp: ok_step_def intro: rtranclp.rtrancl_into_rtrancl queue_step_ok)

lemma queue_Claim_granted:
  assumes "queue_Claim c ten own d now b = (Inr t, b')" and "queue_ok b"
  shows "queue_ok b'" "claim_grants b (queue_key (task_TenantID t) (task_TaskID t)) (task_FencingToken t) b'"
    "get (q_tasks b') (queue_key (task_TenantID t) (task_TaskID t)) = Some t"
    "own \<noteq> []" "task_TenantID t \<noteq> []" "task_TaskID t \<noteq> []" "0 < task_FencingToken t"
proof -
  show "queue_ok b'" using queue_step.claim [OF assms(1)] assms(2) by (rule queue_step_ok)
  show "claim_grants b (queue_key (task_TenantID t) (task_TaskID t)) (task_FencingToken t) b'"
    unfolding claim_grants_def using assms by blast
  have "get (q_tasks b') (queue_key (task_TenantID t) (task_TaskID t)) = Some t \<and> own \<noteq> [] \<and> task_ok t
    \<and> task_Status t = StatusLeased"
    using assms(1) queue_okD(1) [OF assms(2)]
  proof (cases rule: queue_Claim_cases)
    case (leased k t0)
    from queue_okD(2,3) [OF assms(2) leased(3)] leased show ?thesis
      by (auto simp: claim_lease_ok) (simp_all add: claim_lease_def)
  qed simp
  then show "get (q_tasks b') (queue_key (task_TenantID t) (task_TaskID t)) = Some t"
    "own \<noteq> []" "task_TenantID t \<noteq> []" "task_TaskID t \<noteq> []" "0 < task_FencingToken t"
    by (auto simp: task_ok_def order_less_le)
qed

lemma queue_Claim_taken:
  assumes "queue_Claim c ten own d now b = (Inr t', b')" and "queue_ok b"
    and "get (q_tasks b) (queue_key (task_TenantID t') (task_TaskID t')) = Some t"
  shows "claim_eligible ten now t"
  using assms(1) queue_okD(1) [OF assms(2)]
proof (cases rule: queue_Claim_cases)
  case (leased k t0)
  from queue_okD(3) [OF assms(2) leased(3)] leased(1) assms(3) leased(3,4) show ?thesis
    by (simp add: claim_lease_def)
qed simp

lemma queue_Claim_none:
  assumes "queue_Claim c ten own d now b = (Inl e, b')" and "well_keyed (q_tasks b)"
    and "queue_contextErr c 0 = None" "own \<noteq> []" "0 < d" "\<not> q_closed b"
  shows "e = QErrNotFound \<and> eligible_keys ten now (q_tasks b) = []"
proof (cases "sort_key (claim_rank (q_tasks b)) (eligible_keys ten now (q_tasks b))")
  case Nil
  then have "eligible_keys ten now (q_tasks b) = []" by (metis set_empty set_sort)
  with assms show ?thesis by (simp add: queue_Claim_def)
next
  case (Cons k ks)
  then have "k \<in> set (eligible_keys ten now (q_tasks b))" by (metis list.set_intros(1) set_sort)
  then obtain t where "get (q_tasks b) k = Some t" using assms(2) by (rule eligible_keysD)
  with Cons assms show ?thesis by (simp add: queue_Claim_def Let_def)
qed

lemma queue_Claim_lease:
  assumes "queue_Claim c ten own d now b = (Inr t', b')" and "queue_ok b"
  shows "task_LeaseExpiresAt t' = Some (now + d) \<and> task_Status t' = StatusLeased \<and> task_LeaseOwner t' = own"
  using assms(1) queue_okD(1) [OF assms(2)]
  by (cases rule: queue_Claim_cases) (auto simp: claim_lease_def)

lemma task_star_fence: "task_step\<^sup>*\<^sup>* t t' \<Longrightarrow> task_FencingToken t \<le> task_FencingToken t'"
  by (induction rule: rtranclp_induct) (auto dest: task_step_fence)

lemma queue_transition_conflict:
  assumes "queue_contextErr c 0 = None" "ten \<noteq> []" "tid \<noteq> []" "own \<noteq> []" "0 < f"
    and "get (q_tasks b) (queue_key ten tid) = Some t"
    and "\<And>b'. \<not> holder_commits b (queue_key ten tid) f b'"
  shows "queue_transition c ten tid own f status cls nxt now1 now2 b = (Inl QErrConflict, b)"
proof (cases "queue_transition c ten tid own f status cls nxt now1 now2 b")
  case (Pair r b')
  with assms(7) have "\<exists>e. r = Inl e" unfolding holder_commits_def by (cases r) blast+
  with Pair assms(1-6) show ?thesis
    by (auto simp: queue_transition_def Let_def split: if_splits)
qed

lemma task_star_identity:
  "task_step\<^sup>*\<^sup>* t t' \<Longrightarrow> task_TenantID t' = task_TenantID t \<and> task_TaskID t' = task_TaskID t
     \<and> task_Kind t' = task_Kind t \<and> task_Payload t' = task_Payload t
     \<and> task_CreatedAt t' = task_CreatedAt t"
  by (induction rule: rtranclp_induct) (auto dest: task_step_identity)

text \<open>While the token stands, a lease only ends by its holder's own commit.\<close>

lemma task_step_lease:
  assumes "task_step t t'" and "task_Status t = StatusLeased \<longrightarrow> t = t0"
    and "task_FencingToken t \<ge> task_FencingToken t0"
  shows "task_FencingToken t' = task_FencingToken t0 \<longrightarrow> task_Status t' = StatusLeased \<longrightarrow> t' = t0"
  using assms by cases (auto simp: task_update_defs)

lemma task_star_lease:
  assumes "task_step\<^sup>*\<^sup>* t0 t" and "task_FencingToken t = task_FencingToken t0"
    and "task_Status t = StatusLeased"
  shows "t = t0"
proof -
  from assms(1) have "task_FencingToken t0 \<le> task_FencingToken t
    \<and> (task_FencingToken t = task_FencingToken t0 \<longrightarrow> task_Status t = StatusLeased \<longrightarrow> t = t0)"
  proof (induction rule: rtranclp_induct)
    case base
    show ?case by simp
  next
    case (step y z)
    show ?case
    proof (cases "task_FencingToken y = task_FencingToken t0")
      case True
      with step task_step_lease [OF step.hyps(2), of t0] task_step_fence [OF step.hyps(2)]
      show ?thesis by auto
    next
      case False
      with step task_step_fence [OF step.hyps(2)] show ?thesis by auto
    qed
  qed
  with assms(2,3) show ?thesis by blast
qed

lemma NUL_free_key_inj:
  assumes "CHR 0x00 \<notin> set ten" "CHR 0x00 \<notin> set ten'" "queue_key ten tid = queue_key ten' tid'"
  shows "ten = ten' \<and> tid = tid'"
proof -
  let ?p = "\<lambda>x. x \<noteq> CHR 0x00"
  have "takeWhile ?p (queue_key ten tid) = ten" "takeWhile ?p (queue_key ten' tid') = ten'"
    using assms(1,2) unfolding queue_key_def by (simp_all add: takeWhile_append)
  with assms(3) have "ten = ten'" by simp
  with assms(3) show ?thesis by (simp add: queue_key_def)
qed

subsection \<open>Properties of the store\<close>

text \<open>A store with one task, leased by one worker and taken over by another, for the examples.\<close>

definition demo_input :: task_input where
  "demo_input = \<lparr>in_TenantID = ''t'', in_TaskID = ''j'', in_Kind = ''run'', in_Payload = ''p''\<rparr>"

definition demo_queued :: queue_backend where
  "demo_queued = snd (queue_Enqueue (Some background) demo_input 1 NewBackend)"

definition demo_leased :: queue_backend where
  "demo_leased = snd (queue_Claim (Some background) ''t'' ''w1'' 10 2 demo_queued)"

definition demo_taken :: queue_backend where
  "demo_taken = snd (queue_Claim (Some background) ''t'' ''w2'' 10 20 demo_leased)"

definition demo_retried :: queue_backend where
  "demo_retried = snd (queue_Retry (Some background) ''t'' ''j'' ''w1'' 1 4 ''e'' 3 3 demo_leased)"

definition demo_completed :: queue_backend where
  "demo_completed = snd (queue_Complete (Some background) ''t'' ''j'' ''w1'' 1 3 3 demo_leased)"

definition demo_task :: "string \<Rightarrow> int \<Rightarrow> instant \<Rightarrow> task" where
  "demo_task owner token now =
     \<lparr>task_TenantID = ''t'', task_TaskID = ''j'', task_Kind = ''run'', task_Payload = ''p'',
      task_Status = StatusLeased, task_Attempts = token, task_FencingToken = token,
      task_LeaseOwner = owner, task_LeaseExpiresAt = Some (now + 10), task_NextAttemptAt = 1,
      task_LastErrorClass = [], task_CreatedAt = 1, task_UpdatedAt = now\<rparr>"

lemma demo_claims:
  "queue_Claim (Some background) ''t'' ''w1'' 10 2 demo_queued = (Inr (demo_task ''w1'' 1 2), demo_leased)"
  "queue_Claim (Some background) ''t'' ''w2'' 10 20 demo_leased = (Inr (demo_task ''w2'' 2 20), demo_taken)"
  "queue_Claim (Some background) ''t'' ''w2'' 10 5 demo_retried
   = (Inr ((demo_task ''w2'' 2 5)\<lparr>task_LastErrorClass := ''e'', task_NextAttemptAt := 4\<rparr>),
      snd (queue_Claim (Some background) ''t'' ''w2'' 10 5 demo_retried))"
  by code_simp+

lemma demo_reachable: "queue_reachable demo_queued" "queue_reachable demo_leased" "queue_reachable demo_taken"
proof -
  have "queue_step NewBackend demo_queued"
    unfolding demo_queued_def by (rule queue_step.enqueue) (rule prod.collapse [symmetric])
  then show q: "queue_reachable demo_queued" by (rule queue_reachable.step [OF queue_reachable.start])
  then show l: "queue_reachable demo_leased"
    by (rule queue_reachable.step) (rule queue_step.claim [OF demo_claims(1)])
  then show "queue_reachable demo_taken"
    by (rule queue_reachable.step) (rule queue_step.claim [OF demo_claims(2)])
qed

lemma demo_open: "\<not> q_closed demo_queued" "\<not> q_closed demo_leased" "\<not> q_closed demo_taken"
  by code_simp+

text \<open>
  C1: a worker that was overtaken cannot commit. If a task was claimed, then claimed again
  (its first lease having run out), every later attempt of the first worker to complete, retry
  or fail it under its own fencing token is refused as a conflict and changes nothing, in every
  state the store can reach from there.
\<close>

theorem queue_stale_worker_refused:
  assumes "queue_reachable b"
    and "queue_Claim c1 ten1 own1 d1 n1 b = (Inr t1, b1)"
    and "queue_step\<^sup>*\<^sup>* b1 b2"
    and "queue_Claim c2 ten2 own2 d2 n2 b2 = (Inr t2, b3)"
    and "task_TenantID t2 = task_TenantID t1" and "task_TaskID t2 = task_TaskID t1"
    and "queue_step\<^sup>*\<^sup>* b3 b4"
    and "queue_contextErr c 0 = None"
  shows "queue_transition c (task_TenantID t1) (task_TaskID t1) own1 (task_FencingToken t1)
           status cls nxt now1 now2 b4 = (Inl QErrConflict, b4)"
proof -
  let ?k = "queue_key (task_TenantID t1) (task_TaskID t1)"
  note first = queue_Claim_granted [OF assms(2) queue_reachable_ok [OF assms(1)]]
  note star12 = ok_star [OF assms(3) first(1)]
  note second = queue_Claim_granted [OF assms(4) conjunct2 [OF star12]]
  note star34 = ok_star [OF assms(7) second(1)]
  have "\<not> holder_commits b4 ?k (task_FencingToken t1) b5" for b5
    using queue_fencing.stale_holder_never_commits [OF first(2) _ _ conjunct1 [OF star34]]
      conjunct1 [OF star12] second(2) [unfolded assms(5,6)] by blast
  moreover obtain t4 where "get (q_tasks b4) ?k = Some t4"
    using queue_star_task [OF assms(7) second(1) second(3)] assms(5,6) by auto
  ultimately show ?thesis
    using first(4-7) assms(8) by (intro queue_transition_conflict) auto
qed

theorem queue_stale_worker_refused_witness:
  "queue_transition (Some background) ''t'' ''j'' ''w1'' 1 StatusCompleted [] 0 21 21 demo_taken
   = (Inl QErrConflict, demo_taken)"
  using queue_stale_worker_refused [OF demo_reachable(1) demo_claims(1) rtranclp.rtrancl_refl
      demo_claims(2) _ _ rtranclp.rtrancl_refl, of "Some background"]
  by (simp add: demo_task_def queue_contextErr_def)

text \<open>
  C2: a claim takes the oldest claimable task. On every reachable open store a valid claim
  either leases the task that is least by creation time and key among those that are due and
  not under a live lease, or finds that there is none and changes nothing.
\<close>

theorem queue_Claim_oldest:
  assumes "queue_reachable b" and "queue_contextErr c 0 = None"
    and "owner \<noteq> []" and "0 < d" and "\<not> q_closed b"
  shows "case queue_Claim c tenantID owner d now b of
      (Inr t', b') \<Rightarrow> \<exists>k t. get (q_tasks b) k = Some t \<and> claim_eligible tenantID now t
         \<and> t' = claim_lease owner d now t \<and> b' = b\<lparr>q_tasks := put k t' (q_tasks b)\<rparr>
         \<and> (\<forall>k2 t2. get (q_tasks b) k2 = Some t2 \<longrightarrow> claim_eligible tenantID now t2
              \<longrightarrow> (task_CreatedAt t, k) \<le> (task_CreatedAt t2, k2))
    | (Inl e, b') \<Rightarrow> e = QErrNotFound \<and> b' = b
         \<and> (\<forall>k2 t2. get (q_tasks b) k2 = Some t2 \<longrightarrow> \<not> claim_eligible tenantID now t2)"
proof -
  note wk = queue_okD(1) [OF queue_reachable_ok [OF assms(1)]]
  obtain r b' where cl: "queue_Claim c tenantID owner d now b = (r, b')" by fastforce
  from cl wk show ?thesis
  proof (cases rule: queue_Claim_cases)
    case (refused e)
    then have "e = QErrNotFound \<and> eligible_keys tenantID now (q_tasks b) = []"
      using queue_Claim_none [OF cl [unfolded refused(1)] wk assms(2-5)] by simp
    moreover have "\<not> claim_eligible tenantID now t2" if "get (q_tasks b) k2 = Some t2" for k2 t2
      using eligible_keysI [OF that, of tenantID now] calculation by auto
    ultimately show ?thesis using cl refused by auto
  next
    case (leased k t)
    then show ?thesis using cl by auto
  qed
qed

theorem queue_Claim_oldest_witness:
  "\<exists>k t. get (q_tasks demo_queued) k = Some t
     \<and> demo_leased = demo_queued\<lparr>q_tasks := put k (claim_lease ''w1'' 10 2 t) (q_tasks demo_queued)\<rparr>"
  using queue_Claim_oldest [OF demo_reachable(1), of "Some background" "''w1''" 10 "''t''" 2]
  unfolding demo_claims(1) by (auto simp: queue_contextErr_def demo_open simp del: less_eq_prod_simp) blast

text \<open>
  C3: a live lease is exclusive. Whoever is handed a task that was claimed earlier, before the
  earlier lease has run out, gets it because a third worker claimed it in between or because
  the earlier holder itself gave it back for a retry.
\<close>

theorem queue_lease_exclusive:
  assumes "queue_reachable b"
    and "queue_Claim c1 ten1 own1 d1 n1 b = (Inr t1, b1)"
    and "queue_step\<^sup>*\<^sup>* b1 b2"
    and "queue_Claim c2 ten2 own2 d2 n2 b2 = (Inr t2, b3)"
    and "task_TenantID t2 = task_TenantID t1" and "task_TaskID t2 = task_TaskID t1"
    and "n2 < n1 + d1"
  shows "\<exists>t. get (q_tasks b2) (queue_key (task_TenantID t1) (task_TaskID t1)) = Some t
    \<and> (task_FencingToken t1 < task_FencingToken t \<or> task_Status t = StatusRetryable)"
proof -
  let ?k = "queue_key (task_TenantID t1) (task_TaskID t1)"
  note first = queue_Claim_granted [OF assms(2) queue_reachable_ok [OF assms(1)]]
  note ok2 = conjunct2 [OF ok_star [OF assms(3) first(1)]]
  from queue_star_task [OF assms(3) first(1,3)]
  obtain t where t: "get (q_tasks b2) ?k = Some t" "task_step\<^sup>*\<^sup>* t1 t" by blast
  have el: "claim_eligible ten2 n2 t"
    using queue_Claim_taken [OF assms(4) ok2] assms(5,6) t(1) by simp
  have lease: "task_LeaseExpiresAt t1 = Some (n1 + d1)" "task_Status t1 = StatusLeased"
    using queue_Claim_lease [OF assms(2) queue_reachable_ok [OF assms(1)]] by auto
  have "task_FencingToken t1 \<le> task_FencingToken t" using t(2) by (rule task_star_fence)
  moreover have "task_Status t = StatusRetryable" if same: "task_FencingToken t = task_FencingToken t1"
  proof -
    have "task_Status t \<noteq> StatusLeased"
      using task_star_lease [OF t(2) same] el lease assms(7) by (auto simp: claim_eligible_def)
    moreover have "task_Status t \<noteq> StatusQueued"
      using queue_okD(2) [OF ok2 t(1)] same first(7) by (auto simp: task_ok_def)
    ultimately show ?thesis using el by (auto simp: claim_eligible_def)
  qed
  ultimately show ?thesis using t(1) by force
qed

theorem queue_lease_exclusive_witness:
  "\<not> (\<exists>t2 b3. queue_Claim (Some background) ''t'' ''w2'' 10 5 demo_leased = (Inr t2, b3)
        \<and> task_TenantID t2 = ''t'' \<and> task_TaskID t2 = ''j'')
   \<and> (\<exists>t. get (q_tasks demo_retried) (queue_key ''t'' ''j'') = Some t \<and> task_Status t = StatusRetryable)"
proof -
  have "get (q_tasks demo_leased) (queue_key ''t'' ''j'') = Some (demo_task ''w1'' 1 2)" by code_simp
  then have no: "\<not> (\<exists>t2 b3. queue_Claim (Some background) ''t'' ''w2'' 10 5 demo_leased = (Inr t2, b3)
        \<and> task_TenantID t2 = ''t'' \<and> task_TaskID t2 = ''j'')"
    using queue_lease_exclusive [OF demo_reachable(1) demo_claims(1) rtranclp.rtrancl_refl,
        of "Some background" "''t''" "''w2''" 10 5]
    by (auto simp: demo_task_def)
  have "queue_step\<^sup>*\<^sup>* demo_leased demo_retried"
    unfolding demo_retried_def
    by (rule r_into_rtranclp, rule queue_step.retry) (rule prod.collapse [symmetric])
  from queue_lease_exclusive [OF demo_reachable(1) demo_claims(1) this demo_claims(3)]
  have "\<exists>t. get (q_tasks demo_retried) (queue_key ''t'' ''j'') = Some t
      \<and> (1 < task_FencingToken t \<or> task_Status t = StatusRetryable)"
    by (simp add: demo_task_def)
  moreover have "get (q_tasks demo_retried) (queue_key ''t'' ''j'') =
      Some (transition_task StatusRetryable ''e'' 4 3 (demo_task ''w1'' 1 2))" by code_simp
  ultimately show ?thesis using no by (auto simp: transition_task_def demo_task_def)
qed

text \<open>
  C4: completed and failed are final. Once a task is completed or failed, it is there unchanged
  in every later state of the store, whatever is enqueued, claimed, committed or closed.
\<close>

theorem queue_finished_final:
  assumes "queue_reachable b" and "get (q_tasks b) k = Some t"
    and "task_Status t = StatusCompleted \<or> task_Status t = StatusFailed"
    and "queue_step\<^sup>*\<^sup>* b b'"
  shows "get (q_tasks b') k = Some t"
proof -
  obtain t' where "get (q_tasks b') k = Some t'" "task_step\<^sup>*\<^sup>* t t'"
    using queue_star_task [OF assms(4) queue_reachable_ok [OF assms(1)] assms(2)] by blast
  with task_star_finished [of t t'] assms(3) show ?thesis by (auto simp: task_finished_def)
qed

theorem queue_finished_final_witness:
  "get (q_tasks (snd (queue_Claim (Some background) ''t'' ''w2'' 10 99 demo_completed))) (queue_key ''t'' ''j'')
   = Some (transition_task StatusCompleted [] 0 3 (demo_task ''w1'' 1 2))"
proof (rule queue_finished_final)
  show "queue_reachable demo_completed"
    by (rule queue_reachable.step [OF demo_reachable(2)], unfold demo_completed_def, rule queue_step.complete)
       (rule prod.collapse [symmetric])
  show "get (q_tasks demo_completed) (queue_key ''t'' ''j'')
      = Some (transition_task StatusCompleted [] 0 3 (demo_task ''w1'' 1 2))" by code_simp
  show "queue_step\<^sup>*\<^sup>* demo_completed (snd (queue_Claim (Some background) ''t'' ''w2'' 10 99 demo_completed))"
    by (rule r_into_rtranclp, rule queue_step.claim) (rule prod.collapse [symmetric])
qed (simp add: transition_task_def)

text \<open>
  C5: enqueueing is idempotent. Once a task was accepted, offering the same task again finds it
  in every later state, leaves the store as it is and reports the replay, together with the
  task as it stands; the same identity with another kind or payload is refused as a conflict.
\<close>

theorem queue_Enqueue_idempotent:
  assumes "queue_reachable b" and "queue_Enqueue c input now b = (Inr (t, rep), b1)"
    and "queue_step\<^sup>*\<^sup>* b1 b2" and "\<not> q_closed b2"
    and "queue_contextErr c' 0 = None" and "queue_validateInput input' = None"
    and "in_TenantID input' = in_TenantID input" and "in_TaskID input' = in_TaskID input"
  shows "\<exists>t'. get (q_tasks b2) (queue_key (in_TenantID input) (in_TaskID input)) = Some t'
    \<and> queue_Enqueue c' input' now' b2 =
       (if in_Kind input' = in_Kind input \<and> in_Payload input' = in_Payload input
        then (Inr (t', True), b2) else (Inl QErrConflict, b2))"
proof -
  note ok1 = queue_step_ok [OF queue_step.enqueue [OF assms(2)] queue_reachable_ok [OF assms(1)]]
  from assms(2) have "get (q_tasks b1) (queue_key (in_TenantID input) (in_TaskID input)) = Some t
      \<and> task_Kind t = in_Kind input \<and> task_Payload t = in_Payload input"
    by (cases rule: queue_Enqueue_cases) auto
  with queue_star_task [OF assms(3) ok1] obtain t' where
    "get (q_tasks b2) (queue_key (in_TenantID input) (in_TaskID input)) = Some t'"
    "task_Kind t' = in_Kind input" "task_Payload t' = in_Payload input"
    using task_star_identity by metis
  with assms(4-8) show ?thesis by (auto simp: queue_Enqueue_def Let_def)
qed

theorem queue_Enqueue_idempotent_witness:
  "\<exists>t'. queue_Enqueue (Some background) demo_input 30 demo_taken = (Inr (t', True), demo_taken)"
proof -
  have first: "queue_Enqueue (Some background) demo_input 1 NewBackend
      = (Inr (the (get (q_tasks demo_queued) (queue_key ''t'' ''j'')), False), demo_queued)"
    by code_simp
  have "queue_step\<^sup>*\<^sup>* demo_queued demo_taken"
    by (rule rtranclp.rtrancl_into_rtrancl [OF r_into_rtranclp])
       (rule queue_step.claim [OF demo_claims(1)], rule queue_step.claim [OF demo_claims(2)])
  from queue_Enqueue_idempotent [OF queue_reachable.start first this demo_open(3),
      of "Some background" demo_input 30]
  show ?thesis
    by (auto simp: queue_contextErr_def queue_validateInput_def demo_input_def)
qed

text \<open>
  C6: tenants are isolated when their identifiers carry no NUL byte. An enqueue, a claim or a
  commit for one such tenant leaves every task of every other one as it is, and a claim
  scoped to a tenant returns only tasks of that tenant.
\<close>

theorem queue_tenant_isolation:
  assumes "queue_reachable b" and "CHR 0x00 \<notin> set ten" and "CHR 0x00 \<notin> set ten'" and "ten \<noteq> ten'"
    and "ten \<noteq> []" and "in_TenantID input = ten"
    and "b' \<in> {snd (queue_Enqueue c input now b), snd (queue_Claim c ten owner d now b),
               snd (queue_transition c ten tid owner fence status cls nxt now1 now2 b)}"
  shows "get (q_tasks b') (queue_key ten' tid') = get (q_tasks b) (queue_key ten' tid')
    \<and> (\<forall>t. fst (queue_Claim c ten owner d now b) = Inr t \<longrightarrow> task_TenantID t = ten)"
proof -
  have other: "queue_key ten' tid' \<noteq> queue_key ten x" for x
    using NUL_free_key_inj [OF assms(3,2)] assms(4) by auto
  note ok = queue_reachable_ok [OF assms(1)]
  have 1: "get (q_tasks b1) (queue_key ten' tid') = get (q_tasks b) (queue_key ten' tid')"
    if "queue_Enqueue c input now b = (r, b1)" for r b1
    using that by (cases rule: queue_Enqueue_cases) (use assms(6) other in auto)
  have 2: "get (q_tasks b1) (queue_key ten' tid') = get (q_tasks b) (queue_key ten' tid')"
    if "queue_transition c ten tid owner fence status cls nxt now1 now2 b = (r, b1)" for r b1
    using that by (cases rule: queue_transition_cases) (use other in auto)
  have 3: "get (q_tasks b1) (queue_key ten' tid') = get (q_tasks b) (queue_key ten' tid')
      \<and> (\<forall>t. r = Inr t \<longrightarrow> task_TenantID t = ten)"
    if "queue_Claim c ten owner d now b = (r, b1)" for r b1
    using that queue_okD(1) [OF ok]
  proof (cases rule: queue_Claim_cases)
    case (leased k t)
    from leased(4) assms(5) have "task_TenantID t = ten" by (auto simp: claim_eligible_def)
    with leased queue_okD(3) [OF ok leased(3)] other show ?thesis by (auto simp: claim_lease_def)
  qed simp
  from assms(7) 1 2 3 show ?thesis by (metis insert_iff prod.collapse singletonD)
qed

theorem queue_tenant_isolation_witness:
  "get (q_tasks demo_taken) (queue_key ''u'' ''j'') = get (q_tasks demo_leased) (queue_key ''u'' ''j'')"
  using queue_tenant_isolation [OF demo_reachable(2), of "''t''" "''u''" demo_input demo_taken
      "Some background" 20 "''w2''" 10 "''j''" 1 StatusCompleted "[]" 0 0 0 "''j''"]
  by (simp add: demo_taken_def demo_input_def)

text \<open>
  A NUL byte breaks the isolation. The composite key joins tenant and task identifier with
  a NUL byte that neither is checked for, so two tenants can name the same key: the second one
  is handed the task of the first as a replay of its own.
\<close>

theorem queue_key_collision:
  "\<exists>input input' b1 t.
     queue_validateInput input = None \<and> queue_validateInput input' = None
     \<and> in_TenantID input' \<noteq> in_TenantID input
     \<and> queue_Enqueue (Some background) input 1 NewBackend = (Inr (t, False), b1)
     \<and> queue_Enqueue (Some background) input' 2 b1 = (Inr (t, True), b1)
     \<and> task_TenantID t = in_TenantID input"
proof -
  let ?i = "\<lparr>in_TenantID = ''a'', in_TaskID = [CHR ''b'', CHR 0x00, CHR ''c''], in_Kind = ''run'',
     in_Payload = ''p''\<rparr>"
  let ?i' = "\<lparr>in_TenantID = [CHR ''a'', CHR 0x00, CHR ''b''], in_TaskID = ''c'', in_Kind = ''run'',
     in_Payload = ''p''\<rparr>"
  let ?e = "queue_Enqueue (Some background) ?i 1 NewBackend"
  have "queue_validateInput ?i = None \<and> queue_validateInput ?i' = None
     \<and> in_TenantID ?i' \<noteq> in_TenantID ?i
     \<and> ?e = (Inr (fst (projr (fst ?e)), False), snd ?e)
     \<and> queue_Enqueue (Some background) ?i' 2 (snd ?e) = (Inr (fst (projr (fst ?e)), True), snd ?e)
     \<and> task_TenantID (fst (projr (fst ?e))) = in_TenantID ?i"
    by (simp add: queue_validateInput_def queue_Enqueue_def queue_contextErr_def NewBackend_def
        queue_key_def Let_def)
  then show ?thesis by blast
qed

text \<open>
  The records of a reachable store are consistent. Every task is stored under its own
  identity; its attempts count the tokens handed out; it has a token exactly if it was ever
  leased, and an owner and an expiry exactly while it is leased; the store is closed exactly
  if no reference is left.
\<close>

theorem queue_records_consistent:
  assumes "queue_reachable b" and "get (q_tasks b) k = Some t"
  shows "k = queue_key (task_TenantID t) (task_TaskID t)
    \<and> task_Attempts t = task_FencingToken t
    \<and> (0 < task_FencingToken t \<longleftrightarrow> task_Status t \<noteq> StatusQueued)
    \<and> (task_Status t = StatusLeased \<longleftrightarrow> task_LeaseOwner t \<noteq> [])
    \<and> (task_Status t = StatusLeased \<longleftrightarrow> task_LeaseExpiresAt t \<noteq> None)
    \<and> (q_closed b \<longleftrightarrow> q_refs b = 0)"
proof -
  note ok = queue_reachable_ok [OF assms(1)]
  from queue_okD(2,3) [OF ok assms(2)] ok show ?thesis
    by (simp add: task_ok_def order_less_le queue_ok_def) metis
qed

theorem queue_records_consistent_witness:
  "0 < task_FencingToken (demo_task ''w1'' 1 2) \<and> (q_closed demo_leased \<longleftrightarrow> q_refs demo_leased = 0)"
proof -
  have "get (q_tasks demo_leased) (queue_key ''t'' ''j'') = Some (demo_task ''w1'' 1 2)" by code_simp
  from queue_records_consistent [OF demo_reachable(2) this] show ?thesis by (simp add: demo_task_def)
qed

end
