(* ===== verification/Queue_Worker.thy ===== *)
theory Queue_Worker
  imports Exec_Queue
begin

text \<open>
  The worker of \<^verbatim>\<open>runtime/queue/queue.go\<close>: its configuration, retry backoff, error
  classification, lifecycle and the run that claims a task, executes the handler and commits
  the outcome. The worker sees the store only through its interface, a record of operations;
  what it relies on is the locale \<open>task_store\<close>, which the in-memory store satisfies. While
  the handler runs, other workers use the store: the handler is a function that returns its
  error and the state in which it left the world.
\<close>

subsection \<open>Errors of handlers\<close>

datatype go_error =
    Err_Canceled
  | Err_DeadlineExceeded
  | Err_Retryable "go_error option"
  | Err_Wrapped string go_error
  | Err_Other string

text \<open>\<^verbatim>\<open>errors.Is\<close> and \<^verbatim>\<open>errors.As\<close> follow the chain of causes.\<close>

fun is_Canceled :: "go_error \<Rightarrow> bool" where
  "is_Canceled Err_Canceled = True"
| "is_Canceled (Err_Retryable (Some e)) = is_Canceled e"
| "is_Canceled (Err_Wrapped _ e) = is_Canceled e"
| "is_Canceled _ = False"

fun is_DeadlineExceeded :: "go_error \<Rightarrow> bool" where
  "is_DeadlineExceeded Err_DeadlineExceeded = True"
| "is_DeadlineExceeded (Err_Retryable (Some e)) = is_DeadlineExceeded e"
| "is_DeadlineExceeded (Err_Wrapped _ e) = is_DeadlineExceeded e"
| "is_DeadlineExceeded _ = False"

fun isRetryable :: "go_error \<Rightarrow> bool" where
  "isRetryable (Err_Retryable _) = True"
| "isRetryable (Err_Wrapped _ e) = isRetryable e"
| "isRetryable _ = False"

definition errorClass :: "go_error option \<Rightarrow> string" where
  "errorClass err =
     (case err of
        None \<Rightarrow> []
      | Some e \<Rightarrow>
          if is_Canceled e then ''canceled''
          else if is_DeadlineExceeded e then ''deadline_exceeded''
          else ''handler_error'')"

definition RetryError :: "go_error option \<Rightarrow> go_error option" where
  "RetryError err = (case err of None \<Rightarrow> None | Some e \<Rightarrow> Some (Err_Retryable (Some e)))"

subsection \<open>The store interface, the handler and the worker\<close>

record 's queue_store =
  st_Now :: "'s \<Rightarrow> instant \<times> 's"
  st_Claim :: "goctx \<Rightarrow> string \<Rightarrow> string \<Rightarrow> duration \<Rightarrow> 's \<Rightarrow> (queue_error + task) \<times> 's"
  st_Complete :: "goctx \<Rightarrow> string \<Rightarrow> string \<Rightarrow> string \<Rightarrow> int \<Rightarrow> 's \<Rightarrow> (queue_error + task) \<times> 's"
  st_Retry :: "goctx \<Rightarrow> string \<Rightarrow> string \<Rightarrow> string \<Rightarrow> int \<Rightarrow> instant \<Rightarrow> string
               \<Rightarrow> 's \<Rightarrow> (queue_error + task) \<times> 's"
  st_Fail :: "goctx \<Rightarrow> string \<Rightarrow> string \<Rightarrow> string \<Rightarrow> int \<Rightarrow> string \<Rightarrow> 's \<Rightarrow> (queue_error + task) \<times> 's"

type_synonym 's queue_handler = "task \<Rightarrow> 's \<Rightarrow> go_error option \<times> 's"

record queue_worker =
  w_tenantID :: string
  w_owner :: string
  w_leaseDuration :: duration
  w_pollInterval :: duration
  w_maxAttempts :: int
  w_backoffBase :: duration
  w_backoffMax :: duration
  w_started :: bool
  w_closed :: bool

record 's queue_config =
  cfg_Store :: "'s queue_store option"
  cfg_Handler :: "'s queue_handler option"
  cfg_TenantID :: string
  cfg_Owner :: string
  cfg_LeaseDuration :: duration
  cfg_PollInterval :: duration
  cfg_MaxAttempts :: int
  cfg_BackoffBase :: duration
  cfg_BackoffMax :: duration

definition millisecond :: duration where
  "millisecond = 1000000"

definition worker_New :: "'s queue_config \<Rightarrow> queue_error + queue_worker" where
  "worker_New config =
     (if cfg_Store config = None \<or> cfg_Handler config = None \<or> cfg_Owner config = []
         \<or> cfg_LeaseDuration config \<le> 0
      then Inl QErrInvalid
      else
        (let poll = (if cfg_PollInterval config \<le> 0 then 100 * millisecond else cfg_PollInterval config);
             attempts = (if cfg_MaxAttempts config \<le> 0 then 3 else cfg_MaxAttempts config);
             base = (if cfg_BackoffBase config \<le> 0 then 100 * millisecond else cfg_BackoffBase config);
             mx = (if cfg_BackoffMax config \<le> 0 then 10000 * millisecond else cfg_BackoffMax config)
         in if mx < base then Inl QErrInvalid
            else Inr \<lparr>w_tenantID = cfg_TenantID config, w_owner = cfg_Owner config,
                       w_leaseDuration = cfg_LeaseDuration config, w_pollInterval = poll,
                       w_maxAttempts = attempts, w_backoffBase = base, w_backoffMax = mx,
                       w_started = False, w_closed = False\<rparr>))"

text \<open>
  The loop of \<^verbatim>\<open>backoff\<close> runs \<^verbatim>\<open>attempt - 1\<close> times at most; durations are 64-bit integers, and
  doubling wraps around.
\<close>

fun backoff_loop :: "nat \<Rightarrow> duration \<Rightarrow> duration \<Rightarrow> duration" where
  "backoff_loop 0 d mx = (if d > mx then mx else d)"
| "backoff_loop (Suc n) d mx =
     (if d \<ge> quot mx 2 then mx else backoff_loop n (wrap64 (d * 2)) mx)"

definition worker_backoff :: "queue_worker \<Rightarrow> int \<Rightarrow> duration" where
  "worker_backoff w attempt = backoff_loop (nat (attempt - 1)) (w_backoffBase w) (w_backoffMax w)"

text \<open>The looks at a context that remain after the first \<open>n\<close>.\<close>

definition later :: "nat \<Rightarrow> goctx \<Rightarrow> goctx" where
  "later n c = map_option (\<lambda>look i. look (i + n)) c"

definition worker_RunOnce ::
  "'s queue_store \<Rightarrow> 's queue_handler \<Rightarrow> queue_worker option \<Rightarrow> goctx \<Rightarrow> string \<Rightarrow> 's
   \<Rightarrow> (bool \<times> queue_error option) \<times> 's" where
  "worker_RunOnce st handler wopt c hint s =
     (case (wopt, c) of
        (Some w, Some look) \<Rightarrow>
          if w_closed w then ((False, Some QErrClosed), s)
          else (case look 0 of
            Some e \<Rightarrow> ((False, Some (QErrCtx e)), s)
          | None \<Rightarrow>
            (let tenantID = (if w_tenantID w = [] then hint else w_tenantID w) in
             case st_Claim st (later 1 c) tenantID (w_owner w) (w_leaseDuration w) s of
               (Inl e, s1) \<Rightarrow> ((False, if e = QErrNotFound then None else Some e), s1)
             | (Inr t, s1) \<Rightarrow>
               (case handler t s1 of
                  (None, s2) \<Rightarrow>
                    (case st_Complete st (later 2 c) (task_TenantID t) (task_TaskID t) (w_owner w)
                            (task_FencingToken t) s2 of
                       (Inl e, s3) \<Rightarrow> ((True, Some e), s3)
                     | (Inr _, s3) \<Rightarrow> ((True, None), s3))
                | (Some err, s2) \<Rightarrow>
                    (let cls = errorClass (Some err) in
                     if (is_Canceled err \<or> is_DeadlineExceeded err \<or> isRetryable err)
                        \<and> task_Attempts t < w_maxAttempts w
                     then
                       (case st_Now st s2 of (now, s2') \<Rightarrow>
                        (case st_Retry st (Some background) (task_TenantID t) (task_TaskID t) (w_owner w)
                                (task_FencingToken t) (now + worker_backoff w (task_Attempts t)) cls s2' of
                           (Inl e, s3) \<Rightarrow> ((True, Some e), s3)
                         | (Inr _, s3) \<Rightarrow> ((True, None), s3)))
                     else
                       (case st_Fail st (Some background) (task_TenantID t) (task_TaskID t) (w_owner w)
                               (task_FencingToken t) cls s2 of
                          (Inl e, s3) \<Rightarrow> ((True, Some e), s3)
                        | (Inr _, s3) \<Rightarrow> ((True, None), s3))))))
      | _ \<Rightarrow> ((False, Some QErrInvalid), s))"

text \<open>
  The loop of the goroutine: a run, then a wait for the end of the context (which ends the loop)
  or for the next tick. Each turn sees the worker and the context as they are by then; the
  list has one entry per turn, with whether the wait ended with the context. The result says
  whether the loop has ended, which closes \<^verbatim>\<open>done\<close>.
\<close>

fun worker_loop ::
  "'s queue_store \<Rightarrow> 's queue_handler \<Rightarrow> string \<Rightarrow> (queue_worker \<times> goctx \<times> bool) list \<Rightarrow> 's \<Rightarrow> bool \<times> 's" where
  "worker_loop st handler hint [] s = (False, s)"
| "worker_loop st handler hint ((w, c, ended) # turns) s =
     (let s' = snd (worker_RunOnce st handler (Some w) c hint s)
      in if ended then (True, s') else worker_loop st handler hint turns s')"

text \<open>\<^verbatim>\<open>Start\<close> and \<^verbatim>\<open>Close\<close>; cancelling the loop's context and waiting for it leave no mark on the record.\<close>

definition worker_Start :: "queue_worker option \<Rightarrow> goctx \<Rightarrow> queue_error option \<times> queue_worker option" where
  "worker_Start wopt c =
     (case (wopt, c) of
        (Some w, Some _) \<Rightarrow>
          if w_closed w \<or> w_started w then (Some QErrClosed, wopt)
          else (None, Some (w\<lparr>w_started := True\<rparr>))
      | _ \<Rightarrow> (Some QErrInvalid, wopt))"

definition worker_Close :: "queue_worker option \<Rightarrow> queue_worker option" where
  "worker_Close wopt =
     (case wopt of None \<Rightarrow> None
      | Some w \<Rightarrow> if w_closed w then Some w else Some (w\<lparr>w_closed := True\<rparr>))"

subsection \<open>Backoff\<close>

lemma backoff_loop_bounds:
  assumes "0 < d" "d \<le> mx" "mx < 2 ^ 63"
  shows "d \<le> backoff_loop n d mx \<and> backoff_loop n d mx \<le> mx"
  using assms
proof (induction n arbitrary: d)
  case 0
  then show ?case by simp
next
  case (Suc n)
  show ?case
  proof (cases "d \<ge> quot mx 2")
    case True
    with Suc.prems show ?thesis by simp
  next
    case False
    then have lt: "d < mx div 2" using Suc.prems by (simp add: quot_nonneg)
    then have w: "wrap64 (d * 2) = d * 2"
      using Suc.prems by (intro wrap64_id) (simp add: in_int64_def)
    have "d * 2 \<le> backoff_loop n (d * 2) mx \<and> backoff_loop n (d * 2) mx \<le> mx"
      by (rule Suc.IH) (use lt Suc.prems in auto)
    with False w Suc.prems show ?thesis by simp
  qed
qed

text \<open>No doubling wraps: on an even maximum the loop is the closed form.\<close>

lemma backoff_loop_closed:
  assumes "0 < d" "d \<le> mx" "mx < 2 ^ 63" "even mx"
  shows "backoff_loop n d mx = min (d * 2 ^ n) mx"
  using assms
proof (induction n arbitrary: d)
  case 0
  then show ?case by simp
next
  case (Suc n)
  show ?case
  proof (cases "d \<ge> quot mx 2")
    case True
    then have "mx \<le> d * 2" using Suc.prems by (auto simp: quot_nonneg elim!: evenE)
    also have "\<dots> \<le> d * 2 * 2 ^ n" using Suc.prems by simp
    finally show ?thesis using True by (simp add: mult.assoc)
  next
    case False
    then have lt: "d < mx div 2" using Suc.prems by (simp add: quot_nonneg)
    then have w: "wrap64 (d * 2) = d * 2"
      using Suc.prems by (intro wrap64_id) (simp add: in_int64_def)
    have "backoff_loop n (d * 2) mx = min (d * 2 * 2 ^ n) mx"
      by (rule Suc.IH) (use lt Suc.prems in auto)
    with False w show ?thesis by (simp add: mult.assoc)
  qed
qed

lemma backoff_loop_step:
  assumes "0 < d" "d \<le> mx" "mx < 2 ^ 63"
  shows "backoff_loop n d mx \<le> backoff_loop (Suc n) d mx"
  using assms
proof (induction n arbitrary: d)
  case 0
  show ?case using backoff_loop_bounds [OF 0, of "Suc 0"] 0 by simp
next
  case (Suc n)
  show ?case
  proof (cases "d \<ge> quot mx 2")
    case True
    then show ?thesis by simp
  next
    case False
    then have lt: "d < mx div 2" using Suc.prems by (simp add: quot_nonneg)
    then have w: "wrap64 (d * 2) = d * 2"
      using Suc.prems by (intro wrap64_id) (simp add: in_int64_def)
    have "backoff_loop n (d * 2) mx \<le> backoff_loop (Suc n) (d * 2) mx"
      by (rule Suc.IH) (use lt Suc.prems in auto)
    with False w show ?thesis by (simp only: backoff_loop.simps(2) [of _ d] if_False w)
  qed
qed

lemma worker_New_ok:
  assumes "worker_New config = Inr w"
  shows "w_owner w \<noteq> [] \<and> 0 < w_leaseDuration w \<and> 0 < w_pollInterval w \<and> 1 \<le> w_maxAttempts w
    \<and> 0 < w_backoffBase w \<and> w_backoffBase w \<le> w_backoffMax w \<and> \<not> w_started w \<and> \<not> w_closed w"
  using assms by (auto simp: worker_New_def Let_def millisecond_def split: if_splits)

subsection \<open>What a worker relies on\<close>

definition held :: "string \<Rightarrow> int \<Rightarrow> task \<Rightarrow> bool" where
  "held owner fence t \<longleftrightarrow>
     task_Status t = StatusLeased \<and> task_LeaseOwner t = owner \<and> task_FencingToken t = fence"

text \<open>The status that one run gives to the task it claimed.\<close>

definition run_outcome :: "queue_worker \<Rightarrow> task \<Rightarrow> go_error option \<Rightarrow> task_status" where
  "run_outcome w t err =
     (case err of
        None \<Rightarrow> StatusCompleted
      | Some e \<Rightarrow>
          if (is_Canceled e \<or> is_DeadlineExceeded e \<or> isRetryable e) \<and> task_Attempts t < w_maxAttempts w
          then StatusRetryable else StatusFailed)"

locale task_store =
  fixes st :: "'s queue_store"
    and inv :: "'s \<Rightarrow> bool"
    and task_at :: "'s \<Rightarrow> string \<Rightarrow> string \<Rightarrow> task option"
  assumes now_ok: "inv s \<Longrightarrow> st_Now st s = (n, s') \<Longrightarrow> inv s' \<and> task_at s' = task_at s"
    and claim_err: "inv s \<Longrightarrow> st_Claim st c ten own d s = (Inl e, s') \<Longrightarrow> inv s' \<and> task_at s' = task_at s"
    and claim_ok: "inv s \<Longrightarrow> st_Claim st c ten own d s = (Inr t, s')
      \<Longrightarrow> inv s' \<and> task_at s' (task_TenantID t) (task_TaskID t) = Some t
          \<and> held own (task_FencingToken t) t \<and> (ten \<noteq> [] \<longrightarrow> task_TenantID t = ten)"
    and complete_err: "inv s \<Longrightarrow> st_Complete st c ten tid own f s = (Inl e, s')
      \<Longrightarrow> inv s' \<and> task_at s' = task_at s"
    and complete_ok: "inv s \<Longrightarrow> st_Complete st c ten tid own f s = (Inr t', s')
      \<Longrightarrow> inv s' \<and> task_at s' ten tid = Some t' \<and> task_Status t' = StatusCompleted
          \<and> (\<exists>t. task_at s ten tid = Some t \<and> held own f t)"
    and retry_err: "inv s \<Longrightarrow> st_Retry st c ten tid own f nxt cls s = (Inl e, s')
      \<Longrightarrow> inv s' \<and> task_at s' = task_at s"
    and retry_ok: "inv s \<Longrightarrow> st_Retry st c ten tid own f nxt cls s = (Inr t', s')
      \<Longrightarrow> inv s' \<and> task_at s' ten tid = Some t' \<and> task_Status t' = StatusRetryable
          \<and> (\<exists>t. task_at s ten tid = Some t \<and> held own f t)"
    and fail_err: "inv s \<Longrightarrow> st_Fail st c ten tid own f cls s = (Inl e, s')
      \<Longrightarrow> inv s' \<and> task_at s' = task_at s"
    and fail_ok: "inv s \<Longrightarrow> st_Fail st c ten tid own f cls s = (Inr t', s')
      \<Longrightarrow> inv s' \<and> task_at s' ten tid = Some t' \<and> task_Status t' = StatusFailed
          \<and> (\<exists>t. task_at s ten tid = Some t \<and> held own f t)"
begin

text \<open>The commit that follows the handler, on the state the handler left.\<close>

definition commits :: "queue_worker \<Rightarrow> goctx \<Rightarrow> task \<Rightarrow> go_error option \<Rightarrow> 's
    \<Rightarrow> (queue_error + task) \<times> 's" where
  "commits w c t err s =
     (if run_outcome w t err = StatusCompleted
      then st_Complete st (later 2 c) (task_TenantID t) (task_TaskID t) (w_owner w) (task_FencingToken t) s
      else if run_outcome w t err = StatusRetryable
      then st_Retry st (Some background) (task_TenantID t) (task_TaskID t) (w_owner w)
             (task_FencingToken t) (fst (st_Now st s) + worker_backoff w (task_Attempts t))
             (errorClass err) (snd (st_Now st s))
      else st_Fail st (Some background) (task_TenantID t) (task_TaskID t) (w_owner w)
             (task_FencingToken t) (errorClass err) s)"

lemma RunOnce_claimed:
  assumes "\<not> w_closed w" and "look 0 = None"
    and "st_Claim st (later 1 (Some look)) (if w_tenantID w = [] then hint else w_tenantID w)
           (w_owner w) (w_leaseDuration w) s = (Inr t, s1)"
    and "handler t s1 = (err, s2)"
  shows "worker_RunOnce st handler (Some w) (Some look) hint s =
    (case commits w (Some look) t err s2 of
       (Inl e, s3) \<Rightarrow> ((True, Some e), s3) | (Inr _, s3) \<Rightarrow> ((True, None), s3))"
  using assms
  by (cases err) (simp_all add: worker_RunOnce_def commits_def run_outcome_def Let_def
      split: prod.split)

lemma run_outcome_cases:
  obtains (completed) "run_outcome w t err = StatusCompleted"
  | (retryable) "run_outcome w t err = StatusRetryable"
  | (failed) "run_outcome w t err = StatusFailed"
proof -
  have "run_outcome w t err \<in> {StatusCompleted, StatusRetryable, StatusFailed}"
    by (auto simp: run_outcome_def split: option.split)
  then show thesis using that by blast
qed

lemma commits_err:
  assumes "inv s" and "commits w c t err s = (Inl e, s')"
  shows "inv s' \<and> task_at s' = task_at s"
proof (cases rule: run_outcome_cases [of w t err])
  case completed
  with assms show ?thesis by (intro complete_err) (auto simp: commits_def)
next
  case retryable
  have "inv (snd (st_Now st s)) \<and> task_at (snd (st_Now st s)) = task_at s"
    using now_ok [OF assms(1)] by (metis prod.collapse)
  with retryable assms(2) show ?thesis
    using retry_err [of "snd (st_Now st s)"] by (simp add: commits_def)
next
  case failed
  with assms show ?thesis by (intro fail_err) (auto simp: commits_def)
qed

lemma commits_ok:
  assumes "inv s" and "commits w c t err s = (Inr t', s')"
  shows "inv s' \<and> task_at s' (task_TenantID t) (task_TaskID t) = Some t'
    \<and> task_Status t' = run_outcome w t err
    \<and> (\<exists>t0. task_at s (task_TenantID t) (task_TaskID t) = Some t0
          \<and> held (w_owner w) (task_FencingToken t) t0)"
proof (cases rule: run_outcome_cases [of w t err])
  case completed
  with assms(2) have "st_Complete st (later 2 c) (task_TenantID t) (task_TaskID t) (w_owner w)
      (task_FencingToken t) s = (Inr t', s')"
    by (simp add: commits_def)
  from complete_ok [OF assms(1) this] completed show ?thesis by simp
next
  case retryable
  have now: "inv (snd (st_Now st s)) \<and> task_at (snd (st_Now st s)) = task_at s"
    using now_ok [OF assms(1)] by (metis prod.collapse)
  from retryable assms(2) have "st_Retry st (Some background) (task_TenantID t) (task_TaskID t)
      (w_owner w) (task_FencingToken t) (fst (st_Now st s) + worker_backoff w (task_Attempts t))
      (errorClass err) (snd (st_Now st s)) = (Inr t', s')"
    by (simp add: commits_def)
  from retry_ok [OF conjunct1 [OF now] this] now retryable show ?thesis by simp
next
  case failed
  with assms(2) have "st_Fail st (Some background) (task_TenantID t) (task_TaskID t) (w_owner w)
      (task_FencingToken t) (errorClass err) s = (Inr t', s')"
    by (simp add: commits_def)
  from fail_ok [OF assms(1) this] failed show ?thesis by simp
qed

text \<open>
  A run that reports success committed the outcome that the handler's error calls for, on a
  task that was still leased to this worker under the token of its claim.
\<close>

lemma RunOnce_success:
  assumes "inv s" and keeps: "\<And>t s. inv s \<Longrightarrow> inv (snd (handler t s))"
    and run: "worker_RunOnce st handler (Some w) (Some look) hint s = ((True, None), s3)"
  shows "\<exists>t s1 err s2 t2 t3.
     st_Claim st (later 1 (Some look)) (if w_tenantID w = [] then hint else w_tenantID w)
       (w_owner w) (w_leaseDuration w) s = (Inr t, s1)
     \<and> task_at s1 (task_TenantID t) (task_TaskID t) = Some t
     \<and> held (w_owner w) (task_FencingToken t) t \<and> handler t s1 = (err, s2)
     \<and> task_at s2 (task_TenantID t) (task_TaskID t) = Some t2
     \<and> held (w_owner w) (task_FencingToken t) t2
     \<and> task_at s3 (task_TenantID t) (task_TaskID t) = Some t3
     \<and> task_Status t3 = run_outcome w t err \<and> inv s3"
proof -
  let ?ten = "if w_tenantID w = [] then hint else w_tenantID w"
  let ?cl = "st_Claim st (later 1 (Some look)) ?ten (w_owner w) (w_leaseDuration w) s"
  from run have open_: "\<not> w_closed w" "look 0 = None"
    by (auto simp: worker_RunOnce_def split: option.splits if_splits)
  obtain r s1 where cl: "?cl = (r, s1)" by fastforce
  with run open_ obtain t where r: "r = Inr t"
    by (cases r) (auto simp: worker_RunOnce_def)
  obtain err s2 where h: "handler t s1 = (err, s2)" by fastforce
  note claim = claim_ok [OF assms(1) cl [unfolded r]]
  have inv2: "inv s2" using keeps [of s1 t] claim h by simp
  have "(case commits w (Some look) t err s2 of
       (Inl e, s3) \<Rightarrow> ((True, Some e), s3) | (Inr _, s3) \<Rightarrow> ((True, None), s3)) = ((True, None), s3)"
    using RunOnce_claimed [where handler = handler, OF open_ cl [unfolded r] h] run by simp
  then obtain t' where "commits w (Some look) t err s2 = (Inr t', s3)"
    by (auto split: prod.splits sum.splits)
  from commits_ok [OF inv2 this] claim h cl [unfolded r] show ?thesis by blast
qed

text \<open>
  A worker that lost its lease while the handler ran reports an error and leaves the tasks as
  the others left them.
\<close>

lemma RunOnce_lost_lease:
  assumes "inv s" and open_: "\<not> w_closed w" "look 0 = None"
    and cl: "st_Claim st (later 1 (Some look)) (if w_tenantID w = [] then hint else w_tenantID w)
           (w_owner w) (w_leaseDuration w) s = (Inr t, s1)"
    and h: "handler t s1 = (err, s2)" and inv2: "inv s2"
    and lost: "\<And>t2. task_at s2 (task_TenantID t) (task_TaskID t) = Some t2
       \<Longrightarrow> \<not> held (w_owner w) (task_FencingToken t) t2"
  shows "\<exists>e s3. worker_RunOnce st handler (Some w) (Some look) hint s = ((True, Some e), s3)
    \<and> task_at s3 = task_at s2"
proof -
  obtain r s3 where c: "commits w (Some look) t err s2 = (r, s3)" by fastforce
  from lost commits_ok [OF inv2] c obtain e where r: "r = Inl e" by (cases r) blast+
  from commits_err [OF inv2] c r have "task_at s3 = task_at s2" by blast
  then show ?thesis
    using RunOnce_claimed [where handler = handler, OF open_ cl h] c r by simp
qed

end

subsection \<open>The in-memory store behind the interface\<close>

text \<open>
  The world of a process: the backend and the readings of the clock, of which \<open>qw_reads\<close> have
  been taken.
\<close>

record queue_world =
  qw_backend :: queue_backend
  qw_clock :: "nat \<Rightarrow> instant"
  qw_reads :: nat

definition qw_now :: "queue_world \<Rightarrow> instant \<times> queue_world" where
  "qw_now s = (qw_clock s (qw_reads s), s\<lparr>qw_reads := Suc (qw_reads s)\<rparr>)"

definition on_backend :: "(queue_backend \<Rightarrow> 'r \<times> queue_backend) \<Rightarrow> queue_world \<Rightarrow> 'r \<times> queue_world" where
  "on_backend f s = (case f (qw_backend s) of (r, b) \<Rightarrow> (r, s\<lparr>qw_backend := b\<rparr>))"

definition memory_store :: "queue_world queue_store" where
  "memory_store =
     \<lparr>st_Now = qw_now,
      st_Claim = (\<lambda>c ten own d s. case qw_now s of (n, s) \<Rightarrow> on_backend (queue_Claim c ten own d n) s),
      st_Complete = (\<lambda>c ten tid own f s. case qw_now s of (n1, s) \<Rightarrow> case qw_now s of (n2, s) \<Rightarrow>
         on_backend (queue_Complete c ten tid own f n1 n2) s),
      st_Retry = (\<lambda>c ten tid own f nxt cls s. case qw_now s of (n1, s) \<Rightarrow> case qw_now s of (n2, s) \<Rightarrow>
         on_backend (queue_Retry c ten tid own f nxt cls n1 n2) s),
      st_Fail = (\<lambda>c ten tid own f cls s. case qw_now s of (n1, s) \<Rightarrow> case qw_now s of (n2, s) \<Rightarrow>
         on_backend (queue_Fail c ten tid own f cls n1 n2) s)\<rparr>"

definition world_ok :: "queue_world \<Rightarrow> bool" where
  "world_ok s \<longleftrightarrow> queue_ok (qw_backend s)"

definition world_task :: "queue_world \<Rightarrow> string \<Rightarrow> string \<Rightarrow> task option" where
  "world_task s ten tid = get (q_tasks (qw_backend s)) (queue_key ten tid)"

lemmas memory_store_defs =
  memory_store_def qw_now_def world_ok_def world_task_def

lemma transition_held: "transition_allowed own f now t \<Longrightarrow> held own f t"
  by (simp add: transition_allowed_def held_def)

lemma queue_transition_refused:
  assumes "queue_transition c ten tid own f status cls nxt n1 n2 b = (Inl e, b')"
  shows "b' = b"
  using assms by (cases rule: queue_transition_cases) auto

lemma queue_transition_done:
  assumes "queue_transition c ten tid own f status cls nxt n1 n2 b = (Inr t', b')"
  shows "get (q_tasks b') (queue_key ten tid) = Some t' \<and> task_Status t' = status
    \<and> (\<exists>t. get (q_tasks b) (queue_key ten tid) = Some t \<and> held own f t)"
  using assms
  by (cases rule: queue_transition_cases) (auto simp: transition_task_def transition_held)

lemma queue_finish_done:
  "queue_Complete c ten tid own f n1 n2 b = (Inr t', b') \<Longrightarrow> queue_ok b \<Longrightarrow> queue_ok b'
     \<and> get (q_tasks b') (queue_key ten tid) = Some t' \<and> task_Status t' = StatusCompleted
     \<and> (\<exists>t. get (q_tasks b) (queue_key ten tid) = Some t \<and> held own f t)"
  "queue_Retry c ten tid own f nxt cls n1 n2 b = (Inr t', b') \<Longrightarrow> queue_ok b \<Longrightarrow> queue_ok b'
     \<and> get (q_tasks b') (queue_key ten tid) = Some t' \<and> task_Status t' = StatusRetryable
     \<and> (\<exists>t. get (q_tasks b) (queue_key ten tid) = Some t \<and> held own f t)"
  "queue_Fail c ten tid own f cls n1 n2 b = (Inr t', b') \<Longrightarrow> queue_ok b \<Longrightarrow> queue_ok b'
     \<and> get (q_tasks b') (queue_key ten tid) = Some t' \<and> task_Status t' = StatusFailed
     \<and> (\<exists>t. get (q_tasks b) (queue_key ten tid) = Some t \<and> held own f t)"
  using queue_step_ok [OF queue_step.complete] queue_step_ok [OF queue_step.retry]
    queue_step_ok [OF queue_step.fail] queue_transition_done
  by (simp_all add: queue_Complete_def queue_Retry_def queue_Fail_def)

lemma queue_finish_refused:
  "queue_Complete c ten tid own f n1 n2 b = (Inl e, b') \<Longrightarrow> b' = b"
  "queue_Retry c ten tid own f nxt cls n1 n2 b = (Inl e, b') \<Longrightarrow> b' = b"
  "queue_Fail c ten tid own f cls n1 n2 b = (Inl e, b') \<Longrightarrow> b' = b"
  by (simp_all add: queue_Complete_def queue_Retry_def queue_Fail_def queue_transition_refused)

lemma queue_Claim_refused:
  assumes "queue_Claim c ten own d now b = (Inl e, b')" and "queue_ok b"
  shows "b' = b"
  using assms(1) queue_okD(1) [OF assms(2)] by (cases rule: queue_Claim_cases) auto

lemma queue_Claim_done:
  assumes "queue_Claim c ten own d now b = (Inr t', b')" and "queue_ok b"
  shows "queue_ok b' \<and> get (q_tasks b') (queue_key (task_TenantID t') (task_TaskID t')) = Some t'
    \<and> held own (task_FencingToken t') t' \<and> (ten \<noteq> [] \<longrightarrow> task_TenantID t' = ten)"
  using assms(1) queue_okD(1) [OF assms(2)]
proof (cases rule: queue_Claim_cases)
  case (leased k t)
  from queue_okD(3) [OF assms(2) leased(3)] leased queue_step_ok [OF queue_step.claim, OF assms]
  show ?thesis by (auto simp: claim_lease_def held_def claim_eligible_def)
qed simp

lemma on_backendE:
  assumes "on_backend f s = (r, s')"
  obtains b where "f (qw_backend s) = (r, b)" "s' = s\<lparr>qw_backend := b\<rparr>"
  using assms by (auto simp: on_backend_def split: prod.splits)

interpretation mem: task_store memory_store world_ok world_task
proof
  fix s :: queue_world and s' n
  assume "world_ok s" "st_Now memory_store s = (n, s')"
  then show "world_ok s' \<and> world_task s' = world_task s"
    by (auto simp: memory_store_defs fun_eq_iff)
next
  fix s :: queue_world and s' c ten own d e
  assume "world_ok s" "st_Claim memory_store c ten own d s = (Inl e, s')"
  then show "world_ok s' \<and> world_task s' = world_task s"
    by (auto simp: memory_store_defs fun_eq_iff elim!: on_backendE dest: queue_Claim_refused)
next
  fix s :: queue_world and s' c ten own d t
  assume "world_ok s" "st_Claim memory_store c ten own d s = (Inr t, s')"
  then show "world_ok s' \<and> world_task s' (task_TenantID t) (task_TaskID t) = Some t
      \<and> held own (task_FencingToken t) t \<and> (ten \<noteq> [] \<longrightarrow> task_TenantID t = ten)"
    by (auto simp: memory_store_defs elim!: on_backendE dest: queue_Claim_done)
next
  fix s :: queue_world and s' c ten tid own f e
  assume "world_ok s" "st_Complete memory_store c ten tid own f s = (Inl e, s')"
  then show "world_ok s' \<and> world_task s' = world_task s"
    by (auto simp: memory_store_defs fun_eq_iff elim!: on_backendE dest: queue_finish_refused)
next
  fix s :: queue_world and s' c ten tid own f t'
  assume "world_ok s" "st_Complete memory_store c ten tid own f s = (Inr t', s')"
  then show "world_ok s' \<and> world_task s' ten tid = Some t' \<and> task_Status t' = StatusCompleted
      \<and> (\<exists>t. world_task s ten tid = Some t \<and> held own f t)"
    by (auto simp: memory_store_defs elim!: on_backendE dest: queue_finish_done(1))
next
  fix s :: queue_world and s' c ten tid own f nxt cls e
  assume "world_ok s" "st_Retry memory_store c ten tid own f nxt cls s = (Inl e, s')"
  then show "world_ok s' \<and> world_task s' = world_task s"
    by (auto simp: memory_store_defs fun_eq_iff elim!: on_backendE dest: queue_finish_refused)
next
  fix s :: queue_world and s' c ten tid own f nxt cls t'
  assume "world_ok s" "st_Retry memory_store c ten tid own f nxt cls s = (Inr t', s')"
  then show "world_ok s' \<and> world_task s' ten tid = Some t' \<and> task_Status t' = StatusRetryable
      \<and> (\<exists>t. world_task s ten tid = Some t \<and> held own f t)"
    by (auto simp: memory_store_defs elim!: on_backendE dest: queue_finish_done(2))
next
  fix s :: queue_world and s' c ten tid own f cls e
  assume "world_ok s" "st_Fail memory_store c ten tid own f cls s = (Inl e, s')"
  then show "world_ok s' \<and> world_task s' = world_task s"
    by (auto simp: memory_store_defs fun_eq_iff elim!: on_backendE dest: queue_finish_refused)
next
  fix s :: queue_world and s' c ten tid own f cls t'
  assume "world_ok s" "st_Fail memory_store c ten tid own f cls s = (Inr t', s')"
  then show "world_ok s' \<and> world_task s' ten tid = Some t' \<and> task_Status t' = StatusFailed
      \<and> (\<exists>t. world_task s ten tid = Some t \<and> held own f t)"
    by (auto simp: memory_store_defs elim!: on_backendE dest: queue_finish_done(3))
qed

subsection \<open>Properties of the worker\<close>

text \<open>A worker and a handler for the examples.\<close>

definition demo_config :: "queue_world queue_config" where
  "demo_config = \<lparr>cfg_Store = Some memory_store, cfg_Handler = Some (\<lambda>t s. (None, s)),
     cfg_TenantID = ''t'', cfg_Owner = ''w1'', cfg_LeaseDuration = 10, cfg_PollInterval = 0,
     cfg_MaxAttempts = 0, cfg_BackoffBase = 4, cfg_BackoffMax = 100\<rparr>"

definition demo_worker :: queue_worker where
  "demo_worker = projr (worker_New demo_config)"

definition demo_world :: queue_world where
  "demo_world = \<lparr>qw_backend = demo_queued, qw_clock = (\<lambda>i. 2 + int i), qw_reads = 0\<rparr>"

definition demo_overtaken :: "queue_world queue_handler" where
  "demo_overtaken t s =
     (None, s\<lparr>qw_backend := snd (queue_Claim (Some background) ''t'' ''w2'' 10 20 (qw_backend s))\<rparr>)"

text \<open>
  C7: what a successful run of the worker means. On a reachable store, with other workers using
  the store freely while the handler runs, a run that reports a task done without error claimed
  this task in the state it started from, ran the handler on the claimed task in the state the
  claim left, and still held the lease under the token of that claim in the state the handler
  left; in the state the run ends with, the task has the outcome that the handler's error calls
  for: completed, retryable while attempts are left, or failed.
\<close>

theorem worker_RunOnce_commits:
  assumes "queue_reachable (qw_backend s)"
    and "\<And>t s. queue_step\<^sup>*\<^sup>* (qw_backend s) (qw_backend (snd (handler t s)))"
    and "worker_RunOnce memory_store handler (Some w) (Some look) hint s = ((True, None), s3)"
  shows "\<exists>t s1 err s2 t2 t3.
     st_Claim memory_store (later 1 (Some look)) (if w_tenantID w = [] then hint else w_tenantID w)
       (w_owner w) (w_leaseDuration w) s = (Inr t, s1)
     \<and> get (q_tasks (qw_backend s1)) (queue_key (task_TenantID t) (task_TaskID t)) = Some t
     \<and> held (w_owner w) (task_FencingToken t) t \<and> handler t s1 = (err, s2)
     \<and> get (q_tasks (qw_backend s2)) (queue_key (task_TenantID t) (task_TaskID t)) = Some t2
     \<and> held (w_owner w) (task_FencingToken t) t2
     \<and> get (q_tasks (qw_backend s3)) (queue_key (task_TenantID t) (task_TaskID t)) = Some t3
     \<and> task_Status t3 = run_outcome w t err"
proof -
  have "world_ok s" using queue_reachable_ok [OF assms(1)] by (simp add: world_ok_def)
  moreover have "world_ok (snd (handler t s))" if "world_ok s" for t s
    using ok_star [OF assms(2)] that by (simp add: world_ok_def)
  ultimately show ?thesis
    using mem.RunOnce_success [of s handler w look hint s3] assms(3)
    unfolding world_task_def by blast
qed

theorem worker_RunOnce_commits_witness:
  "\<exists>s3 k t3. worker_RunOnce memory_store (\<lambda>t s. (None, s)) (Some demo_worker) (Some background) [] demo_world
      = ((True, None), s3)
    \<and> get (q_tasks (qw_backend s3)) k = Some t3 \<and> task_Status t3 = StatusCompleted"
proof -
  let ?r = "worker_RunOnce memory_store (\<lambda>t s. (None, s)) (Some demo_worker) (Some background) [] demo_world"
  have "fst ?r = (True, None)" by code_simp
  then have r: "?r = ((True, None), snd ?r)" by (metis prod.collapse)
  have "queue_reachable (qw_backend demo_world)" using demo_reachable(1) by (simp add: demo_world_def)
  from worker_RunOnce_commits [OF this _ r] r show ?thesis
    by (fastforce simp: run_outcome_def)
qed

text \<open>
  C8: a worker that was overtaken does no harm. If the task was claimed by somebody else while
  the handler ran, so that it carries another token or another owner, the run reports an error
  and every task stays as the others left it, whatever the handler returned.
\<close>

theorem worker_RunOnce_overtaken:
  assumes "queue_reachable (qw_backend s)" and "\<not> w_closed w" and "look 0 = None"
    and "st_Claim memory_store (later 1 (Some look)) (if w_tenantID w = [] then hint else w_tenantID w)
           (w_owner w) (w_leaseDuration w) s = (Inr t, s1)"
    and "handler t s1 = (err, s2)" and "queue_step\<^sup>*\<^sup>* (qw_backend s1) (qw_backend s2)"
    and "\<And>t2. get (q_tasks (qw_backend s2)) (queue_key (task_TenantID t) (task_TaskID t)) = Some t2
       \<Longrightarrow> task_FencingToken t2 \<noteq> task_FencingToken t \<or> task_LeaseOwner t2 \<noteq> w_owner w"
  shows "\<exists>e s3. worker_RunOnce memory_store handler (Some w) (Some look) hint s = ((True, Some e), s3)
    \<and> (\<forall>tenantID taskID. get (q_tasks (qw_backend s3)) (queue_key tenantID taskID)
         = get (q_tasks (qw_backend s2)) (queue_key tenantID taskID))"
proof -
  have ok: "world_ok s" using queue_reachable_ok [OF assms(1)] by (simp add: world_ok_def)
  have "world_ok s1" using mem.claim_ok [OF ok assms(4)] by blast
  then have "world_ok s2" using ok_star [OF assms(6)] by (simp add: world_ok_def)
  moreover have "\<not> held (w_owner w) (task_FencingToken t) t2"
    if "world_task s2 (task_TenantID t) (task_TaskID t) = Some t2" for t2
    using assms(7) [of t2] that by (auto simp: world_task_def held_def)
  ultimately show ?thesis
    using mem.RunOnce_lost_lease [where handler = handler, OF ok assms(2-5)] by (auto simp: world_task_def fun_eq_iff)
qed

theorem worker_RunOnce_overtaken_witness:
  "\<exists>e s3. worker_RunOnce memory_store demo_overtaken (Some demo_worker) (Some background) [] demo_world
     = ((True, Some e), s3)"
proof -
  let ?c = "st_Claim memory_store (later 1 (Some background))
      (if w_tenantID demo_worker = [] then [] else w_tenantID demo_worker)
      (w_owner demo_worker) (w_leaseDuration demo_worker) demo_world"
  let ?s1 = "snd ?c"
  have t: "fst ?c = Inr (demo_task ''w1'' 1 2)" "qw_backend ?s1 = demo_leased" by code_simp+
  then have c: "?c = (Inr (demo_task ''w1'' 1 2), ?s1)" by (metis prod.collapse)
  have h: "demo_overtaken (demo_task ''w1'' 1 2) ?s1 = (None, ?s1\<lparr>qw_backend := demo_taken\<rparr>)"
    unfolding demo_overtaken_def t(2) by (simp add: demo_taken_def)
  have "get (q_tasks demo_taken) (queue_key ''t'' ''j'') = Some (demo_task ''w2'' 2 20)" by code_simp
  then show ?thesis
    using worker_RunOnce_overtaken [where handler = demo_overtaken, OF _ _ _ c h] demo_reachable(1) t(2)
      r_into_rtranclp [of queue_step, OF queue_step.claim [OF demo_claims(2)]]
    by (auto simp: demo_world_def demo_task_def demo_worker_def demo_config_def worker_New_def)
qed

text \<open>
  C9: retry delays. A worker that was constructed waits between its base and its maximum
  before every retry, never less for a later attempt than for an earlier one; the first delay
  is the base and no doubling overflows: on an even maximum the delay is the base doubled per
  attempt, cut at the maximum.
\<close>

theorem worker_backoff_correct:
  assumes "worker_New config = Inr w" and "in_int64 (w_backoffMax w)" and "1 \<le> attempt"
  shows "w_backoffBase w \<le> worker_backoff w attempt \<and> worker_backoff w attempt \<le> w_backoffMax w
    \<and> worker_backoff w attempt \<le> worker_backoff w (attempt + 1)
    \<and> worker_backoff w 1 = w_backoffBase w
    \<and> (even (w_backoffMax w)
        \<longrightarrow> worker_backoff w attempt = min (w_backoffBase w * 2 ^ nat (attempt - 1)) (w_backoffMax w))"
proof -
  from worker_New_ok [OF assms(1)] assms(2)
  have d: "0 < w_backoffBase w" "w_backoffBase w \<le> w_backoffMax w" "w_backoffMax w < 2 ^ 63"
    by (simp_all add: in_int64_def)
  have "nat (attempt + 1 - 1) = Suc (nat (attempt - 1))" using assms(3) by simp
  then show ?thesis
    using backoff_loop_bounds [OF d] backoff_loop_step [OF d] backoff_loop_closed [OF d] d
    by (simp only: worker_backoff_def) simp
qed

theorem worker_backoff_correct_witness:
  "worker_backoff demo_worker 3 = 16 \<and> worker_backoff demo_worker 9 = 100"
proof -
  have w: "worker_New demo_config = Inr demo_worker" "w_backoffMax demo_worker = 100"
    "w_backoffBase demo_worker = 4"
    by code_simp+
  show ?thesis
    using worker_backoff_correct [OF w(1), of 3] worker_backoff_correct [OF w(1), of 9]
    by (simp add: w(2,3) in_int64_def)
qed

end
