(* ===== verification/RW_Mutex.thy ===== *)
theory RW_Mutex
  imports Prelude
begin

text \<open>
  The cancellable reader/writer lock of the in-memory repositories
  (\<^verbatim>\<open>tenant/inmemory/rwmutex.go\<close>; the repositories of agents, models, backends and channels
  carry the same algorithm). The fields are guarded by a plain mutex, so the code between
  \<^verbatim>\<open>state.Lock\<close> and \<^verbatim>\<open>state.Unlock\<close> is one atomic section; a thread that has to wait remembers
  the notification channel it saw and is woken when that channel is closed.

  Channels are numbered in the order of their creation. A channel is open while it is the
  current one and closed from then on, because \<^verbatim>\<open>wakeLocked\<close> closes the current channel and
  creates the next. An atomic section that panics, or that would wait for a channel that was
  never made, has the value \<open>None\<close>.
\<close>

subsection \<open>The atomic sections\<close>

record rw_mutex =
  rw_readers :: int
  rw_writer :: bool
  rw_waitingWriters :: int
  rw_notify :: "nat option"
  rw_made :: nat

definition rw_new :: rw_mutex where
  "rw_new = \<lparr>rw_readers = 0, rw_writer = False, rw_waitingWriters = 0, rw_notify = None, rw_made = 0\<rparr>"

definition rw_make :: "rw_mutex \<Rightarrow> rw_mutex" where
  "rw_make m = m\<lparr>rw_notify := Some (rw_made m), rw_made := Suc (rw_made m)\<rparr>"

definition initLocked :: "rw_mutex \<Rightarrow> rw_mutex" where
  "initLocked m = (if rw_notify m = None then rw_make m else m)"

text \<open>Closing the nil channel panics.\<close>

definition wakeLocked :: "rw_mutex \<Rightarrow> rw_mutex option" where
  "wakeLocked m = (case rw_notify m of None \<Rightarrow> None | Some _ \<Rightarrow> Some (rw_make m))"

datatype lock_outcome = Refused ctx_error | Acquired | Wait nat

text \<open>One turn of the loop of \<^verbatim>\<open>lock\<close>, with what the look at the context reports.\<close>

definition lock_turn :: "ctx_error option \<Rightarrow> rw_mutex \<Rightarrow> (lock_outcome \<times> rw_mutex) option" where
  "lock_turn err m =
     (case err of
        Some e \<Rightarrow> map_option (\<lambda>m'. (Refused e, m')) (wakeLocked (m\<lparr>rw_waitingWriters := rw_waitingWriters m - 1\<rparr>))
      | None \<Rightarrow>
          if \<not> rw_writer m \<and> rw_readers m = 0
          then Some (Acquired, m\<lparr>rw_writer := True, rw_waitingWriters := rw_waitingWriters m - 1\<rparr>)
          else (case rw_notify m of None \<Rightarrow> None | Some ch \<Rightarrow> Some (Wait ch, m)))"

definition lock_enter :: "ctx_error option \<Rightarrow> rw_mutex \<Rightarrow> (lock_outcome \<times> rw_mutex) option" where
  "lock_enter err m =
     (let m = initLocked m in lock_turn err (m\<lparr>rw_waitingWriters := rw_waitingWriters m + 1\<rparr>))"

definition lock_woken :: "ctx_error option \<Rightarrow> rw_mutex \<Rightarrow> (lock_outcome \<times> rw_mutex) option" where
  "lock_woken err m = lock_turn err (initLocked m)"

definition lock_cancel :: "rw_mutex \<Rightarrow> rw_mutex option" where
  "lock_cancel m = wakeLocked (m\<lparr>rw_waitingWriters := rw_waitingWriters m - 1\<rparr>)"

definition rw_unlock :: "rw_mutex \<Rightarrow> rw_mutex option" where
  "rw_unlock m = (if \<not> rw_writer m then None else wakeLocked (m\<lparr>rw_writer := False\<rparr>))"

definition rlock_turn :: "ctx_error option \<Rightarrow> rw_mutex \<Rightarrow> (lock_outcome \<times> rw_mutex) option" where
  "rlock_turn err m =
     (case err of
        Some e \<Rightarrow> Some (Refused e, m)
      | None \<Rightarrow>
          if \<not> rw_writer m \<and> rw_waitingWriters m = 0
          then Some (Acquired, m\<lparr>rw_readers := rw_readers m + 1\<rparr>)
          else (case rw_notify m of None \<Rightarrow> None | Some ch \<Rightarrow> Some (Wait ch, m)))"

definition rlock_section :: "ctx_error option \<Rightarrow> rw_mutex \<Rightarrow> (lock_outcome \<times> rw_mutex) option" where
  "rlock_section err m = rlock_turn err (initLocked m)"

definition rw_runlock :: "rw_mutex \<Rightarrow> rw_mutex option" where
  "rw_runlock m =
     (if rw_readers m = 0 then None
      else
        (let m = m\<lparr>rw_readers := rw_readers m - 1\<rparr>
         in if rw_readers m = 0 then wakeLocked m else Some m))"

subsection \<open>Threads\<close>

text \<open>
  Where a thread is between two atomic sections: outside, waiting for a channel in \<^verbatim>\<open>lock\<close> or
  \<^verbatim>\<open>rlock\<close>, past the wait with the channel closed or the context ended, or holding the lock.
\<close>

datatype rw_pc = Outside | WWait nat | WWoken | WCancel | WHold | RWait nat | RWoken | RHold

definition after_lock :: "lock_outcome \<Rightarrow> rw_pc" where
  "after_lock out = (case out of Refused _ \<Rightarrow> Outside | Acquired \<Rightarrow> WHold | Wait ch \<Rightarrow> WWait ch)"

definition after_rlock :: "lock_outcome \<Rightarrow> rw_pc" where
  "after_rlock out = (case out of Refused _ \<Rightarrow> Outside | Acquired \<Rightarrow> RHold | Wait ch \<Rightarrow> RWait ch)"

definition ch_closed :: "rw_mutex \<Rightarrow> nat \<Rightarrow> bool" where
  "ch_closed m ch \<longleftrightarrow> rw_notify m \<noteq> Some ch"

text \<open>One thread moves from one place to the next and changes the lock.\<close>

inductive rw_move :: "rw_mutex \<Rightarrow> rw_pc \<Rightarrow> rw_mutex \<Rightarrow> rw_pc \<Rightarrow> bool" where
  lock: "lock_enter err m = Some (out, m') \<Longrightarrow> rw_move m Outside m' (after_lock out)"
| lock_wake: "ch_closed m ch \<Longrightarrow> rw_move m (WWait ch) m WWoken"
| lock_ended: "rw_move m (WWait ch) m WCancel"
| lock_again: "lock_woken err m = Some (out, m') \<Longrightarrow> rw_move m WWoken m' (after_lock out)"
| lock_give_up: "lock_cancel m = Some m' \<Longrightarrow> rw_move m WCancel m' Outside"
| unlock: "rw_unlock m = Some m' \<Longrightarrow> rw_move m WHold m' Outside"
| rlock: "rlock_section err m = Some (out, m') \<Longrightarrow> rw_move m Outside m' (after_rlock out)"
| rlock_wake: "ch_closed m ch \<Longrightarrow> rw_move m (RWait ch) m RWoken"
| rlock_ended: "rw_move m (RWait ch) m Outside"
| rlock_again: "rlock_section err m = Some (out, m') \<Longrightarrow> rw_move m RWoken m' (after_rlock out)"
| runlock: "rw_runlock m = Some m' \<Longrightarrow> rw_move m RHold m' Outside"

inductive rw_reachable :: "rw_mutex \<Rightarrow> rw_pc list \<Rightarrow> bool" where
  start: "rw_reachable rw_new (replicate n Outside)"
| step: "rw_reachable m pcs \<Longrightarrow> i < length pcs \<Longrightarrow> rw_move m (pcs ! i) m' pc'
    \<Longrightarrow> rw_reachable m' (pcs[i := pc'])"

subsection \<open>The invariant\<close>

definition occ :: "(rw_pc \<Rightarrow> bool) \<Rightarrow> rw_pc list \<Rightarrow> int" where
  "occ P pcs = int (length (filter P pcs))"

definition waiting_writer :: "rw_pc \<Rightarrow> bool" where
  "waiting_writer pc = (case pc of WWait _ \<Rightarrow> True | WWoken \<Rightarrow> True | WCancel \<Rightarrow> True | _ \<Rightarrow> False)"

lemma waiting_writer_simps [simp]:
  "waiting_writer (WWait ch)" "waiting_writer WWoken" "waiting_writer WCancel"
  "\<not> waiting_writer Outside" "\<not> waiting_writer WHold" "\<not> waiting_writer (RWait ch)"
  "\<not> waiting_writer RWoken" "\<not> waiting_writer RHold"
  by (simp_all add: waiting_writer_def)

lemma occ_update:
  "i < length pcs \<Longrightarrow> occ P (pcs[i := x]) = occ P pcs - of_bool (P (pcs ! i)) + of_bool (P x)"
proof (induction pcs arbitrary: i)
  case (Cons pc pcs)
  then show ?case by (cases i) (auto simp: occ_def)
qed simp

lemma occ_pos: "0 < occ P pcs \<longleftrightarrow> (\<exists>pc \<in> set pcs. P pc)"
  by (auto simp: occ_def filter_empty_conv)

lemma occ_zero: "occ P pcs = 0 \<longleftrightarrow> (\<forall>pc \<in> set pcs. \<not> P pc)"
  by (auto simp: occ_def filter_empty_conv)

lemma occ_nonneg: "0 \<le> occ P pcs"
  by (simp add: occ_def)

text \<open>The counters count the threads, and the lock is held by one writer or by readers.\<close>

definition rw_counts :: "rw_mutex \<Rightarrow> rw_pc list \<Rightarrow> bool" where
  "rw_counts m pcs \<longleftrightarrow>
     occ (\<lambda>pc. pc = WHold) pcs = of_bool (rw_writer m)
     \<and> occ (\<lambda>pc. pc = RHold) pcs = rw_readers m
     \<and> occ waiting_writer pcs = rw_waitingWriters m
     \<and> (rw_writer m \<longrightarrow> rw_readers m = 0)"

text \<open>Channels: none is used before it is made, and who waits for the open one has a reason to.\<close>

definition may_wait :: "rw_mutex \<Rightarrow> rw_pc \<Rightarrow> bool" where
  "may_wait m pc =
     (case pc of
        Outside \<Rightarrow> True
      | WWait ch \<Rightarrow> ch < rw_made m \<and> rw_notify m \<noteq> None
          \<and> (rw_notify m = Some ch \<longrightarrow> rw_writer m \<or> 0 < rw_readers m)
      | RWait ch \<Rightarrow> ch < rw_made m \<and> rw_notify m \<noteq> None
          \<and> (rw_notify m = Some ch \<longrightarrow> rw_writer m \<or> 0 < rw_waitingWriters m)
      | _ \<Rightarrow> rw_notify m \<noteq> None)"

definition rw_inv :: "rw_mutex \<Rightarrow> rw_pc list \<Rightarrow> bool" where
  "rw_inv m pcs \<longleftrightarrow> rw_counts m pcs \<and> (\<forall>pc \<in> set pcs. may_wait m pc)
     \<and> (case rw_notify m of None \<Rightarrow> True | Some ch \<Rightarrow> ch < rw_made m)"

lemmas rw_section_defs =
  lock_enter_def lock_woken_def lock_turn_def lock_cancel_def rw_unlock_def rlock_section_def
  rlock_turn_def rw_runlock_def wakeLocked_def initLocked_def rw_make_def after_lock_def after_rlock_def

lemma rw_counts_move:
  assumes "rw_move m (pcs ! i) m' pc'" and "rw_counts m pcs" and "i < length pcs"
  shows "rw_counts m' (pcs[i := pc'])"
proof -
  have "of_bool (rw_writer m') = of_bool (rw_writer m) - of_bool (pcs ! i = WHold) + (of_bool (pc' = WHold) :: int)
      \<and> rw_readers m' = rw_readers m - of_bool (pcs ! i = RHold) + of_bool (pc' = RHold)
      \<and> rw_waitingWriters m' = rw_waitingWriters m - of_bool (waiting_writer (pcs ! i)) + of_bool (waiting_writer pc')
      \<and> (rw_writer m' \<longrightarrow> pc' \<noteq> RHold \<and> (rw_writer m \<or> rw_readers m = 0))"
    using assms(1)
    by (cases; auto simp: rw_section_defs Let_def split: if_splits option.splits)
  moreover have "pcs ! i = RHold \<Longrightarrow> 0 < occ (\<lambda>pc. pc = RHold) pcs"
    using nth_mem [OF assms(3)] by (auto simp: occ_pos)
  ultimately show ?thesis
    using assms(2,3) occ_nonneg [of "\<lambda>pc. pc = RHold" pcs] unfolding rw_counts_def by (auto simp: occ_update)
qed

lemma may_wait_others:
  assumes "rw_move m pc0 m' pc1" and "may_wait m pc" and "rw_notify m = Some ch0 \<Longrightarrow> ch0 < rw_made m"
    and "0 \<le> rw_readers m" and "pc0 = RHold \<Longrightarrow> 0 < rw_readers m" and "0 \<le> rw_waitingWriters m"
  shows "may_wait m' pc"
  using assms
  by (cases; cases pc)
     (auto simp: rw_section_defs may_wait_def Let_def split: if_splits option.splits)

lemma may_wait_self:
  assumes "rw_move m pc0 m' pc1" and "may_wait m pc0" and "\<And>ch. rw_notify m = Some ch \<Longrightarrow> ch < rw_made m"
    and "0 \<le> rw_readers m" and "0 \<le> rw_waitingWriters m"
  shows "may_wait m' pc1 \<and> (case rw_notify m' of None \<Rightarrow> True | Some ch \<Rightarrow> ch < rw_made m')"
  using assms
  by cases (auto simp: rw_section_defs may_wait_def Let_def less_Suc_eq split: if_splits option.splits)

lemma rw_inv_move:
  assumes "rw_move m (pcs ! i) m' pc'" and inv: "rw_inv m pcs" and i: "i < length pcs"
  shows "rw_inv m' (pcs[i := pc'])"
proof -
  have counts: "rw_counts m pcs" and waits: "\<And>pc. pc \<in> set pcs \<Longrightarrow> may_wait m pc"
    and made: "\<And>ch. rw_notify m = Some ch \<Longrightarrow> ch < rw_made m"
    using inv by (auto simp: rw_inv_def)
  have r: "0 \<le> rw_readers m" "0 \<le> rw_waitingWriters m" "pcs ! i = RHold \<Longrightarrow> 0 < rw_readers m"
    using counts occ_nonneg occ_pos [of "\<lambda>pc. pc = RHold" pcs] nth_mem [OF i]
    unfolding rw_counts_def by (metis, metis, metis)
  have "may_wait m' pc" if "pc \<in> set pcs" for pc
    by (rule may_wait_others [OF assms(1) waits [OF that] made r(1,3,2)])
  moreover note may_wait_self [OF assms(1) waits [OF nth_mem [OF i]] made r(1,2)]
  ultimately show ?thesis
    using rw_counts_move [OF assms(1) counts i] set_update_subset_insert [of pcs i pc']
    unfolding rw_inv_def by blast
qed

lemma rw_reachable_inv: "rw_reachable m pcs \<Longrightarrow> rw_inv m pcs"
proof (induction rule: rw_reachable.induct)
  case (start n)
  show ?case by (auto simp: rw_inv_def rw_counts_def rw_new_def may_wait_def occ_def)
next
  case (step m pcs i m' pc')
  then show ?case by (blast intro: rw_inv_move)
qed

subsection \<open>Properties\<close>

text \<open>Three threads for the examples: a writer that holds the lock and two that wait.\<close>

definition demo_lock :: rw_mutex where
  "demo_lock = \<lparr>rw_readers = 0, rw_writer = True, rw_waitingWriters = 1, rw_notify = Some 0, rw_made = 1\<rparr>"

definition demo_unlocked :: rw_mutex where
  "demo_unlocked = \<lparr>rw_readers = 0, rw_writer = False, rw_waitingWriters = 1, rw_notify = Some 1, rw_made = 2\<rparr>"

lemmas rw_demo_defs = rw_section_defs rw_new_def demo_lock_def demo_unlocked_def

lemma demo_lock_reachable: "rw_reachable demo_lock [WHold, WWait 0, RWait 0]"
proof -
  let ?m1 = "\<lparr>rw_readers = 0, rw_writer = True, rw_waitingWriters = 0, rw_notify = Some 0, rw_made = 1\<rparr>"
  have "rw_reachable rw_new [Outside, Outside, Outside]"
    using rw_reachable.start [of 3] by (simp add: numeral_eq_Suc)
  moreover have "rw_move rw_new Outside ?m1 (after_lock Acquired)"
    by (rule rw_move.lock [of None]) (simp add: rw_demo_defs)
  ultimately have "rw_reachable ?m1 [WHold, Outside, Outside]"
    using rw_reachable.step [of rw_new "[Outside, Outside, Outside]" 0] by (simp add: after_lock_def)
  moreover have "rw_move ?m1 Outside demo_lock (after_lock (Wait 0))"
    by (rule rw_move.lock [of None]) (simp add: rw_demo_defs)
  ultimately have "rw_reachable demo_lock [WHold, WWait 0, Outside]"
    using rw_reachable.step [of ?m1 "[WHold, Outside, Outside]" 1] by (simp add: after_lock_def)
  moreover have "rw_move demo_lock Outside demo_lock (after_rlock (Wait 0))"
    by (rule rw_move.rlock [of None]) (simp add: rw_demo_defs)
  ultimately show ?thesis
    using rw_reachable.step [of demo_lock "[WHold, WWait 0, Outside]" 2] by (simp add: after_rlock_def)
qed

lemma demo_unlocked_reachable: "rw_reachable demo_unlocked [Outside, WWait 0, RWait 0]"
proof -
  have "rw_move demo_lock WHold demo_unlocked Outside"
    by (rule rw_move.unlock) (simp add: rw_demo_defs)
  with rw_reachable.step [OF demo_lock_reachable, of 0] show ?thesis by simp
qed

text \<open>
  C11: the lock excludes. In every reachable state at most one thread holds the lock for
  writing, and then no thread holds it for reading; the counters of the lock are the numbers
  of the threads that read and of the writers that wait; and no thread that leaves the lock
  or tries to enter it panics.
\<close>

theorem rw_mutual_exclusion:
  assumes "rw_reachable m pcs"
  shows "occ (\<lambda>pc. pc = WHold) pcs \<le> 1
    \<and> (WHold \<in> set pcs \<longrightarrow> RHold \<notin> set pcs)
    \<and> rw_readers m = occ (\<lambda>pc. pc = RHold) pcs \<and> rw_waitingWriters m = occ waiting_writer pcs
    \<and> (WHold \<in> set pcs \<longrightarrow> rw_unlock m \<noteq> None) \<and> (RHold \<in> set pcs \<longrightarrow> rw_runlock m \<noteq> None)
    \<and> (WCancel \<in> set pcs \<longrightarrow> lock_cancel m \<noteq> None)
    \<and> lock_enter err m \<noteq> None \<and> lock_woken err m \<noteq> None \<and> rlock_section err m \<noteq> None"
proof -
  have counts: "rw_counts m pcs" and waits: "\<And>pc. pc \<in> set pcs \<Longrightarrow> may_wait m pc"
    using rw_reachable_inv [OF assms] by (auto simp: rw_inv_def)
  have w: "WHold \<in> set pcs \<Longrightarrow> rw_writer m" and r: "RHold \<in> set pcs \<longleftrightarrow> 0 < rw_readers m"
    using counts occ_pos [of "\<lambda>pc. pc = WHold" pcs] occ_pos [of "\<lambda>pc. pc = RHold" pcs]
    by (auto simp: rw_counts_def)
  have sections: "lock_enter err m \<noteq> None" "lock_woken err m \<noteq> None" "rlock_section err m \<noteq> None"
    by (auto simp: rw_section_defs Let_def split: option.split)
  have "WHold \<in> set pcs \<Longrightarrow> rw_unlock m \<noteq> None" "RHold \<in> set pcs \<Longrightarrow> rw_runlock m \<noteq> None"
    "WCancel \<in> set pcs \<Longrightarrow> lock_cancel m \<noteq> None"
    using w r waits [of WHold] waits [of RHold] waits [of WCancel]
    by (auto simp: rw_section_defs may_wait_def Let_def split: option.splits)
  with counts w r sections show ?thesis by (auto simp: rw_counts_def)
qed

theorem rw_mutual_exclusion_witness: "rw_unlock demo_lock \<noteq> None \<and> rw_readers demo_lock = 0"
  using rw_mutual_exclusion [OF demo_lock_reachable] by (simp add: occ_def)

text \<open>
  C12: no wake-up is lost. In every reachable state in which threads wait for the lock and
  nobody holds it, some waiting thread can go on: it has been woken, its context has ended, or
  the channel it waits for is closed. So no state is reached in which all waiting threads
  sleep although the lock is free.
\<close>

theorem rw_no_lost_wakeup:
  assumes "rw_reachable m pcs" and "WHold \<notin> set pcs" and "RHold \<notin> set pcs"
    and "\<exists>pc \<in> set pcs. pc \<noteq> Outside"
  shows "WWoken \<in> set pcs \<or> WCancel \<in> set pcs \<or> RWoken \<in> set pcs
    \<or> (\<exists>ch. (WWait ch \<in> set pcs \<or> RWait ch \<in> set pcs) \<and> ch_closed m ch)"
proof (rule ccontr)
  assume asleep: "\<not> ?thesis"
  have counts: "rw_counts m pcs" and waits: "\<And>pc. pc \<in> set pcs \<Longrightarrow> may_wait m pc"
    using rw_reachable_inv [OF assms(1)] by (auto simp: rw_inv_def)
  have free: "\<not> rw_writer m" "rw_readers m = 0"
    using counts assms(2,3) occ_zero [of "\<lambda>pc. pc = WHold" pcs] occ_zero [of "\<lambda>pc. pc = RHold" pcs]
    by (auto simp: rw_counts_def split: if_splits)
  have no_writer: "WWait ch \<notin> set pcs" for ch
    using waits [of "WWait ch"] asleep free by (auto simp: may_wait_def ch_closed_def)
  then have "\<not> waiting_writer pc" if "pc \<in> set pcs" for pc
    using asleep that by (cases pc) auto
  then have "rw_waitingWriters m = 0"
    using counts occ_zero [of waiting_writer pcs] by (simp add: rw_counts_def)
  then have "RWait ch \<notin> set pcs" for ch
    using waits [of "RWait ch"] asleep free by (auto simp: may_wait_def ch_closed_def)
  with no_writer asleep assms(2,3) have "pc = Outside" if "pc \<in> set pcs" for pc
    using that by (cases pc) auto
  with assms(4) show False by blast
qed

theorem rw_no_lost_wakeup_witness: "ch_closed demo_unlocked 0"
  using rw_no_lost_wakeup [OF demo_unlocked_reachable] by (auto simp: demo_unlocked_def ch_closed_def)

end
