(* ===== verification/Ident.thy ===== *)
theory Ident
  imports Go_Text
begin

text \<open>
  The identifiers that scope every record to a tenant: composite map keys made of
  length-prefixed parts (\<^verbatim>\<open>runtime/storage/inmemory\<close>, \<^verbatim>\<open>gateway\<close>, \<^verbatim>\<open>tenant/runtime.go\<close>), the
  separator-based key of the execution queue, and the ULID-like identifiers in Crockford's
  base 32 that \<^verbatim>\<open>tenant.newTenantID\<close> and \<^verbatim>\<open>agent.newAppID\<close> generate.
\<close>

subsection \<open>Length-prefixed keys\<close>

text \<open>\<^verbatim>\<open>key(parts ...string)\<close> of \<^verbatim>\<open>runtime/storage/inmemory/inmemory.go\<close>.\<close>

definition key_part :: "string \<Rightarrow> string" where
  "key_part p = itoa (int (length p)) @ CHR '':'' # p"

primrec key :: "string list \<Rightarrow> string" where
  "key [] = []"
| "key (p # ps) = key_part p @ key ps"

lemma digits_prefix_unique:
  assumes "list_all is_digit xs" "list_all is_digit ys" "\<not> is_digit c" "\<not> is_digit d"
    and "xs @ c # us = ys @ d # vs"
  shows "xs = ys \<and> c = d \<and> us = vs"
  using assms
proof (induction xs arbitrary: ys)
  case Nil
  then show ?case by (cases ys) auto
next
  case (Cons x xs)
  then show ?case by (cases ys) auto
qed

lemma colon_not_digit: "\<not> is_digit CHR '':''"
  by (simp add: is_digit_def)

lemma itoa_length: "itoa (int n) = decimal n"
  by (simp add: itoa_def)

lemma key_part_unique:
  assumes "key_part p @ us = key_part q @ vs"
  shows "p = q \<and> us = vs"
proof -
  from assms have "decimal (length p) @ CHR '':'' # (p @ us) = decimal (length q) @ CHR '':'' # (q @ vs)"
    by (simp add: key_part_def itoa_length)
  then have "decimal (length p) = decimal (length q) \<and> p @ us = q @ vs"
    using digits_prefix_unique [OF decimal_digits decimal_digits colon_not_digit colon_not_digit]
    by blast
  then show ?thesis by auto
qed

lemma key_part_ne [simp]: "key_part p \<noteq> []"
  by (simp add: key_part_def)

lemma key_inj [simp]: "key ps = key qs \<longleftrightarrow> ps = qs"
proof
  show "ps = qs" if "key ps = key qs"
    using that
  proof (induction ps arbitrary: qs)
    case Nil
    then show ?case by (cases qs) simp_all
  next
    case (Cons p ps)
    then show ?case by (cases qs) (auto dest: key_part_unique)
  qed
qed simp

declare key.simps [simp del]

text \<open>\<^verbatim>\<open>replyKey\<close> of \<^verbatim>\<open>runtime/storage/inmemory/inmemory.go\<close>.\<close>

definition replyKey :: "string \<Rightarrow> string \<Rightarrow> int \<Rightarrow> string" where
  "replyKey tenant reply segment = key [tenant, reply, itoa segment]"

lemma replyKey_inj [simp]:
  "replyKey t r i = replyKey t' r' i' \<longleftrightarrow> t = t' \<and> r = r' \<and> i = i'"
  by (simp add: replyKey_def)

subsection \<open>Crockford identifiers\<close>

definition crockford :: string where
  "crockford = ''0123456789ABCDEFGHJKMNPQRSTVWXYZ''"

text \<open>
  The loops of \<^verbatim>\<open>newTenantID\<close> and \<^verbatim>\<open>newAppID\<close>: the low 48 bits of the millisecond clock,
  most significant byte first; the big-endian value of the 16 bytes; and 26 digits of five
  bits each, least significant digit last.
\<close>

fun ms_bytes :: "nat \<Rightarrow> int \<Rightarrow> nat list \<Rightarrow> nat list" where
  "ms_bytes 0 ms data = data"
| "ms_bytes (Suc i) ms data = ms_bytes i (ms div 256) (nat (ms mod 256) # data)"

definition set_bytes :: "nat list \<Rightarrow> nat" where
  "set_bytes = foldl (\<lambda>v b. v * 256 + b) 0"

fun crockford_digits :: "nat \<Rightarrow> nat \<Rightarrow> string \<Rightarrow> string" where
  "crockford_digits 0 v encoded = encoded"
| "crockford_digits (Suc i) v encoded =
     crockford_digits i (v div 32) (crockford ! (v mod 32) # encoded)"

definition ulid :: "int \<Rightarrow> nat list \<Rightarrow> string" where
  "ulid ms random = crockford_digits 26 (set_bytes (ms_bytes 6 ms [] @ random)) []"

lemma crockford_length [simp]: "length crockford = 32"
  by (simp add: crockford_def)

lemma crockford_distinct: "distinct crockford"
  by (simp add: crockford_def)

lemma crockford_digits_append: "crockford_digits n v acc = crockford_digits n v [] @ acc"
proof (induction n arbitrary: v acc)
  case 0
  then show ?case by simp
next
  case (Suc n)
  show ?case
    using Suc.IH [of "v div 32" "crockford ! (v mod 32) # acc"]
      Suc.IH [of "v div 32" "[crockford ! (v mod 32)]"]
    by simp
qed

lemma crockford_digits_Suc:
  "crockford_digits (Suc n) v [] = crockford_digits n (v div 32) [] @ [crockford ! (v mod 32)]"
  using crockford_digits_append [of n "v div 32" "[crockford ! (v mod 32)]"] by simp

lemma crockford_digits_length [simp]: "length (crockford_digits n v []) = n"
  by (induction n arbitrary: v) (simp_all add: crockford_digits_Suc del: crockford_digits.simps(2))

lemma crockford_nth_mem [simp]: "i < 32 \<Longrightarrow> crockford ! i \<in> set crockford"
  by (simp add: nth_mem)

lemma crockford_digits_set: "set (crockford_digits n v []) \<subseteq> set crockford"
  by (induction n arbitrary: v) (simp_all add: crockford_digits_Suc del: crockford_digits.simps(2))

lemma crockford_digits_hd:
  "crockford_digits (Suc n) v [] ! 0 = crockford ! (v div 32 ^ n mod 32)"
proof (induction n arbitrary: v)
  case 0
  then show ?case by simp
next
  case (Suc n)
  have "crockford_digits (Suc (Suc n)) v [] ! 0 = crockford_digits (Suc n) (v div 32) [] ! 0"
    by (subst crockford_digits_Suc) (simp add: nth_append del: crockford_digits.simps(2))
  also have "\<dots> = crockford ! (v div 32 div 32 ^ n mod 32)" by (rule Suc.IH)
  finally show ?case by (simp add: div_mult2_eq)
qed

lemma crockford_digits_inj:
  "v < 32 ^ n \<Longrightarrow> w < 32 ^ n \<Longrightarrow> crockford_digits n v [] = crockford_digits n w [] \<Longrightarrow> v = w"
proof (induction n arbitrary: v w)
  case 0
  then show ?case by simp
next
  case (Suc n)
  then have "crockford_digits n (v div 32) [] = crockford_digits n (w div 32) []"
    and last: "crockford ! (v mod 32) = crockford ! (w mod 32)"
    by (simp_all add: crockford_digits_Suc del: crockford_digits.simps(2))
  moreover have "v div 32 < 32 ^ n" "w div 32 < 32 ^ n"
    using Suc.prems by (simp_all add: less_mult_imp_div_less)
  ultimately have "v div 32 = w div 32" using Suc.IH by blast
  moreover have "v mod 32 = w mod 32"
    using last crockford_distinct by (simp add: nth_eq_iff_index_eq)
  ultimately show ?case by (metis div_mult_mod_eq)
qed

lemma ms_bytes_append: "ms_bytes n ms acc = ms_bytes n ms [] @ acc"
proof (induction n arbitrary: ms acc)
  case 0
  then show ?case by simp
next
  case (Suc n)
  show ?case
    using Suc.IH [of "ms div 256" "nat (ms mod 256) # acc"] Suc.IH [of "ms div 256" "[nat (ms mod 256)]"]
    by simp
qed

lemma ms_bytes_Suc: "ms_bytes (Suc n) ms [] = ms_bytes n (ms div 256) [] @ [nat (ms mod 256)]"
  using ms_bytes_append [of n "ms div 256" "[nat (ms mod 256)]"] by simp

lemma ms_bytes_length [simp]: "length (ms_bytes n ms []) = n"
  by (induction n arbitrary: ms) (simp_all add: ms_bytes_Suc del: ms_bytes.simps(2))

lemma ms_bytes_bound: "list_all (\<lambda>b. b < 256) (ms_bytes n ms [])"
  by (induction n arbitrary: ms) (simp_all add: ms_bytes_Suc nat_less_iff del: ms_bytes.simps(2))

lemma set_bytes_snoc: "set_bytes (bs @ [b]) = set_bytes bs * 256 + b"
  by (simp add: set_bytes_def)

lemma set_bytes_bound: "list_all (\<lambda>b. b < 256) bs \<Longrightarrow> set_bytes bs < 256 ^ length bs"
proof (induction bs rule: rev_induct)
  case Nil
  then show ?case by (simp add: set_bytes_def)
next
  case (snoc b bs)
  then have "set_bytes bs + 1 \<le> 256 ^ length bs" by simp
  then have "(set_bytes bs + 1) * 256 \<le> 256 ^ length bs * 256" by (rule mult_right_mono) simp
  with snoc.prems show ?case by (simp add: set_bytes_snoc)
qed

lemma set_bytes_inj:
  "length bs = length cs \<Longrightarrow> list_all (\<lambda>b. b < 256) bs \<Longrightarrow> list_all (\<lambda>b. b < 256) cs
   \<Longrightarrow> set_bytes bs = set_bytes cs \<Longrightarrow> bs = cs"
proof (induction bs arbitrary: cs rule: rev_induct)
  case Nil
  then show ?case by simp
next
  case (snoc b bs)
  then obtain c cs' where cs: "cs = cs' @ [c]" by (cases cs rule: rev_cases) auto
  from snoc.prems have bc: "b < 256" "c < 256" and eq: "set_bytes bs * 256 + b = set_bytes cs' * 256 + c"
    by (simp_all add: cs set_bytes_snoc)
  have "b = (set_bytes bs * 256 + b) mod 256" using bc by simp
  also have "\<dots> = c" using bc by (simp add: eq)
  finally have "b = c" .
  moreover have "bs = cs'"
  proof (rule snoc.IH)
    show "set_bytes bs = set_bytes cs'" using eq \<open>b = c\<close> by simp
  qed (use snoc.prems cs in simp_all)
  ultimately show ?case by (simp add: cs)
qed

lemma ulid_value_bound:
  assumes "length random = 10" and "list_all (\<lambda>b. b < 256) random"
  shows "set_bytes (ms_bytes 6 ms [] @ random) < 2 ^ 128"
proof -
  have "set_bytes (ms_bytes 6 ms [] @ random) < 256 ^ length (ms_bytes 6 ms [] @ random)"
    by (rule set_bytes_bound) (use assms ms_bytes_bound in simp)
  then show ?thesis using assms by simp
qed

lemma ulid_length [simp]: "length (ulid ms random) = 26"
  by (simp add: ulid_def)

lemma ulid_set: "set (ulid ms random) \<subseteq> set crockford"
  unfolding ulid_def by (rule crockford_digits_set)

lemma crockford_low: "i < 8 \<Longrightarrow> byte (crockford ! i) \<le> 55"
proof -
  assume "i < 8"
  then have "i = 0 \<or> i = 1 \<or> i = 2 \<or> i = 3 \<or> i = 4 \<or> i = 5 \<or> i = 6 \<or> i = 7" by arith
  then show ?thesis by (elim disjE) (simp_all add: crockford_def)
qed

lemma ulid_hd:
  assumes "length random = 10" and "list_all (\<lambda>b. b < 256) random"
  shows "byte (ulid ms random ! 0) \<le> 55"
proof -
  let ?v = "set_bytes (ms_bytes 6 ms [] @ random)"
  have "?v < 8 * 32 ^ 25" using ulid_value_bound [OF assms, of ms] by simp
  then have lt: "?v div 32 ^ 25 < 8" by (rule less_mult_imp_div_less)
  have "ulid ms random ! 0 = crockford ! (?v div 32 ^ 25 mod 32)"
    unfolding ulid_def using crockford_digits_hd [of 25 ?v] by (simp del: crockford_digits.simps)
  with lt show ?thesis by (simp add: crockford_low)
qed

text \<open>Distinct random bytes give distinct identifiers, whatever the clock says.\<close>

lemma ulid_inj:
  assumes "length r = 10" "list_all (\<lambda>b. b < 256) r" "length r' = 10" "list_all (\<lambda>b. b < 256) r'"
    and "ulid ms r = ulid ms' r'"
  shows "r = r'"
proof -
  have "set_bytes (ms_bytes 6 ms [] @ r) = set_bytes (ms_bytes 6 ms' [] @ r')"
  proof (rule crockford_digits_inj)
    show "set_bytes (ms_bytes 6 ms [] @ r) < 32 ^ 26"
      using ulid_value_bound [OF assms(1,2), of ms] by simp
    show "set_bytes (ms_bytes 6 ms' [] @ r') < 32 ^ 26"
      using ulid_value_bound [OF assms(3,4), of ms'] by simp
    show "crockford_digits 26 (set_bytes (ms_bytes 6 ms [] @ r)) []
        = crockford_digits 26 (set_bytes (ms_bytes 6 ms' [] @ r')) []"
      using assms(5) by (simp only: ulid_def)
  qed
  then have "ms_bytes 6 ms [] @ r = ms_bytes 6 ms' [] @ r'"
    by (rule set_bytes_inj [rotated -1]) (use assms ms_bytes_bound in simp_all)
  then show ?thesis using assms by simp
qed

lemma crockford_bytes: "c \<in> set crockford \<Longrightarrow> byte c < 0x80"
  by (auto simp: crockford_def)

lemma ascii_ulid: "ascii (ulid ms random)"
  using ulid_set [of ms random] crockford_bytes by (auto simp: ascii_def list_all_iff)

lemma runes_ascii: "ascii s \<Longrightarrow> runes s = map byte s"
  by (simp add: runes_def chunks_ascii)

lemma char_le_iff: "c \<le> d \<longleftrightarrow> byte c \<le> byte (d :: char)"
  by (simp add: less_eq_char_def)

lemma char_less_iff: "c < d \<longleftrightarrow> byte c < byte (d :: char)"
  by (simp add: less_char_def)

definition random_ok :: "nat list option \<Rightarrow> bool" where
  "random_ok random = (case random of None \<Rightarrow> True | Some r \<Rightarrow> length r = 10 \<and> list_all (\<lambda>b. b < 256) r)"

lemma ulid_valid:
  assumes "length r = 10" and "list_all (\<lambda>b. b < 256) r"
  shows "\<not> ulid ms r ! 0 > CHR ''7''"
    and "list_all (\<lambda>x. x \<in> set (map byte crockford)) (runes (ulid ms r))"
  using ulid_hd [OF assms, of ms] ulid_set [of ms r]
  by (auto simp: char_less_iff runes_ascii [OF ascii_ulid] list_all_iff)

subsection \<open>Normalized keys\<close>

text \<open>The keys \<^verbatim>\<open>[a-z][a-z0-9-]{1,63}\<close> of tenants and Agent Apps.\<close>

definition slug_first :: "char \<Rightarrow> bool" where
  "slug_first c \<longleftrightarrow> CHR ''a'' \<le> c \<and> c \<le> CHR ''z''"

definition slug_char :: "char \<Rightarrow> bool" where
  "slug_char c \<longleftrightarrow>
     (CHR ''a'' \<le> c \<and> c \<le> CHR ''z'') \<or> (CHR ''0'' \<le> c \<and> c \<le> CHR ''9'') \<or> c = CHR ''-''"

definition slug_ok :: "string \<Rightarrow> bool" where
  "slug_ok k \<longleftrightarrow> 2 \<le> length k \<and> length k \<le> 64 \<and> slug_first (hd k) \<and> list_all slug_char (tl k)"

lemma slug_charD:
  "slug_char c \<Longrightarrow> byte c < 0x80 \<and> \<not> is_space (byte c) \<and> \<not> (65 \<le> byte c \<and> byte c \<le> 90)"
  by (auto simp: slug_char_def char_le_iff is_space_def)

lemma slug_chars: "slug_ok k \<Longrightarrow> c \<in> set k \<Longrightarrow> slug_char c"
  by (cases k) (auto simp: slug_ok_def list_all_iff slug_first_def slug_char_def)

lemma slug_normal:
  assumes "slug_ok k"
  shows "to_lower (trim_space k) = k"
proof -
  note chars = slug_charD [OF slug_chars [OF assms]]
  have "ascii k" using chars by (auto simp: ascii_def list_all_iff)
  then show ?thesis using chars by (simp add: trim_space_visible to_lower_id)
qed

end
