(* ===== verification/Tenant.thy ===== *)
theory Tenant
  imports Ident
begin

text \<open>
  The tenant root entity of \<^verbatim>\<open>tenant/tenant.go\<close> and \<^verbatim>\<open>tenant/runtime.go\<close>: the record, its
  validation, the construction of a new tenant with its generated identifier, the snapshot
  that one execution uses and the namespaced identities of the runner.

  Statuses and masking levels are open strings in the code and here. Errors keep the sentinel
  that a caller can test for; their messages are left out. Cloning copies what the pointers
  point to, which values do by themselves.
\<close>

subsection \<open>Data\<close>

datatype tenant_error =
    TErrInvalid
  | TErrNotFound
  | TErrConflict
  | TErrDuplicateKey
  | TErrDisabled
  | TErrInvalidTransition
  | TErrRandom
  | TErrCtx ctx_error

definition tenant_StatusActive :: string where "tenant_StatusActive = ''active''"

definition tenant_StatusSuspended :: string where "tenant_StatusSuspended = ''suspended''"

definition tenant_StatusDisabled :: string where "tenant_StatusDisabled = ''disabled''"

definition MaskingNone :: string where "MaskingNone = ''none''"

definition MaskingBasic :: string where "MaskingBasic = ''basic''"

definition MaskingStrict :: string where "MaskingStrict = ''strict''"

lemmas tenant_status_defs = tenant_StatusActive_def tenant_StatusSuspended_def tenant_StatusDisabled_def

lemmas masking_defs = MaskingNone_def MaskingBasic_def MaskingStrict_def

record tenant =
  tnt_TenantID :: string
  tnt_TenantKey :: string
  tnt_DisplayName :: string
  tnt_Status :: string
  tnt_RateLimitRPM :: "int option"
  tnt_MaxConcurrentExecutions :: "int option"
  tnt_MonthlyTokenBudget :: "int option"
  tnt_MonthlySpendLimitMinor :: "int option"
  tnt_BillingCurrency :: string
  tnt_AuditRetentionDays :: int
  tnt_LogMaskingLevel :: string
  tnt_TraceSamplingRate :: float64
  tnt_DefaultAgentAppID :: "string option"
  tnt_DefaultBackendProfileID :: "string option"
  tnt_Version :: int
  tnt_CreatedAt :: instant
  tnt_UpdatedAt :: instant

record tenant_CreateInput =
  tci_TenantKey :: string
  tci_DisplayName :: string
  tci_Status :: string
  tci_RateLimitRPM :: "int option"
  tci_MaxConcurrentExecutions :: "int option"
  tci_MonthlyTokenBudget :: "int option"
  tci_MonthlySpendLimitMinor :: "int option"
  tci_BillingCurrency :: string
  tci_AuditRetentionDays :: int
  tci_LogMaskingLevel :: string
  tci_TraceSamplingRate :: float64
  tci_DefaultAgentAppID :: "string option"
  tci_DefaultBackendProfileID :: "string option"

record tenant_UpdateConfigurationInput =
  tui_TenantID :: string
  tui_ExpectedVersion :: int
  tui_DisplayName :: string
  tui_RateLimitRPM :: "int option"
  tui_MaxConcurrentExecutions :: "int option"
  tui_MonthlyTokenBudget :: "int option"
  tui_MonthlySpendLimitMinor :: "int option"
  tui_BillingCurrency :: string
  tui_AuditRetentionDays :: int
  tui_LogMaskingLevel :: string
  tui_TraceSamplingRate :: float64
  tui_DefaultAgentAppID :: "string option"
  tui_DefaultBackendProfileID :: "string option"

record tenant_TransitionMetadata =
  tmd_ActorType :: string
  tmd_ActorID :: string
  tmd_Reason :: string
  tmd_CorrelationID :: string

record tenant_StatusChangeEvent =
  tev_TenantID :: string
  tev_PreviousStatus :: string
  tev_NextStatus :: string
  tev_ActorType :: string
  tev_ActorID :: string
  tev_Reason :: string
  tev_CorrelationID :: string
  tev_PreviousVersion :: int
  tev_NextVersion :: int
  tev_OccurredAt :: instant

record tenant_TransitionStatusInput =
  tti_TenantID :: string
  tti_ExpectedVersion :: int
  tti_NextStatus :: string
  tti_Metadata :: tenant_TransitionMetadata

subsection \<open>Validation\<close>

definition iso4217NonMonetaryCodes :: "string list" where
  "iso4217NonMonetaryCodes = [
    ''XAG'', ''XAU'', ''XBA'', ''XBB'', ''XBC'', ''XBD'', ''XDR'', ''XPD'', ''XPT'', ''XSU'',
    ''XTS'', ''XUA'', ''XXX'']"

definition iso4217Currencies :: "string list" where
  "iso4217Currencies = [
    ''AED'', ''AFN'', ''ALL'', ''AMD'', ''ANG'', ''AOA'', ''ARS'', ''AUD'', ''AWG'', ''AZN'',
    ''BAM'', ''BBD'', ''BDT'', ''BGN'', ''BHD'', ''BIF'', ''BMD'', ''BND'', ''BOB'', ''BOV'',
    ''BRL'', ''BSD'', ''BTN'', ''BWP'', ''BYN'', ''BZD'', ''CAD'', ''CDF'', ''CHE'', ''CHF'',
    ''CHW'', ''CLF'', ''CLP'', ''CNY'', ''COP'', ''COU'', ''CRC'', ''CUC'', ''CUP'', ''CVE'',
    ''CZK'', ''DJF'', ''DKK'', ''DOP'', ''DZD'', ''EGP'', ''ERN'', ''ETB'', ''EUR'', ''FJD'',
    ''FKP'', ''GBP'', ''GEL'', ''GHS'', ''GIP'', ''GMD'', ''GNF'', ''GTQ'', ''GYD'', ''HKD'',
    ''HNL'', ''HTG'', ''HUF'', ''IDR'', ''ILS'', ''INR'', ''IQD'', ''IRR'', ''ISK'', ''JMD'',
    ''JOD'', ''JPY'', ''KES'', ''KGS'', ''KHR'', ''KMF'', ''KPW'', ''KRW'', ''KWD'', ''KYD'',
    ''KZT'', ''LAK'', ''LBP'', ''LKR'', ''LRD'', ''LSL'', ''LYD'', ''MAD'', ''MDL'', ''MGA'',
    ''MKD'', ''MMK'', ''MNT'', ''MOP'', ''MRU'', ''MUR'', ''MVR'', ''MWK'', ''MXN'', ''MXV'',
    ''MYR'', ''MZN'', ''NAD'', ''NGN'', ''NIO'', ''NOK'', ''NPR'', ''NZD'', ''OMR'', ''PAB'',
    ''PEN'', ''PGK'', ''PHP'', ''PKR'', ''PLN'', ''PYG'', ''QAR'', ''RON'', ''RSD'', ''RUB'',
    ''RWF'', ''SAR'', ''SBD'', ''SCR'', ''SDG'', ''SEK'', ''SGD'', ''SHP'', ''SLE'', ''SLL'',
    ''SOS'', ''SRD'', ''SSP'', ''STN'', ''SVC'', ''SYP'', ''SZL'', ''THB'', ''TJS'', ''TMT'',
    ''TND'', ''TOP'', ''TRY'', ''TTD'', ''TWD'', ''TZS'', ''UAH'', ''UGX'', ''USD'', ''USN'',
    ''UYI'', ''UYU'', ''UYW'', ''UZS'', ''VED'', ''VES'', ''VND'', ''VUV'', ''WST'', ''XAF'',
    ''XAG'', ''XAU'', ''XBA'', ''XBB'', ''XBC'', ''XBD'', ''XCD'', ''XDR'', ''XOF'', ''XPD'',
    ''XPF'', ''XPT'', ''XSU'', ''XTS'', ''XUA'', ''XXX'', ''YER'', ''ZAR'', ''ZMW'', ''ZWL'']"

definition validCurrency :: "string \<Rightarrow> bool" where
  "validCurrency currency \<longleftrightarrow>
     currency \<in> set iso4217Currencies \<and> currency \<notin> set iso4217NonMonetaryCodes"

definition validateDisplayName :: "string \<Rightarrow> tenant_error option" where
  "validateDisplayName displayName =
     (let n = rune_count (trim_space displayName) in fails (n < 1 \<or> n > 200) TErrInvalid)"

text \<open>A limit behind a pointer is checked only when it is set.\<close>

definition limit_fails :: "(int \<Rightarrow> bool) \<Rightarrow> int option \<Rightarrow> bool" where
  "limit_fails bad limit = (case limit of None \<Rightarrow> False | Some v \<Rightarrow> bad v)"

definition validateLimits ::
  "int option \<Rightarrow> int option \<Rightarrow> int option \<Rightarrow> int option \<Rightarrow> tenant_error option" where
  "validateLimits rate concurrent tokens spend =
     first_error
       [fails (limit_fails (\<lambda>v. v < 0) rate) TErrInvalid,
        fails (limit_fails (\<lambda>v. v \<le> 0) concurrent) TErrInvalid,
        fails (limit_fails (\<lambda>v. v < 0) tokens) TErrInvalid,
        fails (limit_fails (\<lambda>v. v < 0) spend) TErrInvalid]"

definition validateCurrencyLimits :: "int option \<Rightarrow> string \<Rightarrow> tenant_error option" where
  "validateCurrencyLimits spend currency =
     first_error
       [fails (spend \<noteq> None \<and> \<not> validCurrency currency) TErrInvalid,
        fails (currency \<noteq> [] \<and> \<not> validCurrency currency) TErrInvalid]"

definition validateTelemetryConfiguration :: "int \<Rightarrow> string \<Rightarrow> float64 \<Rightarrow> tenant_error option" where
  "validateTelemetryConfiguration retention masking sampling =
     first_error
       [fails (retention \<le> 0) TErrInvalid,
        fails (masking \<noteq> MaskingNone \<and> masking \<noteq> MaskingBasic \<and> masking \<noteq> MaskingStrict) TErrInvalid,
        fails (sampling = Float_NaN \<or> float_IsInf sampling
               \<or> float_less sampling (float_of_int 0) \<or> float_less (float_of_int 1) sampling) TErrInvalid]"

definition tenant_ValidateConfiguration ::
  "string \<Rightarrow> int option \<Rightarrow> int option \<Rightarrow> int option \<Rightarrow> int option \<Rightarrow> string \<Rightarrow> int \<Rightarrow> string \<Rightarrow> float64
   \<Rightarrow> tenant_error option" where
  "tenant_ValidateConfiguration displayName rate concurrent tokens spend currency retention masking sampling =
     first_error
       [validateDisplayName displayName,
        validateLimits rate concurrent tokens spend,
        validateCurrencyLimits spend currency,
        validateTelemetryConfiguration retention masking sampling]"

definition normalizeTenantKey :: "string \<Rightarrow> tenant_error + string" where
  "normalizeTenantKey k =
     (let k = to_lower (trim_space k) in
      if length k < 2 \<or> length k > 64 \<or> \<not> slug_first (hd k) then Inl TErrInvalid
      else if \<not> list_all slug_char (tl k) then Inl TErrInvalid
      else Inr k)"

definition validateTenantID :: "string \<Rightarrow> tenant_error option" where
  "validateTenantID i =
     first_error
       [fails (length i \<noteq> 28 \<or> take 2 i \<noteq> ''t_'') TErrInvalid,
        fails (i ! 2 > CHR ''7'') TErrInvalid,
        fails (\<not> list_all (\<lambda>r. r \<in> set (map byte crockford)) (runes (drop 2 i))) TErrInvalid]"

definition tenant_Validate :: "tenant \<Rightarrow> tenant_error option" where
  "tenant_Validate t =
     (case validateTenantID (tnt_TenantID t) of
        Some e \<Rightarrow> Some e
      | None \<Rightarrow>
        (case normalizeTenantKey (tnt_TenantKey t) of
           Inl e \<Rightarrow> Some e
         | Inr k \<Rightarrow>
           first_error
             [fails (k \<noteq> tnt_TenantKey t) TErrInvalid,
              fails (tnt_Status t \<noteq> tenant_StatusActive \<and> tnt_Status t \<noteq> tenant_StatusSuspended
                     \<and> tnt_Status t \<noteq> tenant_StatusDisabled) TErrInvalid,
              tenant_ValidateConfiguration (tnt_DisplayName t) (tnt_RateLimitRPM t)
                (tnt_MaxConcurrentExecutions t) (tnt_MonthlyTokenBudget t)
                (tnt_MonthlySpendLimitMinor t) (tnt_BillingCurrency t) (tnt_AuditRetentionDays t)
                (tnt_LogMaskingLevel t) (tnt_TraceSamplingRate t),
              fails (tnt_Version t < 1 \<or> tnt_CreatedAt t = 0 \<or> tnt_UpdatedAt t = 0) TErrInvalid]))"

subsection \<open>Construction\<close>

text \<open>
  \<^verbatim>\<open>newTenantID\<close> reads the millisecond clock and ten random bytes; \<open>None\<close> is a failure of the
  random source.
\<close>

definition newTenantID :: "int \<Rightarrow> nat list option \<Rightarrow> tenant_error + string" where
  "newTenantID ms random =
     (case random of None \<Rightarrow> Inl TErrRandom | Some bytes \<Rightarrow> Inr (''t_'' @ ulid ms bytes))"

definition NewTenant ::
  "tenant_CreateInput \<Rightarrow> int \<Rightarrow> nat list option \<Rightarrow> instant \<Rightarrow> tenant_error + tenant" where
  "NewTenant input ms random now =
     andthen (normalizeTenantKey (tci_TenantKey input)) (\<lambda>k.
     andthen (newTenantID ms random) (\<lambda>i.
     let status = (if tci_Status input = [] then tenant_StatusActive else tci_Status input);
         retention = (if tci_AuditRetentionDays input = 0 then 90 else tci_AuditRetentionDays input);
         masking = (if tci_LogMaskingLevel input = [] then MaskingBasic else tci_LogMaskingLevel input)
     in
     ensure (first_error
       [fails (status \<noteq> tenant_StatusActive \<and> status \<noteq> tenant_StatusSuspended
               \<and> status \<noteq> tenant_StatusDisabled) TErrInvalid,
        fails (status = tenant_StatusDisabled) TErrInvalid,
        tenant_ValidateConfiguration (tci_DisplayName input) (tci_RateLimitRPM input)
          (tci_MaxConcurrentExecutions input) (tci_MonthlyTokenBudget input)
          (tci_MonthlySpendLimitMinor input) (tci_BillingCurrency input) retention masking
          (tci_TraceSamplingRate input)])
     (Inr \<lparr>tnt_TenantID = i, tnt_TenantKey = k, tnt_DisplayName = trim_space (tci_DisplayName input),
           tnt_Status = status, tnt_RateLimitRPM = tci_RateLimitRPM input,
           tnt_MaxConcurrentExecutions = tci_MaxConcurrentExecutions input,
           tnt_MonthlyTokenBudget = tci_MonthlyTokenBudget input,
           tnt_MonthlySpendLimitMinor = tci_MonthlySpendLimitMinor input,
           tnt_BillingCurrency = tci_BillingCurrency input, tnt_AuditRetentionDays = retention,
           tnt_LogMaskingLevel = masking, tnt_TraceSamplingRate = tci_TraceSamplingRate input,
           tnt_DefaultAgentAppID = tci_DefaultAgentAppID input,
           tnt_DefaultBackendProfileID = tci_DefaultBackendProfileID input,
           tnt_Version = 1, tnt_CreatedAt = now, tnt_UpdatedAt = now\<rparr>)))"

definition CanAcceptExecution :: "tenant \<Rightarrow> bool" where
  "CanAcceptExecution t \<longleftrightarrow> tnt_Status t = tenant_StatusActive"

subsection \<open>Execution snapshots and runner identities\<close>

text \<open>
  A snapshot holds a tenant or, as the zero value, none. A context carries at most one snapshot
  under the package's own key: \<open>None\<close> when none was stored.
\<close>

type_synonym tenant_snapshot = "tenant option"

definition NewConfigurationSnapshot :: "tenant option \<Rightarrow> tenant_error + tenant_snapshot" where
  "NewConfigurationSnapshot topt =
     require topt TErrInvalid (\<lambda>t.
     ensure (first_error [tenant_Validate t, fails (\<not> CanAcceptExecution t) TErrInvalid]) (Inr (Some t)))"

definition WithConfigurationSnapshot ::
  "tenant_snapshot option \<Rightarrow> tenant_snapshot \<Rightarrow> tenant_snapshot option" where
  "WithConfigurationSnapshot carried snapshot = Some snapshot"

definition ConfigurationSnapshotFromContext :: "tenant_snapshot option \<Rightarrow> tenant_snapshot \<times> bool" where
  "ConfigurationSnapshotFromContext carried =
     (case carried of Some (Some t) \<Rightarrow> (Some t, True) | _ \<Rightarrow> (None, False))"

record runner_identity =
  rid_UserID :: string
  rid_SessionID :: string

definition namespacedID :: "string \<Rightarrow> string \<Rightarrow> tenant_error + string" where
  "namespacedID tenantID externalID =
     ensure (fails (externalID = []) TErrInvalid)
       (Inr (itoa (int (length tenantID)) @ '':'' @ tenantID @ '':'' @ itoa (int (length externalID))
             @ '':'' @ externalID))"

definition NewRunnerIdentity :: "string \<Rightarrow> string \<Rightarrow> string \<Rightarrow> tenant_error + runner_identity" where
  "NewRunnerIdentity tenantID externalUserID externalSessionID =
     ensure (validateTenantID tenantID)
     (andthen (namespacedID tenantID externalUserID) (\<lambda>userID.
      andthen (namespacedID tenantID externalSessionID) (\<lambda>sessionID.
      Inr \<lparr>rid_UserID = userID, rid_SessionID = sessionID\<rparr>)))"

subsection \<open>Identifiers and keys\<close>

lemma newTenantID_valid:
  assumes "newTenantID ms random = Inr i" and "random_ok random"
  shows "validateTenantID i = None"
proof -
  from assms obtain r where r: "random = Some r" "length r = 10" "list_all (\<lambda>b. b < 256) r"
    and i: "i = ''t_'' @ ulid ms r"
    by (auto simp: newTenantID_def random_ok_def split: option.splits)
  have "i ! 2 = ulid ms r ! 0" by (simp add: i)
  with ulid_valid [OF r(2,3), of ms] show ?thesis by (simp add: validateTenantID_def i)
qed

lemma newTenantID_inj:
  assumes "newTenantID ms (Some r) = Inr i" "newTenantID ms' (Some r') = Inr i"
    and "random_ok (Some r)" "random_ok (Some r')"
  shows "r = r'"
  using assms ulid_inj [of r r' ms ms'] by (auto simp: newTenantID_def random_ok_def)

lemma normalizeTenantKey_ok: "normalizeTenantKey k = Inr k' \<Longrightarrow> slug_ok k'"
  by (auto simp: normalizeTenantKey_def slug_ok_def Let_def split: if_splits)

lemma normalizeTenantKey_fixed: "slug_ok k \<Longrightarrow> normalizeTenantKey k = Inr k"
  by (simp add: normalizeTenantKey_def slug_normal Let_def) (simp add: slug_ok_def)

lemma normalizeTenantKey_iff: "normalizeTenantKey k = Inr k \<longleftrightarrow> slug_ok k"
  using normalizeTenantKey_ok normalizeTenantKey_fixed by blast

lemma validateDisplayName_trim [simp]: "validateDisplayName (trim_space s) = validateDisplayName s"
  by (simp add: validateDisplayName_def)

lemma ValidateConfiguration_trim [simp]:
  "tenant_ValidateConfiguration (trim_space name) rate conc tok sp cur ret mk samp
   = tenant_ValidateConfiguration name rate conc tok sp cur ret mk samp"
  by (simp add: tenant_ValidateConfiguration_def)

text \<open>What a valid tenant is, without the order of the checks.\<close>

lemma tenant_Validate_iff:
  "tenant_Validate t = None \<longleftrightarrow>
     validateTenantID (tnt_TenantID t) = None \<and> slug_ok (tnt_TenantKey t)
     \<and> tnt_Status t \<in> {tenant_StatusActive, tenant_StatusSuspended, tenant_StatusDisabled}
     \<and> tenant_ValidateConfiguration (tnt_DisplayName t) (tnt_RateLimitRPM t)
         (tnt_MaxConcurrentExecutions t) (tnt_MonthlyTokenBudget t) (tnt_MonthlySpendLimitMinor t)
         (tnt_BillingCurrency t) (tnt_AuditRetentionDays t) (tnt_LogMaskingLevel t)
         (tnt_TraceSamplingRate t) = None
     \<and> 1 \<le> tnt_Version t \<and> tnt_CreatedAt t \<noteq> 0 \<and> tnt_UpdatedAt t \<noteq> 0"
  using normalizeTenantKey_iff [of "tnt_TenantKey t"]
  by (auto simp: tenant_Validate_def not_less split: option.splits sum.splits)

lemma NewTenant_valid:
  assumes "NewTenant input ms random now = Inr t" and "random_ok random" and "now \<noteq> 0"
  shows "tenant_Validate t = None \<and> tnt_Status t \<noteq> tenant_StatusDisabled \<and> tnt_Version t = 1"
  using assms normalizeTenantKey_ok newTenantID_valid
  by (fastforce simp: NewTenant_def Let_def tenant_Validate_iff)

lemma namespacedID_inj:
  assumes "namespacedID ten ext = Inr i" and "namespacedID ten' ext' = Inr i"
  shows "ten = ten' \<and> ext = ext'"
proof -
  have "key_part ten @ CHR '':'' # key_part ext = key_part ten' @ CHR '':'' # key_part ext'"
    using assms by (simp add: namespacedID_def key_part_def)
  from key_part_unique [OF this] have "ten = ten'" "key_part ext @ [] = key_part ext' @ []" by auto
  with key_part_unique [OF this(2)] show ?thesis by simp
qed

end
