(* ===== verification/Tenant_Repo.thy ===== *)
theory Tenant_Repo
  imports Tenant Contracts
begin

text \<open>
  The tenant repository of \<^verbatim>\<open>tenant/inmemory/inmemory.go\<close>. Every operation holds the repository
  lock from its lookup to its return, so an execution is a sequence of these operations. The
  looks at the context are, in order: on entry, while waiting for the lock, and under the lock.
  The version of a tenant starts at one, grows by one per change and is counted without a bound.
\<close>

subsection \<open>Operations\<close>

record tenant_repo =
  tr_byID :: "(string, tenant) gomap"
  tr_byKey :: "(string, string) gomap"

definition tenant_NewRepository :: tenant_repo where
  "tenant_NewRepository = \<lparr>tr_byID = [], tr_byKey = []\<rparr>"

definition tenant_checkContext :: "goctx \<Rightarrow> nat \<Rightarrow> tenant_error option" where
  "tenant_checkContext c i = (case c of None \<Rightarrow> None | Some look \<Rightarrow> map_option TErrCtx (look i))"

definition tenant_Create ::
  "goctx \<Rightarrow> tenant_CreateInput \<Rightarrow> int \<Rightarrow> nat list option \<Rightarrow> instant \<Rightarrow> tenant_repo
   \<Rightarrow> (tenant_error + tenant) \<times> tenant_repo" where
  "tenant_Create c input ms random now r =
     check (tenant_checkContext c 0) r
     (proceed (NewTenant input ms random now) r (\<lambda>t.
      check (tenant_checkContext c 1) r
     (check (tenant_checkContext c 2) r
     (check (fails (get (tr_byID r) (tnt_TenantID t) \<noteq> None) TErrDuplicateKey) r
     (check (fails (get (tr_byKey r) (tnt_TenantKey t) \<noteq> None) TErrDuplicateKey) r
     (Inr t, r\<lparr>tr_byID := put (tnt_TenantID t) t (tr_byID r),
               tr_byKey := put (tnt_TenantKey t) (tnt_TenantID t) (tr_byKey r)\<rparr>))))))"

definition tenant_Get :: "goctx \<Rightarrow> string \<Rightarrow> tenant_repo \<Rightarrow> tenant_error + tenant" where
  "tenant_Get c tenantID r =
     ensure (tenant_checkContext c 0)
     (ensure (tenant_checkContext c 1)
     (ensure (tenant_checkContext c 2)
     (require (get (tr_byID r) tenantID) TErrNotFound (\<lambda>t. Inr t))))"

definition tenant_Count :: "goctx \<Rightarrow> tenant_repo \<Rightarrow> tenant_error + int" where
  "tenant_Count c r = ensure (tenant_checkContext c 0) (Inr (int (length (tr_byID r))))"

definition updated_configuration ::
  "tenant_UpdateConfigurationInput \<Rightarrow> int \<Rightarrow> string \<Rightarrow> instant \<Rightarrow> tenant \<Rightarrow> tenant" where
  "updated_configuration input retention masking now t =
     t\<lparr>tnt_DisplayName := trim_space (tui_DisplayName input),
       tnt_RateLimitRPM := tui_RateLimitRPM input,
       tnt_MaxConcurrentExecutions := tui_MaxConcurrentExecutions input,
       tnt_MonthlyTokenBudget := tui_MonthlyTokenBudget input,
       tnt_MonthlySpendLimitMinor := tui_MonthlySpendLimitMinor input,
       tnt_BillingCurrency := tui_BillingCurrency input,
       tnt_AuditRetentionDays := retention,
       tnt_LogMaskingLevel := masking,
       tnt_TraceSamplingRate := tui_TraceSamplingRate input,
       tnt_DefaultAgentAppID := tui_DefaultAgentAppID input,
       tnt_DefaultBackendProfileID := tui_DefaultBackendProfileID input,
       tnt_Version := tnt_Version t + 1,
       tnt_UpdatedAt := now\<rparr>"

definition tenant_UpdateConfiguration ::
  "goctx \<Rightarrow> tenant_UpdateConfigurationInput \<Rightarrow> instant \<Rightarrow> tenant_repo
   \<Rightarrow> (tenant_error + tenant) \<times> tenant_repo" where
  "tenant_UpdateConfiguration c input now r =
     (let retention = (if tui_AuditRetentionDays input = 0 then 90 else tui_AuditRetentionDays input);
          masking = (if tui_LogMaskingLevel input = [] then MaskingBasic else tui_LogMaskingLevel input)
      in
      check (tenant_checkContext c 0) r
     (check (tenant_ValidateConfiguration (tui_DisplayName input) (tui_RateLimitRPM input)
               (tui_MaxConcurrentExecutions input) (tui_MonthlyTokenBudget input)
               (tui_MonthlySpendLimitMinor input) (tui_BillingCurrency input) retention masking
               (tui_TraceSamplingRate input)) r
     (check (tenant_checkContext c 1) r
     (check (tenant_checkContext c 2) r
     (fetch (get (tr_byID r) (tui_TenantID input)) TErrNotFound r (\<lambda>t.
      check (fails (tnt_Status t = tenant_StatusDisabled) TErrDisabled) r
     (check (fails (tui_ExpectedVersion input \<noteq> tnt_Version t) TErrConflict) r
     (let updated = updated_configuration input retention masking now t
      in (Inr updated, r\<lparr>tr_byID := put (tui_TenantID input) updated (tr_byID r)\<rparr>)))))))))"

definition tenant_validateMetadata :: "tenant_TransitionMetadata \<Rightarrow> tenant_error option" where
  "tenant_validateMetadata m =
     first_error
       [fails (trim_space (tmd_ActorType m) = [] \<or> trim_space (tmd_ActorID m) = []
               \<or> trim_space (tmd_Reason m) = [] \<or> trim_space (tmd_CorrelationID m) = []) TErrInvalid,
        fails (rune_count (trim_space (tmd_Reason m)) > 1000) TErrInvalid]"

definition tenant_validTransition :: "string \<Rightarrow> string \<Rightarrow> bool" where
  "tenant_validTransition cur nxt =
     (if cur = tenant_StatusActive \<and> (nxt = tenant_StatusSuspended \<or> nxt = tenant_StatusDisabled) then True
      else if cur = tenant_StatusSuspended \<and> (nxt = tenant_StatusActive \<or> nxt = tenant_StatusDisabled)
      then True
      else False)"

definition tenant_TransitionStatus ::
  "goctx \<Rightarrow> tenant_TransitionStatusInput \<Rightarrow> instant \<Rightarrow> tenant_repo
   \<Rightarrow> (tenant_error + tenant \<times> tenant_StatusChangeEvent) \<times> tenant_repo" where
  "tenant_TransitionStatus c input now r =
     check (tenant_checkContext c 0) r
     (check (tenant_validateMetadata (tti_Metadata input)) r
     (check (tenant_checkContext c 1) r
     (check (tenant_checkContext c 2) r
     (fetch (get (tr_byID r) (tti_TenantID input)) TErrNotFound r (\<lambda>t.
      check (fails (tnt_Status t = tenant_StatusDisabled) TErrDisabled) r
     (check (fails (tti_ExpectedVersion input \<noteq> tnt_Version t) TErrConflict) r
     (check (fails (\<not> tenant_validTransition (tnt_Status t) (tti_NextStatus input)) TErrInvalidTransition) r
     (let m = tti_Metadata input;
          event = \<lparr>tev_TenantID = tnt_TenantID t, tev_PreviousStatus = tnt_Status t,
                   tev_NextStatus = tti_NextStatus input, tev_ActorType = trim_space (tmd_ActorType m),
                   tev_ActorID = trim_space (tmd_ActorID m), tev_Reason = trim_space (tmd_Reason m),
                   tev_CorrelationID = trim_space (tmd_CorrelationID m),
                   tev_PreviousVersion = tnt_Version t, tev_NextVersion = tnt_Version t + 1,
                   tev_OccurredAt = now\<rparr>;
          updated = t\<lparr>tnt_Status := tti_NextStatus input, tnt_Version := tnt_Version t + 1,
                      tnt_UpdatedAt := now\<rparr>
      in (Inr (updated, event), r\<lparr>tr_byID := put (tti_TenantID input) updated (tr_byID r)\<rparr>)))))))))"

subsection \<open>Steps and invariant\<close>

text \<open>The clock never shows the zero time and the random source fills its ten bytes or fails.\<close>

inductive tenant_step :: "tenant_repo \<Rightarrow> tenant_repo \<Rightarrow> bool" where
  create: "random_ok random \<Longrightarrow> now \<noteq> 0 \<Longrightarrow> tenant_Create c input ms random now r = (res, r')
    \<Longrightarrow> tenant_step r r'"
| update: "now \<noteq> 0 \<Longrightarrow> tenant_UpdateConfiguration c input' now r = (res, r') \<Longrightarrow> tenant_step r r'"
| transition: "now \<noteq> 0 \<Longrightarrow> tenant_TransitionStatus c input'' now r = (res', r') \<Longrightarrow> tenant_step r r'"

definition tenant_repo_ok :: "tenant_repo \<Rightarrow> bool" where
  "tenant_repo_ok r \<longleftrightarrow> well_keyed (tr_byID r)
     \<and> (\<forall>i t. get (tr_byID r) i = Some t \<longrightarrow> tnt_TenantID t = i \<and> tenant_Validate t = None)
     \<and> (\<forall>k i. get (tr_byKey r) k = Some i
          \<longleftrightarrow> (\<exists>t. get (tr_byID r) i = Some t \<and> tnt_TenantKey t = k))"

inductive tenant_reachable :: "tenant_repo \<Rightarrow> bool" where
  start: "tenant_reachable tenant_NewRepository"
| step: "tenant_reachable r \<Longrightarrow> tenant_step r r' \<Longrightarrow> tenant_reachable r'"

lemma tenant_ops_keep:
  "keeps r (tenant_Create c input ms random now r)"
  "keeps r (tenant_UpdateConfiguration c input' now r)"
  "keeps r (tenant_TransitionStatus c input'' now r)"
  by (simp_all add: tenant_Create_def tenant_UpdateConfiguration_def tenant_TransitionStatus_def
      Let_def keeps_intros)

text \<open>What a step did: nothing, a new tenant, or one tenant moved on by one version.\<close>

inductive tenant_change :: "tenant \<Rightarrow> tenant \<Rightarrow> bool" where
  configured: "tnt_Status t \<noteq> tenant_StatusDisabled \<Longrightarrow> now \<noteq> 0
    \<Longrightarrow> tenant_ValidateConfiguration (tui_DisplayName input) (tui_RateLimitRPM input)
          (tui_MaxConcurrentExecutions input) (tui_MonthlyTokenBudget input)
          (tui_MonthlySpendLimitMinor input) (tui_BillingCurrency input) retention masking
          (tui_TraceSamplingRate input) = None
    \<Longrightarrow> tenant_change t (updated_configuration input retention masking now t)"
| moved: "tnt_Status t \<noteq> tenant_StatusDisabled \<Longrightarrow> now \<noteq> 0 \<Longrightarrow> tenant_validTransition (tnt_Status t) nxt
    \<Longrightarrow> tenant_change t (t\<lparr>tnt_Status := nxt, tnt_Version := tnt_Version t + 1, tnt_UpdatedAt := now\<rparr>)"

lemma tenant_UpdateConfiguration_ok:
  assumes "tenant_UpdateConfiguration c input now r = (Inr t', r')" and "now \<noteq> 0"
  shows "\<exists>t. get (tr_byID r) (tui_TenantID input) = Some t \<and> tenant_change t t'
    \<and> tnt_Version t = tui_ExpectedVersion input
    \<and> r' = r\<lparr>tr_byID := put (tui_TenantID input) t' (tr_byID r)\<rparr>"
  using assms by (auto simp: tenant_UpdateConfiguration_def Let_def intro: tenant_change.configured)

lemma tenant_TransitionStatus_ok:
  assumes "tenant_TransitionStatus c input now r = (Inr (t', ev), r')" and "now \<noteq> 0"
  shows "\<exists>t. get (tr_byID r) (tti_TenantID input) = Some t \<and> tenant_change t t'
    \<and> tnt_Version t = tti_ExpectedVersion input
    \<and> r' = r\<lparr>tr_byID := put (tti_TenantID input) t' (tr_byID r)\<rparr>"
  using assms by (auto simp: tenant_TransitionStatus_def Let_def intro: tenant_change.moved)

lemma tenant_Create_ok:
  assumes "tenant_Create c input ms random now r = (Inr t, r')"
  shows "NewTenant input ms random now = Inr t \<and> get (tr_byID r) (tnt_TenantID t) = None
    \<and> get (tr_byKey r) (tnt_TenantKey t) = None
    \<and> r' = r\<lparr>tr_byID := put (tnt_TenantID t) t (tr_byID r),
             tr_byKey := put (tnt_TenantKey t) (tnt_TenantID t) (tr_byKey r)\<rparr>"
  using assms by (auto simp: tenant_Create_def)

lemma tenant_step_cases:
  assumes "tenant_step r r'"
  obtains (same) "r' = r"
  | (new) t where "tenant_Validate t = None" "get (tr_byID r) (tnt_TenantID t) = None"
      "get (tr_byKey r) (tnt_TenantKey t) = None"
      "r' = r\<lparr>tr_byID := put (tnt_TenantID t) t (tr_byID r),
              tr_byKey := put (tnt_TenantKey t) (tnt_TenantID t) (tr_byKey r)\<rparr>"
  | (change) i t t' where "get (tr_byID r) i = Some t" "tenant_change t t'"
      "r' = r\<lparr>tr_byID := put i t' (tr_byID r)\<rparr>"
  using assms
proof cases
  case (create random now c input ms res)
  then show thesis
  proof (cases res)
    case (Inl e)
    with create keepsD [OF tenant_ops_keep(1)] same show thesis by blast
  next
    case (Inr t)
    with create tenant_Create_ok [of c input ms random now r t r'] NewTenant_valid [of input ms random now t]
    show thesis by (intro new [of t]) simp_all
  qed
next
  case (update now c input res)
  then show thesis
  proof (cases res)
    case (Inl e)
    with update keepsD [OF tenant_ops_keep(2)] same show thesis by blast
  next
    case (Inr t)
    with tenant_UpdateConfiguration_ok update change show thesis by blast
  qed
next
  case (transition now c input res)
  then show thesis
  proof (cases res)
    case (Inl e)
    with transition keepsD [OF tenant_ops_keep(3)] same show thesis by blast
  next
    case (Inr p)
    with tenant_TransitionStatus_ok [of c input now r] transition change show thesis
      by (cases p) blast
  qed
qed

lemma tenant_change_keeps:
  assumes "tenant_change t t'"
  shows "tnt_TenantID t' = tnt_TenantID t" "tnt_TenantKey t' = tnt_TenantKey t"
    "tnt_CreatedAt t' = tnt_CreatedAt t" "tnt_Version t' = tnt_Version t + 1"
    "tnt_Status t \<noteq> tenant_StatusDisabled"
  using assms by (cases, simp_all add: updated_configuration_def)+

lemma tenant_change_valid: "tenant_change t t' \<Longrightarrow> tenant_Validate t = None \<Longrightarrow> tenant_Validate t' = None"
  by (induction rule: tenant_change.induct)
     (auto simp: tenant_Validate_iff updated_configuration_def tenant_validTransition_def split: if_splits)

lemma tenant_repo_okD:
  assumes "tenant_repo_ok r" and "get (tr_byID r) i = Some t"
  shows "tnt_TenantID t = i" "tenant_Validate t = None" "get (tr_byKey r) (tnt_TenantKey t) = Some i"
  using assms by (auto simp: tenant_repo_ok_def)

lemma tenant_step_ok [wf_intros]:
  assumes "tenant_step r r'" and ok: "tenant_repo_ok r"
  shows "tenant_repo_ok r'"
  using assms(1)
proof (cases rule: tenant_step_cases)
  case same
  with ok show ?thesis by simp
next
  case (new t)
  with ok show ?thesis unfolding tenant_repo_ok_def by (auto split: if_splits) (metis option.distinct(1))+
next
  case (change i t t')
  note t = tenant_repo_okD [OF ok change(1)]
  have "tenant_Validate t' = None" using tenant_change_valid [OF change(2) t(2)] .
  with change tenant_change_keeps [OF change(2)] t ok show ?thesis
    unfolding tenant_repo_ok_def by auto
qed

lemma tenant_reachable_ok: "tenant_reachable r \<Longrightarrow> tenant_repo_ok r"
proof (induction rule: tenant_reachable.induct)
  case start
  show ?case by (simp add: tenant_repo_ok_def tenant_NewRepository_def)
next
  case (step r r')
  then show ?case by (blast intro: tenant_step_ok)
qed

lemma tenant_reachable_star: "tenant_step\<^sup>*\<^sup>* r r' \<Longrightarrow> tenant_reachable r \<Longrightarrow> tenant_reachable r'"
  by (induction rule: rtranclp_induct) (auto intro: tenant_reachable.step)

subsection \<open>Optimistic locking\<close>

definition tenant_version :: "tenant_repo \<Rightarrow> string \<Rightarrow> int" where
  "tenant_version r i = (case get (tr_byID r) i of None \<Rightarrow> 0 | Some t \<Rightarrow> tnt_Version t)"

definition tenant_applied :: "tenant_repo \<Rightarrow> string \<Rightarrow> int \<Rightarrow> tenant_repo \<Rightarrow> bool" where
  "tenant_applied r i v r' \<longleftrightarrow>
     (\<exists>c input now t. now \<noteq> 0 \<and> tenant_UpdateConfiguration c input now r = (Inr t, r')
        \<and> tui_TenantID input = i \<and> tui_ExpectedVersion input = v)
     \<or> (\<exists>c input now res. now \<noteq> 0 \<and> tenant_TransitionStatus c input now r = (Inr res, r')
        \<and> tti_TenantID input = i \<and> tti_ExpectedVersion input = v)"

lemma tenant_appliedD:
  assumes "tenant_applied r i v r'"
  shows "\<exists>t t'. get (tr_byID r) i = Some t \<and> tnt_Version t = v \<and> tenant_change t t'
    \<and> r' = r\<lparr>tr_byID := put i t' (tr_byID r)\<rparr>"
  using assms unfolding tenant_applied_def
proof (elim disjE exE conjE)
  fix c input now t
  assume "now \<noteq> 0" "tenant_UpdateConfiguration c input now r = (Inr t, r')"
    "tui_TenantID input = i" "tui_ExpectedVersion input = v"
  with tenant_UpdateConfiguration_ok [of c input now r t r'] show ?thesis by auto
next
  fix c input now and res :: "tenant \<times> tenant_StatusChangeEvent"
  assume "now \<noteq> 0" "tenant_TransitionStatus c input now r = (Inr res, r')"
    "tti_TenantID input = i" "tti_ExpectedVersion input = v"
  with tenant_TransitionStatus_ok [of c input now r "fst res" "snd res" r'] show ?thesis by auto
qed

interpretation tenants: versioned tenant_step tenant_version tenant_applied
proof
  fix r r' i
  assume "tenant_step r r'"
  then show "tenant_version r i \<le> tenant_version r' i"
    by (cases rule: tenant_step_cases)
       (auto simp: tenant_version_def tenant_Validate_iff tenant_change_keeps split: option.split)
next
  fix r r' i v
  assume a: "tenant_applied r i v r'"
  then show "tenant_step r r'" unfolding tenant_applied_def
    by (auto intro: tenant_step.update tenant_step.transition)
  from tenant_appliedD [OF a] show "tenant_version r i = v" "tenant_version r' i = v + 1"
    by (auto simp: tenant_version_def tenant_change_keeps)
qed

subsection \<open>Disabled tenants\<close>

lemma tenant_step_disabled:
  assumes "tenant_step r r'" and "get (tr_byID r) i = Some t" and "tnt_Status t = tenant_StatusDisabled"
  shows "get (tr_byID r') i = Some t"
  using assms(1)
proof (cases rule: tenant_step_cases)
  case same
  with assms(2) show ?thesis by simp
next
  case (new u)
  with assms(2) show ?thesis by auto
next
  case (change j u u')
  then have "j \<noteq> i" using assms(2,3) tenant_change_keeps(5) [of u u'] by auto
  with change assms(2) show ?thesis by simp
qed

subsection \<open>Properties\<close>

text \<open>A repository with one tenant, for the examples.\<close>

definition demo_create :: tenant_CreateInput where
  "demo_create = \<lparr>tci_TenantKey = '' Acme '', tci_DisplayName = ''Acme'', tci_Status = [],
     tci_RateLimitRPM = Some 60, tci_MaxConcurrentExecutions = None, tci_MonthlyTokenBudget = None,
     tci_MonthlySpendLimitMinor = Some 100, tci_BillingCurrency = ''EUR'', tci_AuditRetentionDays = 0,
     tci_LogMaskingLevel = [], tci_TraceSamplingRate = Float 1 (- 1), tci_DefaultAgentAppID = None,
     tci_DefaultBackendProfileID = None\<rparr>"

definition demo_tenants :: tenant_repo where
  "demo_tenants = snd (tenant_Create (Some background) demo_create 5 (Some (replicate 10 7)) 1 tenant_NewRepository)"

definition demo_tenant :: tenant where
  "demo_tenant = projr (NewTenant demo_create 5 (Some (replicate 10 7)) 1)"

definition demo_transition :: "string \<Rightarrow> int \<Rightarrow> tenant_TransitionStatusInput" where
  "demo_transition status v = \<lparr>tti_TenantID = tnt_TenantID demo_tenant, tti_ExpectedVersion = v,
     tti_NextStatus = status, tti_Metadata = \<lparr>tmd_ActorType = ''user'', tmd_ActorID = ''u'',
       tmd_Reason = ''r'', tmd_CorrelationID = ''c''\<rparr>\<rparr>"

definition demo_disabled :: tenant_repo where
  "demo_disabled = snd (tenant_TransitionStatus (Some background)
     (demo_transition tenant_StatusDisabled 1) 2 demo_tenants)"

lemma demo_key: "normalizeTenantKey '' Acme '' = Inr ''acme''"
  by code_simp

lemma demo_configuration:
  "tenant_ValidateConfiguration ''Acme'' (Some 60) None None (Some 100) ''EUR'' 90 MaskingBasic (Float 1 (- 1)) = None"
  by code_simp

lemma demo_NewTenant: "NewTenant demo_create 5 (Some (replicate 10 7)) 1 = Inr demo_tenant"
  unfolding demo_tenant_def
  by (simp add: NewTenant_def demo_create_def demo_key demo_configuration newTenantID_def Let_def
      tenant_status_defs)

lemma demo_Create:
  "tenant_Create (Some background) demo_create 5 (Some (replicate 10 7)) 1 tenant_NewRepository
   = (Inr demo_tenant, demo_tenants)"
  by (simp add: demo_tenants_def tenant_Create_def tenant_checkContext_def demo_NewTenant
      tenant_NewRepository_def)

lemma demo_random: "random_ok (Some (replicate 10 7))"
  by (simp add: random_ok_def list_all_iff)

lemma demo_tenants_reachable: "tenant_reachable demo_tenants"
  by (rule tenant_reachable.step [OF tenant_reachable.start])
     (rule tenant_step.create [OF demo_random _ demo_Create], simp)

lemma demo_stored: "get (tr_byID demo_tenants) (tnt_TenantID demo_tenant) = Some demo_tenant"
  by (subst conjunct2 [OF conjunct2 [OF conjunct2 [OF tenant_Create_ok [OF demo_Create]]]]) simp

lemma demo_tenant_key: "tnt_TenantKey demo_tenant = ''acme''"
  unfolding demo_tenant_def
  by (simp add: NewTenant_def demo_create_def demo_key demo_configuration newTenantID_def Let_def
      tenant_status_defs)

lemma demo_tenant_fields: "tnt_Status demo_tenant = tenant_StatusActive" "tnt_Version demo_tenant = 1"
  unfolding demo_tenant_def
  by (simp_all add: NewTenant_def demo_create_def demo_key demo_configuration newTenantID_def Let_def
      tenant_status_defs)

lemma demo_metadata: "tenant_validateMetadata (tti_Metadata (demo_transition status v)) = None"
  by (simp add: demo_transition_def tenant_validateMetadata_def visible_trim visible_def)

definition demo_disabled_tenant :: tenant where
  "demo_disabled_tenant = demo_tenant\<lparr>tnt_Status := tenant_StatusDisabled, tnt_Version := 2, tnt_UpdatedAt := 2\<rparr>"

lemma demo_disable:
  "\<exists>ev. tenant_TransitionStatus (Some background) (demo_transition tenant_StatusDisabled 1) 2 demo_tenants
     = (Inr (demo_disabled_tenant, ev), demo_disabled)"
  "get (tr_byID demo_disabled) (tnt_TenantID demo_tenant) = Some demo_disabled_tenant"
  using demo_metadata [of tenant_StatusDisabled 1] unfolding demo_disabled_def demo_disabled_tenant_def
  by (simp_all add: tenant_TransitionStatus_def tenant_checkContext_def demo_transition_def demo_stored
      demo_tenant_fields tenant_validTransition_def tenant_status_defs Let_def)

lemma demo_applied: "tenant_applied demo_tenants (tnt_TenantID demo_tenant) 1 demo_disabled"
proof -
  have "tti_TenantID (demo_transition tenant_StatusDisabled 1) = tnt_TenantID demo_tenant"
    "tti_ExpectedVersion (demo_transition tenant_StatusDisabled 1) = 1"
    by (simp_all add: demo_transition_def)
  then show ?thesis
    unfolding tenant_applied_def using demo_disable(1) zero_neq_numeral [of "Num.Bit0 Num.One"] by metis
qed

text \<open>
  A tenant that was constructed is valid. Its identifier passes the identifier check, its
  key is normalized, its configuration is within the limits; it starts at version 1 and is not
  disabled. The identifier is generated, never taken from the caller, and differs whenever
  the random bytes differ.
\<close>

theorem tenant_NewTenant_valid:
  assumes "NewTenant input ms random now = Inr t" and "random_ok random" and "now \<noteq> 0"
  shows "tenant_Validate t = None \<and> tnt_Version t = 1 \<and> tnt_Status t \<noteq> tenant_StatusDisabled
    \<and> newTenantID ms random = Inr (tnt_TenantID t)
    \<and> (\<forall>ms' random' i'. newTenantID ms' random' = Inr i' \<longrightarrow> random_ok random' \<longrightarrow> random' \<noteq> random
         \<longrightarrow> i' \<noteq> tnt_TenantID t)"
proof -
  have i: "newTenantID ms random = Inr (tnt_TenantID t)"
    using assms(1) by (auto simp: NewTenant_def Let_def)
  have "i' \<noteq> tnt_TenantID t"
    if "newTenantID ms' random' = Inr i'" "random_ok random'" "random' \<noteq> random" for ms' random' i'
    using that i assms(2) newTenantID_inj by (cases random; cases random') (auto simp: newTenantID_def)
  with i NewTenant_valid [OF assms] show ?thesis by blast
qed

theorem tenant_NewTenant_valid_witness:
  "tenant_Validate demo_tenant = None \<and> tnt_TenantKey demo_tenant = ''acme''"
  using tenant_NewTenant_valid [OF demo_NewTenant demo_random] demo_tenant_key by simp

text \<open>
  C10: the two indexes of a reachable repository agree and every stored tenant is valid. A
  tenant is stored under its own identifier, the key index holds exactly the keys of the
  stored tenants, and no two tenants share a key.
\<close>

theorem tenant_repository_consistent:
  assumes "tenant_reachable r" and "get (tr_byID r) i = Some t"
  shows "tnt_TenantID t = i \<and> tenant_Validate t = None
    \<and> (\<forall>k j. get (tr_byKey r) k = Some j \<longleftrightarrow> (\<exists>u. get (tr_byID r) j = Some u \<and> tnt_TenantKey u = k))
    \<and> (\<forall>j u. get (tr_byID r) j = Some u \<longrightarrow> tnt_TenantKey u = tnt_TenantKey t \<longrightarrow> j = i)"
proof -
  note ok = tenant_reachable_ok [OF assms(1)]
  note t = tenant_repo_okD [OF ok assms(2)]
  have "j = i" if "get (tr_byID r) j = Some u" "tnt_TenantKey u = tnt_TenantKey t" for j u
    using tenant_repo_okD(3) [OF ok that(1)] that(2) t(3) by simp
  with t ok show ?thesis unfolding tenant_repo_ok_def by blast
qed

theorem tenant_repository_consistent_witness:
  "get (tr_byKey demo_tenants) ''acme'' = Some (tnt_TenantID demo_tenant)"
  using tenant_repository_consistent [OF demo_tenants_reachable demo_stored] demo_stored demo_tenant_key
  by blast

text \<open>
  No update of a tenant is lost. After a configuration update or a status transition that
  was computed from one version, every other update or transition computed from the same
  version is refused and changes nothing, in every later state.
\<close>

theorem tenant_no_lost_update:
  assumes "tenant_applied r i v r1" and "tenant_step\<^sup>*\<^sup>* r1 r2" and "now \<noteq> 0"
  shows "(tui_TenantID input = i \<and> tui_ExpectedVersion input = v
        \<longrightarrow> (\<exists>e. tenant_UpdateConfiguration c input now r2 = (Inl e, r2)))
    \<and> (tti_TenantID input' = i \<and> tti_ExpectedVersion input' = v
        \<longrightarrow> (\<exists>e. tenant_TransitionStatus c input' now r2 = (Inl e, r2)))"
proof -
  have never: "\<not> tenant_applied r2 i v r3" for r3
    by (rule tenants.no_lost_update [OF assms(1,2)])
  have "\<exists>e. tenant_UpdateConfiguration c input now r2 = (Inl e, r2)"
    if "tui_TenantID input = i" "tui_ExpectedVersion input = v"
  proof (rule keeps_refused [OF tenant_ops_keep(2)])
    show "tenant_UpdateConfiguration c input now r2 \<noteq> (Inr t, r3)" for t r3
      using never [of r3] that assms(3) unfolding tenant_applied_def by blast
  qed
  moreover have "\<exists>e. tenant_TransitionStatus c input' now r2 = (Inl e, r2)"
    if "tti_TenantID input' = i" "tti_ExpectedVersion input' = v"
  proof (rule keeps_refused [OF tenant_ops_keep(3)])
    show "tenant_TransitionStatus c input' now r2 \<noteq> (Inr t, r3)" for t r3
      using never [of r3] that assms(3) unfolding tenant_applied_def by blast
  qed
  ultimately show ?thesis by blast
qed

theorem tenant_no_lost_update_witness:
  "\<exists>e. tenant_TransitionStatus (Some background) (demo_transition tenant_StatusSuspended 1) 3 demo_disabled
     = (Inl e, demo_disabled)"
  using tenant_no_lost_update [OF demo_applied rtranclp.rtrancl_refl, of 3 undefined "Some background"
      "demo_transition tenant_StatusSuspended 1"]
  by (simp add: demo_transition_def)

text \<open>
  Disabled is final. A disabled tenant stays exactly as it is in every later state, a
  further update or transition reports that it is disabled, and no execution snapshot is
  made of it.
\<close>

theorem tenant_disabled_final:
  assumes "get (tr_byID r) i = Some t" and "tnt_Status t = tenant_StatusDisabled"
    and "tenant_step\<^sup>*\<^sup>* r r'"
  shows "get (tr_byID r') i = Some t \<and> (\<exists>e. NewConfigurationSnapshot (Some t) = Inl e)
    \<and> (tenant_validateMetadata (tti_Metadata input) = None \<and> tti_TenantID input = i
        \<longrightarrow> tenant_TransitionStatus None input now r' = (Inl TErrDisabled, r'))"
proof -
  from assms(3,1) have stored: "get (tr_byID r') i = Some t"
    by (induction rule: rtranclp_induct) (use tenant_step_disabled assms(2) in blast)+
  have "\<not> CanAcceptExecution t" using assms(2) by (simp add: CanAcceptExecution_def tenant_status_defs)
  then have "\<exists>e. NewConfigurationSnapshot (Some t) = Inl e"
    by (cases "NewConfigurationSnapshot (Some t)") (auto simp: NewConfigurationSnapshot_def)
  with stored assms(2) show ?thesis
    by (simp add: tenant_TransitionStatus_def tenant_checkContext_def)
qed

theorem tenant_disabled_final_witness:
  "\<exists>e. NewConfigurationSnapshot (Some demo_disabled_tenant) = Inl e"
  using tenant_disabled_final [OF demo_disable(2) _ rtranclp.rtrancl_refl]
  by (simp add: demo_disabled_tenant_def)

text \<open>
  Runner identities do not collide. Two executions get the same user identity only for the
  same tenant and the same external user, and the same session identity only for the same
  tenant and the same external session, whatever bytes the external identifiers contain.
\<close>

theorem tenant_runner_identity_injective:
  assumes "NewRunnerIdentity ten user sess = Inr x" and "NewRunnerIdentity ten' user' sess' = Inr y"
  shows "(rid_UserID x = rid_UserID y \<longleftrightarrow> ten = ten' \<and> user = user')
    \<and> (rid_SessionID x = rid_SessionID y \<longleftrightarrow> ten = ten' \<and> sess = sess')"
  using assms namespacedID_inj by (fastforce simp: NewRunnerIdentity_def)

theorem tenant_runner_identity_injective_witness:
  "\<exists>x y. NewRunnerIdentity (tnt_TenantID demo_tenant) ''1:a'' ''s'' = Inr x
     \<and> NewRunnerIdentity (tnt_TenantID demo_tenant) ''1'' ''s'' = Inr y \<and> rid_UserID x \<noteq> rid_UserID y"
proof -
  have "validateTenantID (tnt_TenantID demo_tenant) = None"
    using NewTenant_valid [OF demo_NewTenant demo_random] by (simp add: tenant_Validate_iff)
  then obtain x y where "NewRunnerIdentity (tnt_TenantID demo_tenant) ''1:a'' ''s'' = Inr x"
    "NewRunnerIdentity (tnt_TenantID demo_tenant) ''1'' ''s'' = Inr y"
    by (simp add: NewRunnerIdentity_def namespacedID_def)
  with tenant_runner_identity_injective [OF this] show ?thesis by simp
qed

end
