(* ===== verification/Agent_App.thy ===== *)
theory Agent_App
  imports Ident
begin

text \<open>
  The Agent App root of \<^verbatim>\<open>agent/app.go\<close>: the stable identity and publication pointer of an
  agent application, its validation, construction and lifecycle rules.
\<close>

subsection \<open>Data\<close>

datatype agent_error =
    AErrInvalid
  | AErrNotFound
  | AErrConflict
  | AErrDuplicateKey
  | AErrDisabled
  | AErrInvalidTransition
  | AErrImmutableRevision
  | AErrRandom
  | AErrEncode
  | AErrPanic
  | AErrCtx ctx_error

definition agent_StatusDraft :: string where "agent_StatusDraft = ''draft''"

definition agent_StatusActive :: string where "agent_StatusActive = ''active''"

definition agent_StatusSuspended :: string where "agent_StatusSuspended = ''suspended''"

definition agent_StatusDisabled :: string where "agent_StatusDisabled = ''disabled''"

lemmas agent_status_defs =
  agent_StatusDraft_def agent_StatusActive_def agent_StatusSuspended_def agent_StatusDisabled_def

record app =
  app_TenantID :: string
  app_AppID :: string
  app_AppKey :: string
  app_DisplayName :: string
  app_Description :: string
  app_Status :: string
  app_CurrentRevision :: "int option"
  app_CanaryRevision :: "int option"
  app_Version :: int
  app_CreatedAt :: instant
  app_UpdatedAt :: instant

record agent_CreateInput =
  aci_TenantID :: string
  aci_AppKey :: string
  aci_DisplayName :: string
  aci_Description :: string

subsection \<open>Validation\<close>

definition agent_validStatus :: "string \<Rightarrow> bool" where
  "agent_validStatus status \<longleftrightarrow>
     status = agent_StatusDraft \<or> status = agent_StatusActive \<or> status = agent_StatusSuspended
     \<or> status = agent_StatusDisabled"

definition validateAppMetadata :: "string \<Rightarrow> string \<Rightarrow> agent_error option" where
  "validateAppMetadata displayName description =
     first_error
       [fails (rune_count (trim_space displayName) < 1 \<or> rune_count (trim_space displayName) > 200) AErrInvalid,
        fails (rune_count (trim_space description) > 2000) AErrInvalid]"

definition normalizeAppKey :: "string \<Rightarrow> agent_error + string" where
  "normalizeAppKey k =
     (let k = to_lower (trim_space k) in
      if length k < 2 \<or> length k > 64 \<or> \<not> slug_first (hd k) then Inl AErrInvalid
      else if \<not> list_all slug_char (tl k) then Inl AErrInvalid
      else Inr k)"

definition trim_prefix :: "string \<Rightarrow> string \<Rightarrow> string" where
  "trim_prefix p s = (if take (length p) s = p then drop (length p) s else s)"

definition validateCrockfordID :: "string \<Rightarrow> string \<Rightarrow> agent_error option" where
  "validateCrockfordID i p =
     (let payload = trim_prefix p i in
      first_error
        [fails (payload = i \<or> length payload \<noteq> 26) AErrInvalid,
         fails (payload ! 0 > CHR ''7'') AErrInvalid,
         fails (\<not> list_all (\<lambda>r. r \<in> set (map byte crockford)) (runes payload)) AErrInvalid])"

definition agent_validateTenantID :: "string \<Rightarrow> agent_error option" where
  "agent_validateTenantID i = validateCrockfordID i ''t_''"

definition validateAppID :: "string \<Rightarrow> agent_error option" where
  "validateAppID i = validateCrockfordID i ''app_''"

definition app_validateIdentity :: "app \<Rightarrow> agent_error option" where
  "app_validateIdentity a =
     first_error
       [agent_validateTenantID (app_TenantID a),
        validateAppID (app_AppID a),
        error_of (normalizeAppKey (app_AppKey a)),
        fails (normalizeAppKey (app_AppKey a) \<noteq> Inr (app_AppKey a)) AErrInvalid,
        validateAppMetadata (app_DisplayName a) (app_Description a),
        fails (app_DisplayName a \<noteq> trim_space (app_DisplayName a)
               \<or> app_Description a \<noteq> trim_space (app_Description a)) AErrInvalid]"

definition below_one :: "int option \<Rightarrow> bool" where
  "below_one v = (case v of None \<Rightarrow> False | Some n \<Rightarrow> n < 1)"

definition app_validateLifecycle :: "app \<Rightarrow> agent_error option" where
  "app_validateLifecycle a =
     first_error
       [fails (\<not> agent_validStatus (app_Status a)) AErrInvalid,
        (if app_Status a = agent_StatusDraft then fails (app_CurrentRevision a \<noteq> None) AErrInvalid
         else if app_Status a = agent_StatusActive \<or> app_Status a = agent_StatusSuspended then
           fails (app_CurrentRevision a = None \<or> below_one (app_CurrentRevision a)) AErrInvalid
         else if app_Status a = agent_StatusDisabled then
           fails (app_CurrentRevision a \<noteq> None \<and> below_one (app_CurrentRevision a)) AErrInvalid
         else None),
        fails (app_CanaryRevision a \<noteq> None
               \<and> (below_one (app_CanaryRevision a) \<or> app_CurrentRevision a = None
                  \<or> app_CanaryRevision a = app_CurrentRevision a)) AErrInvalid]"

definition app_Validate :: "app \<Rightarrow> agent_error option" where
  "app_Validate a =
     first_error
       [app_validateIdentity a,
        app_validateLifecycle a,
        fails (app_Version a < 1 \<or> app_CreatedAt a = 0 \<or> app_UpdatedAt a = 0
               \<or> app_UpdatedAt a < app_CreatedAt a) AErrInvalid]"

subsection \<open>Construction and lifecycle\<close>

definition newAppID :: "int \<Rightarrow> nat list option \<Rightarrow> agent_error + string" where
  "newAppID ms random =
     (case random of None \<Rightarrow> Inl AErrRandom | Some bytes \<Rightarrow> Inr (''app_'' @ ulid ms bytes))"

definition NewApp :: "agent_CreateInput \<Rightarrow> int \<Rightarrow> nat list option \<Rightarrow> instant \<Rightarrow> agent_error + app" where
  "NewApp input ms random now =
     ensure (agent_validateTenantID (aci_TenantID input))
     (andthen (normalizeAppKey (aci_AppKey input)) (\<lambda>k.
      ensure (validateAppMetadata (aci_DisplayName input) (aci_Description input))
     (andthen (newAppID ms random) (\<lambda>i.
      Inr \<lparr>app_TenantID = aci_TenantID input, app_AppID = i, app_AppKey = k,
           app_DisplayName = trim_space (aci_DisplayName input),
           app_Description = trim_space (aci_Description input),
           app_Status = agent_StatusDraft, app_CurrentRevision = None, app_CanaryRevision = None,
           app_Version = 1, app_CreatedAt = now, app_UpdatedAt = now\<rparr>))))"

definition app_CanAcceptExecution :: "app \<Rightarrow> bool" where
  "app_CanAcceptExecution a \<longleftrightarrow>
     app_Status a = agent_StatusActive
     \<and> (case app_CurrentRevision a of None \<Rightarrow> False | Some n \<Rightarrow> n \<ge> 1)"

definition app_CanTransitionTo :: "app \<Rightarrow> string \<Rightarrow> bool" where
  "app_CanTransitionTo a nxt =
     (if app_Status a = agent_StatusDraft then nxt = agent_StatusDisabled
      else if app_Status a = agent_StatusActive then
        nxt = agent_StatusSuspended \<or> nxt = agent_StatusDisabled
      else if app_Status a = agent_StatusSuspended then
        nxt = agent_StatusActive \<or> nxt = agent_StatusDisabled
      else False)"

subsection \<open>Valid identifiers and applications\<close>

lemma generated_id_valid:
  assumes "length r = 10" and "list_all (\<lambda>b. b < 256) r"
  shows "validateCrockfordID (p @ ulid ms r) p = None \<longleftrightarrow> p \<noteq> []"
  using ulid_valid [OF assms, of ms] by (auto simp: validateCrockfordID_def trim_prefix_def Let_def)

lemma newAppID_valid:
  assumes "newAppID ms random = Inr i" and "random_ok random"
  shows "validateAppID i = None"
  using assms generated_id_valid [of _ "''app_''" ms]
  by (auto simp: newAppID_def random_ok_def validateAppID_def split: option.splits)

lemma normalizeAppKey_ok: "normalizeAppKey k = Inr k' \<Longrightarrow> slug_ok k'"
  by (auto simp: normalizeAppKey_def slug_ok_def Let_def split: if_splits)

lemma normalizeAppKey_fixed: "slug_ok k \<Longrightarrow> normalizeAppKey k = Inr k"
  by (simp add: normalizeAppKey_def slug_normal Let_def) (simp add: slug_ok_def)

lemma normalizeAppKey_iff: "normalizeAppKey k = Inr k \<longleftrightarrow> slug_ok k"
  using normalizeAppKey_ok normalizeAppKey_fixed by blast

lemma validateAppMetadata_trim [simp]:
  "validateAppMetadata (trim_space n) (trim_space d) = validateAppMetadata n d"
  by (simp add: validateAppMetadata_def)

text \<open>What a valid application is, without the order of the checks.\<close>

definition app_identity_ok :: "app \<Rightarrow> bool" where
  "app_identity_ok a \<longleftrightarrow>
     agent_validateTenantID (app_TenantID a) = None \<and> validateAppID (app_AppID a) = None
     \<and> slug_ok (app_AppKey a) \<and> validateAppMetadata (app_DisplayName a) (app_Description a) = None
     \<and> trim_space (app_DisplayName a) = app_DisplayName a
     \<and> trim_space (app_Description a) = app_Description a"

definition app_lifecycle_ok :: "app \<Rightarrow> bool" where
  "app_lifecycle_ok a \<longleftrightarrow>
     (case app_CurrentRevision a of
        None \<Rightarrow> app_CanaryRevision a = None \<and> app_Status a \<in> {agent_StatusDraft, agent_StatusDisabled}
      | Some n \<Rightarrow> 1 \<le> n \<and> app_Status a \<in> {agent_StatusActive, agent_StatusSuspended, agent_StatusDisabled}
          \<and> (\<forall>k. app_CanaryRevision a = Some k \<longrightarrow> 1 \<le> k \<and> k \<noteq> n))"

lemma app_validateIdentity_iff: "app_validateIdentity a = None \<longleftrightarrow> app_identity_ok a"
  using normalizeAppKey_iff [of "app_AppKey a"]
  by (auto simp: app_validateIdentity_def app_identity_ok_def error_of_None)

lemma app_validateLifecycle_iff: "app_validateLifecycle a = None \<longleftrightarrow> app_lifecycle_ok a"
  by (cases "app_CurrentRevision a"; cases "app_CanaryRevision a")
     (auto simp: app_validateLifecycle_def app_lifecycle_ok_def agent_validStatus_def below_one_def
        agent_status_defs)

lemma app_Validate_iff:
  "app_Validate a = None \<longleftrightarrow> app_identity_ok a \<and> app_lifecycle_ok a \<and> 1 \<le> app_Version a
     \<and> app_CreatedAt a \<noteq> 0 \<and> app_UpdatedAt a \<noteq> 0 \<and> app_CreatedAt a \<le> app_UpdatedAt a"
  by (auto simp: app_Validate_def app_validateIdentity_iff app_validateLifecycle_iff)

lemma NewApp_valid:
  assumes "NewApp input ms random now = Inr a" and "random_ok random" and "now \<noteq> 0"
  shows "app_Validate a = None"
  using assms normalizeAppKey_ok newAppID_valid
  by (fastforce simp: NewApp_def app_Validate_iff app_identity_ok_def app_lifecycle_ok_def)

lemma app_CanAcceptExecution_iff:
  "app_Validate a = None \<Longrightarrow> app_CanAcceptExecution a \<longleftrightarrow> app_Status a = agent_StatusActive"
  by (auto simp: app_CanAcceptExecution_def app_Validate_iff app_lifecycle_ok_def agent_status_defs
      split: option.splits)

end
