(* ===== verification/Agent_Revision.thy ===== *)
theory Agent_Revision
  imports Agent_App "HOL-Library.Multiset"
begin

text \<open>
  The revisions of \<^verbatim>\<open>agent/revision.go\<close>: executable content of an Agent App, mutable as a draft
  and immutable and content-addressed once published.

  The content digest is the hex form of the SHA-256 sum of the JSON encoding of the normalized
  content. The encoder and the hash are an argument of the definitions, a function from the
  encoded fields to the digest or to an encoding error; the development uses of it that it is
  a function of these fields.
\<close>

subsection \<open>Data\<close>

definition RevisionStateDraft :: string where "RevisionStateDraft = ''draft''"

definition RevisionStatePublished :: string where "RevisionStatePublished = ''published''"

definition KindLLM :: string where "KindLLM = ''llm''"

definition SchemaVersionV1 :: int where "SchemaVersionV1 = 1"

definition maxInstructionRunes :: nat where "maxInstructionRunes = 65536"

definition maxReferenceRunes :: nat where "maxReferenceRunes = 256"

record generation_config =
  gen_Temperature :: "float64 option"
  gen_TopP :: "float64 option"
  gen_MaxOutputTokens :: "int option"

record runtime_policy =
  pol_MaxLLMCalls :: int
  pol_MaxToolCalls :: int
  pol_EnableParallelTools :: bool
  pol_MaxParallelTools :: int
  pol_ExecutionTimeoutSeconds :: int

definition zeroRuntimePolicy :: runtime_policy where
  "zeroRuntimePolicy = \<lparr>pol_MaxLLMCalls = 0, pol_MaxToolCalls = 0, pol_EnableParallelTools = False,
     pol_MaxParallelTools = 0, pol_ExecutionTimeoutSeconds = 0\<rparr>"

definition DefaultRuntimePolicy :: runtime_policy where
  "DefaultRuntimePolicy = \<lparr>pol_MaxLLMCalls = 16, pol_MaxToolCalls = 64, pol_EnableParallelTools = False,
     pol_MaxParallelTools = 1, pol_ExecutionTimeoutSeconds = 300\<rparr>"

record tool_authorization =
  tool_ToolID :: string
  tool_Required :: bool

record draft_configuration =
  dc_Description :: string
  dc_Instruction :: string
  dc_GlobalInstruction :: string
  dc_ModelProfileID :: string
  dc_Generation :: generation_config
  dc_Runtime :: runtime_policy
  dc_Tools :: "tool_authorization list"

record revision =
  rev_TenantID :: string
  rev_AppID :: string
  rev_Revision :: int
  rev_State :: string
  rev_DraftVersion :: int
  rev_Kind :: string
  rev_SchemaVersion :: int
  rev_Description :: string
  rev_Instruction :: string
  rev_GlobalInstruction :: string
  rev_ModelProfileID :: string
  rev_Generation :: generation_config
  rev_Runtime :: runtime_policy
  rev_Tools :: "tool_authorization list"
  rev_ContentDigest :: string
  rev_PublishedAt :: "instant option"
  rev_CreatedAt :: instant
  rev_UpdatedAt :: instant

record revision_CreateInput =
  rci_TenantID :: string
  rci_AppID :: string
  rci_Revision :: int
  rci_Kind :: string
  rci_SchemaVersion :: int
  rci_Configuration :: draft_configuration

text \<open>What is encoded for the digest, and the encoder with the hash.\<close>

type_synonym digest_payload = "string \<times> int \<times> draft_configuration"

type_synonym digest_fun = "digest_payload \<Rightarrow> string option"

subsection \<open>Normalization\<close>

definition normalize_zero :: "float64 option \<Rightarrow> float64 option" where
  "normalize_zero v =
     (case v of None \<Rightarrow> None | Some x \<Rightarrow> if float_eq x (float_of_int 0) then Some (float_of_int 0) else Some x)"

definition normalizeGenerationConfig :: "generation_config \<Rightarrow> generation_config" where
  "normalizeGenerationConfig g =
     g\<lparr>gen_Temperature := normalize_zero (gen_Temperature g), gen_TopP := normalize_zero (gen_TopP g)\<rparr>"

text \<open>The loop of \<^verbatim>\<open>normalizeTools\<close>, with the identifiers seen so far.\<close>

fun normalize_tool_loop ::
  "string list \<Rightarrow> tool_authorization list \<Rightarrow> agent_error + tool_authorization list" where
  "normalize_tool_loop seen [] = Inr []"
| "normalize_tool_loop seen (t # ts) =
     (let toolID = trim_space (tool_ToolID t) in
      if rune_count toolID < 1 \<or> rune_count toolID > maxReferenceRunes then Inl AErrInvalid
      else if toolID \<in> set seen then Inl AErrInvalid
      else andthen (normalize_tool_loop (toolID # seen) ts) (\<lambda>rest. Inr (t\<lparr>tool_ToolID := toolID\<rparr> # rest)))"

definition normalizeTools :: "tool_authorization list \<Rightarrow> agent_error + tool_authorization list" where
  "normalizeTools tools =
     (if length tools = 0 then Inr []
      else andthen (normalize_tool_loop [] tools) (\<lambda>normalized. Inr (sort_key tool_ToolID normalized)))"

definition normalizeDraftConfiguration :: "draft_configuration \<Rightarrow> agent_error + draft_configuration" where
  "normalizeDraftConfiguration c =
     andthen (normalizeTools (dc_Tools c)) (\<lambda>tools.
     Inr (c\<lparr>dc_Description := trim_space (dc_Description c),
            dc_ModelProfileID := trim_space (dc_ModelProfileID c),
            dc_Generation := normalizeGenerationConfig (dc_Generation c),
            dc_Runtime := (if dc_Runtime c = zeroRuntimePolicy then DefaultRuntimePolicy else dc_Runtime c),
            dc_Tools := tools\<rparr>))"

definition sameFloat64 :: "float64 option \<Rightarrow> float64 option \<Rightarrow> bool" where
  "sameFloat64 left right =
     (case (left, right) of (Some x, Some y) \<Rightarrow> float_eq x y | _ \<Rightarrow> left = None \<and> right = None)"

definition sameInt :: "int option \<Rightarrow> int option \<Rightarrow> bool" where
  "sameInt left right =
     (case (left, right) of (Some x, Some y) \<Rightarrow> x = y | _ \<Rightarrow> left = None \<and> right = None)"

definition sameGenerationConfig :: "generation_config \<Rightarrow> generation_config \<Rightarrow> bool" where
  "sameGenerationConfig left right \<longleftrightarrow>
     sameFloat64 (gen_Temperature left) (gen_Temperature right)
     \<and> sameFloat64 (gen_TopP left) (gen_TopP right)
     \<and> sameInt (gen_MaxOutputTokens left) (gen_MaxOutputTokens right)"

definition sameDraftConfiguration :: "draft_configuration \<Rightarrow> draft_configuration \<Rightarrow> bool" where
  "sameDraftConfiguration left right \<longleftrightarrow>
     dc_Description left = dc_Description right \<and> dc_Instruction left = dc_Instruction right
     \<and> dc_GlobalInstruction left = dc_GlobalInstruction right
     \<and> dc_ModelProfileID left = dc_ModelProfileID right \<and> dc_Runtime left = dc_Runtime right
     \<and> sameGenerationConfig (dc_Generation left) (dc_Generation right)
     \<and> length (dc_Tools left) = length (dc_Tools right)
     \<and> list_all (\<lambda>(x, y). x = y) (zip (dc_Tools left) (dc_Tools right))"

subsection \<open>Validation\<close>

definition float_outside :: "float64 \<Rightarrow> (float64 \<Rightarrow> bool) \<Rightarrow> int \<Rightarrow> bool" where
  "float_outside x low high \<longleftrightarrow>
     x = Float_NaN \<or> float_IsInf x \<or> low x \<or> float_less (float_of_int high) x"

definition validateGenerationConfig :: "generation_config \<Rightarrow> agent_error option" where
  "validateGenerationConfig g =
     first_error
       [fails (case gen_Temperature g of None \<Rightarrow> False
               | Some x \<Rightarrow> float_outside x (\<lambda>x. float_less x (float_of_int 0)) 2) AErrInvalid,
        fails (case gen_TopP g of None \<Rightarrow> False
               | Some x \<Rightarrow> float_outside x (\<lambda>x. float_less x (float_of_int 0) \<or> float_eq x (float_of_int 0)) 1)
          AErrInvalid,
        fails (case gen_MaxOutputTokens g of None \<Rightarrow> False | Some n \<Rightarrow> n < 1 \<or> n > 1000000) AErrInvalid]"

definition validateRuntimePolicy :: "runtime_policy \<Rightarrow> agent_error option" where
  "validateRuntimePolicy p =
     first_error
       [fails (pol_MaxLLMCalls p < 1 \<or> pol_MaxLLMCalls p > 100) AErrInvalid,
        fails (pol_MaxToolCalls p < 0 \<or> pol_MaxToolCalls p > 1000) AErrInvalid,
        fails (pol_MaxParallelTools p < 1 \<or> pol_MaxParallelTools p > 64) AErrInvalid,
        fails (\<not> pol_EnableParallelTools p \<and> pol_MaxParallelTools p \<noteq> 1) AErrInvalid,
        fails (pol_ExecutionTimeoutSeconds p < 1 \<or> pol_ExecutionTimeoutSeconds p > 3600) AErrInvalid]"

definition validateRevisionDefinition :: "string \<Rightarrow> int \<Rightarrow> draft_configuration \<Rightarrow> agent_error option" where
  "validateRevisionDefinition kind schemaVersion c =
     first_error
       [fails (kind \<noteq> KindLLM \<or> schemaVersion \<noteq> SchemaVersionV1) AErrInvalid,
        fails (rune_count (dc_Description c) > 2000) AErrInvalid,
        fails (rune_count (trim_space (dc_Instruction c)) < 1
               \<or> rune_count (trim_space (dc_Instruction c)) > maxInstructionRunes) AErrInvalid,
        fails (rune_count (dc_GlobalInstruction c) > maxInstructionRunes) AErrInvalid,
        fails (rune_count (dc_ModelProfileID c) < 1 \<or> rune_count (dc_ModelProfileID c) > maxReferenceRunes)
          AErrInvalid,
        validateGenerationConfig (dc_Generation c),
        validateRuntimePolicy (dc_Runtime c),
        error_of (normalizeTools (dc_Tools c))]"

definition rev_Configuration :: "revision \<Rightarrow> draft_configuration" where
  "rev_Configuration r =
     \<lparr>dc_Description = rev_Description r, dc_Instruction = rev_Instruction r,
      dc_GlobalInstruction = rev_GlobalInstruction r, dc_ModelProfileID = rev_ModelProfileID r,
      dc_Generation = rev_Generation r, dc_Runtime = rev_Runtime r, dc_Tools = rev_Tools r\<rparr>"

definition ComputeContentDigest :: "digest_fun \<Rightarrow> revision \<Rightarrow> agent_error + string" where
  "ComputeContentDigest digest r =
     andthen (normalizeDraftConfiguration (rev_Configuration r)) (\<lambda>configuration.
     ensure (validateRevisionDefinition (rev_Kind r) (rev_SchemaVersion r) configuration)
     (require (digest (rev_Kind r, rev_SchemaVersion r, configuration)) AErrEncode (\<lambda>sum. Inr sum)))"

definition rev_validateIdentity :: "revision \<Rightarrow> agent_error option" where
  "rev_validateIdentity r =
     first_error
       [agent_validateTenantID (rev_TenantID r),
        validateAppID (rev_AppID r),
        fails (rev_Revision r < 1 \<or> rev_DraftVersion r < 1) AErrInvalid]"

definition rev_validateConfiguration :: "revision \<Rightarrow> agent_error + draft_configuration" where
  "rev_validateConfiguration r =
     (let configuration = rev_Configuration r in
      andthen (normalizeDraftConfiguration configuration) (\<lambda>normalized.
      ensure (first_error
        [fails (\<not> sameDraftConfiguration configuration normalized) AErrInvalid,
         validateRevisionDefinition (rev_Kind r) (rev_SchemaVersion r) configuration])
      (Inr configuration)))"

definition rev_validateTimestamps :: "revision \<Rightarrow> agent_error option" where
  "rev_validateTimestamps r =
     fails (rev_CreatedAt r = 0 \<or> rev_UpdatedAt r = 0 \<or> rev_UpdatedAt r < rev_CreatedAt r) AErrInvalid"

definition rev_validatePublication :: "digest_fun \<Rightarrow> revision \<Rightarrow> agent_error option" where
  "rev_validatePublication digest r =
     (if rev_State r = RevisionStateDraft then
        fails (rev_ContentDigest r \<noteq> [] \<or> rev_PublishedAt r \<noteq> None) AErrInvalid
      else if rev_State r = RevisionStatePublished then
        first_error
          [fails (case rev_PublishedAt r of None \<Rightarrow> True
                  | Some at \<Rightarrow> at = 0 \<or> at < rev_CreatedAt r \<or> at \<noteq> rev_UpdatedAt r) AErrInvalid,
           error_of (ComputeContentDigest digest r),
           fails (Inr (rev_ContentDigest r) \<noteq> ComputeContentDigest digest r) AErrInvalid]
      else Some AErrInvalid)"

definition rev_Validate :: "digest_fun \<Rightarrow> revision \<Rightarrow> agent_error option" where
  "rev_Validate digest r =
     first_error
       [rev_validateIdentity r,
        error_of (rev_validateConfiguration r),
        rev_validateTimestamps r,
        rev_validatePublication digest r]"

subsection \<open>Construction and publication\<close>

definition NewRevision :: "revision_CreateInput \<Rightarrow> instant \<Rightarrow> agent_error + revision" where
  "NewRevision input now =
     ensure (first_error
       [agent_validateTenantID (rci_TenantID input),
        validateAppID (rci_AppID input),
        fails (rci_Revision input < 1) AErrInvalid])
     (let kind = (if rci_Kind input = [] then KindLLM else rci_Kind input);
          schemaVersion = (if rci_SchemaVersion input = 0 then SchemaVersionV1 else rci_SchemaVersion input)
      in
      andthen (normalizeDraftConfiguration (rci_Configuration input)) (\<lambda>c.
      ensure (validateRevisionDefinition kind schemaVersion c)
      (Inr \<lparr>rev_TenantID = rci_TenantID input, rev_AppID = rci_AppID input,
            rev_Revision = rci_Revision input, rev_State = RevisionStateDraft, rev_DraftVersion = 1,
            rev_Kind = kind, rev_SchemaVersion = schemaVersion, rev_Description = dc_Description c,
            rev_Instruction = dc_Instruction c, rev_GlobalInstruction = dc_GlobalInstruction c,
            rev_ModelProfileID = dc_ModelProfileID c, rev_Generation = dc_Generation c,
            rev_Runtime = dc_Runtime c, rev_Tools = dc_Tools c, rev_ContentDigest = [],
            rev_PublishedAt = None, rev_CreatedAt = now, rev_UpdatedAt = now\<rparr>)))"

definition rev_Publish :: "digest_fun \<Rightarrow> instant \<Rightarrow> revision \<Rightarrow> agent_error + revision" where
  "rev_Publish digest at r =
     ensure (first_error
       [fails (rev_State r \<noteq> RevisionStateDraft) AErrImmutableRevision,
        rev_Validate digest r,
        fails (at = 0 \<or> at < rev_UpdatedAt r) AErrInvalid])
     (andthen (ComputeContentDigest digest r) (\<lambda>sum.
      let published = r\<lparr>rev_State := RevisionStatePublished, rev_ContentDigest := sum,
                        rev_PublishedAt := Some at, rev_UpdatedAt := at\<rparr>
      in ensure (rev_Validate digest published) (Inr published)))"

subsection \<open>Normalization is idempotent\<close>

definition trimmed_tool :: "tool_authorization \<Rightarrow> tool_authorization" where
  "trimmed_tool t = t\<lparr>tool_ToolID := trim_space (tool_ToolID t)\<rparr>"

definition tool_id_ok :: "string \<Rightarrow> bool" where
  "tool_id_ok i \<longleftrightarrow> 1 \<le> rune_count i \<and> rune_count i \<le> maxReferenceRunes"

lemma trimmed_tool_idem [simp]: "trimmed_tool (trimmed_tool t) = trimmed_tool t"
  by (simp add: trimmed_tool_def)

lemma tool_ToolID_trimmed [simp]: "tool_ToolID (trimmed_tool t) = trim_space (tool_ToolID t)"
  by (simp add: trimmed_tool_def)

lemma normalize_tool_loop_Cons:
  "normalize_tool_loop seen (t # ts) = Inr ts' \<longleftrightarrow>
     tool_id_ok (trim_space (tool_ToolID t)) \<and> trim_space (tool_ToolID t) \<notin> set seen
     \<and> (\<exists>rest. normalize_tool_loop (trim_space (tool_ToolID t) # seen) ts = Inr rest
          \<and> ts' = trimmed_tool t # rest)"
  by (auto simp: Let_def tool_id_ok_def trimmed_tool_def not_less Suc_le_eq)

lemma normalize_tool_loop_iff:
  "normalize_tool_loop seen ts = Inr ts' \<longleftrightarrow>
     ts' = map trimmed_tool ts \<and> list_all (\<lambda>t. tool_id_ok (tool_ToolID t)) ts'
     \<and> distinct (map tool_ToolID ts') \<and> set seen \<inter> set (map tool_ToolID ts') = {}"
proof (induction ts arbitrary: seen ts')
  case Nil
  show ?case by auto
next
  case (Cons t ts)
  define I where "I = set (map tool_ToolID (map trimmed_tool ts))"
  let ?i = "trim_space (tool_ToolID t)"
  have "?i \<notin> set seen \<and> insert ?i (set seen) \<inter> I = {} \<longleftrightarrow> ?i \<notin> I \<and> set seen \<inter> insert ?i I = {}"
    by blast
  then show ?case unfolding normalize_tool_loop_Cons Cons.IH
    by (auto simp add: I_def simp del: map_map set_map)
qed

lemma normalizeTools_iff:
  "normalizeTools ts = Inr ts' \<longleftrightarrow>
     ts' = sort_key tool_ToolID (map trimmed_tool ts) \<and> list_all (\<lambda>t. tool_id_ok (tool_ToolID t)) ts'
     \<and> distinct (map tool_ToolID ts')"
proof (cases "ts = []")
  case True
  then show ?thesis by (auto simp: normalizeTools_def)
next
  case False
  let ?m = "map trimmed_tool ts"
  have "distinct (map tool_ToolID (sort_key tool_ToolID ?m)) = distinct (map tool_ToolID ?m)"
    by (metis distinct_map distinct_sort set_sort)
  with False show ?thesis
    by (auto simp: normalizeTools_def normalize_tool_loop_iff list_all_iff)
qed

lemma sort_key_sorted: "sorted (map f xs) \<Longrightarrow> sort_key f xs = xs"
  by (induction xs) (simp_all add: insort_is_Cons)

lemma normalizeTools_idem:
  assumes "normalizeTools ts = Inr ts'"
  shows "normalizeTools ts' = Inr ts'"
proof -
  let ?m = "map trimmed_tool ts"
  have ts': "ts' = sort_key tool_ToolID ?m" using assms by (simp add: normalizeTools_iff)
  have "trimmed_tool t = t" if "t \<in> set ts'" for t using that by (auto simp: ts')
  then have "map trimmed_tool ts' = ts'" by (simp add: map_idI)
  moreover have "sort_key tool_ToolID ts' = ts'"
    unfolding ts' by (rule sort_key_sorted) (rule sorted_sort_key)
  ultimately show ?thesis using assms unfolding normalizeTools_iff by metis
qed

lemma normalize_zero_idem [simp]: "normalize_zero (normalize_zero v) = normalize_zero v"
  by (auto simp: normalize_zero_def float_of_int_def split: option.splits)

lemma normalizeGenerationConfig_idem [simp]:
  "normalizeGenerationConfig (normalizeGenerationConfig g) = normalizeGenerationConfig g"
  by (simp add: normalizeGenerationConfig_def)

lemma default_policy_set: "DefaultRuntimePolicy \<noteq> zeroRuntimePolicy"
  by (simp add: DefaultRuntimePolicy_def zeroRuntimePolicy_def)

lemma normalizeDraftConfiguration_idem:
  assumes "normalizeDraftConfiguration c = Inr c'"
  shows "normalizeDraftConfiguration c' = Inr c'"
  using assms normalizeTools_idem default_policy_set
  by (auto simp: normalizeDraftConfiguration_def split: if_splits)

subsection \<open>Valid revisions\<close>

lemma validateGenerationConfig_no_NaN:
  "validateGenerationConfig g = None \<Longrightarrow>
     gen_Temperature g \<noteq> Some Float_NaN \<and> gen_TopP g \<noteq> Some Float_NaN"
  by (auto simp: validateGenerationConfig_def float_outside_def)

lemma sameDraftConfiguration_refl:
  "validateGenerationConfig (dc_Generation c) = None \<Longrightarrow> sameDraftConfiguration c c"
  using validateGenerationConfig_no_NaN [of "dc_Generation c"]
  by (auto simp: sameDraftConfiguration_def sameGenerationConfig_def sameFloat64_def sameInt_def
      list_all_iff set_zip split: option.split)

lemma validateRevisionDefinition_generation:
  "validateRevisionDefinition kind sv c = None \<Longrightarrow> validateGenerationConfig (dc_Generation c) = None"
  by (simp add: validateRevisionDefinition_def)

text \<open>Content that is exactly in normal form and within the bounds.\<close>

definition content_ok :: "revision \<Rightarrow> bool" where
  "content_ok r \<longleftrightarrow> normalizeDraftConfiguration (rev_Configuration r) = Inr (rev_Configuration r)
     \<and> validateRevisionDefinition (rev_Kind r) (rev_SchemaVersion r) (rev_Configuration r) = None"

lemma content_ok_validates:
  "content_ok r \<Longrightarrow> rev_validateConfiguration r = Inr (rev_Configuration r)"
  using sameDraftConfiguration_refl [OF validateRevisionDefinition_generation,
      of "rev_Kind r" "rev_SchemaVersion r" "rev_Configuration r"]
  by (simp add: content_ok_def rev_validateConfiguration_def Let_def)

lemma content_ok_digest:
  "content_ok r \<Longrightarrow> ComputeContentDigest digest r =
     require (digest (rev_Kind r, rev_SchemaVersion r, rev_Configuration r)) AErrEncode Inr"
  by (simp add: content_ok_def ComputeContentDigest_def)

lemma NewRevision_ok:
  assumes "NewRevision input now = Inr r"
  shows "content_ok r \<and> rev_validateIdentity r = None \<and> rev_State r = RevisionStateDraft
    \<and> rev_ContentDigest r = [] \<and> rev_PublishedAt r = None \<and> rev_CreatedAt r = now \<and> rev_UpdatedAt r = now
    \<and> rev_DraftVersion r = 1 \<and> rev_TenantID r = rci_TenantID input \<and> rev_AppID r = rci_AppID input
    \<and> rev_Revision r = rci_Revision input"
proof -
  let ?kind = "if rci_Kind input = [] then KindLLM else rci_Kind input"
  let ?sv = "if rci_SchemaVersion input = 0 then SchemaVersionV1 else rci_SchemaVersion input"
  from assms obtain c where c: "normalizeDraftConfiguration (rci_Configuration input) = Inr c"
    and def_ok: "validateRevisionDefinition ?kind ?sv c = None" and ids: "rci_Revision input \<ge> 1"
      "agent_validateTenantID (rci_TenantID input) = None" "validateAppID (rci_AppID input) = None"
    and r: "r = \<lparr>rev_TenantID = rci_TenantID input, rev_AppID = rci_AppID input,
            rev_Revision = rci_Revision input, rev_State = RevisionStateDraft, rev_DraftVersion = 1,
            rev_Kind = ?kind, rev_SchemaVersion = ?sv, rev_Description = dc_Description c,
            rev_Instruction = dc_Instruction c, rev_GlobalInstruction = dc_GlobalInstruction c,
            rev_ModelProfileID = dc_ModelProfileID c, rev_Generation = dc_Generation c,
            rev_Runtime = dc_Runtime c, rev_Tools = dc_Tools c, rev_ContentDigest = [],
            rev_PublishedAt = None, rev_CreatedAt = now, rev_UpdatedAt = now\<rparr>"
    by (fastforce simp: NewRevision_def Let_def)
  have "rev_Configuration r = c" by (simp add: r rev_Configuration_def)
  with normalizeDraftConfiguration_idem [OF c] def_ok ids show ?thesis
    by (simp add: content_ok_def rev_validateIdentity_def) (simp add: r)
qed

lemma draft_valid:
  assumes "content_ok r" "rev_validateIdentity r = None" "rev_State r = RevisionStateDraft"
    "rev_ContentDigest r = []" "rev_PublishedAt r = None" "rev_CreatedAt r \<noteq> 0" "rev_UpdatedAt r \<noteq> 0"
    "rev_CreatedAt r \<le> rev_UpdatedAt r"
  shows "rev_Validate digest r = None"
  using assms content_ok_validates [OF assms(1)]
  by (simp add: rev_Validate_def rev_validateTimestamps_def rev_validatePublication_def)

text \<open>A valid draft can be published at any later time at which its content can be encoded.\<close>

lemma state_neq: "RevisionStateDraft \<noteq> RevisionStatePublished"
  by (simp add: RevisionStateDraft_def RevisionStatePublished_def)

lemma rev_Publish_eq:
  assumes "content_ok r" and "rev_Validate digest r = None" and "rev_State r = RevisionStateDraft"
    and "at \<noteq> 0" and "rev_UpdatedAt r \<le> at"
    and "digest (rev_Kind r, rev_SchemaVersion r, rev_Configuration r) = Some hash"
  shows "rev_Publish digest at r = Inr (r\<lparr>rev_State := RevisionStatePublished, rev_ContentDigest := hash,
      rev_PublishedAt := Some at, rev_UpdatedAt := at\<rparr>)"
proof -
  let ?p = "r\<lparr>rev_State := RevisionStatePublished, rev_ContentDigest := hash, rev_PublishedAt := Some at,
      rev_UpdatedAt := at\<rparr>"
  have conf: "rev_Configuration ?p = rev_Configuration r" by (simp add: rev_Configuration_def)
  then have ok: "content_ok ?p" using assms(1) by (simp add: content_ok_def)
  have "rev_Validate digest ?p = None"
    using assms content_ok_validates [OF ok] content_ok_digest [OF ok] conf state_neq
    by (auto simp: rev_Validate_def rev_validateIdentity_def rev_validateTimestamps_def
        rev_validatePublication_def)
  then show ?thesis
    using assms content_ok_digest [OF assms(1)] by (simp add: rev_Publish_def Let_def)
qed

lemma rev_Publish_ok:
  assumes "rev_Publish digest at r = Inr p"
  shows "rev_Validate digest p = None \<and> rev_State r = RevisionStateDraft \<and> rev_Validate digest r = None
    \<and> (\<exists>hash. ComputeContentDigest digest r = Inr hash
        \<and> p = r\<lparr>rev_State := RevisionStatePublished, rev_ContentDigest := hash, rev_PublishedAt := Some at,
               rev_UpdatedAt := at\<rparr>)"
  using assms by (auto simp: rev_Publish_def Let_def)

lemma rev_Validate_published:
  assumes "rev_Validate digest r = None" and "rev_State r = RevisionStatePublished"
  shows "ComputeContentDigest digest r = Inr (rev_ContentDigest r)"
proof -
  have "rev_validatePublication digest r = None" using assms(1) by (simp add: rev_Validate_def)
  with assms(2) state_neq show ?thesis by (simp add: rev_validatePublication_def)
qed

text \<open>The order in which tools are listed does not matter.\<close>

lemma normalizeTools_permuted:
  assumes "normalizeTools ts = Inr x" and "mset us = mset ts"
  shows "normalizeTools us = Inr x"
proof -
  have x: "x = sort_key tool_ToolID (map trimmed_tool ts)"
    and ok: "list_all (\<lambda>t. tool_id_ok (tool_ToolID t)) x" "distinct (map tool_ToolID x)"
    using assms(1) unfolding normalizeTools_iff by blast+
  have "mset (map trimmed_tool us) = mset x" using assms(2) by (simp add: x)
  moreover from mset_eq_setD [OF this] ok(2) have "inj_on tool_ToolID (set (map trimmed_tool us))"
    by (simp only: distinct_map)
  moreover have "sorted (map tool_ToolID x)" unfolding x by (rule sorted_sort_key)
  ultimately have "sort_key tool_ToolID (map trimmed_tool us) = x" by (rule sort_key_inj_key_eq)
  with ok show ?thesis by (simp add: normalizeTools_iff)
qed

lemma normalizeDraftConfiguration_permuted:
  assumes "normalizeDraftConfiguration c = Inr c'" and "mset us = mset (dc_Tools c)"
  shows "normalizeDraftConfiguration (c\<lparr>dc_Tools := us\<rparr>) = Inr c'"
proof -
  from assms(1) obtain tools where t: "normalizeTools (dc_Tools c) = Inr tools"
    by (auto simp: normalizeDraftConfiguration_def)
  from normalizeTools_permuted [OF this assms(2)] t assms(1) show ?thesis
    by (auto simp: normalizeDraftConfiguration_def)
qed

end
