(* ===== verification/Agent_Repo.thy ===== *)
theory Agent_Repo
  imports Agent_Revision Contracts
begin

text \<open>
  The Agent App repository: the contract of \<^verbatim>\<open>agent/repository.go\<close> and its implementation
  \<^verbatim>\<open>agent/inmemory/inmemory.go\<close>. Every operation holds the repository lock from its first
  lookup to its return. A context is never nil here; its looks are, in order: on entry, while
  waiting for the lock, under the lock, and, in the operations that have it, before the
  result is stored. Writing into a revision map that does not exist would panic, which is the
  value \<open>AErrPanic\<close>.
\<close>

declare split_paired_All [simp del] split_paired_Ex [simp del]

subsection \<open>Inputs and events\<close>

record agent_ChangeMetadata =
  acm_ActorType :: string
  acm_ActorID :: string
  acm_Reason :: string
  acm_CorrelationID :: string

record agent_UpdateMetadataInput =
  aum_TenantID :: string
  aum_AppID :: string
  aum_ExpectedVersion :: int
  aum_DisplayName :: string
  aum_Description :: string

record agent_CreateDraftInput =
  acd_TenantID :: string
  acd_AppID :: string
  acd_ExpectedAppVersion :: int
  acd_Kind :: string
  acd_SchemaVersion :: int
  acd_Configuration :: draft_configuration

record agent_UpdateDraftInput =
  aud_TenantID :: string
  aud_AppID :: string
  aud_Revision :: int
  aud_ExpectedAppVersion :: int
  aud_ExpectedDraftVersion :: int
  aud_Configuration :: draft_configuration

record agent_PublishInput =
  api_TenantID :: string
  api_AppID :: string
  api_Revision :: int
  api_ExpectedAppVersion :: int
  api_ExpectedDraftVersion :: int
  api_TenantActive :: bool
  api_Metadata :: agent_ChangeMetadata

record agent_RollbackInput =
  ari_TenantID :: string
  ari_AppID :: string
  ari_TargetRevision :: int
  ari_ExpectedAppVersion :: int
  ari_Metadata :: agent_ChangeMetadata

record agent_SetCanaryInput =
  asc_TenantID :: string
  asc_AppID :: string
  asc_CandidateRevision :: "int option"
  asc_ExpectedAppVersion :: int
  asc_TenantActive :: bool
  asc_Metadata :: agent_ChangeMetadata

record agent_TransitionStatusInput =
  ats_TenantID :: string
  ats_AppID :: string
  ats_ExpectedVersion :: int
  ats_NextStatus :: string
  ats_Metadata :: agent_ChangeMetadata

datatype agent_ChangeEventType =
    ChangePublished
  | ChangeRolledBack
  | ChangeSuspended
  | ChangeResumed
  | ChangeDisabled
  | ChangeCanaryStarted
  | ChangeCanaryStopped

record agent_ChangeEvent =
  ace_EventType :: agent_ChangeEventType
  ace_TenantID :: string
  ace_AppID :: string
  ace_PreviousRevision :: "int option"
  ace_CurrentRevision :: "int option"
  ace_ContentDigest :: string
  ace_PreviousStatus :: string
  ace_CurrentStatus :: string
  ace_ActorType :: string
  ace_ActorID :: string
  ace_Reason :: string
  ace_CorrelationID :: string
  ace_PreviousVersion :: int
  ace_NextVersion :: int
  ace_OccurredAt :: instant

subsection \<open>State and helpers\<close>

datatype app_scope = AppScope string string

datatype key_scope = KeyScope string string

record agent_repo =
  ar_apps :: "(app_scope, app) gomap"
  ar_byKey :: "(key_scope, string) gomap"
  ar_revisions :: "(app_scope, (int, revision) gomap) gomap"
  ar_next :: "(app_scope, int) gomap"

definition agent_NewRepository :: agent_repo where
  "agent_NewRepository = \<lparr>ar_apps = [], ar_byKey = [], ar_revisions = [], ar_next = []\<rparr>"

definition agent_checkContext :: "ctx \<Rightarrow> nat \<Rightarrow> agent_error option" where
  "agent_checkContext look i = map_option AErrCtx (look i)"

text \<open>The looks on entry, in the lock and under the lock.\<close>

definition agent_enter :: "ctx \<Rightarrow> agent_error option" where
  "agent_enter look =
     first_error [agent_checkContext look 0, agent_checkContext look 1, agent_checkContext look 2]"

definition agent_getLocked :: "string \<Rightarrow> string \<Rightarrow> agent_repo \<Rightarrow> agent_error + app" where
  "agent_getLocked tenantID appID r = require (get (ar_apps r) (AppScope tenantID appID)) AErrNotFound Inr"

definition mutableAppLocked :: "string \<Rightarrow> string \<Rightarrow> int \<Rightarrow> agent_repo \<Rightarrow> agent_error + app" where
  "mutableAppLocked tenantID appID expected r =
     andthen (agent_getLocked tenantID appID r) (\<lambda>a.
     ensure (first_error
       [fails (app_Status a = agent_StatusDisabled) AErrDisabled,
        fails (expected \<noteq> app_Version a) AErrConflict]) (Inr a))"

definition revisions_at :: "agent_repo \<Rightarrow> app_scope \<Rightarrow> (int, revision) gomap" where
  "revisions_at r scope = (case get (ar_revisions r) scope of None \<Rightarrow> [] | Some m \<Rightarrow> m)"

definition revisionLocked :: "string \<Rightarrow> string \<Rightarrow> int \<Rightarrow> agent_repo \<Rightarrow> agent_error + revision" where
  "revisionLocked tenantID appID n r =
     andthen (agent_getLocked tenantID appID r) (\<lambda>_.
     require (get (revisions_at r (AppScope tenantID appID)) n) AErrNotFound Inr)"

definition storeAppLocked :: "app \<Rightarrow> agent_repo \<Rightarrow> agent_repo" where
  "storeAppLocked a r = r\<lparr>ar_apps := put (AppScope (app_TenantID a) (app_AppID a)) a (ar_apps r)\<rparr>"

text \<open>The assignment \<^verbatim>\<open>r.revisions[scope][n] = &copy\<close>.\<close>

definition store_revision ::
  "app_scope \<Rightarrow> int \<Rightarrow> revision \<Rightarrow> agent_repo \<Rightarrow> agent_error + agent_repo" where
  "store_revision scope n v r =
     require (get (ar_revisions r) scope) AErrPanic (\<lambda>m.
     Inr (r\<lparr>ar_revisions := put scope (put n v m) (ar_revisions r)\<rparr>))"

definition validateChange :: "agent_ChangeMetadata \<Rightarrow> agent_error option" where
  "validateChange m =
     first_error
       [fails (trim_space (acm_ActorType m) = [] \<or> trim_space (acm_ActorID m) = []
               \<or> trim_space (acm_Reason m) = [] \<or> trim_space (acm_CorrelationID m) = []) AErrInvalid,
        fails (rune_count (trim_space (acm_Reason m)) > 1000) AErrInvalid]"

definition newEvent ::
  "agent_ChangeEventType \<Rightarrow> app \<Rightarrow> string \<Rightarrow> int option \<Rightarrow> string \<Rightarrow> agent_ChangeMetadata \<Rightarrow> int \<Rightarrow> instant
   \<Rightarrow> agent_ChangeEvent" where
  "newEvent eventType a previousStatus previousRevision digest m previousVersion at =
     \<lparr>ace_EventType = eventType, ace_TenantID = app_TenantID a, ace_AppID = app_AppID a,
      ace_PreviousRevision = previousRevision, ace_CurrentRevision = app_CurrentRevision a,
      ace_ContentDigest = digest, ace_PreviousStatus = previousStatus, ace_CurrentStatus = app_Status a,
      ace_ActorType = trim_space (acm_ActorType m), ace_ActorID = trim_space (acm_ActorID m),
      ace_Reason = trim_space (acm_Reason m), ace_CorrelationID = trim_space (acm_CorrelationID m),
      ace_PreviousVersion = previousVersion, ace_NextVersion = app_Version a, ace_OccurredAt = at\<rparr>"

definition newCanaryEvent ::
  "agent_ChangeEventType \<Rightarrow> app \<Rightarrow> int option \<Rightarrow> string \<Rightarrow> agent_ChangeMetadata \<Rightarrow> int \<Rightarrow> instant
   \<Rightarrow> agent_ChangeEvent" where
  "newCanaryEvent eventType a previousRevision digest m previousVersion at =
     (newEvent eventType a (app_Status a) previousRevision digest m previousVersion at)
       \<lparr>ace_CurrentRevision := app_CanaryRevision a\<rparr>"

definition statusEventType :: "string \<Rightarrow> agent_ChangeEventType" where
  "statusEventType nxt =
     (if nxt = agent_StatusSuspended then ChangeSuspended
      else if nxt = agent_StatusActive then ChangeResumed
      else ChangeDisabled)"

definition maxTime :: "instant \<Rightarrow> instant \<Rightarrow> instant" where
  "maxTime left right = (if right > left then right else left)"

definition nextTime :: "instant \<Rightarrow> instant \<Rightarrow> instant" where
  "nextTime previous now = (if now < previous then previous else now)"

subsection \<open>Operations\<close>

definition agent_Create ::
  "ctx \<Rightarrow> agent_CreateInput \<Rightarrow> int \<Rightarrow> nat list option \<Rightarrow> instant \<Rightarrow> agent_repo
   \<Rightarrow> (agent_error + app) \<times> agent_repo" where
  "agent_Create look input ms random now r =
     check (agent_checkContext look 0) r
     (proceed (NewApp input ms random now) r (\<lambda>a.
      check (first_error
        [agent_checkContext look 1,
         agent_checkContext look 2,
         fails (get (ar_apps r) (AppScope (app_TenantID a) (app_AppID a)) \<noteq> None) AErrDuplicateKey,
         fails (get (ar_byKey r) (KeyScope (app_TenantID a) (app_AppKey a)) \<noteq> None) AErrDuplicateKey]) r
      (Inr a, r\<lparr>ar_apps := put (AppScope (app_TenantID a) (app_AppID a)) a (ar_apps r),
                ar_byKey := put (KeyScope (app_TenantID a) (app_AppKey a)) (app_AppID a) (ar_byKey r),
                ar_revisions := put (AppScope (app_TenantID a) (app_AppID a)) [] (ar_revisions r)\<rparr>)))"

definition agent_Get :: "ctx \<Rightarrow> string \<Rightarrow> string \<Rightarrow> agent_repo \<Rightarrow> agent_error + app" where
  "agent_Get look tenantID appID r = ensure (agent_enter look) (agent_getLocked tenantID appID r)"

definition agent_UpdateMetadata ::
  "ctx \<Rightarrow> agent_UpdateMetadataInput \<Rightarrow> instant \<Rightarrow> agent_repo \<Rightarrow> (agent_error + app) \<times> agent_repo" where
  "agent_UpdateMetadata look input now r =
     check (agent_enter look) r
     (proceed (mutableAppLocked (aum_TenantID input) (aum_AppID input) (aum_ExpectedVersion input) r) r (\<lambda>a.
      let updated = a\<lparr>app_DisplayName := trim_space (aum_DisplayName input),
                      app_Description := trim_space (aum_Description input),
                      app_Version := app_Version a + 1,
                      app_UpdatedAt := nextTime (app_UpdatedAt a) now\<rparr>
      in check (app_Validate updated) r (Inr updated, storeAppLocked updated r)))"

definition agent_CreateDraft ::
  "ctx \<Rightarrow> agent_CreateDraftInput \<Rightarrow> instant \<Rightarrow> agent_repo \<Rightarrow> (agent_error + revision) \<times> agent_repo" where
  "agent_CreateDraft look input now r =
     check (agent_enter look) r
     (proceed (mutableAppLocked (acd_TenantID input) (acd_AppID input) (acd_ExpectedAppVersion input) r) r (\<lambda>_.
      let scope = (AppScope (acd_TenantID input) (acd_AppID input));
          number = (case get (ar_next r) scope of None \<Rightarrow> 0 | Some n \<Rightarrow> n) + 1
      in
      proceed (NewRevision \<lparr>rci_TenantID = acd_TenantID input, rci_AppID = acd_AppID input,
                 rci_Revision = number, rci_Kind = acd_Kind input,
                 rci_SchemaVersion = acd_SchemaVersion input,
                 rci_Configuration = acd_Configuration input\<rparr> now) r (\<lambda>draft.
      check (agent_checkContext look 3) r
      (proceed (store_revision scope number draft r) r (\<lambda>r'.
       (Inr draft, r'\<lparr>ar_next := put scope number (ar_next r')\<rparr>))))))"

definition agent_UpdateDraft ::
  "digest_fun \<Rightarrow> ctx \<Rightarrow> agent_UpdateDraftInput \<Rightarrow> instant \<Rightarrow> instant \<Rightarrow> agent_repo
   \<Rightarrow> (agent_error + revision) \<times> agent_repo" where
  "agent_UpdateDraft digest look input now1 now2 r =
     check (agent_enter look) r
     (proceed (mutableAppLocked (aud_TenantID input) (aud_AppID input) (aud_ExpectedAppVersion input) r) r (\<lambda>_.
      proceed (revisionLocked (aud_TenantID input) (aud_AppID input) (aud_Revision input) r) r (\<lambda>existing.
      check (first_error
        [fails (rev_State existing \<noteq> RevisionStateDraft) AErrImmutableRevision,
         fails (aud_ExpectedDraftVersion input \<noteq> rev_DraftVersion existing) AErrConflict]) r
      (proceed (NewRevision \<lparr>rci_TenantID = aud_TenantID input, rci_AppID = aud_AppID input,
                  rci_Revision = aud_Revision input, rci_Kind = rev_Kind existing,
                  rci_SchemaVersion = rev_SchemaVersion existing,
                  rci_Configuration = aud_Configuration input\<rparr> now1) r (\<lambda>v.
       let candidate = v\<lparr>rev_DraftVersion := rev_DraftVersion existing + 1,
                         rev_CreatedAt := rev_CreatedAt existing,
                         rev_UpdatedAt := nextTime (rev_UpdatedAt existing) now2\<rparr>
       in
       check (first_error [rev_Validate digest candidate, agent_checkContext look 3]) r
       (proceed (store_revision (AppScope (aud_TenantID input) (aud_AppID input)) (aud_Revision input) candidate r) r
          (\<lambda>r'. (Inr candidate, r'))))))))"

definition agent_GetRevision ::
  "ctx \<Rightarrow> string \<Rightarrow> string \<Rightarrow> int \<Rightarrow> agent_repo \<Rightarrow> agent_error + revision" where
  "agent_GetRevision look tenantID appID n r =
     ensure (agent_enter look) (revisionLocked tenantID appID n r)"

definition agent_Publish ::
  "digest_fun \<Rightarrow> ctx \<Rightarrow> agent_PublishInput \<Rightarrow> instant \<Rightarrow> agent_repo
   \<Rightarrow> (agent_error + app \<times> revision \<times> agent_ChangeEvent) \<times> agent_repo" where
  "agent_Publish digest look input clock r =
     check (first_error
       [agent_checkContext look 0,
        validateChange (api_Metadata input),
        fails (\<not> api_TenantActive input) AErrInvalid,
        agent_checkContext look 1,
        agent_checkContext look 2]) r
     (proceed (mutableAppLocked (api_TenantID input) (api_AppID input) (api_ExpectedAppVersion input) r) r (\<lambda>a.
      proceed (revisionLocked (api_TenantID input) (api_AppID input) (api_Revision input) r) r (\<lambda>draft.
      check (first_error
        [fails (rev_State draft \<noteq> RevisionStateDraft) AErrImmutableRevision,
         fails (api_ExpectedDraftVersion input \<noteq> rev_DraftVersion draft) AErrConflict]) r
      (let now = nextTime (maxTime (app_UpdatedAt a) (rev_UpdatedAt draft)) clock in
       proceed (rev_Publish digest now draft) r (\<lambda>published.
       let updated = a\<lparr>app_CurrentRevision := Some (api_Revision input), app_CanaryRevision := None,
                       app_Status := (if app_Status a = agent_StatusDraft then agent_StatusActive
                                      else app_Status a),
                       app_Version := app_Version a + 1, app_UpdatedAt := now\<rparr>;
           event = newEvent ChangePublished updated (app_Status a) (app_CurrentRevision a)
                     (rev_ContentDigest published) (api_Metadata input) (app_Version a) now
       in
       check (first_error [app_Validate updated, agent_checkContext look 3]) r
       (proceed (store_revision (AppScope (api_TenantID input) (api_AppID input)) (api_Revision input) published
                   (storeAppLocked updated r)) r
          (\<lambda>r'. (Inr (updated, published, event), r'))))))))"

definition agent_Rollback ::
  "ctx \<Rightarrow> agent_RollbackInput \<Rightarrow> instant \<Rightarrow> agent_repo
   \<Rightarrow> (agent_error + app \<times> agent_ChangeEvent) \<times> agent_repo" where
  "agent_Rollback look input clock r =
     check (first_error
       [agent_checkContext look 0,
        validateChange (ari_Metadata input),
        agent_checkContext look 1,
        agent_checkContext look 2]) r
     (proceed (mutableAppLocked (ari_TenantID input) (ari_AppID input) (ari_ExpectedAppVersion input) r) r (\<lambda>a.
      proceed (revisionLocked (ari_TenantID input) (ari_AppID input) (ari_TargetRevision input) r) r (\<lambda>target.
      check (first_error
        [fails (rev_State target \<noteq> RevisionStatePublished) AErrInvalid,
         fails (app_CurrentRevision a = None \<or> app_CurrentRevision a = Some (ari_TargetRevision input))
           AErrInvalid]) r
      (let now = nextTime (app_UpdatedAt a) clock;
           updated = a\<lparr>app_CurrentRevision := Some (ari_TargetRevision input), app_CanaryRevision := None,
                       app_Version := app_Version a + 1, app_UpdatedAt := now\<rparr>;
           event = newEvent ChangeRolledBack updated (app_Status a) (app_CurrentRevision a)
                     (rev_ContentDigest target) (ari_Metadata input) (app_Version a) now
       in
       check (first_error [app_Validate updated, agent_checkContext look 3]) r
       (Inr (updated, event), storeAppLocked updated r)))))"

text \<open>The candidate of \<^verbatim>\<open>SetCanary\<close>, checked against the application: none, or a published one.\<close>

definition canary_candidate ::
  "agent_SetCanaryInput \<Rightarrow> app \<Rightarrow> agent_repo \<Rightarrow> agent_error + revision option" where
  "canary_candidate input a r =
     (case asc_CandidateRevision input of
        None \<Rightarrow> Inr None
      | Some n \<Rightarrow>
          ensure (fails (n < 1) AErrInvalid)
          (andthen (revisionLocked (asc_TenantID input) (asc_AppID input) n r) (\<lambda>candidate.
           ensure (first_error
             [fails (rev_State candidate \<noteq> RevisionStatePublished) AErrInvalid,
              fails (app_CurrentRevision a = None \<or> app_CurrentRevision a = Some n) AErrInvalid])
           (Inr (Some candidate)))))"

definition agent_SetCanary ::
  "ctx \<Rightarrow> agent_SetCanaryInput \<Rightarrow> instant \<Rightarrow> agent_repo
   \<Rightarrow> (agent_error + app \<times> agent_ChangeEvent) \<times> agent_repo" where
  "agent_SetCanary look input clock r =
     check (first_error
       [agent_checkContext look 0,
        validateChange (asc_Metadata input),
        fails (\<not> asc_TenantActive input) AErrInvalid,
        agent_checkContext look 1,
        agent_checkContext look 2]) r
     (proceed (mutableAppLocked (asc_TenantID input) (asc_AppID input) (asc_ExpectedAppVersion input) r) r (\<lambda>a.
      check (fails (app_Status a \<noteq> agent_StatusActive) AErrInvalid) r
      (proceed (canary_candidate input a r) r (\<lambda>candidate.
       check (fails (app_CanaryRevision a = asc_CandidateRevision input) AErrInvalid) r
       (let now = nextTime (app_UpdatedAt a) clock;
            updated = a\<lparr>app_CanaryRevision := asc_CandidateRevision input,
                        app_Version := app_Version a + 1, app_UpdatedAt := now\<rparr>;
            digest = (case candidate of None \<Rightarrow> [] | Some v \<Rightarrow> rev_ContentDigest v);
            eventType = (if app_CanaryRevision updated \<noteq> None then ChangeCanaryStarted else ChangeCanaryStopped);
            event = newCanaryEvent eventType updated (app_CanaryRevision a) digest (asc_Metadata input)
                      (app_Version a) now
        in
        check (app_Validate updated) r
        (Inr (updated, event), storeAppLocked updated r))))))"

text \<open>The digest of the current revision, which \<^verbatim>\<open>TransitionStatus\<close> reports.\<close>

definition current_digest :: "string \<Rightarrow> string \<Rightarrow> app \<Rightarrow> agent_repo \<Rightarrow> agent_error + string" where
  "current_digest tenantID appID updated r =
     (case app_CurrentRevision updated of
        None \<Rightarrow> Inr []
      | Some n \<Rightarrow> andthen (revisionLocked tenantID appID n r) (\<lambda>v. Inr (rev_ContentDigest v)))"

definition agent_TransitionStatus ::
  "ctx \<Rightarrow> agent_TransitionStatusInput \<Rightarrow> instant \<Rightarrow> agent_repo
   \<Rightarrow> (agent_error + app \<times> agent_ChangeEvent) \<times> agent_repo" where
  "agent_TransitionStatus look input clock r =
     check (first_error
       [agent_checkContext look 0,
        validateChange (ats_Metadata input),
        agent_checkContext look 1,
        agent_checkContext look 2]) r
     (proceed (mutableAppLocked (ats_TenantID input) (ats_AppID input) (ats_ExpectedVersion input) r) r (\<lambda>a.
      check (fails (\<not> app_CanTransitionTo a (ats_NextStatus input)) AErrInvalidTransition) r
      (let now = nextTime (app_UpdatedAt a) clock;
           updated = a\<lparr>app_Status := ats_NextStatus input, app_Version := app_Version a + 1,
                       app_UpdatedAt := now\<rparr>
       in
       check (app_Validate updated) r
       (proceed (current_digest (ats_TenantID input) (ats_AppID input) updated r) r (\<lambda>digest.
        let event = newEvent (statusEventType (ats_NextStatus input)) updated (app_Status a)
                      (app_CurrentRevision a) digest (ats_Metadata input) (app_Version a) now
        in
        check (agent_checkContext look 3) r
        (Inr (updated, event), storeAppLocked updated r))))))"

subsection \<open>Steps\<close>

inductive agent_step :: "digest_fun \<Rightarrow> agent_repo \<Rightarrow> agent_repo \<Rightarrow> bool" for digest where
  create: "random_ok random \<Longrightarrow> now \<noteq> 0 \<Longrightarrow> agent_Create look ci ms random now r = (x1, r')
    \<Longrightarrow> agent_step digest r r'"
| metadata: "now \<noteq> 0 \<Longrightarrow> agent_UpdateMetadata look um now r = (x1, r') \<Longrightarrow> agent_step digest r r'"
| draft: "now \<noteq> 0 \<Longrightarrow> agent_CreateDraft look cd now r = (x2, r') \<Longrightarrow> agent_step digest r r'"
| edit: "now \<noteq> 0 \<Longrightarrow> agent_UpdateDraft digest look ud now now2 r = (x2, r') \<Longrightarrow> agent_step digest r r'"
| publish: "agent_Publish digest look pi now r = (x3, r') \<Longrightarrow> agent_step digest r r'"
| rollback: "agent_Rollback look ri now r = (x4, r') \<Longrightarrow> agent_step digest r r'"
| canary: "agent_SetCanary look sc now r = (x4, r') \<Longrightarrow> agent_step digest r r'"
| transition: "agent_TransitionStatus look ts now r = (x4, r') \<Longrightarrow> agent_step digest r r'"

lemmas agent_op_defs =
  agent_Create_def agent_UpdateMetadata_def agent_CreateDraft_def agent_UpdateDraft_def
  agent_Publish_def agent_Rollback_def agent_SetCanary_def agent_TransitionStatus_def

lemma agent_ops_keep:
  "keeps r (agent_Create look ci ms random now r)"
  "keeps r (agent_UpdateMetadata look um now r)"
  "keeps r (agent_CreateDraft look cd now r)"
  "keeps r (agent_UpdateDraft digest look ud now now2 r)"
  "keeps r (agent_Publish digest look pi now r)"
  "keeps r (agent_Rollback look ri now r)"
  "keeps r (agent_SetCanary look sc now r)"
  "keeps r (agent_TransitionStatus look ts now r)"
  by (simp_all add: agent_op_defs Let_def keeps_intros)

definition published_at :: "agent_repo \<Rightarrow> app_scope \<Rightarrow> int \<Rightarrow> bool" where
  "published_at r scope n \<longleftrightarrow>
     (\<exists>v. get (revisions_at r scope) n = Some v \<and> rev_State v = RevisionStatePublished)"

text \<open>What every operation that moves an application root has in common.\<close>

definition app_moved :: "app \<Rightarrow> app \<Rightarrow> bool" where
  "app_moved a a' \<longleftrightarrow> app_TenantID a' = app_TenantID a \<and> app_AppID a' = app_AppID a
     \<and> app_AppKey a' = app_AppKey a \<and> app_CreatedAt a' = app_CreatedAt a
     \<and> app_Version a' = app_Version a + 1 \<and> app_Validate a' = None \<and> app_Status a \<noteq> agent_StatusDisabled"

definition selects :: "app \<Rightarrow> int \<Rightarrow> bool" where
  "selects a n \<longleftrightarrow> app_CurrentRevision a = Some n \<or> app_CanaryRevision a = Some n"

lemma mutableAppLocked_Inr [simp]:
  "mutableAppLocked tid aid v r = Inr a \<longleftrightarrow>
     get (ar_apps r) (AppScope tid aid) = Some a \<and> app_Status a \<noteq> agent_StatusDisabled \<and> app_Version a = v"
  by (auto simp: mutableAppLocked_def agent_getLocked_def)

lemma revisionLocked_Inr [simp]:
  "revisionLocked tid aid n r = Inr v \<longleftrightarrow>
     get (ar_apps r) (AppScope tid aid) \<noteq> None \<and> get (revisions_at r (AppScope tid aid)) n = Some v"
  by (auto simp: revisionLocked_def agent_getLocked_def)

lemma store_revision_Inr [simp]:
  "store_revision scope n v r = Inr r' \<longleftrightarrow>
     (\<exists>m. get (ar_revisions r) scope = Some m
        \<and> r' = r\<lparr>ar_revisions := put scope (put n v m) (ar_revisions r)\<rparr>)"
  by (auto simp: store_revision_def)

text \<open>The root moved and the revisions stayed.\<close>

definition root_moved :: "agent_repo \<Rightarrow> string \<Rightarrow> string \<Rightarrow> int \<Rightarrow> app \<Rightarrow> agent_repo \<Rightarrow> bool" where
  "root_moved r tid aid v a' r' \<longleftrightarrow>
     (\<exists>a. get (ar_apps r) (AppScope tid aid) = Some a \<and> app_Version a = v \<and> app_moved a a'
        \<and> (\<forall>n. selects a' n \<longrightarrow> selects a n \<or> published_at r (AppScope tid aid) n)
        \<and> r' = storeAppLocked a' r)"

lemma agent_UpdateMetadata_ok:
  "agent_UpdateMetadata look um now r = (Inr a', r')
   \<Longrightarrow> root_moved r (aum_TenantID um) (aum_AppID um) (aum_ExpectedVersion um) a' r'"
  by (auto simp: agent_UpdateMetadata_def Let_def root_moved_def app_moved_def selects_def)

lemma agent_Rollback_ok:
  "agent_Rollback look ri now r = (Inr (a', ev), r')
   \<Longrightarrow> root_moved r (ari_TenantID ri) (ari_AppID ri) (ari_ExpectedAppVersion ri) a' r'"
  by (auto simp: agent_Rollback_def Let_def root_moved_def app_moved_def selects_def published_at_def)

lemma canary_candidate_Inr:
  "canary_candidate sc a r = Inr cand \<Longrightarrow> asc_CandidateRevision sc = Some n
   \<Longrightarrow> published_at r (AppScope (asc_TenantID sc) (asc_AppID sc)) n"
  by (auto simp: canary_candidate_def published_at_def)

lemma agent_SetCanary_ok:
  "agent_SetCanary look sc now r = (Inr (a', ev), r')
   \<Longrightarrow> root_moved r (asc_TenantID sc) (asc_AppID sc) (asc_ExpectedAppVersion sc) a' r'"
  by (auto simp: agent_SetCanary_def Let_def root_moved_def app_moved_def selects_def
      dest: canary_candidate_Inr)

lemma agent_TransitionStatus_ok:
  "agent_TransitionStatus look ts now r = (Inr (a', ev), r')
   \<Longrightarrow> root_moved r (ats_TenantID ts) (ats_AppID ts) (ats_ExpectedVersion ts) a' r'"
  by (auto simp: agent_TransitionStatus_def Let_def root_moved_def app_moved_def selects_def)

text \<open>A draft was published and the root now selects it.\<close>

definition root_published ::
  "digest_fun \<Rightarrow> agent_repo \<Rightarrow> app_scope \<Rightarrow> int \<Rightarrow> int \<Rightarrow> app \<Rightarrow> revision \<Rightarrow> agent_repo \<Rightarrow> bool" where
  "root_published digest r scope v n a' p r' \<longleftrightarrow>
     (\<exists>a m d at. get (ar_apps r) scope = Some a \<and> app_Version a = v \<and> app_moved a a'
        \<and> app_CurrentRevision a' = Some n \<and> app_CanaryRevision a' = None
        \<and> get (ar_revisions r) scope = Some m \<and> get m n = Some d \<and> rev_Publish digest at d = Inr p
        \<and> r' = (storeAppLocked a' r)\<lparr>ar_revisions := put scope (put n p m) (ar_revisions r)\<rparr>)"

lemma storeAppLocked_simps [simp]:
  "ar_revisions (storeAppLocked a r) = ar_revisions r" "ar_byKey (storeAppLocked a r) = ar_byKey r"
  "ar_next (storeAppLocked a r) = ar_next r"
  "ar_apps (storeAppLocked a r) = put (AppScope (app_TenantID a) (app_AppID a)) a (ar_apps r)"
  "revisions_at (storeAppLocked a r) scope = revisions_at r scope"
  by (simp_all add: storeAppLocked_def revisions_at_def)

lemma agent_Publish_ok:
  assumes "agent_Publish digest look pi now r = (Inr (a', p, ev), r')"
  shows "root_published digest r (AppScope (api_TenantID pi) (api_AppID pi)) (api_ExpectedAppVersion pi)
    (api_Revision pi) a' p r'"
  using assms
  by (auto simp: agent_Publish_def Let_def root_published_def app_moved_def revisions_at_def)

lemma agent_CreateDraft_ok:
  assumes "agent_CreateDraft look cd now r = (Inr v, r')"
  shows "\<exists>m. get (ar_apps r) (AppScope (acd_TenantID cd) (acd_AppID cd)) \<noteq> None
    \<and> get (ar_revisions r) (AppScope (acd_TenantID cd) (acd_AppID cd)) = Some m
    \<and> rev_Revision v = (case get (ar_next r) (AppScope (acd_TenantID cd) (acd_AppID cd)) of None \<Rightarrow> 0 | Some n \<Rightarrow> n) + 1
    \<and> rev_TenantID v = acd_TenantID cd \<and> rev_AppID v = acd_AppID cd
    \<and> (\<exists>input. NewRevision input now = Inr v)
    \<and> r' = r\<lparr>ar_revisions := put (AppScope (acd_TenantID cd) (acd_AppID cd)) (put (rev_Revision v) v m) (ar_revisions r),
             ar_next := put (AppScope (acd_TenantID cd) (acd_AppID cd)) (rev_Revision v) (ar_next r)\<rparr>"
proof -
  let ?scope = "(AppScope (acd_TenantID cd) (acd_AppID cd))"
  let ?n = "(case get (ar_next r) ?scope of None \<Rightarrow> 0 | Some n \<Rightarrow> n) + 1"
  from assms obtain m where w: "NewRevision \<lparr>rci_TenantID = acd_TenantID cd, rci_AppID = acd_AppID cd,
        rci_Revision = ?n, rci_Kind = acd_Kind cd, rci_SchemaVersion = acd_SchemaVersion cd,
        rci_Configuration = acd_Configuration cd\<rparr> now = Inr v"
    and m: "get (ar_apps r) ?scope \<noteq> None" "get (ar_revisions r) ?scope = Some m"
    and r': "r' = r\<lparr>ar_revisions := put ?scope (put ?n v m) (ar_revisions r),
        ar_next := put ?scope ?n (ar_next r)\<rparr>"
    by (auto simp: agent_CreateDraft_def Let_def)
  from NewRevision_ok [OF w] have "rev_Revision v = ?n" "rev_TenantID v = acd_TenantID cd"
    "rev_AppID v = acd_AppID cd"
    by simp_all
  with w m r' show ?thesis by auto
qed

lemma agent_UpdateDraft_ok:
  assumes "agent_UpdateDraft digest look ud now now2 r = (Inr v', r')"
  shows "\<exists>m v. get (ar_apps r) (AppScope (aud_TenantID ud) (aud_AppID ud)) \<noteq> None
    \<and> get (ar_revisions r) (AppScope (aud_TenantID ud) (aud_AppID ud)) = Some m
    \<and> get m (aud_Revision ud) = Some v
    \<and> rev_State v = RevisionStateDraft \<and> rev_DraftVersion v = aud_ExpectedDraftVersion ud
    \<and> rev_DraftVersion v' = rev_DraftVersion v + 1
    \<and> rev_State v' = RevisionStateDraft \<and> content_ok v' \<and> rev_Validate digest v' = None
    \<and> rev_TenantID v' = aud_TenantID ud \<and> rev_AppID v' = aud_AppID ud \<and> rev_Revision v' = aud_Revision ud
    \<and> r' = r\<lparr>ar_revisions := put (AppScope (aud_TenantID ud) (aud_AppID ud)) (put (aud_Revision ud) v' m) (ar_revisions r)\<rparr>"
proof -
  let ?scope = "(AppScope (aud_TenantID ud) (aud_AppID ud))"
  from assms obtain w m v where w: "NewRevision \<lparr>rci_TenantID = aud_TenantID ud, rci_AppID = aud_AppID ud,
        rci_Revision = aud_Revision ud, rci_Kind = rev_Kind v, rci_SchemaVersion = rev_SchemaVersion v,
        rci_Configuration = aud_Configuration ud\<rparr> now = Inr w"
    and m: "get (ar_apps r) ?scope \<noteq> None" "get (ar_revisions r) ?scope = Some m" "get m (aud_Revision ud) = Some v"
      "rev_State v = RevisionStateDraft" "rev_DraftVersion v = aud_ExpectedDraftVersion ud"
    and v': "v' = w\<lparr>rev_DraftVersion := rev_DraftVersion v + 1, rev_CreatedAt := rev_CreatedAt v,
        rev_UpdatedAt := nextTime (rev_UpdatedAt v) now2\<rparr>" "rev_Validate digest v' = None"
    and r': "r' = r\<lparr>ar_revisions := put ?scope (put (aud_Revision ud) v' m) (ar_revisions r)\<rparr>"
    by (auto simp: agent_UpdateDraft_def Let_def revisions_at_def)
  note new = NewRevision_ok [OF w]
  have "rev_Configuration v' = rev_Configuration w" "rev_Kind v' = rev_Kind w"
    "rev_SchemaVersion v' = rev_SchemaVersion w"
    by (simp_all add: v'(1) rev_Configuration_def)
  with new have "content_ok v'" by (simp add: content_ok_def)
  with new m v'(2) r' show ?thesis by (simp add: v'(1))
qed

lemma agent_Create_ok:
  assumes "agent_Create look ci ms random now r = (Inr a, r')"
  shows "NewApp ci ms random now = Inr a \<and> get (ar_apps r) (AppScope (app_TenantID a) (app_AppID a)) = None
    \<and> get (ar_byKey r) (KeyScope (app_TenantID a) (app_AppKey a)) = None
    \<and> r' = r\<lparr>ar_apps := put (AppScope (app_TenantID a) (app_AppID a)) a (ar_apps r),
             ar_byKey := put (KeyScope (app_TenantID a) (app_AppKey a)) (app_AppID a) (ar_byKey r),
             ar_revisions := put (AppScope (app_TenantID a) (app_AppID a)) [] (ar_revisions r)\<rparr>"
  using assms by (auto simp: agent_Create_def)

lemma agent_step_cases:
  assumes "agent_step digest r r'"
  obtains (same) "r' = r"
  | (created) ci ms random now a where "random_ok random" "now \<noteq> 0" "NewApp ci ms random now = Inr a"
      "get (ar_apps r) (AppScope (app_TenantID a) (app_AppID a)) = None"
      "get (ar_byKey r) (KeyScope (app_TenantID a) (app_AppKey a)) = None"
      "r' = r\<lparr>ar_apps := put (AppScope (app_TenantID a) (app_AppID a)) a (ar_apps r),
              ar_byKey := put (KeyScope (app_TenantID a) (app_AppKey a)) (app_AppID a) (ar_byKey r),
              ar_revisions := put (AppScope (app_TenantID a) (app_AppID a)) [] (ar_revisions r)\<rparr>"
  | (moved) tid aid v a' where "root_moved r tid aid v a' r'"
  | (published) scope v n a' p where "root_published digest r scope v n a' p r'"
  | (drafted) now input m v where "now \<noteq> 0" "NewRevision input now = Inr v"
      "get (ar_apps r) (AppScope (rev_TenantID v) (rev_AppID v)) \<noteq> None"
      "get (ar_revisions r) (AppScope (rev_TenantID v) (rev_AppID v)) = Some m"
      "rev_Revision v = (case get (ar_next r) (AppScope (rev_TenantID v) (rev_AppID v)) of None \<Rightarrow> 0 | Some n \<Rightarrow> n) + 1"
      "r' = r\<lparr>ar_revisions := put (AppScope (rev_TenantID v) (rev_AppID v)) (put (rev_Revision v) v m) (ar_revisions r),
              ar_next := put (AppScope (rev_TenantID v) (rev_AppID v)) (rev_Revision v) (ar_next r)\<rparr>"
  | (edited) m v v' where "get (ar_apps r) (AppScope (rev_TenantID v') (rev_AppID v')) \<noteq> None"
      "get (ar_revisions r) (AppScope (rev_TenantID v') (rev_AppID v')) = Some m" "get m (rev_Revision v') = Some v"
      "rev_State v = RevisionStateDraft" "rev_DraftVersion v' = rev_DraftVersion v + 1"
      "rev_State v' = RevisionStateDraft" "content_ok v'" "rev_Validate digest v' = None"
      "r' = r\<lparr>ar_revisions := put (AppScope (rev_TenantID v') (rev_AppID v')) (put (rev_Revision v') v' m) (ar_revisions r)\<rparr>"
  using assms
proof cases
  case (create random now look ci ms x)
  show thesis
  proof (cases x)
    case (Inl e)
    with create(3) keepsD [OF agent_ops_keep(1)] same show thesis by blast
  next
    case (Inr a)
    with create agent_Create_ok [of look ci ms random now r a r'] created [of random now ci ms a]
    show thesis by simp
  qed
next
  case (metadata now look um x)
  show thesis
  proof (cases x)
    case (Inl e)
    with metadata(2) keepsD [OF agent_ops_keep(2)] same show thesis by blast
  next
    case (Inr a)
    with metadata(2) agent_UpdateMetadata_ok moved show thesis by blast
  qed
next
  case (draft now look cd x)
  show thesis
  proof (cases x)
    case (Inl e)
    with draft(2) keepsD [OF agent_ops_keep(3)] same show thesis by blast
  next
    case (Inr v)
    with draft agent_CreateDraft_ok [of look cd now r v r'] drafted [of now _ v] show thesis by auto
  qed
next
  case (edit now look ud now2 x)
  show thesis
  proof (cases x)
    case (Inl e)
    with edit(2) keepsD [OF agent_ops_keep(4)] same show thesis by blast
  next
    case (Inr v)
    with edit agent_UpdateDraft_ok [of digest look ud now now2 r v r'] edited [of v] show thesis by auto
  qed
next
  case (publish look pi now x)
  show thesis
  proof (cases x)
    case (Inl e)
    with publish keepsD [OF agent_ops_keep(5)] same show thesis by blast
  next
    case (Inr y)
    with publish agent_Publish_ok published show thesis by (cases y) blast
  qed
next
  case (rollback look ri now x)
  show thesis
  proof (cases x)
    case (Inl e)
    with rollback keepsD [OF agent_ops_keep(6)] same show thesis by blast
  next
    case (Inr y)
    with rollback agent_Rollback_ok moved show thesis by (cases y) blast
  qed
next
  case (canary look sc now x)
  show thesis
  proof (cases x)
    case (Inl e)
    with canary keepsD [OF agent_ops_keep(7)] same show thesis by blast
  next
    case (Inr y)
    with canary agent_SetCanary_ok moved show thesis by (cases y) blast
  qed
next
  case (transition look ts now x)
  show thesis
  proof (cases x)
    case (Inl e)
    with transition keepsD [OF agent_ops_keep(8)] same show thesis by blast
  next
    case (Inr y)
    with transition agent_TransitionStatus_ok moved show thesis by (cases y) blast
  qed
qed

subsection \<open>The invariant\<close>

definition apps_ok :: "agent_repo \<Rightarrow> bool" where
  "apps_ok r \<longleftrightarrow> (\<forall>scope a. get (ar_apps r) scope = Some a
     \<longrightarrow> scope = (AppScope (app_TenantID a) (app_AppID a)) \<and> app_Validate a = None
       \<and> get (ar_revisions r) scope \<noteq> None
       \<and> get (ar_byKey r) (KeyScope (app_TenantID a) (app_AppKey a)) = Some (app_AppID a))"

definition keys_ok :: "agent_repo \<Rightarrow> bool" where
  "keys_ok r \<longleftrightarrow> (\<forall>tid k aid. get (ar_byKey r) (KeyScope tid k) = Some aid
     \<longrightarrow> (\<exists>a. get (ar_apps r) (AppScope tid aid) = Some a \<and> app_AppKey a = k))"

definition revision_ok :: "digest_fun \<Rightarrow> agent_repo \<Rightarrow> app_scope \<Rightarrow> int \<Rightarrow> revision \<Rightarrow> bool" where
  "revision_ok digest r scope n v \<longleftrightarrow>
     scope = AppScope (rev_TenantID v) (rev_AppID v) \<and> rev_Revision v = n \<and> content_ok v
     \<and> rev_Validate digest v = None
     \<and> n \<le> (case get (ar_next r) scope of None \<Rightarrow> 0 | Some k \<Rightarrow> k)"

definition revisions_ok :: "digest_fun \<Rightarrow> agent_repo \<Rightarrow> bool" where
  "revisions_ok digest r \<longleftrightarrow> (\<forall>scope m. get (ar_revisions r) scope = Some m
     \<longrightarrow> get (ar_apps r) scope \<noteq> None \<and> (\<forall>n v. get m n = Some v \<longrightarrow> revision_ok digest r scope n v))"

definition selected_ok :: "agent_repo \<Rightarrow> bool" where
  "selected_ok r \<longleftrightarrow> (\<forall>scope a n. get (ar_apps r) scope = Some a \<longrightarrow> selects a n \<longrightarrow> published_at r scope n)"

definition agent_repo_ok :: "digest_fun \<Rightarrow> agent_repo \<Rightarrow> bool" where
  "agent_repo_ok digest r \<longleftrightarrow> apps_ok r \<and> keys_ok r \<and> revisions_ok digest r \<and> selected_ok r"

inductive agent_reachable :: "digest_fun \<Rightarrow> agent_repo \<Rightarrow> bool" for digest where
  start: "agent_reachable digest agent_NewRepository"
| step: "agent_reachable digest r \<Longrightarrow> agent_step digest r r' \<Longrightarrow> agent_reachable digest r'"

lemma apps_okD:
  assumes "apps_ok r" and "get (ar_apps r) scope = Some a"
  shows "scope = (AppScope (app_TenantID a) (app_AppID a))" "app_Validate a = None" "get (ar_revisions r) scope \<noteq> None"
    "get (ar_byKey r) (KeyScope (app_TenantID a) (app_AppKey a)) = Some (app_AppID a)"
  using assms unfolding apps_ok_def by blast+

lemma selected_okD:
  "selected_ok r \<Longrightarrow> get (ar_apps r) scope = Some a \<Longrightarrow> selects a n \<Longrightarrow> published_at r scope n"
  by (simp add: selected_ok_def)

lemma revisions_okD:
  assumes "revisions_ok digest r" and "get (ar_revisions r) scope = Some m"
  shows "get (ar_apps r) scope \<noteq> None"
    and "get m n = Some v \<Longrightarrow> revision_ok digest r scope n v"
  using assms unfolding revisions_ok_def by blast+

lemma revisions_at_Some: "get (revisions_at r scope) n = Some v \<longleftrightarrow>
    (\<exists>m. get (ar_revisions r) scope = Some m \<and> get m n = Some v)"
  by (auto simp: revisions_at_def split: option.splits)

text \<open>Publishing a revision changes its state and bookkeeping and nothing of its content.\<close>

lemma rev_Publish_content:
  assumes "rev_Publish digest at d = Inr p"
  shows "rev_TenantID p = rev_TenantID d \<and> rev_AppID p = rev_AppID d \<and> rev_Revision p = rev_Revision d
    \<and> rev_DraftVersion p = rev_DraftVersion d \<and> rev_Configuration p = rev_Configuration d
    \<and> rev_Kind p = rev_Kind d \<and> rev_SchemaVersion p = rev_SchemaVersion d
    \<and> rev_State p = RevisionStatePublished \<and> rev_State d = RevisionStateDraft
    \<and> (content_ok d \<longrightarrow> content_ok p) \<and> rev_Validate digest p = None"
  using rev_Publish_ok [OF assms] by (auto simp: rev_Configuration_def content_ok_def)

text \<open>A published revision is there unchanged after every step.\<close>

lemma agent_step_immutable:
  assumes "agent_step digest r r'" and ok: "revisions_ok digest r"
    and v: "get (revisions_at r scope) n = Some v" "rev_State v = RevisionStatePublished"
  shows "get (revisions_at r' scope) n = Some v"
proof -
  from v(1) obtain m where m: "get (ar_revisions r) scope = Some m" "get m n = Some v"
    by (auto simp: revisions_at_Some)
  note okD = revisions_okD [OF ok m(1)]
  from assms(1) show ?thesis
  proof (cases rule: agent_step_cases)
    case same
    with v show ?thesis by simp
  next
    case (created ci ms random now a)
    with okD(1) m show ?thesis by (auto simp: revisions_at_Some)
  next
    case (moved tid aid ver a')
    with v(1) show ?thesis by (auto simp: root_moved_def)
  next
    case (published sc ver k a' p)
    then obtain m' d at where "get (ar_revisions r) sc = Some m'" "get m' k = Some d"
      "rev_State d = RevisionStateDraft"
      "ar_revisions r' = put sc (put k p m') (ar_revisions r)"
      using rev_Publish_content by (fastforce simp: root_published_def)
    with m v(2) state_neq show ?thesis by (auto simp: revisions_at_Some)
  next
    case (drafted now input m' w)
    with m okD(2) [OF m(2)] show ?thesis by (auto simp: revisions_at_Some revision_ok_def)
  next
    case (edited m' w w')
    with m v(2) state_neq show ?thesis by (auto simp: revisions_at_Some)
  qed
qed

lemma agent_step_published:
  "agent_step digest r r' \<Longrightarrow> revisions_ok digest r \<Longrightarrow> published_at r scope n \<Longrightarrow> published_at r' scope n"
  unfolding published_at_def using agent_step_immutable by blast

lemma agent_step_apps:
  assumes "agent_step digest r r'" and ok: "agent_repo_ok digest r"
  shows "apps_ok r'"
proof -
  have apps: "apps_ok r" using ok by (simp add: agent_repo_ok_def)
  from assms(1) show ?thesis
  proof (cases rule: agent_step_cases)
    case same
    with apps show ?thesis by simp
  next
    case (created ci ms random now a)
    have "app_Validate a = None" using NewApp_valid [OF created(3,1,2)] .
    moreover have "KeyScope (app_TenantID b) (app_AppKey b) \<noteq> KeyScope (app_TenantID a) (app_AppKey a)"
      if "get (ar_apps r) scope = Some b" for scope b
      using apps_okD(4) [OF apps that] created(5) by auto
    ultimately show ?thesis using created(4-6) apps unfolding apps_ok_def by simp blast
  next
    case (moved tid aid v a')
    then obtain a where "get (ar_apps r) (AppScope tid aid) = Some a" "app_moved a a'" "r' = storeAppLocked a' r"
      by (auto simp: root_moved_def)
    with apps_okD [OF apps] apps show ?thesis unfolding apps_ok_def app_moved_def by auto
  next
    case (published scope v n a' p)
    then obtain a m where "get (ar_apps r) scope = Some a" "app_moved a a'"
      "r' = (storeAppLocked a' r)\<lparr>ar_revisions := put scope (put n p m) (ar_revisions r)\<rparr>"
      by (auto simp: root_published_def)
    with apps_okD [OF apps] apps show ?thesis unfolding apps_ok_def app_moved_def by auto
  next
    case (drafted now input m v)
    with apps show ?thesis unfolding apps_ok_def by auto
  next
    case (edited m v v')
    with apps show ?thesis unfolding apps_ok_def by auto
  qed
qed

lemma agent_step_keys:
  assumes "agent_step digest r r'" and ok: "agent_repo_ok digest r"
  shows "keys_ok r'"
proof -
  have apps: "apps_ok r" and keys: "keys_ok r" using ok by (simp_all add: agent_repo_ok_def)
  have store: "keys_ok r''"
    if "get (ar_apps r) scope = Some a" "app_moved a a'" "ar_byKey r'' = ar_byKey r"
      "ar_apps r'' = put (AppScope (app_TenantID a') (app_AppID a')) a' (ar_apps r)" for scope a a' r''
    unfolding keys_ok_def
  proof (intro allI impI)
    fix tid k aid
    assume "get (ar_byKey r'') (KeyScope tid k) = Some aid"
    with keys that(3) obtain b where b: "get (ar_apps r) (AppScope tid aid) = Some b" "app_AppKey b = k"
      unfolding keys_ok_def by metis
    show "\<exists>a. get (ar_apps r'') (AppScope tid aid) = Some a \<and> app_AppKey a = k"
    proof (cases "AppScope tid aid = scope")
      case True
      with b that apps_okD(1) [OF apps that(1)] show ?thesis by (auto simp: app_moved_def)
    next
      case False
      with b that apps_okD(1) [OF apps that(1)] show ?thesis by (auto simp: app_moved_def)
    qed
  qed
  from assms(1) show ?thesis
  proof (cases rule: agent_step_cases)
    case same
    with keys show ?thesis by simp
  next
    case (created ci ms random now a)
    have "\<exists>b. get (ar_apps r') (AppScope tid aid) = Some b \<and> app_AppKey b = k"
      if "get (ar_byKey r') (KeyScope tid k) = Some aid" for tid k aid
    proof (cases "KeyScope tid k = KeyScope (app_TenantID a) (app_AppKey a)")
      case True
      with that created(6) show ?thesis by simp
    next
      case False
      with that created(6) have "get (ar_byKey r) (KeyScope tid k) = Some aid" by auto
      with keys obtain b where "get (ar_apps r) (AppScope tid aid) = Some b" "app_AppKey b = k"
        unfolding keys_ok_def by metis
      with created(4,6) show ?thesis by auto
    qed
    then show ?thesis unfolding keys_ok_def by blast
  next
    case (moved tid aid v a')
    then show ?thesis by (auto simp: root_moved_def intro!: store)
  next
    case (published scope v n a' p)
    then show ?thesis by (auto simp: root_published_def intro!: store)
  next
    case (drafted now input m v)
    with keys show ?thesis by (simp add: keys_ok_def)
  next
    case (edited m v v')
    with keys show ?thesis by (simp add: keys_ok_def)
  qed
qed

text \<open>One map of revisions was replaced, the others stayed.\<close>

lemma revisions_ok_put:
  assumes revs: "revisions_ok digest r" and m: "get (ar_revisions r) scope = Some m"
    and r': "ar_revisions r' = put scope (put n v m) (ar_revisions r)"
    and apps: "\<And>sc. get (ar_apps r) sc \<noteq> None \<Longrightarrow> get (ar_apps r') sc \<noteq> None"
    and nxt: "\<And>sc. (case get (ar_next r) sc of None \<Rightarrow> 0 | Some k \<Rightarrow> k) \<le> (case get (ar_next r') sc of None \<Rightarrow> 0 | Some k \<Rightarrow> k)"
    and v: "revision_ok digest r' scope n v"
  shows "revisions_ok digest r'"
proof -
  have old: "revision_ok digest r' sc k w" if "revision_ok digest r sc k w" for sc k w
    using that nxt [of sc] by (auto simp: revision_ok_def)
  show ?thesis
    unfolding revisions_ok_def
  proof (intro allI impI conjI)
    fix sc m'
    assume m': "get (ar_revisions r') sc = Some m'"
    then have "get (ar_revisions r) sc \<noteq> None" using m r' by (auto split: if_splits)
    then show "get (ar_apps r') sc \<noteq> None" using revisions_okD(1) [OF revs] apps by auto
    fix k w
    assume w: "get m' k = Some w"
    show "revision_ok digest r' sc k w"
    proof (cases "sc = scope \<and> k = n")
      case True
      with m' w r' v show ?thesis by auto
    next
      case False
      with m' w r' m revisions_okD(2) [OF revs] have "revision_ok digest r sc k w"
        by (auto split: if_splits)
      then show ?thesis by (rule old)
    qed
  qed
qed

lemma agent_step_revisions:
  assumes "agent_step digest r r'" and ok: "agent_repo_ok digest r"
  shows "revisions_ok digest r'"
proof -
  have apps: "apps_ok r" and revs: "revisions_ok digest r" using ok by (simp_all add: agent_repo_ok_def)
  from assms(1) show ?thesis
  proof (cases rule: agent_step_cases)
    case same
    with revs show ?thesis by simp
  next
    case (created ci ms random now a)
    with revs show ?thesis unfolding revisions_ok_def revision_ok_def by simp
  next
    case (moved tid aid v a')
    then obtain r1 where r': "r' = storeAppLocked a' r" by (auto simp: root_moved_def)
    show ?thesis using revs unfolding revisions_ok_def revision_ok_def r' by simp blast
  next
    case (published scope v n a' p)
    then obtain a m d at where m: "get (ar_revisions r) scope = Some m" "get m n = Some d"
        "rev_Publish digest at d = Inr p"
      and r': "r' = (storeAppLocked a' r)\<lparr>ar_revisions := put scope (put n p m) (ar_revisions r)\<rparr>"
      by (auto simp: root_published_def)
    have "revision_ok digest r' scope n p"
      using revisions_okD(2) [OF revs m(1,2)] rev_Publish_content [OF m(3)]
      by (auto simp: revision_ok_def r')
    then show ?thesis by (rule revisions_ok_put [OF revs m(1), rotated -1]) (auto simp: r')
  next
    case (drafted now input m v)
    have "rev_Validate digest v = None" "content_ok v"
      using NewRevision_ok [OF drafted(2)] drafted(1) by (auto intro: draft_valid)
    then have "revision_ok digest r' (AppScope (rev_TenantID v) (rev_AppID v)) (rev_Revision v) v"
      by (simp add: revision_ok_def drafted(6))
    then show ?thesis by (rule revisions_ok_put [OF revs drafted(4), rotated -1]) (auto simp: drafted(5,6))
  next
    case (edited m v v')
    from revisions_okD(2) [OF revs edited(2,3)] edited(7,8)
    have "revision_ok digest r' (AppScope (rev_TenantID v') (rev_AppID v')) (rev_Revision v') v'"
      by (auto simp: revision_ok_def edited(9))
    then show ?thesis by (rule revisions_ok_put [OF revs edited(2), rotated -1]) (auto simp: edited(9))
  qed
qed

lemma agent_step_selected:
  assumes "agent_step digest r r'" and ok: "agent_repo_ok digest r"
  shows "selected_ok r'"
proof -
  have revs: "revisions_ok digest r" and apps: "apps_ok r" using ok by (simp_all add: agent_repo_ok_def)
  have old: "published_at r' scope n" if "get (ar_apps r) scope = Some a" "selects a n" for scope a n
    using ok agent_step_published [OF assms(1) revs] that by (auto simp: agent_repo_ok_def selected_ok_def)
  from assms(1) show ?thesis
  proof (cases rule: agent_step_cases)
    case (created ci ms random now a)
    then have "\<not> selects a n" for n by (auto simp: NewApp_def selects_def)
    with created old show ?thesis unfolding selected_ok_def by auto
  next
    case (moved tid aid v a')
    then obtain a where a: "get (ar_apps r) (AppScope tid aid) = Some a" "app_moved a a'" "r' = storeAppLocked a' r"
        "\<And>n. selects a' n \<Longrightarrow> selects a n \<or> published_at r (AppScope tid aid) n"
      by (auto simp: root_moved_def)
    have new: "published_at r' (AppScope tid aid) n" if "selects a' n" for n
      using a(4) [OF that] old [OF a(1)] agent_step_published [OF assms(1) revs] by blast
    have "AppScope tid aid = AppScope (app_TenantID a') (app_AppID a')"
      using apps_okD(1) [OF apps a(1)] a(2) by (simp add: app_moved_def)
    with a(3) new old show ?thesis unfolding selected_ok_def by simp
  next
    case (published scope v n a' p)
    then obtain a m d at where a: "get (ar_apps r) scope = Some a" "app_moved a a'"
        "app_CurrentRevision a' = Some n" "app_CanaryRevision a' = None" "rev_Publish digest at d = Inr p"
      and r': "r' = (storeAppLocked a' r)\<lparr>ar_revisions := put scope (put n p m) (ar_revisions r)\<rparr>"
      by (auto simp: root_published_def)
    have "published_at r' scope n"
      using rev_Publish_content [OF a(5)] by (simp add: published_at_def revisions_at_def r')
    with a apps_okD(1) [OF apps a(1)] old show ?thesis
      unfolding selected_ok_def app_moved_def by (auto simp: selects_def r')
  qed (use old in \<open>auto simp: selected_ok_def\<close>)
qed

lemma agent_reachable_ok: "agent_reachable digest r \<Longrightarrow> agent_repo_ok digest r"
proof (induction rule: agent_reachable.induct)
  case start
  show ?case by (simp add: agent_repo_ok_def apps_ok_def keys_ok_def revisions_ok_def selected_ok_def
        agent_NewRepository_def)
next
  case (step r r')
  then show ?case
    by (auto simp: agent_repo_ok_def [of _ r'] intro: agent_step_apps agent_step_keys
        agent_step_revisions agent_step_selected)
qed

lemma agent_reachable_star:
  "(agent_step digest)\<^sup>*\<^sup>* r r' \<Longrightarrow> agent_reachable digest r \<Longrightarrow> agent_reachable digest r'"
  by (induction rule: rtranclp_induct) (auto intro: agent_reachable.step)

end
