(* ===== verification/Agent_Locking.thy ===== *)
theory Agent_Locking
  imports Agent_Repo
begin

text \<open>
  The optimistic locks of the Agent App repository, on the versions of applications and on the
  versions of drafts, as interpretations of the contract \<open>versioned\<close>; and the properties of
  the repository.
\<close>

declare split_paired_All [simp del] split_paired_Ex [simp del]

subsection \<open>Optimistic locking of applications\<close>

definition agent_version :: "agent_repo \<Rightarrow> app_scope \<Rightarrow> int" where
  "agent_version r scope = (case get (ar_apps r) scope of None \<Rightarrow> 0 | Some a \<Rightarrow> app_Version a)"

text \<open>An operation that moves the root of one application was applied to one version of it.\<close>

inductive agent_applied :: "digest_fun \<Rightarrow> agent_repo \<Rightarrow> app_scope \<Rightarrow> int \<Rightarrow> agent_repo \<Rightarrow> bool" for digest where
  metadata: "now \<noteq> 0 \<Longrightarrow> agent_UpdateMetadata look um now r = (Inr a, r')
    \<Longrightarrow> agent_applied digest r (AppScope (aum_TenantID um) (aum_AppID um)) (aum_ExpectedVersion um) r'"
| publish: "agent_Publish digest look pi now r = (Inr x, r')
    \<Longrightarrow> agent_applied digest r (AppScope (api_TenantID pi) (api_AppID pi)) (api_ExpectedAppVersion pi) r'"
| rollback: "agent_Rollback look ri now r = (Inr y, r')
    \<Longrightarrow> agent_applied digest r (AppScope (ari_TenantID ri) (ari_AppID ri)) (ari_ExpectedAppVersion ri) r'"
| canary: "agent_SetCanary look sc now r = (Inr y, r')
    \<Longrightarrow> agent_applied digest r (AppScope (asc_TenantID sc) (asc_AppID sc)) (asc_ExpectedAppVersion sc) r'"
| transition: "agent_TransitionStatus look ts now r = (Inr y, r')
    \<Longrightarrow> agent_applied digest r (AppScope (ats_TenantID ts) (ats_AppID ts)) (ats_ExpectedVersion ts) r'"

lemma root_moved_app:
  "root_moved r tid aid v a' r' \<Longrightarrow> apps_ok r
   \<Longrightarrow> \<exists>a. get (ar_apps r) (AppScope tid aid) = Some a \<and> app_Version a = v \<and> app_moved a a'
       \<and> ar_apps r' = put (AppScope tid aid) a' (ar_apps r)"
  using apps_okD(1) by (fastforce simp: root_moved_def app_moved_def)

lemma root_published_app:
  "root_published digest r scope v n a' p r' \<Longrightarrow> apps_ok r
   \<Longrightarrow> \<exists>a. get (ar_apps r) scope = Some a \<and> app_Version a = v \<and> app_moved a a'
       \<and> ar_apps r' = put scope a' (ar_apps r)"
  using apps_okD(1) by (fastforce simp: root_published_def app_moved_def)

lemma agent_applied_app:
  assumes "agent_applied digest r scope v r'" and "apps_ok r"
  shows "\<exists>a a'. get (ar_apps r) scope = Some a \<and> app_Version a = v \<and> app_moved a a'
    \<and> ar_apps r' = put scope a' (ar_apps r)"
  using assms(1)
proof cases
  case (metadata now look um a)
  from agent_UpdateMetadata_ok [OF metadata(4)] root_moved_app assms(2) metadata(1,2) show ?thesis by blast
next
  case (publish look pi now x)
  from publish(3) have "agent_Publish digest look pi now r = (Inr (fst x, fst (snd x), snd (snd x)), r')" by simp
  from agent_Publish_ok [OF this] root_published_app assms(2) publish(1,2) show ?thesis by blast
next
  case (rollback look ri now y)
  from rollback(3) have "agent_Rollback look ri now r = (Inr (fst y, snd y), r')" by simp
  from agent_Rollback_ok [OF this] root_moved_app assms(2) rollback(1,2) show ?thesis by blast
next
  case (canary look sc now y)
  from canary(3) have "agent_SetCanary look sc now r = (Inr (fst y, snd y), r')" by simp
  from agent_SetCanary_ok [OF this] root_moved_app assms(2) canary(1,2) show ?thesis by blast
next
  case (transition look ts now y)
  from transition(3) have "agent_TransitionStatus look ts now r = (Inr (fst y, snd y), r')" by simp
  from agent_TransitionStatus_ok [OF this] root_moved_app assms(2) transition(1,2) show ?thesis by blast
qed

definition agent_ok_step :: "digest_fun \<Rightarrow> agent_repo \<Rightarrow> agent_repo \<Rightarrow> bool" where
  "agent_ok_step digest r r' \<longleftrightarrow> agent_repo_ok digest r \<and> agent_step digest r r'"

definition agent_ok_applied :: "digest_fun \<Rightarrow> agent_repo \<Rightarrow> app_scope \<Rightarrow> int \<Rightarrow> agent_repo \<Rightarrow> bool" where
  "agent_ok_applied digest r scope v r' \<longleftrightarrow> agent_repo_ok digest r \<and> agent_applied digest r scope v r'"

lemma agent_step_version:
  assumes "agent_step digest r r'" and ok: "agent_repo_ok digest r"
  shows "agent_version r scope \<le> agent_version r' scope"
proof -
  have apps: "apps_ok r" using ok by (simp add: agent_repo_ok_def)
  from assms(1) show ?thesis
  proof (cases rule: agent_step_cases)
    case (created ci ms random now a)
    from NewApp_valid [OF created(3,1,2)] have "1 \<le> app_Version a" by (simp add: app_Validate_iff)
    with created(4,6) show ?thesis by (auto simp: agent_version_def)
  next
    case (moved tid aid v a')
    from root_moved_app [OF this apps] show ?thesis by (auto simp: agent_version_def app_moved_def)
  next
    case (published sc v n a' p)
    from root_published_app [OF this apps] show ?thesis by (auto simp: agent_version_def app_moved_def)
  qed (auto simp: agent_version_def)
qed

interpretation app_locking: versioned "agent_ok_step digest" agent_version "agent_ok_applied digest"
  for digest
proof
  fix r r' scope
  assume "agent_ok_step digest r r'"
  then show "agent_version r scope \<le> agent_version r' scope"
    by (auto simp: agent_ok_step_def intro: agent_step_version)
next
  fix r r' scope v
  assume a: "agent_ok_applied digest r scope v r'"
  then show "agent_ok_step digest r r'"
    by (auto simp: agent_ok_applied_def agent_ok_step_def
        elim: agent_applied.cases intro: agent_step.intros)
  from a agent_applied_app [of digest r scope v r']
  show "agent_version r scope = v" "agent_version r' scope = v + 1"
    by (auto simp: agent_ok_applied_def agent_repo_ok_def agent_version_def app_moved_def)
qed

subsection \<open>Optimistic locking of drafts\<close>

definition draft_version :: "agent_repo \<Rightarrow> app_scope \<times> int \<Rightarrow> int" where
  "draft_version r k = (case get (revisions_at r (fst k)) (snd k) of None \<Rightarrow> 0 | Some v \<Rightarrow> rev_DraftVersion v)"

definition draft_applied :: "digest_fun \<Rightarrow> agent_repo \<Rightarrow> app_scope \<times> int \<Rightarrow> int \<Rightarrow> agent_repo \<Rightarrow> bool" where
  "draft_applied digest r k v r' \<longleftrightarrow> agent_repo_ok digest r
     \<and> (\<exists>look ud now now2 x. now \<noteq> 0 \<and> agent_UpdateDraft digest look ud now now2 r = (Inr x, r')
          \<and> k = (AppScope (aud_TenantID ud) (aud_AppID ud), aud_Revision ud)
          \<and> v = aud_ExpectedDraftVersion ud)"

lemma draft_appliedI:
  "agent_repo_ok digest r \<Longrightarrow> now \<noteq> 0 \<Longrightarrow> agent_UpdateDraft digest look ud now now2 r = (Inr x, r')
   \<Longrightarrow> draft_applied digest r (AppScope (aud_TenantID ud) (aud_AppID ud), aud_Revision ud)
       (aud_ExpectedDraftVersion ud) r'"
  unfolding draft_applied_def by blast

lemma agent_step_draft_version:
  assumes "agent_step digest r r'" and ok: "agent_repo_ok digest r"
  shows "draft_version r k \<le> draft_version r' k"
proof -
  have revs: "revisions_ok digest r" using ok by (simp add: agent_repo_ok_def)
  from assms(1) show ?thesis
  proof (cases rule: agent_step_cases)
    case (created ci ms random now a)
    from created(4) revisions_okD(1) [OF revs]
    have "get (ar_revisions r) (AppScope (app_TenantID a) (app_AppID a)) = None" by fastforce
    with created(6) show ?thesis by (auto simp: draft_version_def revisions_at_def)
  next
    case (moved tid aid v a')
    then show ?thesis by (auto simp: root_moved_def draft_version_def)
  next
    case (published sc v n a' p)
    then obtain m d at where "get (ar_revisions r) sc = Some m" "get m n = Some d" "rev_Publish digest at d = Inr p"
      "ar_revisions r' = put sc (put n p m) (ar_revisions r)"
      by (auto simp: root_published_def)
    with rev_Publish_content [of digest at d p] show ?thesis
      by (auto simp: draft_version_def revisions_at_def split: option.split)
  next
    case (drafted now input m v)
    have "get m (rev_Revision v) = None"
    proof (rule ccontr)
      assume "get m (rev_Revision v) \<noteq> None"
      then obtain w where "get m (rev_Revision v) = Some w" by auto
      from revisions_okD(2) [OF revs drafted(4) this] drafted(5) show False by (simp add: revision_ok_def)
    qed
    with drafted(4,6) NewRevision_ok [OF drafted(2)] show ?thesis
      by (auto simp: draft_version_def revisions_at_def split: option.split)
  next
    case (edited m v v')
    then show ?thesis by (auto simp: draft_version_def revisions_at_def split: option.split)
  qed simp
qed

interpretation draft_locking: versioned "agent_ok_step digest" draft_version "draft_applied digest"
  for digest
proof
  fix r r' and k :: "app_scope \<times> int"
  assume "agent_ok_step digest r r'"
  then show "draft_version r k \<le> draft_version r' k"
    by (auto simp: agent_ok_step_def intro: agent_step_draft_version)
next
  fix r r' and k :: "app_scope \<times> int" and v
  assume a: "draft_applied digest r k v r'"
  then show "agent_ok_step digest r r'"
    by (auto simp: draft_applied_def agent_ok_step_def intro: agent_step.edit)
  from a obtain look ud now now2 x where ud: "agent_UpdateDraft digest look ud now now2 r = (Inr x, r')"
    "k = (AppScope (aud_TenantID ud) (aud_AppID ud), aud_Revision ud)" "v = aud_ExpectedDraftVersion ud"
    by (auto simp: draft_applied_def)
  from agent_UpdateDraft_ok [OF ud(1)] ud(2,3)
  show "draft_version r k = v" "draft_version r' k = v + 1"
    by (auto simp: draft_version_def revisions_at_def)
qed

subsection \<open>An example repository\<close>

lemma agent_step_ok [wf_intros]: "agent_step digest r r' \<Longrightarrow> agent_repo_ok digest r \<Longrightarrow> agent_repo_ok digest r'"
  using agent_step_apps agent_step_keys agent_step_revisions agent_step_selected
  by (simp add: agent_repo_ok_def [of _ r'])

lemma agent_ok_star:
  "(agent_step digest)\<^sup>*\<^sup>* r r' \<Longrightarrow> agent_repo_ok digest r \<Longrightarrow> (agent_ok_step digest)\<^sup>*\<^sup>* r r' \<and> agent_repo_ok digest r'"
proof (induction rule: rtranclp_induct)
  case base
  then show ?case by simp
next
  case (step y z)
  then show ?case
    by (metis agent_ok_step_def agent_step_ok rtranclp.rtrancl_into_rtrancl)
qed

definition demo_bytes :: "nat list" where "demo_bytes = replicate 10 7"

definition demo_tid :: string where "demo_tid = ''t_'' @ ulid 5 demo_bytes"

definition demo_aid :: string where "demo_aid = ''app_'' @ ulid 5 demo_bytes"

definition demo_scope :: app_scope where "demo_scope = AppScope demo_tid demo_aid"

definition demo_digest :: digest_fun where "demo_digest payload = Some ''d''"

definition demo_app :: app where
  "demo_app = \<lparr>app_TenantID = demo_tid, app_AppID = demo_aid, app_AppKey = ''bot'', app_DisplayName = ''Bot'',
     app_Description = [], app_Status = agent_StatusDraft, app_CurrentRevision = None,
     app_CanaryRevision = None, app_Version = 1, app_CreatedAt = 1, app_UpdatedAt = 1\<rparr>"

definition demo_draft :: "string \<Rightarrow> revision" where
  "demo_draft instruction = \<lparr>rev_TenantID = demo_tid, rev_AppID = demo_aid, rev_Revision = 1,
     rev_State = RevisionStateDraft, rev_DraftVersion = 1, rev_Kind = KindLLM, rev_SchemaVersion = SchemaVersionV1,
     rev_Description = [], rev_Instruction = instruction, rev_GlobalInstruction = [], rev_ModelProfileID = ''m'',
     rev_Generation = \<lparr>gen_Temperature = None, gen_TopP = None, gen_MaxOutputTokens = None\<rparr>,
     rev_Runtime = DefaultRuntimePolicy, rev_Tools = [], rev_ContentDigest = [], rev_PublishedAt = None,
     rev_CreatedAt = 2, rev_UpdatedAt = 2\<rparr>"

definition demo_apps1 :: agent_repo where
  "demo_apps1 = \<lparr>ar_apps = [(demo_scope, demo_app)], ar_byKey = [(KeyScope demo_tid ''bot'', demo_aid)],
     ar_revisions = [(demo_scope, [])], ar_next = []\<rparr>"

definition demo_apps2 :: agent_repo where
  "demo_apps2 = demo_apps1\<lparr>ar_revisions := [(demo_scope, [(1, demo_draft ''hi'')])], ar_next := [(demo_scope, 1)]\<rparr>"

definition demo_published :: revision where
  "demo_published = (demo_draft ''hi'')\<lparr>rev_State := RevisionStatePublished, rev_ContentDigest := ''d'',
     rev_PublishedAt := Some 3, rev_UpdatedAt := 3\<rparr>"

definition demo_active :: app where
  "demo_active = demo_app\<lparr>app_Status := agent_StatusActive, app_CurrentRevision := Some 1, app_Version := 2,
     app_UpdatedAt := 3\<rparr>"

definition demo_apps3 :: agent_repo where
  "demo_apps3 = demo_apps2\<lparr>ar_apps := [(demo_scope, demo_active)],
     ar_revisions := [(demo_scope, [(1, demo_published)])]\<rparr>"

lemma demo_bytes_random: "random_ok (Some demo_bytes)"
  by (simp add: random_ok_def demo_bytes_def list_all_iff)

lemma demo_ids: "agent_validateTenantID demo_tid = None" "validateAppID demo_aid = None"
proof -
  have r: "length demo_bytes = 10" "list_all (\<lambda>b. b < 256) demo_bytes"
    by (simp_all add: demo_bytes_def list_all_iff)
  show "agent_validateTenantID demo_tid = None" "validateAppID demo_aid = None"
    unfolding agent_validateTenantID_def validateAppID_def demo_tid_def demo_aid_def
      generated_id_valid [OF r] by simp_all
qed

lemma demo_bot: "normalizeAppKey ''bot'' = Inr ''bot''"
  by (rule normalizeAppKey_fixed) (simp add: slug_ok_def slug_first_def slug_char_def char_le_iff)

lemma demo_NewApp:
  "NewApp \<lparr>aci_TenantID = demo_tid, aci_AppKey = ''bot'', aci_DisplayName = ''Bot'', aci_Description = []\<rparr> 5
     (Some demo_bytes) 1 = Inr demo_app"
  by (simp add: NewApp_def demo_ids demo_bot validateAppMetadata_def visible_trim visible_def newAppID_def
      demo_app_def demo_aid_def)

lemma demo_step1: "agent_step demo_digest agent_NewRepository demo_apps1"
  by (rule agent_step.create [OF demo_bytes_random, of 1 background
        "\<lparr>aci_TenantID = demo_tid, aci_AppKey = ''bot'', aci_DisplayName = ''Bot'', aci_Description = []\<rparr>" 5])
     (simp_all add: agent_Create_def demo_NewApp agent_checkContext_def agent_NewRepository_def demo_apps1_def
        demo_scope_def demo_app_def)

lemma demo_NewRevision:
  assumes "visible instr" "instr \<noteq> []" "length instr \<le> maxInstructionRunes"
  shows "NewRevision \<lparr>rci_TenantID = demo_tid, rci_AppID = demo_aid, rci_Revision = 1, rci_Kind = [],
      rci_SchemaVersion = 0, rci_Configuration = \<lparr>dc_Description = [], dc_Instruction = instr,
        dc_GlobalInstruction = [], dc_ModelProfileID = ''m'',
        dc_Generation = \<lparr>gen_Temperature = None, gen_TopP = None, gen_MaxOutputTokens = None\<rparr>,
        dc_Runtime = zeroRuntimePolicy, dc_Tools = []\<rparr>\<rparr> 2 = Inr (demo_draft instr)"
proof -
  have "visible ''m''" "visible []" by (simp_all add: visible_def)
  with assms show ?thesis
    by (simp add: NewRevision_def demo_ids normalizeDraftConfiguration_def normalizeTools_def
        validateRevisionDefinition_def visible_trim validateGenerationConfig_def validateRuntimePolicy_def
        normalizeGenerationConfig_def normalize_zero_def DefaultRuntimePolicy_def maxReferenceRunes_def
        demo_draft_def Suc_le_eq)
qed

definition demo_create_draft :: agent_CreateDraftInput where
  "demo_create_draft = \<lparr>acd_TenantID = demo_tid, acd_AppID = demo_aid, acd_ExpectedAppVersion = 1, acd_Kind = [],
     acd_SchemaVersion = 0, acd_Configuration = \<lparr>dc_Description = [], dc_Instruction = ''hi'',
        dc_GlobalInstruction = [], dc_ModelProfileID = ''m'',
        dc_Generation = \<lparr>gen_Temperature = None, gen_TopP = None, gen_MaxOutputTokens = None\<rparr>,
        dc_Runtime = zeroRuntimePolicy, dc_Tools = []\<rparr>\<rparr>"

definition demo_change :: agent_ChangeMetadata where
  "demo_change = \<lparr>acm_ActorType = ''user'', acm_ActorID = ''u'', acm_Reason = ''r'', acm_CorrelationID = ''c''\<rparr>"

definition demo_publish :: agent_PublishInput where
  "demo_publish = \<lparr>api_TenantID = demo_tid, api_AppID = demo_aid, api_Revision = 1, api_ExpectedAppVersion = 1,
     api_ExpectedDraftVersion = 1, api_TenantActive = True, api_Metadata = demo_change\<rparr>"

lemma demo_status_neq: "agent_StatusDraft \<noteq> agent_StatusDisabled" "agent_StatusActive \<noteq> agent_StatusDisabled"
  by (simp_all add: agent_status_defs)

lemma demo_change_valid: "validateChange demo_change = None"
  by (simp add: validateChange_def demo_change_def visible_trim visible_def)

lemma demo_CreateDraft:
  "agent_CreateDraft background demo_create_draft 2 demo_apps1 = (Inr (demo_draft ''hi''), demo_apps2)"
  using demo_NewRevision [of "''hi''"]
  by (simp add: agent_CreateDraft_def demo_create_draft_def agent_enter_def agent_checkContext_def
      mutableAppLocked_def agent_getLocked_def demo_apps1_def demo_apps2_def demo_scope_def demo_app_def
      demo_status_neq store_revision_def visible_def maxInstructionRunes_def Let_def)

lemma demo_repo2: "agent_reachable demo_digest demo_apps1" "agent_reachable demo_digest demo_apps2"
proof -
  show 1: "agent_reachable demo_digest demo_apps1"
    by (rule agent_reachable.step [OF agent_reachable.start demo_step1])
  have "agent_step demo_digest demo_apps1 demo_apps2"
    by (rule agent_step.draft [OF _ demo_CreateDraft]) simp
  with 1 show "agent_reachable demo_digest demo_apps2" by (rule agent_reachable.step)
qed

lemma demo_draft_stored: "get (revisions_at demo_apps2 demo_scope) 1 = Some (demo_draft ''hi'')"
  by (simp add: demo_apps2_def revisions_at_def)

lemma demo_rev_Publish: "rev_Publish demo_digest 3 (demo_draft ''hi'') = Inr demo_published"
proof -
  have "revision_ok demo_digest demo_apps2 demo_scope 1 (demo_draft ''hi'')"
    using agent_reachable_ok [OF demo_repo2(2)] demo_draft_stored revisions_okD(2)
    by (fastforce simp: agent_repo_ok_def revisions_at_Some)
  then have "content_ok (demo_draft ''hi'')" "rev_Validate demo_digest (demo_draft ''hi'') = None"
    by (simp_all add: revision_ok_def)
  from rev_Publish_eq [OF this, of 3 "''d''"] show ?thesis
    by (simp add: demo_published_def demo_draft_def demo_digest_def)
qed

lemma demo_active_valid: "app_Validate demo_active = None"
proof -
  have "app_Validate demo_app = None" using NewApp_valid [OF demo_NewApp demo_bytes_random] by simp
  then show ?thesis
    by (auto simp: app_Validate_iff demo_active_def app_identity_ok_def app_lifecycle_ok_def demo_app_def)
qed

lemma demo_Publish:
  "\<exists>ev. agent_Publish demo_digest background demo_publish 3 demo_apps2
     = (Inr (demo_active, demo_published, ev), demo_apps3)"
proof -
  have "get (ar_apps demo_apps2) (AppScope demo_tid demo_aid) = Some demo_app"
    "get (revisions_at demo_apps2 (AppScope demo_tid demo_aid)) 1 = Some (demo_draft ''hi'')"
    using demo_draft_stored by (simp_all add: demo_apps2_def demo_apps1_def demo_scope_def)
  moreover have "demo_app\<lparr>app_CurrentRevision := Some 1, app_CanaryRevision := None,
      app_Status := agent_StatusActive, app_Version := 2, app_UpdatedAt := 3\<rparr> = demo_active"
    by (simp add: demo_active_def demo_app_def)
  moreover have "app_Status demo_app = agent_StatusDraft" "app_Version demo_app = 1" "app_UpdatedAt demo_app = 1"
    "rev_State (demo_draft ''hi'') = RevisionStateDraft" "rev_DraftVersion (demo_draft ''hi'') = 1"
    "rev_UpdatedAt (demo_draft ''hi'') = 2"
    by (simp_all add: demo_app_def demo_draft_def)
  moreover have "store_revision (AppScope demo_tid demo_aid) 1 demo_published (storeAppLocked demo_active demo_apps2)
      = Inr demo_apps3"
    by (simp add: store_revision_def storeAppLocked_def demo_apps3_def demo_apps2_def demo_apps1_def
        demo_scope_def demo_active_def demo_app_def)
  ultimately show ?thesis
    using demo_change_valid demo_rev_Publish demo_active_valid demo_status_neq
    by (simp add: agent_Publish_def demo_publish_def agent_checkContext_def mutableAppLocked_def
        revisionLocked_def agent_getLocked_def nextTime_def maxTime_def)
qed

lemma demo_repo3: "agent_reachable demo_digest demo_apps3"
  using demo_Publish agent_reachable.step [OF demo_repo2(2)] agent_step.publish by blast

lemma demo_published_stored: "get (revisions_at demo_apps3 demo_scope) 1 = Some demo_published"
  by (simp add: demo_apps3_def revisions_at_def)

lemma demo_active_stored: "get (ar_apps demo_apps3) demo_scope = Some demo_active"
  by (simp add: demo_apps3_def)

definition demo_edit :: "string \<Rightarrow> agent_UpdateDraftInput" where
  "demo_edit instr = \<lparr>aud_TenantID = demo_tid, aud_AppID = demo_aid, aud_Revision = 1, aud_ExpectedAppVersion = 1,
     aud_ExpectedDraftVersion = 1, aud_Configuration = \<lparr>dc_Description = [], dc_Instruction = instr,
        dc_GlobalInstruction = [], dc_ModelProfileID = ''m'',
        dc_Generation = \<lparr>gen_Temperature = None, gen_TopP = None, gen_MaxOutputTokens = None\<rparr>,
        dc_Runtime = zeroRuntimePolicy, dc_Tools = []\<rparr>\<rparr>"

lemma NewRevision_defaults:
  "NewRevision (input\<lparr>rci_Kind := [], rci_SchemaVersion := 0\<rparr>) now
   = NewRevision (input\<lparr>rci_Kind := KindLLM, rci_SchemaVersion := SchemaVersionV1\<rparr>) now"
  by (simp add: NewRevision_def KindLLM_def SchemaVersionV1_def)

lemma demo_UpdateDraft:
  "\<exists>x r1. agent_UpdateDraft demo_digest background (demo_edit ''yo'') 2 3 demo_apps2 = (Inr x, r1)"
proof -
  let ?input = "\<lparr>rci_TenantID = demo_tid, rci_AppID = demo_aid, rci_Revision = 1, rci_Kind = KindLLM,
      rci_SchemaVersion = SchemaVersionV1, rci_Configuration = aud_Configuration (demo_edit ''yo'')\<rparr>"
  let ?new = "(demo_draft ''yo'')\<lparr>rev_DraftVersion := 2, rev_CreatedAt := 2, rev_UpdatedAt := 3\<rparr>"
  have new: "NewRevision ?input 2 = Inr (demo_draft ''yo'')"
    using demo_NewRevision [of "''yo''"] NewRevision_defaults [of ?input 2]
    by (simp add: demo_edit_def visible_def maxInstructionRunes_def)
  from NewRevision_ok [OF this] have "rev_Validate demo_digest ?new = None"
    by (intro draft_valid) (simp_all add: content_ok_def rev_Configuration_def rev_validateIdentity_def demo_ids)
  moreover have "get (ar_apps demo_apps2) demo_scope = Some demo_app"
    "get (ar_revisions demo_apps2) demo_scope = Some [(1, demo_draft ''hi'')]"
    by (simp_all add: demo_apps2_def demo_apps1_def)
  ultimately show ?thesis
    using new demo_status_neq demo_draft_stored
    by (simp add: agent_UpdateDraft_def agent_enter_def agent_checkContext_def mutableAppLocked_def
        revisionLocked_def agent_getLocked_def store_revision_def nextTime_def Let_def
        demo_edit_def demo_scope_def demo_app_def demo_draft_def)
qed

definition demo_tools :: "tool_authorization list \<Rightarrow> revision_CreateInput" where
  "demo_tools ts = \<lparr>rci_TenantID = demo_tid, rci_AppID = demo_aid, rci_Revision = 1, rci_Kind = [],
     rci_SchemaVersion = 0, rci_Configuration = (aud_Configuration (demo_edit ''yo''))\<lparr>dc_Tools := ts\<rparr>\<rparr>"

lemma demo_tools_ok:
  "\<exists>v. NewRevision (demo_tools [\<lparr>tool_ToolID = ''a'', tool_Required = False\<rparr>,
     \<lparr>tool_ToolID = ''b'', tool_Required = True\<rparr>]) 2 = Inr v"
proof -
  let ?ts = "[\<lparr>tool_ToolID = ''a'', tool_Required = False\<rparr>, \<lparr>tool_ToolID = ''b'', tool_Required = True\<rparr>]"
  have vis: "visible ''m''" "visible []" "visible ''a''" "visible ''b''" "visible ''yo''" by (simp_all add: visible_def)
  then have tools: "normalizeTools ?ts = Inr ?ts"
    by (simp add: normalizeTools_iff trimmed_tool_def visible_trim tool_id_ok_def maxReferenceRunes_def
        char_le_iff)
  with vis show ?thesis
    by (simp add: demo_tools_def demo_edit_def NewRevision_def demo_ids normalizeDraftConfiguration_def
        validateRevisionDefinition_def visible_trim validateGenerationConfig_def validateRuntimePolicy_def
        normalizeGenerationConfig_def normalize_zero_def DefaultRuntimePolicy_def maxReferenceRunes_def
        maxInstructionRunes_def)
qed

lemma agent_published_star:
  assumes "(agent_step digest)\<^sup>*\<^sup>* r r'" and "agent_reachable digest r"
    and "get (revisions_at r scope) n = Some v" and "rev_State v = RevisionStatePublished"
  shows "get (revisions_at r' scope) n = Some v"
  using assms(1)
proof (induction rule: rtranclp_induct)
  case base
  show ?case by (rule assms(3))
next
  case (step y z)
  have "revisions_ok digest y"
    using agent_reachable_ok [OF agent_reachable_star [OF step(1) assms(2)]] by (simp add: agent_repo_ok_def)
  from agent_step_immutable [OF step(2) this step(3) assms(4)] show ?case .
qed

subsection \<open>Properties\<close>

text \<open>
  C13: a published revision never changes. Once a revision is published it is there unchanged in
  every later state, and a further edit or publication of it is refused and changes nothing.
\<close>

theorem agent_published_immutable:
  assumes "agent_reachable digest r" and "get (revisions_at r (AppScope tid aid)) n = Some v"
    and "rev_State v = RevisionStatePublished" and "(agent_step digest)\<^sup>*\<^sup>* r r'"
  shows "get (revisions_at r' (AppScope tid aid)) n = Some v
    \<and> (aud_TenantID ud = tid \<and> aud_AppID ud = aid \<and> aud_Revision ud = n
        \<longrightarrow> (\<exists>e. agent_UpdateDraft digest look ud now now2 r' = (Inl e, r')))
    \<and> (api_TenantID pi = tid \<and> api_AppID pi = aid \<and> api_Revision pi = n
        \<longrightarrow> (\<exists>e. agent_Publish digest look pi now r' = (Inl e, r')))"
proof -
  have stored: "get (revisions_at r' (AppScope tid aid)) n = Some v"
    by (rule agent_published_star [OF assms(4,1,2,3)])
  have "\<exists>e. agent_UpdateDraft digest look ud now now2 r' = (Inl e, r')"
    if "aud_TenantID ud = tid" "aud_AppID ud = aid" "aud_Revision ud = n"
  proof (rule keeps_refused [OF agent_ops_keep(4)])
    show "agent_UpdateDraft digest look ud now now2 r' \<noteq> (Inr w, r2)" for w r2
      using stored assms(3) that state_neq by (simp add: agent_UpdateDraft_def)
  qed
  moreover have "\<exists>e. agent_Publish digest look pi now r' = (Inl e, r')"
    if "api_TenantID pi = tid" "api_AppID pi = aid" "api_Revision pi = n"
  proof (rule keeps_refused [OF agent_ops_keep(5)])
    show "agent_Publish digest look pi now r' \<noteq> (Inr w, r2)" for w r2
      using stored assms(3) that state_neq by (simp add: agent_Publish_def)
  qed
  ultimately show ?thesis using stored by simp
qed

theorem agent_published_immutable_witness:
  "\<exists>e. agent_Publish demo_digest background demo_publish 4 demo_apps3 = (Inl e, demo_apps3)"
  using agent_published_immutable [OF demo_repo3 demo_published_stored [unfolded demo_scope_def] _
      rtranclp.rtrancl_refl, of undefined background 4 5 demo_publish]
  by (simp add: demo_published_def demo_publish_def)

text \<open>
  C14: a reachable application repository is consistent. Every application is valid and stored
  under its own identifiers, the key index leads from its key to it and to no other application
  of the tenant, and an active one has a current revision. Every entry of the key index leads to
  a stored application with that key. Every stored revision, draft or published, belongs to a
  stored application, is valid, is stored under its own identifiers and number, and its number
  was allocated; a published one carries the digest of its own content. Every revision that an
  application selects as current or as canary is stored and published.
\<close>

theorem agent_repository_consistent:
  assumes "agent_reachable digest r"
  shows "(\<forall>scope a. get (ar_apps r) scope = Some a \<longrightarrow>
      scope = AppScope (app_TenantID a) (app_AppID a) \<and> app_Validate a = None
      \<and> get (ar_byKey r) (KeyScope (app_TenantID a) (app_AppKey a)) = Some (app_AppID a)
      \<and> (\<forall>b sc. get (ar_apps r) sc = Some b \<and> app_TenantID b = app_TenantID a \<and> app_AppKey b = app_AppKey a
           \<longrightarrow> sc = scope)
      \<and> (app_Status a = agent_StatusActive \<longrightarrow> app_CurrentRevision a \<noteq> None)
      \<and> (\<forall>n. app_CurrentRevision a = Some n \<or> app_CanaryRevision a = Some n \<longrightarrow>
           (\<exists>v. get (revisions_at r scope) n = Some v \<and> rev_State v = RevisionStatePublished)))
    \<and> (\<forall>tid k aid. get (ar_byKey r) (KeyScope tid k) = Some aid \<longrightarrow>
      (\<exists>a. get (ar_apps r) (AppScope tid aid) = Some a \<and> app_TenantID a = tid \<and> app_AppKey a = k))
    \<and> (\<forall>scope n v. get (revisions_at r scope) n = Some v \<longrightarrow>
      (\<exists>a. get (ar_apps r) scope = Some a)
      \<and> scope = AppScope (rev_TenantID v) (rev_AppID v) \<and> rev_Revision v = n \<and> rev_Validate digest v = None
      \<and> (\<exists>last. get (ar_next r) scope = Some last \<and> n \<le> last)
      \<and> (rev_State v = RevisionStatePublished \<longrightarrow> ComputeContentDigest digest v = Inr (rev_ContentDigest v)))"
proof (intro conjI allI impI)
  have ok: "apps_ok r" "keys_ok r" "revisions_ok digest r" "selected_ok r"
    using agent_reachable_ok [OF assms] by (auto simp: agent_repo_ok_def)
  {
    fix scope a assume "get (ar_apps r) scope = Some a"
    note a = apps_okD [OF ok(1) this] and sel = selected_okD [OF ok(4) this]
    show "scope = AppScope (app_TenantID a) (app_AppID a)" "app_Validate a = None"
      "get (ar_byKey r) (KeyScope (app_TenantID a) (app_AppKey a)) = Some (app_AppID a)" by fact+
    show "sc = scope" if "get (ar_apps r) sc = Some b \<and> app_TenantID b = app_TenantID a \<and> app_AppKey b = app_AppKey a" for b sc
      using apps_okD [OF ok(1) conjunct1 [OF that]] that a by simp
    show "app_CurrentRevision a \<noteq> None" if "app_Status a = agent_StatusActive"
      using a(2) that by (auto simp: app_Validate_iff app_lifecycle_ok_def agent_status_defs split: option.splits)
    show "\<exists>v. get (revisions_at r scope) n = Some v \<and> rev_State v = RevisionStatePublished"
      if "app_CurrentRevision a = Some n \<or> app_CanaryRevision a = Some n" for n
      using sel [of n] that by (auto simp: selects_def published_at_def)
  }
  show "\<exists>a. get (ar_apps r) (AppScope tid aid) = Some a \<and> app_TenantID a = tid \<and> app_AppKey a = k"
    if "get (ar_byKey r) (KeyScope tid k) = Some aid" for tid k aid
    using ok(2) that apps_okD(1) [OF ok(1)] unfolding keys_ok_def by (metis app_scope.inject)
  {
    fix scope n v assume "get (revisions_at r scope) n = Some v"
    then obtain m where m: "get (ar_revisions r) scope = Some m" "get m n = Some v" by (auto simp: revisions_at_Some)
    from revisions_okD(1) [OF ok(3) m(1)] show "\<exists>a. get (ar_apps r) scope = Some a" by auto
    note v = revisions_okD(2) [OF ok(3) m, unfolded revision_ok_def]
    then show "scope = AppScope (rev_TenantID v) (rev_AppID v)" "rev_Revision v = n" "rev_Validate digest v = None"
      by blast+
    from v have "1 \<le> n" by (auto simp: rev_Validate_def rev_validateIdentity_def)
    with v show "\<exists>last. get (ar_next r) scope = Some last \<and> n \<le> last" by (auto split: option.splits)
    show "ComputeContentDigest digest v = Inr (rev_ContentDigest v)" if "rev_State v = RevisionStatePublished"
      using v that by (auto simp: rev_Validate_published)
  }
qed

theorem agent_repository_consistent_witness:
  "get (ar_byKey demo_apps3) (KeyScope (app_TenantID demo_active) (app_AppKey demo_active)) = Some (app_AppID demo_active)
   \<and> (\<exists>v. get (revisions_at demo_apps3 demo_scope) 1 = Some v \<and> rev_State v = RevisionStatePublished)
   \<and> ComputeContentDigest demo_digest demo_published = Inr (rev_ContentDigest demo_published)"
proof -
  note ok = agent_repository_consistent [OF demo_repo3]
  have "app_CurrentRevision demo_active = Some 1" by (simp add: demo_active_def)
  with ok [THEN conjunct1, rule_format, OF demo_active_stored]
    ok [THEN conjunct2, THEN conjunct2, rule_format, OF demo_published_stored]
  show ?thesis by (simp add: demo_published_def)
qed

text \<open>
  No change of an application is lost. After a metadata update, a publication, a rollback, a
  canary change or a status transition that was computed from one version of an application,
  any of the five computed from the same version is refused and changes nothing, in every
  later state.
\<close>

theorem agent_no_lost_update:
  assumes "agent_reachable digest r" and "agent_applied digest r (AppScope tid aid) v r1"
    and "(agent_step digest)\<^sup>*\<^sup>* r1 r2" and "now \<noteq> 0"
  shows "(aum_TenantID um = tid \<and> aum_AppID um = aid \<and> aum_ExpectedVersion um = v
        \<longrightarrow> (\<exists>e. agent_UpdateMetadata look um now r2 = (Inl e, r2)))
    \<and> (api_TenantID pi = tid \<and> api_AppID pi = aid \<and> api_ExpectedAppVersion pi = v
        \<longrightarrow> (\<exists>e. agent_Publish digest look pi now r2 = (Inl e, r2)))
    \<and> (ari_TenantID ri = tid \<and> ari_AppID ri = aid \<and> ari_ExpectedAppVersion ri = v
        \<longrightarrow> (\<exists>e. agent_Rollback look ri now r2 = (Inl e, r2)))
    \<and> (asc_TenantID sc = tid \<and> asc_AppID sc = aid \<and> asc_ExpectedAppVersion sc = v
        \<longrightarrow> (\<exists>e. agent_SetCanary look sc now r2 = (Inl e, r2)))
    \<and> (ats_TenantID ts = tid \<and> ats_AppID ts = aid \<and> ats_ExpectedVersion ts = v
        \<longrightarrow> (\<exists>e. agent_TransitionStatus look ts now r2 = (Inl e, r2)))"
proof -
  have ok: "agent_repo_ok digest r" using assms(1) by (rule agent_reachable_ok)
  with assms(2) have applied: "agent_ok_applied digest r (AppScope tid aid) v r1"
    by (simp add: agent_ok_applied_def)
  from app_locking.applied_step [OF this] have "agent_repo_ok digest r1"
    by (auto simp: agent_ok_step_def intro: agent_step_ok)
  from agent_ok_star [OF assms(3) this]
  have star: "(agent_ok_step digest)\<^sup>*\<^sup>* r1 r2" and ok2: "agent_repo_ok digest r2" by simp_all
  have never: "\<not> agent_applied digest r2 (AppScope tid aid) v r3" for r3
    using app_locking.no_lost_update [OF applied star, of r3] ok2 by (simp add: agent_ok_applied_def)
  have "\<exists>e. agent_UpdateMetadata look um now r2 = (Inl e, r2)"
    if "aum_TenantID um = tid \<and> aum_AppID um = aid \<and> aum_ExpectedVersion um = v"
    by (rule keeps_refused [OF agent_ops_keep(2)]) (use never that in \<open>auto dest!: agent_applied.metadata [OF assms(4), where digest = digest]\<close>)
  moreover have "\<exists>e. agent_Publish digest look pi now r2 = (Inl e, r2)"
    if "api_TenantID pi = tid \<and> api_AppID pi = aid \<and> api_ExpectedAppVersion pi = v"
    by (rule keeps_refused [OF agent_ops_keep(5)]) (use never that in \<open>auto dest!: agent_applied.publish\<close>)
  moreover have "\<exists>e. agent_Rollback look ri now r2 = (Inl e, r2)"
    if "ari_TenantID ri = tid \<and> ari_AppID ri = aid \<and> ari_ExpectedAppVersion ri = v"
    by (rule keeps_refused [OF agent_ops_keep(6)]) (use never that in \<open>auto dest!: agent_applied.rollback [where digest = digest]\<close>)
  moreover have "\<exists>e. agent_SetCanary look sc now r2 = (Inl e, r2)"
    if "asc_TenantID sc = tid \<and> asc_AppID sc = aid \<and> asc_ExpectedAppVersion sc = v"
    by (rule keeps_refused [OF agent_ops_keep(7)]) (use never that in \<open>auto dest!: agent_applied.canary [where digest = digest]\<close>)
  moreover have "\<exists>e. agent_TransitionStatus look ts now r2 = (Inl e, r2)"
    if "ats_TenantID ts = tid \<and> ats_AppID ts = aid \<and> ats_ExpectedVersion ts = v"
    by (rule keeps_refused [OF agent_ops_keep(8)]) (use never that in \<open>auto dest!: agent_applied.transition [where digest = digest]\<close>)
  ultimately show ?thesis by blast
qed

theorem agent_no_lost_update_witness:
  "\<exists>e. agent_TransitionStatus background \<lparr>ats_TenantID = demo_tid, ats_AppID = demo_aid, ats_ExpectedVersion = 1,
      ats_NextStatus = agent_StatusSuspended, ats_Metadata = demo_change\<rparr> 4 demo_apps3 = (Inl e, demo_apps3)"
proof -
  have "agent_applied demo_digest demo_apps2 (AppScope demo_tid demo_aid) 1 demo_apps3"
    using demo_Publish agent_applied.publish [of demo_digest background demo_publish 3 demo_apps2 _ demo_apps3]
    by (auto simp: demo_publish_def)
  from agent_no_lost_update [OF demo_repo2(2) this rtranclp.rtrancl_refl, of 4 undefined background
      undefined undefined undefined "\<lparr>ats_TenantID = demo_tid, ats_AppID = demo_aid, ats_ExpectedVersion = 1,
      ats_NextStatus = agent_StatusSuspended, ats_Metadata = demo_change\<rparr>"]
  show ?thesis by simp
qed

text \<open>
  No edit of a draft is lost. After an edit that was computed from one version of a draft,
  every edit computed from the same version is refused and changes nothing, in every later
  state.
\<close>

theorem agent_no_lost_edit:
  assumes "agent_reachable digest r" and "agent_UpdateDraft digest look ud now now2 r = (Inr x, r1)" and "now \<noteq> 0"
    and "(agent_step digest)\<^sup>*\<^sup>* r1 r2" and "now' \<noteq> 0"
    and "aud_TenantID ud' = aud_TenantID ud" and "aud_AppID ud' = aud_AppID ud"
    and "aud_Revision ud' = aud_Revision ud" and "aud_ExpectedDraftVersion ud' = aud_ExpectedDraftVersion ud"
  shows "\<exists>e. agent_UpdateDraft digest look' ud' now' now2' r2 = (Inl e, r2)"
proof (rule keeps_refused [OF agent_ops_keep(4)])
  fix y r3
  let ?k = "(AppScope (aud_TenantID ud) (aud_AppID ud), aud_Revision ud)"
  have applied: "draft_applied digest r ?k (aud_ExpectedDraftVersion ud) r1"
    by (rule draft_appliedI [OF agent_reachable_ok [OF assms(1)] assms(3,2)])
  from draft_locking.applied_step [OF this] have "agent_repo_ok digest r1"
    by (auto simp: agent_ok_step_def intro: agent_step_ok)
  from agent_ok_star [OF assms(4) this]
  have star: "(agent_ok_step digest)\<^sup>*\<^sup>* r1 r2" and ok2: "agent_repo_ok digest r2" by simp_all
  show "agent_UpdateDraft digest look' ud' now' now2' r2 \<noteq> (Inr y, r3)"
  proof
    assume "agent_UpdateDraft digest look' ud' now' now2' r2 = (Inr y, r3)"
    from draft_appliedI [OF ok2 assms(5) this] assms(6-9)
    have "draft_applied digest r2 ?k (aud_ExpectedDraftVersion ud) r3" by simp
    with draft_locking.no_lost_update [OF applied star] show False by blast
  qed
qed

theorem agent_no_lost_edit_witness:
  "\<exists>x r1 e. agent_UpdateDraft demo_digest background (demo_edit ''yo'') 2 3 demo_apps2 = (Inr x, r1)
     \<and> agent_UpdateDraft demo_digest background (demo_edit ''hey'') 4 4 r1 = (Inl e, r1)"
proof -
  obtain x r1 where "agent_UpdateDraft demo_digest background (demo_edit ''yo'') 2 3 demo_apps2 = (Inr x, r1)"
    using demo_UpdateDraft by blast
  with agent_no_lost_edit [OF demo_repo2(2) this _ rtranclp.rtrancl_refl, of 4 "demo_edit ''hey''" background 4]
  show ?thesis by (simp add: demo_edit_def) 
qed

text \<open>
  C15: publishing works. On a reachable repository, let the application not be disabled, the
  revision be a draft whose content can be encoded, the description of the change be valid, the
  tenant be active, the context not be cancelled and the clock show a positive time. Then a call
  that names the current versions of the application and of the draft publishes the draft: the
  application serves exactly that revision, without a canary, and the stored revision carries
  the digest of its content.
\<close>

theorem agent_Publish_succeeds:
  assumes "agent_reachable digest r" and "get (ar_apps r) (AppScope tid aid) = Some a"
    and "app_Status a \<noteq> agent_StatusDisabled" and "get (revisions_at r (AppScope tid aid)) n = Some d"
    and "rev_State d = RevisionStateDraft" and "digest (rev_Kind d, rev_SchemaVersion d, rev_Configuration d) = Some hash"
    and "validateChange m = None" and "0 < clock"
  shows "\<exists>a' p ev r'. agent_Publish digest background \<lparr>api_TenantID = tid, api_AppID = aid, api_Revision = n,
        api_ExpectedAppVersion = app_Version a, api_ExpectedDraftVersion = rev_DraftVersion d,
        api_TenantActive = True, api_Metadata = m\<rparr> clock r = (Inr (a', p, ev), r')
      \<and> get (ar_apps r') (AppScope tid aid) = Some a' \<and> get (revisions_at r' (AppScope tid aid)) n = Some p
      \<and> app_CurrentRevision a' = Some n \<and> app_CanaryRevision a' = None \<and> app_Version a' = app_Version a + 1
      \<and> rev_State p = RevisionStatePublished \<and> rev_ContentDigest p = hash"
proof -
  let ?scope = "AppScope tid aid"
  define now where "now = nextTime (maxTime (app_UpdatedAt a) (rev_UpdatedAt d)) clock"
  define p where "p = d\<lparr>rev_State := RevisionStatePublished, rev_ContentDigest := hash,
      rev_PublishedAt := Some now, rev_UpdatedAt := now\<rparr>"
  define a' where "a' = a\<lparr>app_CurrentRevision := Some n, app_CanaryRevision := None,
      app_Status := (if app_Status a = agent_StatusDraft then agent_StatusActive else app_Status a),
      app_Version := app_Version a + 1, app_UpdatedAt := now\<rparr>"
  have now: "0 < now" "rev_UpdatedAt d \<le> now" "app_UpdatedAt a \<le> now"
    using assms(8) by (auto simp: now_def nextTime_def maxTime_def)
  have ok: "apps_ok r" "revisions_ok digest r"
    using agent_reachable_ok [OF assms(1)] by (auto simp: agent_repo_ok_def)
  note a = apps_okD [OF ok(1) assms(2)]
  obtain rs where rs: "get (ar_revisions r) ?scope = Some rs" "get rs n = Some d"
    using assms(4) by (auto simp: revisions_at_Some)
  have d: "content_ok d" "rev_Validate digest d = None" "1 \<le> n"
    using revisions_okD(2) [OF ok(2) rs]
    by (auto simp: revision_ok_def rev_Validate_def rev_validateIdentity_def)
  have p: "rev_Publish digest now d = Inr p"
    using rev_Publish_eq [of d digest now hash] d assms(5,6) now by (simp add: p_def)
  have a': "app_Validate a' = None"
    using a(2) d(3) now assms(3)
    by (auto simp: app_Validate_iff a'_def app_identity_ok_def app_lifecycle_ok_def split: option.splits)
  have scope: "app_TenantID a' = tid" "app_AppID a' = aid" using a(1) by (simp_all add: a'_def)
  define r' where "r' = (storeAppLocked a' r)\<lparr>ar_revisions := put ?scope (put n p rs) (ar_revisions r)\<rparr>"
  have "store_revision ?scope n p (storeAppLocked a' r) = Inr r'" using rs(1) by (simp add: r'_def)
  then have "\<exists>ev. agent_Publish digest background \<lparr>api_TenantID = tid, api_AppID = aid, api_Revision = n,
        api_ExpectedAppVersion = app_Version a, api_ExpectedDraftVersion = rev_DraftVersion d,
        api_TenantActive = True, api_Metadata = m\<rparr> clock r = (Inr (a', p, ev), r')"
    using assms(2-7) a' p unfolding agent_Publish_def now_def [symmetric]
    by (simp add: agent_checkContext_def mutableAppLocked_def revisionLocked_def agent_getLocked_def
        now_def [symmetric] a'_def [symmetric])
  moreover have "get (ar_apps r') ?scope = Some a'" "get (revisions_at r' ?scope) n = Some p"
    using scope by (simp_all add: r'_def revisions_at_def)
  moreover have "rev_State p = RevisionStatePublished" "rev_ContentDigest p = hash" by (simp_all add: p_def)
  ultimately show ?thesis by (auto simp: a'_def)
qed

theorem agent_Publish_succeeds_witness:
  "\<exists>a' p ev r'. agent_Publish demo_digest background demo_publish 3 demo_apps2 = (Inr (a', p, ev), r')
     \<and> app_CurrentRevision a' = Some 1 \<and> get (ar_apps r') demo_scope = Some a'"
proof -
  have "get (ar_apps demo_apps2) (AppScope demo_tid demo_aid) = Some demo_app"
    by (simp add: demo_apps2_def demo_apps1_def demo_scope_def)
  from agent_Publish_succeeds [OF demo_repo2(2) this _ demo_draft_stored [unfolded demo_scope_def], of "''d''"
      demo_change 3] demo_change_valid demo_status_neq
  show ?thesis
    by (simp add: demo_app_def demo_draft_def demo_digest_def demo_publish_def demo_scope_def) blast
qed

text \<open>
  C16: the content of a revision is canonical. Listing the authorized tools in another order gives
  the same revision, and so does building a revision from the configuration of an existing
  one, so that the content digest depends on the content only. The tools of a revision are
  sorted and each is listed once.
\<close>

theorem agent_content_canonical:
  assumes "NewRevision input now = Inr v" and "mset us = mset (dc_Tools (rci_Configuration input))"
  shows "NewRevision (input\<lparr>rci_Configuration := (rci_Configuration input)\<lparr>dc_Tools := us\<rparr>\<rparr>) now = Inr v
    \<and> NewRevision (input\<lparr>rci_Configuration := rev_Configuration v\<rparr>) now = Inr v
    \<and> sorted (map tool_ToolID (rev_Tools v)) \<and> distinct (map tool_ToolID (rev_Tools v))"
proof -
  obtain c where c: "normalizeDraftConfiguration (rci_Configuration input) = Inr c"
    using assms(1) by (auto simp: NewRevision_def Let_def)
  then have v: "rev_Configuration v = c"
    using assms(1) by (auto simp: NewRevision_def Let_def rev_Configuration_def)
  have "rev_Tools v = dc_Tools c" using v by (auto simp: rev_Configuration_def)
  with c have "normalizeTools (dc_Tools (rci_Configuration input)) = Inr (rev_Tools v)"
    by (auto simp: normalizeDraftConfiguration_def)
  then have "sorted (map tool_ToolID (rev_Tools v)) \<and> distinct (map tool_ToolID (rev_Tools v))"
    unfolding normalizeTools_iff by (metis sorted_sort_key)
  moreover have "NewRevision (input\<lparr>rci_Configuration := d\<rparr>) now = NewRevision input now"
    if "normalizeDraftConfiguration d = normalizeDraftConfiguration (rci_Configuration input)" for d
    using that by (simp add: NewRevision_def)
  ultimately show ?thesis
    using assms(1) c v normalizeDraftConfiguration_idem [OF c] normalizeDraftConfiguration_permuted [OF c assms(2)]
    by simp
qed

theorem agent_content_canonical_witness:
  "NewRevision (demo_tools [\<lparr>tool_ToolID = ''a'', tool_Required = False\<rparr>, \<lparr>tool_ToolID = ''b'', tool_Required = True\<rparr>]) 2
   = NewRevision (demo_tools [\<lparr>tool_ToolID = ''b'', tool_Required = True\<rparr>, \<lparr>tool_ToolID = ''a'', tool_Required = False\<rparr>]) 2"
proof -
  let ?a = "\<lparr>tool_ToolID = ''a'', tool_Required = False\<rparr>" and ?b = "\<lparr>tool_ToolID = ''b'', tool_Required = True\<rparr>"
  obtain v where v: "NewRevision (demo_tools [?a, ?b]) 2 = Inr v" using demo_tools_ok by blast
  from agent_content_canonical [OF this, of "[?b, ?a]"]
  have "NewRevision (demo_tools [?b, ?a]) 2 = Inr v" by (simp add: demo_tools_def add_mset_commute)
  with v show ?thesis by simp
qed

end
