(* ===== verification/Agent_Runtime.thy ===== *)
theory Agent_Runtime
  imports Tenant_Repo Agent_Locking
begin

text \<open>
  The sealed input of one execution, \<^verbatim>\<open>agent/runtime.go\<close>: a tenant, an application and one of its
  selected revisions, checked against each other, with the cache key and the construction
  input derived from them. The properties compose the two repositories: what they hold can be
  executed, and equal cache keys mean equal construction inputs.

  The defensive copies of the code are the values themselves. A context carries at most one
  snapshot under the package's own key.
\<close>

subsection \<open>Snapshots\<close>

record execution_snapshot =
  xs_tenant :: "tenant option"
  xs_app :: "app option"
  xs_revision :: "revision option"

record factory_cache_key =
  fck_TenantID :: string
  fck_TenantVersion :: int
  fck_AppID :: string
  fck_AppVersion :: int
  fck_Revision :: int
  fck_ContentDigest :: string

record factory_input =
  fin_TenantID :: string
  fin_TenantVersion :: int
  fin_AppID :: string
  fin_AppKey :: string
  fin_AppVersion :: int
  fin_DisplayName :: string
  fin_Name :: string
  fin_Description :: string
  fin_Revision :: int
  fin_ContentDigest :: string
  fin_Kind :: string
  fin_SchemaVersion :: int
  fin_Instruction :: string
  fin_GlobalInstruction :: string
  fin_ModelProfileID :: string
  fin_Generation :: generation_config
  fin_Runtime :: runtime_policy
  fin_Tools :: "tool_authorization list"

definition zeroTenant :: tenant where
  "zeroTenant = \<lparr>tnt_TenantID = [], tnt_TenantKey = [], tnt_DisplayName = [], tnt_Status = [],
     tnt_RateLimitRPM = None, tnt_MaxConcurrentExecutions = None, tnt_MonthlyTokenBudget = None,
     tnt_MonthlySpendLimitMinor = None, tnt_BillingCurrency = [], tnt_AuditRetentionDays = 0,
     tnt_LogMaskingLevel = [], tnt_TraceSamplingRate = float_of_int 0, tnt_DefaultAgentAppID = None,
     tnt_DefaultBackendProfileID = None, tnt_Version = 0, tnt_CreatedAt = 0, tnt_UpdatedAt = 0\<rparr>"

definition snapshot_Tenant :: "tenant_snapshot \<Rightarrow> tenant" where
  "snapshot_Tenant s = (case s of None \<Rightarrow> zeroTenant | Some t \<Rightarrow> t)"

definition emptySnapshot :: execution_snapshot where
  "emptySnapshot = \<lparr>xs_tenant = None, xs_app = None, xs_revision = None\<rparr>"

definition validateExecutionState ::
  "digest_fun \<Rightarrow> tenant \<Rightarrow> app option \<Rightarrow> revision option \<Rightarrow> agent_error + unit" where
  "validateExecutionState digest t app revision =
     ensure (first_error
       [fails (tenant_Validate t \<noteq> None) AErrInvalid,
        fails (\<not> CanAcceptExecution t) AErrInvalid])
     (require app AErrInvalid (\<lambda>a.
      ensure (first_error
        [fails (app_Validate a \<noteq> None) AErrInvalid,
         fails (\<not> app_CanAcceptExecution a) AErrInvalid])
      (require revision AErrInvalid (\<lambda>v.
       ensure (first_error
         [fails (rev_Validate digest v \<noteq> None) AErrInvalid,
          fails (rev_State v \<noteq> RevisionStatePublished) AErrInvalid,
          fails (tnt_TenantID t \<noteq> app_TenantID a \<or> tnt_TenantID t \<noteq> rev_TenantID v
                 \<or> app_AppID a \<noteq> rev_AppID v) AErrInvalid,
          fails (app_CurrentRevision a = None
                 \<or> app_CurrentRevision a \<noteq> Some (rev_Revision v)
                    \<and> app_CanaryRevision a \<noteq> Some (rev_Revision v)) AErrInvalid])
       (Inr ())))))"

definition NewAgentExecutionSnapshot ::
  "digest_fun \<Rightarrow> tenant_snapshot \<Rightarrow> app option \<Rightarrow> revision option \<Rightarrow> agent_error + execution_snapshot" where
  "NewAgentExecutionSnapshot digest tenantSnapshot app revision =
     andthen (validateExecutionState digest (snapshot_Tenant tenantSnapshot) app revision) (\<lambda>_.
     Inr \<lparr>xs_tenant = Some (snapshot_Tenant tenantSnapshot), xs_app = app, xs_revision = revision\<rparr>)"

definition xs_validate :: "digest_fun \<Rightarrow> execution_snapshot \<Rightarrow> agent_error + unit" where
  "xs_validate digest s =
     ensure (fails (xs_tenant s = None \<or> xs_app s = None \<or> xs_revision s = None) AErrInvalid)
     (validateExecutionState digest (the (xs_tenant s)) (xs_app s) (xs_revision s))"

definition xs_CacheKey :: "digest_fun \<Rightarrow> execution_snapshot \<Rightarrow> agent_error + factory_cache_key" where
  "xs_CacheKey digest s =
     andthen (xs_validate digest s) (\<lambda>_.
     require (xs_tenant s) AErrPanic (\<lambda>t.
     require (xs_app s) AErrPanic (\<lambda>a.
     require (xs_revision s) AErrPanic (\<lambda>v.
     Inr \<lparr>fck_TenantID = tnt_TenantID t, fck_TenantVersion = tnt_Version t, fck_AppID = app_AppID a,
          fck_AppVersion = app_Version a, fck_Revision = rev_Revision v,
          fck_ContentDigest = rev_ContentDigest v\<rparr>))))"

definition xs_FactoryInput :: "digest_fun \<Rightarrow> execution_snapshot \<Rightarrow> agent_error + factory_input" where
  "xs_FactoryInput digest s =
     andthen (xs_validate digest s) (\<lambda>_.
     require (xs_tenant s) AErrPanic (\<lambda>t.
     require (xs_app s) AErrPanic (\<lambda>a.
     require (xs_revision s) AErrPanic (\<lambda>v.
     Inr \<lparr>fin_TenantID = tnt_TenantID t, fin_TenantVersion = tnt_Version t, fin_AppID = app_AppID a,
          fin_AppKey = app_AppKey a, fin_AppVersion = app_Version a, fin_DisplayName = app_DisplayName a,
          fin_Name = app_AppKey a, fin_Description = rev_Description v, fin_Revision = rev_Revision v,
          fin_ContentDigest = rev_ContentDigest v, fin_Kind = rev_Kind v,
          fin_SchemaVersion = rev_SchemaVersion v, fin_Instruction = rev_Instruction v,
          fin_GlobalInstruction = rev_GlobalInstruction v, fin_ModelProfileID = rev_ModelProfileID v,
          fin_Generation = rev_Generation v, fin_Runtime = rev_Runtime v, fin_Tools = rev_Tools v\<rparr>))))"

definition WithAgentExecutionSnapshot ::
  "digest_fun \<Rightarrow> execution_snapshot option \<Rightarrow> execution_snapshot \<Rightarrow> execution_snapshot option" where
  "WithAgentExecutionSnapshot digest carried s =
     (case xs_validate digest s of Inl _ \<Rightarrow> Some emptySnapshot | Inr _ \<Rightarrow> Some s)"

definition AgentExecutionSnapshotFromContext ::
  "digest_fun \<Rightarrow> execution_snapshot option \<Rightarrow> execution_snapshot \<times> bool" where
  "AgentExecutionSnapshotFromContext digest carried =
     (case carried of
        None \<Rightarrow> (emptySnapshot, False)
      | Some s \<Rightarrow> (case xs_validate digest s of Inl _ \<Rightarrow> (emptySnapshot, False) | Inr _ \<Rightarrow> (s, True)))"

subsection \<open>The check of a snapshot\<close>

lemma validateExecutionState_Inr:
  "validateExecutionState digest t app revision = Inr u \<longleftrightarrow>
     tenant_Validate t = None \<and> CanAcceptExecution t
     \<and> (\<exists>a v. app = Some a \<and> revision = Some v \<and> app_Validate a = None \<and> app_Status a = agent_StatusActive
         \<and> rev_Validate digest v = None \<and> rev_State v = RevisionStatePublished
         \<and> app_TenantID a = tnt_TenantID t \<and> rev_TenantID v = tnt_TenantID t \<and> rev_AppID v = app_AppID a
         \<and> selects a (rev_Revision v))"
proof -
  have "app_CurrentRevision a \<noteq> None" if "app_Validate a = None" "app_Status a = agent_StatusActive" for a
    using that by (auto simp: app_Validate_iff app_lifecycle_ok_def agent_status_defs split: option.splits)
  then show ?thesis
    by (auto simp: validateExecutionState_def app_CanAcceptExecution_iff selects_def)
qed

lemma xs_validate_Inr:
  "xs_validate digest s = Inr u \<longleftrightarrow>
     (\<exists>t. xs_tenant s = Some t \<and> validateExecutionState digest t (xs_app s) (xs_revision s) = Inr u)"
  by (auto simp: xs_validate_def validateExecutionState_Inr)

lemma NewAgentExecutionSnapshot_validate:
  "NewAgentExecutionSnapshot digest ts app revision = Inr s \<Longrightarrow> xs_validate digest s = Inr ()"
  by (auto simp: NewAgentExecutionSnapshot_def xs_validate_Inr)

subsection \<open>Versions identify states of an application\<close>

lemma agent_step_same_version:
  assumes "agent_step digest r r'" and ok: "agent_repo_ok digest r" and a: "get (ar_apps r) scope = Some a"
  shows "\<exists>b. get (ar_apps r') scope = Some b \<and> (b = a \<or> app_Version a < app_Version b)"
proof -
  have apps: "apps_ok r" using ok by (simp add: agent_repo_ok_def)
  from assms(1) show ?thesis
  proof (cases rule: agent_step_cases)
    case (created ci ms random now b)
    with a show ?thesis by auto
  next
    case (moved tid aid v a')
    from root_moved_app [OF this apps] a show ?thesis by (auto simp: app_moved_def)
  next
    case (published sc v n a' p)
    from root_published_app [OF this apps] a show ?thesis by (auto simp: app_moved_def)
  qed (use a in auto)
qed

lemma agent_star_same_version:
  assumes "(agent_step digest)\<^sup>*\<^sup>* r r'" and ok: "agent_repo_ok digest r" and a: "get (ar_apps r) scope = Some a"
  shows "\<exists>b. get (ar_apps r') scope = Some b \<and> (b = a \<or> app_Version a < app_Version b)"
  using assms(1)
proof (induction rule: rtranclp_induct)
  case base
  with a show ?case by simp
next
  case (step y z)
  then obtain b where b: "get (ar_apps y) scope = Some b" "b = a \<or> app_Version a < app_Version b" by blast
  have "agent_repo_ok digest y" using agent_ok_star [OF step(1) ok] by simp
  from agent_step_same_version [OF step(2) this b(1)] b(2) show ?case by fastforce
qed

lemma NewTenant_id:
  "NewTenant input ms (Some bytes) now = Inr t
   \<Longrightarrow> tnt_TenantID t = ''t_'' @ ulid ms bytes \<and> tnt_UpdatedAt t = now"
  by (auto simp: NewTenant_def Let_def newTenantID_def)

lemma demo_tenant_id: "tnt_TenantID demo_tenant = demo_tid"
  using NewTenant_id [OF demo_NewTenant] by (simp add: demo_tid_def demo_bytes_def)

lemma demo_valid_state: "validateExecutionState demo_digest demo_tenant (Some demo_active) (Some demo_published) = Inr ()"
proof -
  have ok: "apps_ok demo_apps3" "revisions_ok demo_digest demo_apps3"
    using agent_reachable_ok [OF demo_repo3] by (auto simp: agent_repo_ok_def)
  have "revision_ok demo_digest demo_apps3 demo_scope 1 demo_published"
    using revisions_okD(2) [OF ok(2)] demo_published_stored by (auto simp: revisions_at_Some)
  moreover have "tenant_Validate demo_tenant = None"
    using tenant_repo_okD(2) [OF tenant_reachable_ok [OF demo_tenants_reachable] demo_stored] .
  ultimately show ?thesis
    using demo_active_valid demo_tenant_id demo_tenant_fields(1)
    by (simp add: validateExecutionState_Inr CanAcceptExecution_def revision_ok_def selects_def demo_scope_def)
       (simp add: demo_active_def demo_app_def demo_published_def)
qed

subsection \<open>Properties\<close>

text \<open>
  C17: what the repositories hold can be executed. For an active tenant of a reachable tenant
  repository and an active application of it in a reachable application repository, each
  revision that the application selects is stored, and the three make a snapshot. Its
  construction input carries the content of exactly that revision and the digest of that
  content, and the snapshot survives being carried by a context.
\<close>

theorem agent_snapshot_available:
  assumes "tenant_reachable tr" and "get (tr_byID tr) (tnt_TenantID t) = Some t"
    and "tnt_Status t = tenant_StatusActive"
    and "agent_reachable digest r" and "get (ar_apps r) (AppScope (tnt_TenantID t) aid) = Some a"
    and "app_Status a = agent_StatusActive"
    and "app_CurrentRevision a = Some n \<or> app_CanaryRevision a = Some n"
  shows "\<exists>ts v s. NewConfigurationSnapshot (Some t) = Inr ts
    \<and> agent_GetRevision background (tnt_TenantID t) aid n r = Inr v
    \<and> NewAgentExecutionSnapshot digest ts (Some a) (Some v) = Inr s
    \<and> (\<exists>f. xs_FactoryInput digest s = Inr f \<and> fin_Instruction f = rev_Instruction v
         \<and> fin_Tools f = rev_Tools v \<and> fin_AppKey f = app_AppKey a
         \<and> ComputeContentDigest digest v = Inr (fin_ContentDigest f))
    \<and> AgentExecutionSnapshotFromContext digest (WithAgentExecutionSnapshot digest carried s) = (s, True)"
proof -
  have t: "tenant_Validate t = None"
    using tenant_repo_okD(2) [OF tenant_reachable_ok [OF assms(1)] assms(2)] .
  have ok: "apps_ok r" "revisions_ok digest r" "selected_ok r"
    using agent_reachable_ok [OF assms(4)] by (auto simp: agent_repo_ok_def)
  note a = apps_okD [OF ok(1) assms(5)]
  have sel: "selects a n" using assms(7) by (simp add: selects_def)
  from selected_okD [OF ok(3) assms(5) this]
  obtain v where v: "get (revisions_at r (AppScope (tnt_TenantID t) aid)) n = Some v"
    "rev_State v = RevisionStatePublished"
    by (auto simp: published_at_def)
  then have rok: "revision_ok digest r (AppScope (tnt_TenantID t) aid) n v"
    using revisions_okD(2) [OF ok(2)] by (auto simp: revisions_at_Some)
  define s where "s = \<lparr>xs_tenant = Some t, xs_app = Some a, xs_revision = Some v\<rparr>"
  have valid: "validateExecutionState digest t (Some a) (Some v) = Inr ()"
    using t a(1,2) v(2) rok sel assms(3,6)
    by (simp add: validateExecutionState_Inr CanAcceptExecution_def revision_ok_def)
  then have xs: "xs_validate digest s = Inr ()" by (simp add: xs_validate_Inr s_def)
  have "NewConfigurationSnapshot (Some t) = Inr (Some t)"
    using t assms(3) by (simp add: NewConfigurationSnapshot_def CanAcceptExecution_def)
  moreover have "agent_GetRevision background (tnt_TenantID t) aid n r = Inr v"
    using v(1) assms(5) by (simp add: agent_GetRevision_def agent_enter_def agent_checkContext_def)
  moreover have "NewAgentExecutionSnapshot digest (Some t) (Some a) (Some v) = Inr s"
    using valid by (simp add: NewAgentExecutionSnapshot_def snapshot_Tenant_def s_def)
  moreover have "ComputeContentDigest digest v = Inr (rev_ContentDigest v)"
    using rok v(2) by (intro rev_Validate_published) (simp_all add: revision_ok_def)
  moreover have "AgentExecutionSnapshotFromContext digest (WithAgentExecutionSnapshot digest carried s) = (s, True)"
    using xs by (simp add: AgentExecutionSnapshotFromContext_def WithAgentExecutionSnapshot_def)
  ultimately show ?thesis using xs by (auto simp: xs_FactoryInput_def s_def)
qed

theorem agent_snapshot_available_witness:
  "\<exists>s. NewAgentExecutionSnapshot demo_digest (Some demo_tenant) (Some demo_active) (Some demo_published) = Inr s"
proof -
  note tid = demo_tenant_id
  have "get (ar_apps demo_apps3) (AppScope (tnt_TenantID demo_tenant) demo_aid) = Some demo_active"
    using demo_active_stored by (simp add: demo_scope_def tid)
  moreover have "agent_GetRevision background demo_tid demo_aid 1 demo_apps3 = Inr demo_published"
    using demo_published_stored demo_active_stored
    by (simp add: agent_GetRevision_def agent_enter_def agent_checkContext_def demo_scope_def)
  moreover have "NewConfigurationSnapshot (Some demo_tenant) = Inr ts \<Longrightarrow> ts = Some demo_tenant" for ts
    by (simp add: NewConfigurationSnapshot_def)
  ultimately show ?thesis
    using agent_snapshot_available [OF demo_tenants_reachable demo_stored demo_tenant_fields(1) demo_repo3,
        of demo_aid demo_active 1] tid
    by (fastforce simp: demo_active_def)
qed

text \<open>
  C18: the cache key is enough. Take two snapshots of one application at different times, each
  with a revision that the repository held at that time. If their cache keys are equal, their
  construction inputs are equal, whatever happened to the repository in between.
\<close>

theorem agent_cache_key_sound:
  assumes "agent_reachable digest r" and "(agent_step digest)\<^sup>*\<^sup>* r r'"
    and "get (ar_apps r) (AppScope tid aid) = Some a" and "get (revisions_at r (AppScope tid aid)) n = Some v"
    and "get (ar_apps r') (AppScope tid aid) = Some a'" and "get (revisions_at r' (AppScope tid aid)) n' = Some v'"
    and "NewAgentExecutionSnapshot digest ts (Some a) (Some v) = Inr s"
    and "NewAgentExecutionSnapshot digest ts' (Some a') (Some v') = Inr s'"
    and "xs_CacheKey digest s = xs_CacheKey digest s'"
  shows "xs_FactoryInput digest s = xs_FactoryInput digest s'"
proof -
  have ok: "agent_repo_ok digest r" using assms(1) by (rule agent_reachable_ok)
  have ok': "agent_repo_ok digest r'" using agent_reachable_ok [OF agent_reachable_star [OF assms(2,1)]] .
  have s: "s = \<lparr>xs_tenant = Some (snapshot_Tenant ts), xs_app = Some a, xs_revision = Some v\<rparr>"
    "s' = \<lparr>xs_tenant = Some (snapshot_Tenant ts'), xs_app = Some a', xs_revision = Some v'\<rparr>"
    using assms(7,8) by (auto simp: NewAgentExecutionSnapshot_def)
  have valid: "xs_validate digest s = Inr ()" "xs_validate digest s' = Inr ()"
    using assms(7,8) NewAgentExecutionSnapshot_validate by blast+
  then have pub: "rev_State v = RevisionStatePublished"
    by (auto simp: s xs_validate_Inr validateExecutionState_Inr)
  have same: "app_Version a = app_Version a'" "rev_Revision v = rev_Revision v'"
    "tnt_TenantID (snapshot_Tenant ts) = tnt_TenantID (snapshot_Tenant ts')"
    "tnt_Version (snapshot_Tenant ts) = tnt_Version (snapshot_Tenant ts')"
    using assms(9) valid by (simp_all add: xs_CacheKey_def) (simp_all add: s)
  have "a' = a" using agent_star_same_version [OF assms(2) ok assms(3)] assms(5) same(1) by auto
  moreover have "rev_Revision v = n" "rev_Revision v' = n'"
    using ok ok' assms(4,6) revisions_okD(2)
    by (auto simp: agent_repo_ok_def revisions_at_Some revision_ok_def)
  then have "v' = v" using agent_published_star [OF assms(2,1,4) pub] same(2) assms(6) by simp
  ultimately show ?thesis using valid same(3,4) by (simp add: xs_FactoryInput_def s)
qed

theorem agent_cache_key_sound_witness:
  "\<exists>s s'. NewAgentExecutionSnapshot demo_digest (Some demo_tenant) (Some demo_active) (Some demo_published) = Inr s
     \<and> NewAgentExecutionSnapshot demo_digest (Some (demo_tenant\<lparr>tnt_UpdatedAt := 7\<rparr>)) (Some demo_active)
          (Some demo_published) = Inr s'
     \<and> s \<noteq> s' \<and> xs_FactoryInput demo_digest s = xs_FactoryInput demo_digest s'"
proof -
  let ?t = "demo_tenant\<lparr>tnt_UpdatedAt := 7\<rparr>"
  have "tenant_Validate ?t = None"
    using demo_valid_state
    by (simp add: validateExecutionState_Inr tenant_Validate_iff)
  then have valid': "validateExecutionState demo_digest ?t (Some demo_active) (Some demo_published) = Inr ()"
    using demo_valid_state by (simp add: validateExecutionState_Inr CanAcceptExecution_def)
  define s where "s = \<lparr>xs_tenant = Some demo_tenant, xs_app = Some demo_active, xs_revision = Some demo_published\<rparr>"
  define s' where "s' = s\<lparr>xs_tenant := Some ?t\<rparr>"
  have new: "NewAgentExecutionSnapshot demo_digest (Some demo_tenant) (Some demo_active) (Some demo_published) = Inr s"
    "NewAgentExecutionSnapshot demo_digest (Some ?t) (Some demo_active) (Some demo_published) = Inr s'"
    using demo_valid_state valid'
    by (simp_all add: NewAgentExecutionSnapshot_def snapshot_Tenant_def s_def s'_def)
  have "xs_CacheKey demo_digest s = xs_CacheKey demo_digest s'"
    using demo_valid_state valid' by (simp add: xs_CacheKey_def xs_validate_def s_def s'_def)
  note agent_cache_key_sound [OF demo_repo3 rtranclp.rtrancl_refl demo_active_stored [unfolded demo_scope_def]
      demo_published_stored [unfolded demo_scope_def] demo_active_stored [unfolded demo_scope_def]
      demo_published_stored [unfolded demo_scope_def] new this]
  moreover have "tnt_UpdatedAt demo_tenant \<noteq> 7" using NewTenant_id [OF demo_NewTenant] by simp
  then have "demo_tenant \<noteq> ?t" by (metis tenant.select_convs(17) tenant.surjective tenant.update_convs(17))
  then have "s \<noteq> s'" by (simp add: s_def s'_def)
  ultimately show ?thesis using new by blast
qed

end
