(* ===== verification/Runtime_Types.thy ===== *)
theory Runtime_Types
  imports Ident
begin

text \<open>
  The persistence contract of \<^verbatim>\<open>runtime/storage/storage.go\<close>: the records of sessions, inbound
  messages, histories and replies, the checks of their fields and the two lifecycles.

  The JSON object that a session carries (\<^verbatim>\<open>map[string]any\<close>) is a value of a type variable; the
  store only copies it, through the JSON encoder. A nil map is \<open>None\<close>.
\<close>

subsection \<open>Errors and lifecycle states\<close>

datatype rs_error =
    RErrNotFound
  | RErrDuplicate
  | RErrConflict
  | RErrInvalid
  | RErrIllegalTransition
  | RErrStorage
  | RErrCtx ctx_error

definition SessionActive :: string where "SessionActive = ''active''"

definition SessionClosed :: string where "SessionClosed = ''closed''"

definition EventReceived :: string where "EventReceived = ''received''"

definition EventRunning :: string where "EventRunning = ''running''"

definition EventCompleted :: string where "EventCompleted = ''completed''"

definition EventExecutionReconciling :: string where "EventExecutionReconciling = ''execution_reconciling''"

definition EventReplyPending :: string where "EventReplyPending = ''reply_pending''"

definition EventReplied :: string where "EventReplied = ''replied''"

definition EventFailed :: string where "EventFailed = ''failed''"

definition ReplyPending :: string where "ReplyPending = ''pending''"

definition ReplySending :: string where "ReplySending = ''sending''"

definition ReplySent :: string where "ReplySent = ''sent''"

definition ReplyRetryable :: string where "ReplyRetryable = ''retryable''"

definition ReplyDeadLetter :: string where "ReplyDeadLetter = ''dead_letter''"

lemmas event_status_defs =
  EventReceived_def EventRunning_def EventCompleted_def EventExecutionReconciling_def
  EventReplyPending_def EventReplied_def EventFailed_def

lemmas reply_status_defs =
  ReplyPending_def ReplySending_def ReplySent_def ReplyRetryable_def ReplyDeadLetter_def

subsection \<open>Records\<close>

record reply_target =
  rt_BindingID :: string
  rt_ConversationKind :: string
  rt_ReceiverID :: string
  rt_ThreadID :: string

definition zeroReplyTarget :: reply_target where
  "zeroReplyTarget = \<lparr>rt_BindingID = [], rt_ConversationKind = [], rt_ReceiverID = [], rt_ThreadID = []\<rparr>"

record 'st session =
  ses_TenantID :: string
  ses_SessionID :: string
  ses_Status :: string
  ses_Version :: int
  ses_State :: "'st option"
  ses_CreatedAt :: instant
  ses_UpdatedAt :: instant

record message_event =
  ev_TenantID :: string
  ev_EventID :: string
  ev_SessionID :: string
  ev_BindingID :: string
  ev_ExternalMessageID :: string
  ev_IdempotencyKey :: string
  ev_EventSeq :: int
  ev_Status :: string
  ev_FencingToken :: int
  ev_LeaseOwner :: string
  ev_LeaseExpiresAt :: "instant option"
  ev_ReplyID :: string
  ev_SegmentCount :: int
  ev_ReplyTarget :: reply_target
  ev_CreatedAt :: instant
  ev_UpdatedAt :: instant

definition zeroMessageEvent :: message_event where
  "zeroMessageEvent = \<lparr>ev_TenantID = [], ev_EventID = [], ev_SessionID = [], ev_BindingID = [],
     ev_ExternalMessageID = [], ev_IdempotencyKey = [], ev_EventSeq = 0, ev_Status = [], ev_FencingToken = 0,
     ev_LeaseOwner = [], ev_LeaseExpiresAt = None, ev_ReplyID = [], ev_SegmentCount = 0,
     ev_ReplyTarget = zeroReplyTarget, ev_CreatedAt = 0, ev_UpdatedAt = 0\<rparr>"

record message_event_input =
  mi_TenantID :: string
  mi_EventID :: string
  mi_SessionID :: string
  mi_BindingID :: string
  mi_ExternalMessageID :: string
  mi_IdempotencyKey :: string
  mi_ReplyTarget :: reply_target

record event_payload =
  ep_TenantID :: string
  ep_SessionID :: string
  ep_EventID :: string
  ep_Payload :: string
  ep_HistorySeq :: int
  ep_CreatedAt :: instant

record message_transition =
  mt_TenantID :: string
  mt_EventID :: string
  mt_From :: string
  mt_To :: string
  mt_Owner :: string
  mt_FencingToken :: int
  mt_LeaseDuration :: duration
  mt_ReplyID :: string
  mt_SegmentCount :: int

record reply_outbox =
  rp_TenantID :: string
  rp_ReplyID :: string
  rp_EventID :: string
  rp_SegmentIndex :: int
  rp_SegmentCount :: int
  rp_Payload :: string
  rp_ReplyTarget :: reply_target
  rp_Status :: string
  rp_Attempts :: int
  rp_FencingToken :: int
  rp_LeaseOwner :: string
  rp_LeaseExpiresAt :: "instant option"
  rp_ProviderMessageID :: string
  rp_LastErrorClass :: string
  rp_CreatedAt :: instant
  rp_UpdatedAt :: instant

record reply_correlation =
  rc_TenantID :: string
  rc_EventID :: string
  rc_RequestID :: string
  rc_TraceID :: string
  rc_TraceParent :: string

definition zeroReplyCorrelation :: reply_correlation where
  "zeroReplyCorrelation = \<lparr>rc_TenantID = [], rc_EventID = [], rc_RequestID = [], rc_TraceID = [],
     rc_TraceParent = []\<rparr>"

record reply_transition =
  rx_TenantID :: string
  rx_ReplyID :: string
  rx_SegmentIndex :: int
  rx_From :: string
  rx_To :: string
  rx_Owner :: string
  rx_FencingToken :: int
  rx_LeaseDuration :: duration
  rx_ErrorClass :: string
  rx_ProviderID :: string

subsection \<open>Capability records\<close>

text \<open>The records of \<^verbatim>\<open>runtime/storage/capabilities.go\<close>.\<close>

record 'st memory_record =
  mem_TenantID :: string
  mem_MemoryID :: string
  mem_UserID :: string
  mem_SessionID :: string
  mem_Content :: string
  mem_Topics :: "string list"
  mem_Metadata :: "'st option"
  mem_Embedding :: "float64 list"
  mem_Version :: int
  mem_DeletedAt :: "instant option"
  mem_CreatedAt :: instant
  mem_UpdatedAt :: instant

record 'st memory_input =
  mmi_TenantID :: string
  mmi_MemoryID :: string
  mmi_UserID :: string
  mmi_SessionID :: string
  mmi_Content :: string
  mmi_Topics :: "string list"
  mmi_Metadata :: "'st option"
  mmi_Embedding :: "float64 list"

record summary_record =
  sum_TenantID :: string
  sum_SessionID :: string
  sum_FilterKey :: string
  sum_Text :: string
  sum_EventSeq :: int
  sum_Version :: int
  sum_CreatedAt :: instant
  sum_UpdatedAt :: instant

record 'st knowledge_document =
  kd_TenantID :: string
  kd_DocumentID :: string
  kd_Content :: string
  kd_Metadata :: "'st option"
  kd_Embedding :: "float64 list"
  kd_Version :: int
  kd_Digest :: string
  kd_CreatedAt :: instant
  kd_UpdatedAt :: instant

record artifact_record =
  art_TenantID :: string
  art_ArtifactID :: string
  art_SessionID :: string
  art_Name :: string
  art_MimeType :: string
  art_Content :: string
  art_Version :: int
  art_CreatedAt :: instant
  art_UpdatedAt :: instant

record 'st audit_record =
  aurec_TenantID :: string
  aurec_AuditID :: string
  aurec_EventType :: string
  aurec_Payload :: "'st option"
  aurec_OccurredAt :: instant

definition VectorSourceGeneric :: string where "VectorSourceGeneric = ''generic''"

definition VectorSourceMemory :: string where "VectorSourceMemory = ''memory''"

definition VectorSourceKnowledge :: string where "VectorSourceKnowledge = ''knowledge''"

record 'st vector_record =
  vec_TenantID :: string
  vec_Source :: string
  vec_DocumentID :: string
  vec_Content :: string
  vec_Metadata :: "'st option"
  vec_Embedding :: "float64 list"
  vec_Version :: int
  vec_UpdatedAt :: instant

record object_info =
  obj_TenantID :: string
  obj_ObjectKey :: string
  obj_ContentType :: string
  obj_Size :: int
  obj_ETag :: string
  obj_CreatedAt :: instant

subsection \<open>Checks\<close>

definition ValidateText :: "string \<Rightarrow> nat \<Rightarrow> bool \<Rightarrow> bool" where
  "ValidateText v limit requireNonEmpty =
     (if trim_space v = [] then \<not> requireNonEmpty \<and> v = []
      else limit \<le> 0 \<or> length (runes v) \<le> limit)"

definition ValidateEmbedding :: "float64 list \<Rightarrow> bool" where
  "ValidateEmbedding vs = list_all (\<lambda>v. v \<noteq> Float_NaN \<and> \<not> float_IsInf v) vs"

definition ValidateTenant :: "string \<Rightarrow> rs_error option" where
  "ValidateTenant tenantID = fails (tenantID = []) RErrInvalid"

definition ValidateSession :: "string \<Rightarrow> string \<Rightarrow> rs_error option" where
  "ValidateSession tenantID sessionID =
     fails (ValidateTenant tenantID \<noteq> None \<or> sessionID = []) RErrInvalid"

definition maxReplyTargetIDRunes :: nat where "maxReplyTargetIDRunes = 1024"

definition validReplyTargetID :: "string \<Rightarrow> bool" where
  "validReplyTargetID v \<longleftrightarrow>
     \<not> (trim_space v = [] \<or> length (runes v) > maxReplyTargetIDRunes)
     \<and> list_all (\<lambda>character. \<not> (character < 0x20 \<or> character = 0x7f)) (runes v)"

definition ValidateReplyTarget :: "reply_target \<Rightarrow> rs_error option" where
  "ValidateReplyTarget target =
     (if target = zeroReplyTarget then None
      else first_error
        [fails (\<not> validReplyTargetID (rt_BindingID target) \<or> \<not> validReplyTargetID (rt_ReceiverID target))
           RErrInvalid,
         fails (rt_ConversationKind target \<noteq> ''direct'' \<and> rt_ConversationKind target \<noteq> ''group'') RErrInvalid,
         fails (rt_ThreadID target \<noteq> [] \<and> \<not> validReplyTargetID (rt_ThreadID target)) RErrInvalid])"

definition ValidateTransition :: "string \<Rightarrow> string \<Rightarrow> bool" where
  "ValidateTransition source target =
     (if source = ReplyPending then target = ReplySending \<or> target = ReplyRetryable
      else if source = ReplySending then
        target = ReplySent \<or> target = ReplyRetryable \<or> target = ReplyDeadLetter
      else if source = ReplyRetryable then target = ReplySending \<or> target = ReplyDeadLetter
      else False)"

definition ValidateMessageTransition :: "string \<Rightarrow> string \<Rightarrow> bool" where
  "ValidateMessageTransition source target =
     (if source = EventReceived then target = EventRunning \<or> target = EventFailed
      else if source = EventRunning then
        target = EventCompleted \<or> target = EventExecutionReconciling \<or> target = EventFailed
      else if source = EventExecutionReconciling then target = EventRunning \<or> target = EventFailed
      else if source = EventCompleted then target = EventReplyPending \<or> target = EventFailed
      else if source = EventReplyPending then target = EventReplied \<or> target = EventFailed
      else False)"

end
