(* ===== verification/Runtime_Store.thy ===== *)
theory Runtime_Store
  imports Runtime_Types
begin

text \<open>
  The in-memory runtime store of \<^verbatim>\<open>runtime/storage/inmemory/inmemory.go\<close>: sessions, inbound
  messages with their execution lease, session histories and the reply outbox. The record holds
  the maps of the capability operations as well, and the queue of the index worker; a closed
  \<^verbatim>\<open>indexDone\<close> channel is \<open>st_indexDone\<close>.

  The maps are keyed by \<^const>\<open>key\<close>, as in the code. \<open>clone\<close> is the copy of a JSON object by
  encoding and decoding it, which may fail; \<open>valid\<close> and \<open>same\<close> are the validity of a JSON text and
  the equality of two decoded texts; \<open>norm\<close> is the normal form of a trace parent, from the
  tracing library. Where an operation reads the clock more than once, \<open>clock i\<close> is the reading
  number \<open>i\<close> of the call. The fencing tokens and the delivery attempts are 64-bit integers that
  wrap around; session versions and the positions in a history are counted without a bound.
\<close>

subsection \<open>State\<close>

record 'st runtime_store =
  st_sessions :: "(string, 'st session) gomap"
  st_events :: "(string, message_event) gomap"
  st_histories :: "(string, event_payload list) gomap"
  st_messages :: "(string, string) gomap"
  st_replies :: "(string, reply_outbox) gomap"
  st_correlations :: "(string, reply_correlation) gomap"
  st_memories :: "(string, 'st memory_record) gomap"
  st_summaries :: "(string, summary_record) gomap"
  st_knowledge :: "(string, 'st knowledge_document) gomap"
  st_artifacts :: "(string, artifact_record) gomap"
  st_audits :: "(string, 'st audit_record list) gomap"
  st_vectors :: "(string, 'st vector_record) gomap"
  st_objects :: "(string, object_info) gomap"
  st_objectData :: "(string, string) gomap"
  st_indexQueue :: "'st memory_record list"
  st_indexDone :: bool

definition store_New :: "'st runtime_store" where
  "store_New = \<lparr>st_sessions = [], st_events = [], st_histories = [], st_messages = [], st_replies = [],
     st_correlations = [], st_memories = [], st_summaries = [], st_knowledge = [], st_artifacts = [],
     st_audits = [], st_vectors = [], st_objects = [], st_objectData = [], st_indexQueue = [],
     st_indexDone = False\<rparr>"

definition store_check :: "goctx \<Rightarrow> rs_error option" where
  "store_check ctx = (case ctx of None \<Rightarrow> Some RErrInvalid | Some look \<Rightarrow> map_option RErrCtx (look 0))"

definition cloneMap :: "('st \<Rightarrow> 'st option) \<Rightarrow> 'st option \<Rightarrow> 'st option" where
  "cloneMap clone input = Option.bind input clone"

definition cloneSession :: "('st \<Rightarrow> 'st option) \<Rightarrow> 'st session \<Rightarrow> 'st session" where
  "cloneSession clone s = s\<lparr>ses_State := cloneMap clone (ses_State s)\<rparr>"

subsection \<open>Sessions\<close>

definition GetSession ::
  "('st \<Rightarrow> 'st option) \<Rightarrow> goctx \<Rightarrow> string \<Rightarrow> string \<Rightarrow> 'st runtime_store \<Rightarrow> rs_error + 'st session" where
  "GetSession clone ctx tenantID sessionID s =
     ensure (first_error [store_check ctx, ValidateSession tenantID sessionID])
     (require (get (st_sessions s) (key [tenantID, sessionID])) RErrNotFound (\<lambda>v. Inr (cloneSession clone v)))"

definition CreateSession ::
  "('st \<Rightarrow> 'st option) \<Rightarrow> goctx \<Rightarrow> string \<Rightarrow> string \<Rightarrow> 'st option \<Rightarrow> instant \<Rightarrow> 'st runtime_store
   \<Rightarrow> (rs_error + 'st session) \<times> 'st runtime_store" where
  "CreateSession clone ctx tenantID sessionID state now s =
     check (first_error [store_check ctx, ValidateSession tenantID sessionID]) s
     (let v = \<lparr>ses_TenantID = tenantID, ses_SessionID = sessionID, ses_Status = SessionActive, ses_Version = 1,
               ses_State = cloneMap clone state, ses_CreatedAt = now, ses_UpdatedAt = now\<rparr>
      in
      check (fails (get (st_sessions s) (key [tenantID, sessionID]) \<noteq> None) RErrDuplicate) s
      (Inr (cloneSession clone v),
       s\<lparr>st_sessions := put (key [tenantID, sessionID]) v (st_sessions s)\<rparr>))"

definition UpdateSessionState ::
  "('st \<Rightarrow> 'st option) \<Rightarrow> goctx \<Rightarrow> string \<Rightarrow> string \<Rightarrow> int \<Rightarrow> 'st option \<Rightarrow> instant \<Rightarrow> 'st runtime_store
   \<Rightarrow> (rs_error + 'st session) \<times> 'st runtime_store" where
  "UpdateSessionState clone ctx tenantID sessionID expectedVersion state now s =
     check (first_error [store_check ctx, ValidateSession tenantID sessionID]) s
     (fetch (get (st_sessions s) (key [tenantID, sessionID])) RErrNotFound s (\<lambda>v.
      check (fails (ses_Version v \<noteq> expectedVersion) RErrConflict) s
      (let v' = v\<lparr>ses_Version := ses_Version v + 1, ses_State := cloneMap clone state,
                  ses_UpdatedAt := now\<rparr>
       in (Inr (cloneSession clone v'),
           s\<lparr>st_sessions := put (key [tenantID, sessionID]) v' (st_sessions s)\<rparr>))))"

text \<open>
  The ranges of \<^verbatim>\<open>DeleteSession\<close>: the events of the session go, with their deduplication entries and
  every reply to one of them.
\<close>

definition session_events :: "string \<Rightarrow> string \<Rightarrow> (string, message_event) gomap \<Rightarrow> message_event list" where
  "session_events tenantID sessionID events =
     filter (\<lambda>e. ev_TenantID e = tenantID \<and> ev_SessionID e = sessionID) (map snd events)"

definition DeleteSession ::
  "goctx \<Rightarrow> string \<Rightarrow> string \<Rightarrow> 'st runtime_store \<Rightarrow> (rs_error + unit) \<times> 'st runtime_store" where
  "DeleteSession ctx tenantID sessionID s =
     check (first_error [store_check ctx, ValidateSession tenantID sessionID]) s
     (fetch (get (st_sessions s) (key [tenantID, sessionID])) RErrNotFound s (\<lambda>_.
      let gone = session_events tenantID sessionID (st_events s) in
      (Inr (),
       s\<lparr>st_sessions := del (key [tenantID, sessionID]) (st_sessions s),
         st_histories := del (key [tenantID, sessionID]) (st_histories s),
         st_summaries := filter (\<lambda>(k, v). \<not> (sum_TenantID v = tenantID \<and> sum_SessionID v = sessionID))
                           (st_summaries s),
         st_events := filter (\<lambda>(k, e). \<not> (ev_TenantID e = tenantID \<and> ev_SessionID e = sessionID)) (st_events s),
         st_messages := fold (\<lambda>e. del (key [tenantID, ev_BindingID e, ev_ExternalMessageID e])) gone (st_messages s),
         st_replies := filter (\<lambda>(k, r). \<not> (rp_TenantID r = tenantID \<and> rp_EventID r \<in> set (map ev_EventID gone)))
                         (st_replies s)\<rparr>)))"

subsection \<open>Inbound messages\<close>

definition record_fails :: "message_event_input \<Rightarrow> rs_error option" where
  "record_fails i =
     fails (ValidateSession (mi_TenantID i) (mi_SessionID i) \<noteq> None \<or> mi_BindingID i = []
            \<or> mi_ExternalMessageID i = [] \<or> mi_EventID i = [] \<or> ValidateReplyTarget (mi_ReplyTarget i) \<noteq> None
            \<or> (mi_ReplyTarget i \<noteq> zeroReplyTarget \<and> rt_BindingID (mi_ReplyTarget i) \<noteq> mi_BindingID i))
       RErrInvalid"

definition new_event :: "message_event_input \<Rightarrow> int \<Rightarrow> instant \<Rightarrow> instant \<Rightarrow> message_event" where
  "new_event i seq created updated =
     \<lparr>ev_TenantID = mi_TenantID i, ev_EventID = mi_EventID i, ev_SessionID = mi_SessionID i,
      ev_BindingID = mi_BindingID i, ev_ExternalMessageID = mi_ExternalMessageID i,
      ev_IdempotencyKey = mi_IdempotencyKey i, ev_EventSeq = seq, ev_Status = EventReceived,
      ev_FencingToken = 0, ev_LeaseOwner = [], ev_LeaseExpiresAt = None, ev_ReplyID = [],
      ev_SegmentCount = 0, ev_ReplyTarget = mi_ReplyTarget i, ev_CreatedAt = created,
      ev_UpdatedAt = updated\<rparr>"

definition RecordMessage ::
  "goctx \<Rightarrow> message_event_input \<Rightarrow> (nat \<Rightarrow> instant) \<Rightarrow> 'st runtime_store
   \<Rightarrow> (rs_error + message_event \<times> bool) \<times> 'st runtime_store" where
  "RecordMessage ctx input clock s =
     check (first_error [store_check ctx, record_fails input]) s
     (let unique = key [mi_TenantID input, mi_BindingID input, mi_ExternalMessageID input];
          eventKey = key [mi_TenantID input, mi_EventID input];
          sessionKey = key [mi_TenantID input, mi_SessionID input]
      in
      case get (st_messages s) unique of
        Some existingID \<Rightarrow>
          (Inr (case get (st_events s) existingID of Some e \<Rightarrow> e | None \<Rightarrow> zeroMessageEvent, True), s)
      | None \<Rightarrow>
          check (fails (get (st_events s) eventKey \<noteq> None) RErrDuplicate) s
          (fetch (get (st_sessions s) sessionKey) RErrNotFound s (\<lambda>sess.
           let sess' = sess\<lparr>ses_Version := ses_Version sess + 1, ses_UpdatedAt := clock 0\<rparr>;
               event = new_event input (ses_Version sess') (clock 1) (clock 2)
           in (Inr (event, False),
               s\<lparr>st_sessions := put sessionKey sess' (st_sessions s),
                 st_events := put eventKey event (st_events s),
                 st_messages := put unique eventKey (st_messages s)\<rparr>))))"

definition GetMessage :: "goctx \<Rightarrow> string \<Rightarrow> string \<Rightarrow> 'st runtime_store \<Rightarrow> rs_error + message_event" where
  "GetMessage ctx tenantID eventID s =
     ensure (first_error [store_check ctx, fails (ValidateTenant tenantID \<noteq> None \<or> eventID = []) RErrInvalid])
     (require (get (st_events s) (key [tenantID, eventID])) RErrNotFound Inr)"

definition validateMessageTransition :: "message_transition \<Rightarrow> rs_error option" where
  "validateMessageTransition t =
     first_error
       [fails (ValidateTenant (mt_TenantID t) \<noteq> None \<or> mt_EventID t = [] \<or> mt_Owner t = []) RErrInvalid,
        fails (\<not> ValidateMessageTransition (mt_From t) (mt_To t)) RErrIllegalTransition]"

definition validateMessageLease :: "message_event \<Rightarrow> message_transition \<Rightarrow> instant \<Rightarrow> rs_error option" where
  "validateMessageLease v t now =
     (if mt_To t = EventRunning \<and> mt_LeaseDuration t \<le> 0 then Some RErrInvalid
      else if mt_From t \<noteq> EventRunning then None
      else if mt_To t = EventExecutionReconciling then
        fails (case ev_LeaseExpiresAt v of None \<Rightarrow> True | Some at \<Rightarrow> at > now) RErrConflict
      else
        fails (ev_LeaseOwner v \<noteq> mt_Owner t \<or> mt_FencingToken t = 0 \<or> ev_FencingToken v \<noteq> mt_FencingToken t
               \<or> (case ev_LeaseExpiresAt v of None \<Rightarrow> False | Some at \<Rightarrow> \<not> at > now)) RErrConflict)"

definition applyMessageTransition :: "message_event \<Rightarrow> message_transition \<Rightarrow> instant \<Rightarrow> instant \<Rightarrow> message_event" where
  "applyMessageTransition v t now updated =
     (let leased = (if mt_To t = EventRunning
                    then v\<lparr>ev_LeaseOwner := mt_Owner t, ev_LeaseExpiresAt := Some (now + mt_LeaseDuration t)\<rparr>
                    else v\<lparr>ev_LeaseOwner := [], ev_LeaseExpiresAt := None\<rparr>)
      in leased\<lparr>ev_Status := mt_To t,
                ev_ReplyID := (if mt_ReplyID t \<noteq> [] then mt_ReplyID t else ev_ReplyID v),
                ev_SegmentCount := (if mt_SegmentCount t > 0 then mt_SegmentCount t else ev_SegmentCount v),
                ev_FencingToken := wrap64 (ev_FencingToken v + 1),
                ev_UpdatedAt := updated\<rparr>)"

definition TransitionMessage ::
  "goctx \<Rightarrow> message_transition \<Rightarrow> (nat \<Rightarrow> instant) \<Rightarrow> 'st runtime_store
   \<Rightarrow> (rs_error + message_event) \<times> 'st runtime_store" where
  "TransitionMessage ctx t clock s =
     check (first_error [store_check ctx, validateMessageTransition t]) s
     (let k = key [mt_TenantID t, mt_EventID t] in
      fetch (get (st_events s) k) RErrNotFound s (\<lambda>v.
      check (first_error
        [fails (ev_Status v \<noteq> mt_From t) RErrConflict,
         validateMessageLease v t (clock 0)]) s
      (let v' = applyMessageTransition v t (clock 1) (clock 2)
       in (Inr v', s\<lparr>st_events := put k v' (st_events s)\<rparr>))))"

subsection \<open>Histories\<close>

definition validatePayload :: "(string \<Rightarrow> bool) \<Rightarrow> event_payload \<Rightarrow> rs_error option" where
  "validatePayload valid p =
     fails (ValidateSession (ep_TenantID p) (ep_SessionID p) \<noteq> None \<or> ep_EventID p = [] \<or> ep_Payload p = []
            \<or> \<not> valid (ep_Payload p)) RErrInvalid"

definition AppendEventPayload ::
  "(string \<Rightarrow> bool) \<Rightarrow> (string \<Rightarrow> string \<Rightarrow> bool) \<Rightarrow> goctx \<Rightarrow> event_payload \<Rightarrow> instant \<Rightarrow> 'st runtime_store
   \<Rightarrow> (rs_error + event_payload) \<times> 'st runtime_store" where
  "AppendEventPayload valid same ctx p now s =
     check (first_error [store_check ctx, validatePayload valid p]) s
     (let k = key [ep_TenantID p, ep_SessionID p] in
      check (fails (get (st_sessions s) k = None) RErrNotFound) s
      (let entries = (case get (st_histories s) k of None \<Rightarrow> [] | Some es \<Rightarrow> es) in
       case find (\<lambda>e. ep_EventID e = ep_EventID p) entries of
         Some existing \<Rightarrow>
           check (fails (\<not> same (ep_Payload existing) (ep_Payload p)) RErrConflict) s (Inr existing, s)
       | None \<Rightarrow>
           (let p' = p\<lparr>ep_HistorySeq := int (length entries) + 1, ep_CreatedAt := now\<rparr>
            in (Inr p', s\<lparr>st_histories := put k (entries @ [p']) (st_histories s)\<rparr>))))"

definition ListEventPayloads ::
  "goctx \<Rightarrow> string \<Rightarrow> string \<Rightarrow> 'st runtime_store \<Rightarrow> rs_error + event_payload list" where
  "ListEventPayloads ctx tenantID sessionID s =
     ensure (first_error [store_check ctx, ValidateSession tenantID sessionID])
     (require (get (st_sessions s) (key [tenantID, sessionID])) RErrNotFound (\<lambda>_.
      Inr (case get (st_histories s) (key [tenantID, sessionID]) of None \<Rightarrow> [] | Some es \<Rightarrow> es)))"

subsection \<open>Replies\<close>

text \<open>A stored segment that differs from the offered one is a conflict.\<close>

definition reply_differs :: "reply_outbox \<Rightarrow> reply_outbox \<Rightarrow> bool" where
  "reply_differs existing v \<longleftrightarrow>
     rp_EventID existing \<noteq> rp_EventID v \<or> rp_SegmentCount existing \<noteq> rp_SegmentCount v
     \<or> rp_Payload existing \<noteq> rp_Payload v \<or> rp_ReplyTarget existing \<noteq> rp_ReplyTarget v"

definition EnqueueReply ::
  "goctx \<Rightarrow> reply_outbox \<Rightarrow> instant \<Rightarrow> 'st runtime_store \<Rightarrow> (rs_error + reply_outbox) \<times> 'st runtime_store" where
  "EnqueueReply ctx v now s =
     (let status = (if rp_Status v = [] then ReplyPending else rp_Status v) in
      check (first_error
        [store_check ctx,
         fails (ValidateTenant (rp_TenantID v) \<noteq> None \<or> rp_ReplyID v = [] \<or> rp_EventID v = []
                \<or> rp_SegmentIndex v < 0 \<or> rp_SegmentCount v \<le> rp_SegmentIndex v
                \<or> ValidateReplyTarget (rp_ReplyTarget v) \<noteq> None) RErrInvalid,
         fails (status \<noteq> ReplyPending) RErrInvalid]) s
      (let v' = v\<lparr>rp_Status := status, rp_CreatedAt := now, rp_UpdatedAt := now\<rparr>;
           k = replyKey (rp_TenantID v) (rp_ReplyID v) (rp_SegmentIndex v)
       in
       fetch (get (st_events s) (key [rp_TenantID v, rp_EventID v])) RErrNotFound s (\<lambda>event.
       check (fails (ev_ReplyTarget event \<noteq> rp_ReplyTarget v) RErrConflict) s
       (case get (st_replies s) k of
          Some existing \<Rightarrow> check (fails (reply_differs existing v') RErrConflict) s (Inr existing, s)
        | None \<Rightarrow> (Inr v', s\<lparr>st_replies := put k v' (st_replies s)\<rparr>)))))"

definition batch_value_ok :: "reply_outbox \<Rightarrow> reply_outbox \<Rightarrow> bool" where
  "batch_value_ok first v \<longleftrightarrow>
     \<not> (ValidateTenant (rp_TenantID v) \<noteq> None \<or> rp_ReplyID v = [] \<or> rp_EventID v = [] \<or> rp_SegmentIndex v < 0
        \<or> rp_SegmentCount v \<le> rp_SegmentIndex v \<or> (rp_Status v \<noteq> [] \<and> rp_Status v \<noteq> ReplyPending)
        \<or> ValidateReplyTarget (rp_ReplyTarget v) \<noteq> None \<or> rp_TenantID v \<noteq> rp_TenantID first
        \<or> rp_ReplyID v \<noteq> rp_ReplyID first \<or> rp_EventID v \<noteq> rp_EventID first
        \<or> rp_SegmentCount v \<noteq> rp_SegmentCount first \<or> rp_ReplyTarget v \<noteq> rp_ReplyTarget first)"

text \<open>The loop of \<^verbatim>\<open>validateReplyBatch\<close> over the segments, with the indexes seen so far.\<close>

fun batch_loop :: "reply_outbox \<Rightarrow> int list \<Rightarrow> reply_outbox list \<Rightarrow> rs_error + int list" where
  "batch_loop first seen [] = Inr seen"
| "batch_loop first seen (v # vs) =
     ensure (first_error
       [fails (\<not> batch_value_ok first v) RErrInvalid,
        fails (rp_SegmentIndex v \<in> set seen) RErrInvalid])
     (batch_loop first (rp_SegmentIndex v # seen) vs)"

definition validateReplyBatch :: "reply_outbox list \<Rightarrow> rs_error + reply_outbox" where
  "validateReplyBatch vs =
     (case vs of
        [] \<Rightarrow> Inl RErrInvalid
      | first # _ \<Rightarrow>
          andthen (batch_loop first [] vs) (\<lambda>seen.
          ensure (first_error
            [fails (int (length seen) \<noteq> rp_SegmentCount first) RErrInvalid,
             fails (\<not> list_all (\<lambda>i. i \<in> set seen) (map int [0..<nat (rp_SegmentCount first)])) RErrInvalid])
          (Inr first)))"

definition reply_key :: "reply_outbox \<Rightarrow> string" where
  "reply_key v = replyKey (rp_TenantID v) (rp_ReplyID v) (rp_SegmentIndex v)"

definition validateExistingReplies :: "(string, reply_outbox) gomap \<Rightarrow> reply_outbox list \<Rightarrow> rs_error option" where
  "validateExistingReplies replies vs =
     fails (list_ex (\<lambda>v. case get replies (reply_key v) of None \<Rightarrow> False | Some e \<Rightarrow> reply_differs e v) vs)
       RErrConflict"

text \<open>The loop of \<^verbatim>\<open>enqueueReplies\<close> that stores the segments that are not there yet.\<close>

fun enqueue_loop ::
  "instant \<Rightarrow> reply_outbox list \<Rightarrow> (string, reply_outbox) gomap \<Rightarrow> reply_outbox list \<times> (string, reply_outbox) gomap" where
  "enqueue_loop now [] replies = ([], replies)"
| "enqueue_loop now (v # vs) replies =
     (case get replies (reply_key v) of
        Some existing \<Rightarrow>
          (let (result, replies') = enqueue_loop now vs replies in (existing # result, replies'))
      | None \<Rightarrow>
          (let v' = v\<lparr>rp_Status := ReplyPending, rp_CreatedAt := now, rp_UpdatedAt := now\<rparr>;
               (result, replies') = enqueue_loop now vs (put (reply_key v) v' replies)
           in (v' # result, replies')))"

definition correlation_fails ::
  "reply_correlation \<Rightarrow> reply_outbox \<Rightarrow> (string, reply_correlation) gomap \<Rightarrow> rs_error option" where
  "correlation_fails c first correlations =
     (if rc_RequestID c = [] then None
      else first_error
        [fails (rc_TenantID c \<noteq> rp_TenantID first \<or> rc_EventID c \<noteq> rp_EventID first) RErrInvalid,
         fails (case get correlations (key [rc_TenantID c, rc_EventID c]) of
                  None \<Rightarrow> False | Some existing \<Rightarrow> existing \<noteq> c) RErrConflict])"

definition enqueueReplies ::
  "goctx \<Rightarrow> reply_correlation \<Rightarrow> reply_outbox list \<Rightarrow> instant \<Rightarrow> 'st runtime_store
   \<Rightarrow> (rs_error + reply_outbox list) \<times> 'st runtime_store" where
  "enqueueReplies ctx c vs now s =
     check (store_check ctx) s
     (proceed (validateReplyBatch vs) s (\<lambda>first.
      fetch (get (st_events s) (key [rp_TenantID first, rp_EventID first])) RErrNotFound s (\<lambda>event.
      check (first_error
        [fails (ev_ReplyTarget event \<noteq> rp_ReplyTarget first) RErrConflict,
         correlation_fails c first (st_correlations s),
         validateExistingReplies (st_replies s) vs]) s
      (let (result, replies) = enqueue_loop now vs (st_replies s);
           correlations = (if rc_RequestID c \<noteq> []
                           then put (key [rc_TenantID c, rc_EventID c]) c (st_correlations s)
                           else st_correlations s)
       in (Inr result, s\<lparr>st_replies := replies, st_correlations := correlations\<rparr>)))))"

definition EnqueueReplies ::
  "goctx \<Rightarrow> reply_outbox list \<Rightarrow> instant \<Rightarrow> 'st runtime_store
   \<Rightarrow> (rs_error + reply_outbox list) \<times> 'st runtime_store" where
  "EnqueueReplies ctx vs now s = enqueueReplies ctx zeroReplyCorrelation vs now s"

definition EnqueueRepliesWithCorrelation ::
  "(string \<Rightarrow> string) \<Rightarrow> goctx \<Rightarrow> reply_correlation \<Rightarrow> reply_outbox list \<Rightarrow> instant \<Rightarrow> 'st runtime_store
   \<Rightarrow> (rs_error + reply_outbox list) \<times> 'st runtime_store" where
  "EnqueueRepliesWithCorrelation norm ctx c vs now s =
     check (fails (rc_TenantID c = [] \<or> rc_EventID c = [] \<or> rc_RequestID c = []) RErrInvalid) s
     (enqueueReplies ctx (c\<lparr>rc_TraceParent := norm (rc_TraceParent c)\<rparr>) vs now s)"

definition GetReplyCorrelation ::
  "(string \<Rightarrow> string) \<Rightarrow> goctx \<Rightarrow> string \<Rightarrow> string \<Rightarrow> 'st runtime_store \<Rightarrow> rs_error + reply_correlation" where
  "GetReplyCorrelation norm ctx tenantID eventID s =
     ensure (first_error [store_check ctx, fails (tenantID = [] \<or> eventID = []) RErrInvalid])
     (require (get (st_correlations s) (key [tenantID, eventID])) RErrNotFound (\<lambda>c.
      Inr (c\<lparr>rc_TraceParent := norm (rc_TraceParent c)\<rparr>)))"

definition GetReply ::
  "goctx \<Rightarrow> string \<Rightarrow> string \<Rightarrow> int \<Rightarrow> 'st runtime_store \<Rightarrow> rs_error + reply_outbox" where
  "GetReply ctx tenantID replyID segment s =
     ensure (first_error
       [store_check ctx, fails (ValidateTenant tenantID \<noteq> None \<or> replyID = [] \<or> segment < 0) RErrInvalid])
     (require (get (st_replies s) (replyKey tenantID replyID segment)) RErrNotFound Inr)"

definition ListReplyCandidates ::
  "goctx \<Rightarrow> string \<Rightarrow> 'st runtime_store \<Rightarrow> rs_error + reply_outbox list" where
  "ListReplyCandidates ctx tenantID s =
     ensure (first_error [store_check ctx, ValidateTenant tenantID])
     (Inr (filter (\<lambda>v. rp_TenantID v = tenantID) (map snd (st_replies s))))"

definition reply_lease_expired :: "reply_outbox \<Rightarrow> instant \<Rightarrow> bool" where
  "reply_lease_expired v now \<longleftrightarrow>
     rp_Status v = ReplySending \<and> (case rp_LeaseExpiresAt v of None \<Rightarrow> False | Some at \<Rightarrow> \<not> at > now)"

definition ClaimReply ::
  "goctx \<Rightarrow> string \<Rightarrow> string \<Rightarrow> int \<Rightarrow> string \<Rightarrow> duration \<Rightarrow> (nat \<Rightarrow> instant) \<Rightarrow> 'st runtime_store
   \<Rightarrow> (rs_error + reply_outbox) \<times> 'st runtime_store" where
  "ClaimReply ctx tenantID replyID segment owner leaseDuration clock s =
     check (first_error
       [store_check ctx,
        fails (ValidateTenant tenantID \<noteq> None \<or> replyID = [] \<or> owner = [] \<or> leaseDuration \<le> 0) RErrInvalid]) s
     (let k = replyKey tenantID replyID segment in
      fetch (get (st_replies s) k) RErrNotFound s (\<lambda>v.
      check (fails (rp_Status v \<noteq> ReplyPending \<and> rp_Status v \<noteq> ReplyRetryable
                    \<and> \<not> reply_lease_expired v (clock 0)) RErrConflict) s
      (let v' = v\<lparr>rp_Status := ReplySending, rp_Attempts := wrap64 (rp_Attempts v + 1),
                  rp_FencingToken := wrap64 (rp_FencingToken v + 1), rp_LeaseOwner := owner,
                  rp_LeaseExpiresAt := Some (clock 1 + leaseDuration), rp_UpdatedAt := clock 2\<rparr>
       in (Inr v', s\<lparr>st_replies := put k v' (st_replies s)\<rparr>))))"

definition reply_transition_conflict :: "reply_outbox \<Rightarrow> reply_transition \<Rightarrow> instant \<Rightarrow> rs_error option" where
  "reply_transition_conflict v t now =
     first_error
       [fails (rp_Status v \<noteq> rx_From t \<or> (rp_LeaseOwner v \<noteq> [] \<and> rp_LeaseOwner v \<noteq> rx_Owner t)
               \<or> (rx_FencingToken t \<noteq> 0 \<and> rp_FencingToken v \<noteq> rx_FencingToken t)) RErrConflict,
        fails (reply_lease_expired v now) RErrConflict]"

definition applyReplyTransition :: "reply_outbox \<Rightarrow> reply_transition \<Rightarrow> instant \<Rightarrow> instant \<Rightarrow> reply_outbox" where
  "applyReplyTransition v t now updated =
     v\<lparr>rp_Status := rx_To t, rp_LeaseOwner := rx_Owner t, rp_FencingToken := wrap64 (rp_FencingToken v + 1),
       rp_Attempts := (if rx_To t = ReplySending then wrap64 (rp_Attempts v + 1) else rp_Attempts v),
       rp_LeaseExpiresAt := (if rx_To t = ReplySending \<and> rx_LeaseDuration t > 0
                             then Some (now + rx_LeaseDuration t) else rp_LeaseExpiresAt v),
       rp_ProviderMessageID := rx_ProviderID t, rp_LastErrorClass := rx_ErrorClass t,
       rp_UpdatedAt := updated\<rparr>"

definition TransitionReply ::
  "goctx \<Rightarrow> reply_transition \<Rightarrow> (nat \<Rightarrow> instant) \<Rightarrow> 'st runtime_store
   \<Rightarrow> (rs_error + reply_outbox) \<times> 'st runtime_store" where
  "TransitionReply ctx t clock s =
     check (first_error
       [store_check ctx,
        fails (ValidateTenant (rx_TenantID t) \<noteq> None \<or> rx_ReplyID t = [] \<or> rx_Owner t = []) RErrInvalid,
        fails (\<not> ValidateTransition (rx_From t) (rx_To t)) RErrIllegalTransition]) s
     (let k = replyKey (rx_TenantID t) (rx_ReplyID t) (rx_SegmentIndex t) in
      fetch (get (st_replies s) k) RErrNotFound s (\<lambda>v.
      check (reply_transition_conflict v t (clock 0)) s
      (let v' = applyReplyTransition v t (clock 1) (clock 2)
       in (Inr v', s\<lparr>st_replies := put k v' (st_replies s)\<rparr>))))"

end
