(* ===== verification/Runtime_Capabilities.thy ===== *)
theory Runtime_Capabilities
  imports Runtime_Store
begin

text \<open>
  The capability operations of the in-memory runtime store,
  \<^verbatim>\<open>runtime/storage/inmemory/capabilities.go\<close>: memories with their asynchronous vector index,
  summaries, knowledge documents, artifacts, audit facts, vectors and objects, and the
  reference-counted lifecycle of a shared backend from \<^verbatim>\<open>inmemory.go\<close>.

  \<open>none\<close> is the empty JSON object \<^verbatim>\<open>map[string]any{}\<close>, \<open>uuid\<close> the identifier that the UUID library
  returns, and \<open>hash\<close> the hex form of the SHA-256 sum. The similarity searches over embeddings
  are arithmetic on floating point numbers and are left out.
\<close>

subsection \<open>Memories\<close>

definition cloneMemory :: "('st \<Rightarrow> 'st option) \<Rightarrow> 'st memory_record \<Rightarrow> 'st memory_record" where
  "cloneMemory clone v = v\<lparr>mem_Metadata := cloneMap clone (mem_Metadata v)\<rparr>"

text \<open>The metadata of a record is present but cannot be encoded.\<close>

definition unencodable :: "('st \<Rightarrow> 'st option) \<Rightarrow> 'st option \<Rightarrow> bool" where
  "unencodable clone m \<longleftrightarrow> m \<noteq> None \<and> cloneMap clone m = None"

definition indexCapacity :: nat where "indexCapacity = 128"

text \<open>
  Handing a record to the index worker. The select waits for room in the queue or for the end of
  the context; \<open>ended\<close> is the error of a context whose end the select took. While the lock on the
  index is held the done channel cannot be closed, so after the first look only these two
  remain. \<open>None\<close> is a call that still waits.
\<close>

definition enqueueIndex ::
  "('st \<Rightarrow> 'st option) \<Rightarrow> ctx_error option \<Rightarrow> 'st memory_record \<Rightarrow> 'st runtime_store
   \<Rightarrow> ((rs_error + unit) \<times> 'st runtime_store) option" where
  "enqueueIndex clone ended v s =
     (if st_indexDone s then Some (Inl RErrStorage, s)
      else case ended of
        Some e \<Rightarrow> Some (Inl (RErrCtx e), s)
      | None \<Rightarrow>
          if length (st_indexQueue s) < indexCapacity
          then Some (Inr (), s\<lparr>st_indexQueue := st_indexQueue s @ [cloneMemory clone v]\<rparr>)
          else None)"

definition memory_input_fails :: "('st \<Rightarrow> 'st option) \<Rightarrow> 'st memory_input \<Rightarrow> rs_error option" where
  "memory_input_fails clone i =
     first_error
       [fails (ValidateTenant (mmi_TenantID i) \<noteq> None \<or> \<not> ValidateText (mmi_UserID i) 256 True
               \<or> \<not> ValidateText (mmi_Content i) 0 True \<or> \<not> ValidateText (mmi_MemoryID i) 256 False
               \<or> \<not> ValidateText (mmi_SessionID i) 256 False \<or> \<not> ValidateEmbedding (mmi_Embedding i)) RErrInvalid,
        fails (unencodable clone (mmi_Metadata i)) RErrInvalid]"

text \<open>The section of \<^verbatim>\<open>PutMemory\<close> under the lock: the record that is stored.\<close>

definition stored_memory ::
  "('st \<Rightarrow> 'st option) \<Rightarrow> 'st \<Rightarrow> 'st memory_input \<Rightarrow> string \<Rightarrow> instant \<Rightarrow> 'st memory_record option
   \<Rightarrow> 'st memory_record" where
  "stored_memory clone none i memoryID now existing =
     (let metadata = cloneMap clone (case mmi_Metadata i of None \<Rightarrow> Some none | Some m \<Rightarrow> Some m) in
      case existing of
        Some e \<Rightarrow>
          e\<lparr>mem_Content := mmi_Content i, mem_Topics := mmi_Topics i, mem_Metadata := metadata,
            mem_Embedding := mmi_Embedding i, mem_UserID := mmi_UserID i, mem_SessionID := mmi_SessionID i,
            mem_Version := mem_Version e + 1, mem_UpdatedAt := now, mem_DeletedAt := None\<rparr>
      | None \<Rightarrow>
          \<lparr>mem_TenantID = mmi_TenantID i, mem_MemoryID = memoryID, mem_UserID = mmi_UserID i,
           mem_SessionID = mmi_SessionID i, mem_Content = mmi_Content i, mem_Topics = mmi_Topics i,
           mem_Metadata = metadata, mem_Embedding = mmi_Embedding i, mem_Version = 1, mem_DeletedAt = None,
           mem_CreatedAt = now, mem_UpdatedAt = now\<rparr>)"

text \<open>
  The record and the error of the index come back together: a memory is stored also when it could
  not be handed to the worker.
\<close>

definition PutMemory ::
  "('st \<Rightarrow> 'st option) \<Rightarrow> 'st \<Rightarrow> goctx \<Rightarrow> ctx_error option \<Rightarrow> 'st memory_input \<Rightarrow> string \<Rightarrow> instant
   \<Rightarrow> 'st runtime_store \<Rightarrow> ('st memory_record option \<times> rs_error option) option \<times> 'st runtime_store" where
  "PutMemory clone none ctx ended i uuid now s =
     (case first_error [store_check ctx, memory_input_fails clone i] of
        Some e \<Rightarrow> (Some (None, Some e), s)
      | None \<Rightarrow>
          (let memoryID = (if mmi_MemoryID i = [] then ''mem_'' @ uuid else mmi_MemoryID i);
               k = key [mmi_TenantID i, memoryID];
               v = stored_memory clone none i memoryID now (get (st_memories s) k);
               s' = s\<lparr>st_memories := put k v (st_memories s)\<rparr>
           in
           case enqueueIndex clone ended v s' of
             None \<Rightarrow> (None, s')
           | Some (Inl e, s'') \<Rightarrow> (Some (Some (cloneMemory clone v), Some e), s'')
           | Some (Inr _, s'') \<Rightarrow> (Some (Some (cloneMemory clone v), None), s'')))"

definition GetMemory ::
  "('st \<Rightarrow> 'st option) \<Rightarrow> goctx \<Rightarrow> string \<Rightarrow> string \<Rightarrow> 'st runtime_store \<Rightarrow> rs_error + 'st memory_record" where
  "GetMemory clone ctx tenantID memoryID s =
     ensure (first_error [store_check ctx, fails (ValidateTenant tenantID \<noteq> None \<or> memoryID = []) RErrInvalid])
     (require (get (st_memories s) (key [tenantID, memoryID])) RErrNotFound (\<lambda>v.
      ensure (fails (mem_DeletedAt v \<noteq> None) RErrNotFound) (Inr (cloneMemory clone v))))"

definition limited :: "int \<Rightarrow> 'a list \<Rightarrow> 'a list" where
  "limited limit vs = (if limit > 0 \<and> int (length vs) > limit then take (nat limit) vs else vs)"

definition ListMemories ::
  "('st \<Rightarrow> 'st option) \<Rightarrow> goctx \<Rightarrow> string \<Rightarrow> string \<Rightarrow> int \<Rightarrow> 'st runtime_store
   \<Rightarrow> rs_error + 'st memory_record list" where
  "ListMemories clone ctx tenantID userID limit s =
     ensure (first_error
       [store_check ctx,
        fails (ValidateTenant tenantID \<noteq> None \<or> trim_space userID = [] \<or> limit < 0) RErrInvalid])
     (Inr (limited limit (sort_key (\<lambda>v. (- mem_UpdatedAt v, mem_MemoryID v))
       (map (cloneMemory clone)
         (filter (\<lambda>v. mem_TenantID v = tenantID \<and> mem_UserID v = userID \<and> mem_DeletedAt v = None)
            (map snd (st_memories s)))))))"

definition DeleteMemory ::
  "goctx \<Rightarrow> string \<Rightarrow> string \<Rightarrow> instant \<Rightarrow> 'st runtime_store \<Rightarrow> (rs_error + unit) \<times> 'st runtime_store" where
  "DeleteMemory ctx tenantID memoryID now s =
     check (first_error [store_check ctx, fails (ValidateTenant tenantID \<noteq> None \<or> memoryID = []) RErrInvalid]) s
     (let k = key [tenantID, memoryID] in
      fetch (get (st_memories s) k) RErrNotFound s (\<lambda>v.
      check (fails (mem_DeletedAt v \<noteq> None) RErrNotFound) s
      (Inr (),
       s\<lparr>st_memories := put k (v\<lparr>mem_DeletedAt := Some now, mem_UpdatedAt := now,
                                  mem_Version := mem_Version v + 1\<rparr>) (st_memories s),
         st_vectors := del (key [tenantID, VectorSourceMemory, memoryID]) (st_vectors s)\<rparr>)))"

definition EnqueueMemoryIndex ::
  "('st \<Rightarrow> 'st option) \<Rightarrow> goctx \<Rightarrow> ctx_error option \<Rightarrow> 'st memory_record \<Rightarrow> 'st runtime_store
   \<Rightarrow> ((rs_error + unit) \<times> 'st runtime_store) option" where
  "EnqueueMemoryIndex clone ctx ended v s =
     (case first_error
        [store_check ctx,
         fails (ValidateTenant (mem_TenantID v) \<noteq> None \<or> mem_MemoryID v = [] \<or> mem_Version v < 1) RErrInvalid] of
        Some e \<Rightarrow> Some (Inl e, s)
      | None \<Rightarrow>
        (case get (st_memories s) (key [mem_TenantID v, mem_MemoryID v]) of
           None \<Rightarrow> Some (Inl RErrNotFound, s)
         | Some current \<Rightarrow>
             if mem_DeletedAt current \<noteq> None then Some (Inl RErrNotFound, s)
             else if mem_Version current \<noteq> mem_Version v then Some (Inl RErrConflict, s)
             else enqueueIndex clone ended current s))"

text \<open>One turn of the index worker: it takes a record from the queue and indexes what is current.\<close>

definition memory_vector :: "('st \<Rightarrow> 'st option) \<Rightarrow> 'st memory_record \<Rightarrow> 'st vector_record" where
  "memory_vector clone v =
     \<lparr>vec_TenantID = mem_TenantID v, vec_Source = VectorSourceMemory, vec_DocumentID = mem_MemoryID v,
      vec_Content = mem_Content v, vec_Metadata = cloneMap clone (mem_Metadata v),
      vec_Embedding = mem_Embedding v, vec_Version = mem_Version v, vec_UpdatedAt = mem_UpdatedAt v\<rparr>"

definition index_record ::
  "('st \<Rightarrow> 'st option) \<Rightarrow> 'st memory_record \<Rightarrow> 'st runtime_store \<Rightarrow> 'st runtime_store" where
  "index_record clone v s =
     (if mem_DeletedAt v \<noteq> None then s
      else case get (st_memories s) (key [mem_TenantID v, mem_MemoryID v]) of
        None \<Rightarrow> s
      | Some current \<Rightarrow>
          if mem_Version current = mem_Version v \<and> mem_DeletedAt current = None then
            (let vectorKey = key [mem_TenantID v, VectorSourceMemory, mem_MemoryID v] in
             if mem_Embedding current = [] then s\<lparr>st_vectors := del vectorKey (st_vectors s)\<rparr>
             else s\<lparr>st_vectors := put vectorKey (memory_vector clone current) (st_vectors s)\<rparr>)
          else s)"

definition indexWorker_turn :: "('st \<Rightarrow> 'st option) \<Rightarrow> 'st runtime_store \<Rightarrow> 'st runtime_store option" where
  "indexWorker_turn clone s =
     (if st_indexDone s then None
      else case st_indexQueue s of
        [] \<Rightarrow> None
      | v # vs \<Rightarrow> Some (index_record clone v (s\<lparr>st_indexQueue := vs\<rparr>)))"

text \<open>
  The polling loop of \<^verbatim>\<open>WaitForMemoryIndex\<close>: the stores it looks at and what ended each wait. \<open>None\<close>
  is a call that still polls.
\<close>

datatype index_wake = WakeTick | WakeClosed | WakeCtx ctx_error

definition index_ready :: "string \<Rightarrow> string \<Rightarrow> int \<Rightarrow> 'st runtime_store \<Rightarrow> bool" where
  "index_ready tenantID memoryID version s =
     (case get (st_vectors s) (key [tenantID, VectorSourceMemory, memoryID]) of
        None \<Rightarrow> False | Some indexed \<Rightarrow> vec_Version indexed \<ge> version)"

fun wait_index_loop ::
  "string \<Rightarrow> string \<Rightarrow> int \<Rightarrow> ('st runtime_store \<times> index_wake) list \<Rightarrow> (rs_error + unit) option" where
  "wait_index_loop tenantID memoryID version [] = None"
| "wait_index_loop tenantID memoryID version ((s, wake) # polls) =
     (if index_ready tenantID memoryID version s then Some (Inr ())
      else case wake of
        WakeCtx e \<Rightarrow> Some (Inl (RErrCtx e))
      | WakeClosed \<Rightarrow> Some (Inl RErrStorage)
      | WakeTick \<Rightarrow> wait_index_loop tenantID memoryID version polls)"

definition WaitForMemoryIndex ::
  "goctx \<Rightarrow> string \<Rightarrow> string \<Rightarrow> int \<Rightarrow> ('st runtime_store \<times> index_wake) list \<Rightarrow> (rs_error + unit) option" where
  "WaitForMemoryIndex ctx tenantID memoryID version polls =
     (case first_error
        [store_check ctx, fails (ValidateTenant tenantID \<noteq> None \<or> memoryID = [] \<or> version < 1) RErrInvalid] of
        Some e \<Rightarrow> Some (Inl e)
      | None \<Rightarrow> wait_index_loop tenantID memoryID version polls)"

subsection \<open>Summaries\<close>

definition PutSummary ::
  "goctx \<Rightarrow> summary_record \<Rightarrow> (nat \<Rightarrow> instant) \<Rightarrow> 'st runtime_store
   \<Rightarrow> (rs_error + summary_record) \<times> 'st runtime_store" where
  "PutSummary ctx v clock s =
     check (first_error
       [store_check ctx,
        fails (ValidateSession (sum_TenantID v) (sum_SessionID v) \<noteq> None \<or> trim_space (sum_Text v) = []
               \<or> sum_EventSeq v < 0) RErrInvalid,
        fails (get (st_sessions s) (key [sum_TenantID v, sum_SessionID v]) = None) RErrNotFound]) s
     (let k = key [sum_TenantID v, sum_SessionID v, sum_FilterKey v] in
      case get (st_summaries s) k of
        Some existing \<Rightarrow>
          check (fails (sum_EventSeq v < sum_EventSeq existing) RErrConflict) s
          (let v' = v\<lparr>sum_Version := sum_Version existing + 1, sum_CreatedAt := sum_CreatedAt existing,
                      sum_UpdatedAt := clock 0\<rparr>
           in (Inr v', s\<lparr>st_summaries := put k v' (st_summaries s)\<rparr>))
      | None \<Rightarrow>
          (let v' = v\<lparr>sum_Version := 1, sum_CreatedAt := clock 0, sum_UpdatedAt := clock 1\<rparr>
           in (Inr v', s\<lparr>st_summaries := put k v' (st_summaries s)\<rparr>)))"

definition GetSummary ::
  "goctx \<Rightarrow> string \<Rightarrow> string \<Rightarrow> string \<Rightarrow> 'st runtime_store \<Rightarrow> rs_error + summary_record" where
  "GetSummary ctx tenantID sessionID filterKey s =
     ensure (first_error
       [store_check ctx, fails (ValidateSession tenantID sessionID \<noteq> None) RErrInvalid])
     (require (get (st_summaries s) (key [tenantID, sessionID, filterKey])) RErrNotFound Inr)"

definition EnqueueSummary ::
  "goctx \<Rightarrow> summary_record \<Rightarrow> (nat \<Rightarrow> instant) \<Rightarrow> 'st runtime_store \<Rightarrow> (rs_error + unit) \<times> 'st runtime_store" where
  "EnqueueSummary ctx v clock s =
     (case PutSummary ctx v clock s of (Inl e, s') \<Rightarrow> (Inl e, s') | (Inr _, s') \<Rightarrow> (Inr (), s'))"

subsection \<open>Knowledge\<close>

definition cloneKnowledge :: "('st \<Rightarrow> 'st option) \<Rightarrow> 'st knowledge_document \<Rightarrow> 'st knowledge_document" where
  "cloneKnowledge clone v = v\<lparr>kd_Metadata := cloneMap clone (kd_Metadata v)\<rparr>"

text \<open>The copy of a JSON object that replaces a nil one by the empty object.\<close>

definition cloned_or_empty :: "('st \<Rightarrow> 'st option) \<Rightarrow> 'st \<Rightarrow> 'st option \<Rightarrow> 'st option" where
  "cloned_or_empty clone none m = (case cloneMap clone m of None \<Rightarrow> Some none | Some m' \<Rightarrow> Some m')"

definition knowledge_vector :: "('st \<Rightarrow> 'st option) \<Rightarrow> 'st knowledge_document \<Rightarrow> 'st vector_record" where
  "knowledge_vector clone v =
     \<lparr>vec_TenantID = kd_TenantID v, vec_Source = VectorSourceKnowledge, vec_DocumentID = kd_DocumentID v,
      vec_Content = kd_Content v, vec_Metadata = cloneMap clone (kd_Metadata v),
      vec_Embedding = kd_Embedding v, vec_Version = kd_Version v, vec_UpdatedAt = kd_UpdatedAt v\<rparr>"

definition PutKnowledge ::
  "('st \<Rightarrow> 'st option) \<Rightarrow> 'st \<Rightarrow> (string \<Rightarrow> string) \<Rightarrow> goctx \<Rightarrow> 'st knowledge_document \<Rightarrow> instant \<Rightarrow> 'st runtime_store
   \<Rightarrow> (rs_error + 'st knowledge_document) \<times> 'st runtime_store" where
  "PutKnowledge clone none hash ctx v now s =
     check (first_error
       [store_check ctx,
        fails (ValidateTenant (kd_TenantID v) \<noteq> None \<or> \<not> ValidateText (kd_DocumentID v) 256 True
               \<or> \<not> ValidateText (kd_Content v) 0 True \<or> \<not> ValidateText (kd_Digest v) 128 False
               \<or> \<not> ValidateEmbedding (kd_Embedding v)) RErrInvalid,
        fails (unencodable clone (kd_Metadata v)) RErrInvalid]) s
     (let k = key [kd_TenantID v, kd_DocumentID v];
          (version, created) = (case get (st_knowledge s) k of
             Some existing \<Rightarrow> (kd_Version existing + 1, kd_CreatedAt existing) | None \<Rightarrow> (1, now));
          v' = v\<lparr>kd_Version := version, kd_CreatedAt := created, kd_UpdatedAt := now,
                 kd_Digest := (if kd_Digest v = [] then hash (kd_Content v) else kd_Digest v),
                 kd_Metadata := cloned_or_empty clone none (kd_Metadata v)\<rparr>;
          vectorKey = key [kd_TenantID v, VectorSourceKnowledge, kd_DocumentID v]
      in (Inr (cloneKnowledge clone v'),
          s\<lparr>st_knowledge := put k v' (st_knowledge s),
            st_vectors := (if kd_Embedding v \<noteq> [] then put vectorKey (knowledge_vector clone v') (st_vectors s)
                           else del vectorKey (st_vectors s))\<rparr>))"

definition GetKnowledge ::
  "('st \<Rightarrow> 'st option) \<Rightarrow> goctx \<Rightarrow> string \<Rightarrow> string \<Rightarrow> 'st runtime_store \<Rightarrow> rs_error + 'st knowledge_document" where
  "GetKnowledge clone ctx tenantID documentID s =
     ensure (first_error [store_check ctx, fails (ValidateTenant tenantID \<noteq> None \<or> documentID = []) RErrInvalid])
     (require (get (st_knowledge s) (key [tenantID, documentID])) RErrNotFound (\<lambda>v. Inr (cloneKnowledge clone v)))"

definition DeleteKnowledge ::
  "goctx \<Rightarrow> string \<Rightarrow> string \<Rightarrow> 'st runtime_store \<Rightarrow> (rs_error + unit) \<times> 'st runtime_store" where
  "DeleteKnowledge ctx tenantID documentID s =
     check (first_error
       [store_check ctx,
        fails (ValidateTenant tenantID \<noteq> None \<or> documentID = []) RErrInvalid,
        fails (get (st_knowledge s) (key [tenantID, documentID]) = None) RErrNotFound]) s
     (Inr (),
      s\<lparr>st_knowledge := del (key [tenantID, documentID]) (st_knowledge s),
        st_vectors := del (key [tenantID, VectorSourceKnowledge, documentID]) (st_vectors s)\<rparr>)"

subsection \<open>Artifacts\<close>

definition PutArtifact ::
  "goctx \<Rightarrow> artifact_record \<Rightarrow> (nat \<Rightarrow> instant) \<Rightarrow> 'st runtime_store
   \<Rightarrow> (rs_error + artifact_record) \<times> 'st runtime_store" where
  "PutArtifact ctx v clock s =
     check (first_error
       [store_check ctx,
        fails (ValidateTenant (art_TenantID v) \<noteq> None \<or> \<not> ValidateText (art_ArtifactID v) 256 True
               \<or> \<not> ValidateText (art_SessionID v) 256 False \<or> \<not> ValidateText (art_Name v) 512 False
               \<or> \<not> ValidateText (art_MimeType v) 256 False \<or> art_Content v = []) RErrInvalid]) s
     (let k = key [art_TenantID v, art_ArtifactID v];
          v' = (case get (st_artifacts s) k of
                  Some existing \<Rightarrow>
                    v\<lparr>art_Version := art_Version existing + 1, art_CreatedAt := art_CreatedAt existing,
                      art_UpdatedAt := clock 0\<rparr>
                | None \<Rightarrow> v\<lparr>art_Version := 1, art_CreatedAt := clock 0, art_UpdatedAt := clock 1\<rparr>)
      in (Inr v', s\<lparr>st_artifacts := put k v' (st_artifacts s)\<rparr>))"

definition GetArtifact ::
  "goctx \<Rightarrow> string \<Rightarrow> string \<Rightarrow> 'st runtime_store \<Rightarrow> rs_error + artifact_record" where
  "GetArtifact ctx tenantID artifactID s =
     ensure (first_error [store_check ctx, fails (ValidateTenant tenantID \<noteq> None \<or> artifactID = []) RErrInvalid])
     (require (get (st_artifacts s) (key [tenantID, artifactID])) RErrNotFound Inr)"

definition ListArtifacts ::
  "goctx \<Rightarrow> string \<Rightarrow> string \<Rightarrow> 'st runtime_store \<Rightarrow> rs_error + artifact_record list" where
  "ListArtifacts ctx tenantID sessionID s =
     ensure (first_error [store_check ctx, fails (ValidateTenant tenantID \<noteq> None) RErrInvalid])
     (Inr (sort_key art_ArtifactID
       (filter (\<lambda>v. art_TenantID v = tenantID \<and> (sessionID = [] \<or> art_SessionID v = sessionID))
          (map snd (st_artifacts s)))))"

definition DeleteArtifact ::
  "goctx \<Rightarrow> string \<Rightarrow> string \<Rightarrow> 'st runtime_store \<Rightarrow> (rs_error + unit) \<times> 'st runtime_store" where
  "DeleteArtifact ctx tenantID artifactID s =
     check (first_error
       [store_check ctx,
        fails (ValidateTenant tenantID \<noteq> None \<or> artifactID = []) RErrInvalid,
        fails (get (st_artifacts s) (key [tenantID, artifactID]) = None) RErrNotFound]) s
     (Inr (), s\<lparr>st_artifacts := del (key [tenantID, artifactID]) (st_artifacts s)\<rparr>)"

subsection \<open>Audit facts\<close>

definition cloneAudit :: "('st \<Rightarrow> 'st option) \<Rightarrow> 'st audit_record \<Rightarrow> 'st audit_record" where
  "cloneAudit clone v = v\<lparr>aurec_Payload := cloneMap clone (aurec_Payload v)\<rparr>"

definition AppendAudit ::
  "('st \<Rightarrow> 'st option) \<Rightarrow> 'st \<Rightarrow> goctx \<Rightarrow> 'st audit_record \<Rightarrow> string \<Rightarrow> instant \<Rightarrow> 'st runtime_store
   \<Rightarrow> (rs_error + 'st audit_record) \<times> 'st runtime_store" where
  "AppendAudit clone none ctx v uuid now s =
     check (first_error
       [store_check ctx,
        fails (ValidateTenant (aurec_TenantID v) \<noteq> None \<or> \<not> ValidateText (aurec_EventType v) 128 True
               \<or> \<not> ValidateText (aurec_AuditID v) 256 False) RErrInvalid,
        fails (unencodable clone (aurec_Payload v)) RErrInvalid]) s
     (let v' = v\<lparr>aurec_AuditID := (if aurec_AuditID v = [] then uuid else aurec_AuditID v),
                 aurec_OccurredAt := (if aurec_OccurredAt v = 0 then now else aurec_OccurredAt v)\<rparr>;
          rows = (case get (st_audits s) (aurec_TenantID v) of None \<Rightarrow> [] | Some rs \<Rightarrow> rs)
      in
      case find (\<lambda>row. aurec_AuditID row = aurec_AuditID v') rows of
        Some row \<Rightarrow>
          check (fails (aurec_Payload row \<noteq> aurec_Payload v \<or> aurec_EventType row \<noteq> aurec_EventType v) RErrConflict) s
          (Inr (cloneAudit clone row), s)
      | None \<Rightarrow>
          (let w = v'\<lparr>aurec_Payload := cloned_or_empty clone none (aurec_Payload v)\<rparr>
           in (Inr (cloneAudit clone w),
               s\<lparr>st_audits := put (aurec_TenantID v) (rows @ [w]) (st_audits s)\<rparr>)))"

definition ListAudit ::
  "('st \<Rightarrow> 'st option) \<Rightarrow> goctx \<Rightarrow> string \<Rightarrow> instant \<Rightarrow> int \<Rightarrow> 'st runtime_store
   \<Rightarrow> rs_error + 'st audit_record list" where
  "ListAudit clone ctx tenantID since limit s =
     ensure (first_error [store_check ctx, fails (ValidateTenant tenantID \<noteq> None \<or> limit < 0) RErrInvalid])
     (Inr (limited limit (sort_key (\<lambda>v. (aurec_OccurredAt v, aurec_AuditID v))
       (map (cloneAudit clone)
         (filter (\<lambda>row. since = 0 \<or> \<not> aurec_OccurredAt row < since)
            (case get (st_audits s) tenantID of None \<Rightarrow> [] | Some rs \<Rightarrow> rs))))))"

subsection \<open>Vectors\<close>

definition UpsertVector ::
  "('st \<Rightarrow> 'st option) \<Rightarrow> 'st \<Rightarrow> goctx \<Rightarrow> 'st vector_record \<Rightarrow> instant \<Rightarrow> 'st runtime_store
   \<Rightarrow> (rs_error + unit) \<times> 'st runtime_store" where
  "UpsertVector clone none ctx v now s =
     check (first_error
       [store_check ctx,
        fails (ValidateTenant (vec_TenantID v) \<noteq> None \<or> \<not> ValidateText (vec_DocumentID v) 256 True
               \<or> vec_Embedding v = [] \<or> \<not> ValidateEmbedding (vec_Embedding v)
               \<or> \<not> ValidateText (vec_Source v) 128 False) RErrInvalid,
        fails (unencodable clone (vec_Metadata v)) RErrInvalid]) s
     (let source = (if vec_Source v = [] then VectorSourceGeneric else vec_Source v);
          v' = v\<lparr>vec_Source := source, vec_Metadata := cloned_or_empty clone none (vec_Metadata v),
                 vec_Version := (if vec_Version v < 1 then 1 else vec_Version v),
                 vec_UpdatedAt := (if vec_UpdatedAt v = 0 then now else vec_UpdatedAt v)\<rparr>;
          k = key [vec_TenantID v, source, vec_DocumentID v]
      in
      check (first_error
        [fails (trim_space source = []) RErrInvalid,
         fails (case get (st_vectors s) k of None \<Rightarrow> False | Some existing \<Rightarrow> vec_Version existing > vec_Version v')
           RErrConflict]) s
      (Inr (), s\<lparr>st_vectors := put k v' (st_vectors s)\<rparr>))"

definition DeleteVector ::
  "goctx \<Rightarrow> string \<Rightarrow> string \<Rightarrow> 'st runtime_store \<Rightarrow> (rs_error + unit) \<times> 'st runtime_store" where
  "DeleteVector ctx tenantID documentID s =
     check (first_error
       [store_check ctx,
        fails (ValidateTenant tenantID \<noteq> None \<or> documentID = []) RErrInvalid,
        fails (\<not> list_ex (\<lambda>(k, v). vec_TenantID v = tenantID \<and> vec_DocumentID v = documentID) (st_vectors s))
          RErrNotFound]) s
     (Inr (),
      s\<lparr>st_vectors := filter (\<lambda>(k, v). \<not> (vec_TenantID v = tenantID \<and> vec_DocumentID v = documentID))
                        (st_vectors s)\<rparr>)"

subsection \<open>Objects\<close>

text \<open>A reader is nil, fails, or yields its bytes.\<close>

datatype object_reader = NilReader | FailingReader | Reader string

definition PutObject ::
  "(string \<Rightarrow> string) \<Rightarrow> goctx \<Rightarrow> string \<Rightarrow> string \<Rightarrow> object_reader \<Rightarrow> string \<Rightarrow> instant \<Rightarrow> 'st runtime_store
   \<Rightarrow> (rs_error + object_info) \<times> 'st runtime_store" where
  "PutObject hash ctx tenantID objectKey content contentType now s =
     check (first_error
       [store_check ctx,
        fails (ValidateTenant tenantID \<noteq> None \<or> \<not> ValidateText objectKey 1024 True
               \<or> \<not> ValidateText contentType 256 False \<or> content = NilReader) RErrInvalid]) s
     (case content of
        Reader data \<Rightarrow>
          (let k = key [tenantID, objectKey];
               v = \<lparr>obj_TenantID = tenantID, obj_ObjectKey = objectKey, obj_ContentType = contentType,
                    obj_Size = int (length data), obj_ETag = hash data,
                    obj_CreatedAt = (case get (st_objects s) k of Some existing \<Rightarrow> obj_CreatedAt existing
                                     | None \<Rightarrow> now)\<rparr>
           in (Inr v, s\<lparr>st_objectData := put k data (st_objectData s), st_objects := put k v (st_objects s)\<rparr>))
      | _ \<Rightarrow> (Inl RErrStorage, s))"

definition GetObject ::
  "goctx \<Rightarrow> string \<Rightarrow> string \<Rightarrow> 'st runtime_store \<Rightarrow> rs_error + string \<times> object_info" where
  "GetObject ctx tenantID objectKey s =
     ensure (first_error [store_check ctx, fails (ValidateTenant tenantID \<noteq> None \<or> objectKey = []) RErrInvalid])
     (require (get (st_objects s) (key [tenantID, objectKey])) RErrNotFound (\<lambda>v.
      Inr (case get (st_objectData s) (key [tenantID, objectKey]) of None \<Rightarrow> [] | Some data \<Rightarrow> data, v)))"

definition DeleteObject ::
  "goctx \<Rightarrow> string \<Rightarrow> string \<Rightarrow> 'st runtime_store \<Rightarrow> (rs_error + unit) \<times> 'st runtime_store" where
  "DeleteObject ctx tenantID objectKey s =
     check (first_error
       [store_check ctx,
        fails (ValidateTenant tenantID \<noteq> None \<or> objectKey = []) RErrInvalid,
        fails (get (st_objects s) (key [tenantID, objectKey]) = None) RErrNotFound]) s
     (Inr (),
      s\<lparr>st_objects := del (key [tenantID, objectKey]) (st_objects s),
        st_objectData := del (key [tenantID, objectKey]) (st_objectData s)\<rparr>)"

subsection \<open>The lifecycle of a shared backend\<close>

record backend_lifecycle =
  bl_refs :: int
  bl_closed :: bool

definition lifecycle_new :: backend_lifecycle where
  "lifecycle_new = \<lparr>bl_refs = 1, bl_closed = False\<rparr>"

definition lifecycle_retain :: "backend_lifecycle \<Rightarrow> bool \<times> backend_lifecycle" where
  "lifecycle_retain l = (if bl_closed l then (False, l) else (True, l\<lparr>bl_refs := bl_refs l + 1\<rparr>))"

text \<open>The result says whether this call closes the done channel.\<close>

definition lifecycle_release :: "backend_lifecycle \<Rightarrow> bool \<times> backend_lifecycle" where
  "lifecycle_release l =
     (let refs = (if bl_refs l > 0 then bl_refs l - 1 else bl_refs l) in
      if refs \<noteq> 0 \<or> bl_closed l then (False, l\<lparr>bl_refs := refs\<rparr>)
      else (True, \<lparr>bl_refs = refs, bl_closed = True\<rparr>))"

end
