(* ===== verification/Runtime_Steps.thy ===== *)
theory Runtime_Steps
  imports Runtime_Capabilities Contracts
begin

text \<open>
  The steps of the in-memory runtime store and its invariant. Every operation that changes the
  store is a step; each takes the lock once, so concurrent callers are sequences of steps. A
  live step is a step other than the deletion of a session, and a kept step one that does not
  delete the session it names.
\<close>

subsection \<open>Steps\<close>

text \<open>What the store takes from libraries, in one record.\<close>

record 'st store_env =
  env_clone :: "'st \<Rightarrow> 'st option"
  env_none :: 'st
  env_valid :: "string \<Rightarrow> bool"
  env_same :: "string \<Rightarrow> string \<Rightarrow> bool"
  env_hash :: "string \<Rightarrow> string"

inductive live_step :: "'st store_env \<Rightarrow> 'st runtime_store \<Rightarrow> 'st runtime_store \<Rightarrow> bool" for env where
  create: "CreateSession (env_clone env) ctx tid sid st now s = (x1, s') \<Longrightarrow> live_step env s s'"
| update: "UpdateSessionState (env_clone env) ctx tid sid v st now s = (x1, s') \<Longrightarrow> live_step env s s'"
| record_message: "RecordMessage ctx mi clock s = (x2, s') \<Longrightarrow> live_step env s s'"
| transition_message: "TransitionMessage ctx mt clock s = (x3, s') \<Longrightarrow> live_step env s s'"
| append_payload: "AppendEventPayload (env_valid env) (env_same env) ctx ep now s = (x4, s') \<Longrightarrow> live_step env s s'"
| enqueue_reply: "EnqueueReply ctx rp now s = (x5, s') \<Longrightarrow> live_step env s s'"
| enqueue_replies: "enqueueReplies ctx c rps now s = (x6, s') \<Longrightarrow> live_step env s s'"
| claim_reply: "ClaimReply ctx tid rid seg owner d clock s = (x5, s') \<Longrightarrow> live_step env s s'"
| transition_reply: "TransitionReply ctx rx clock s = (x5, s') \<Longrightarrow> live_step env s s'"
| put_memory: "PutMemory (env_clone env) (env_none env) ctx ended i uuid now s = (x7, s') \<Longrightarrow> live_step env s s'"
| delete_memory: "DeleteMemory ctx tid mid now s = (x0, s') \<Longrightarrow> live_step env s s'"
| enqueue_memory: "EnqueueMemoryIndex (env_clone env) ctx ended mem s = Some (x0, s') \<Longrightarrow> live_step env s s'"
| index: "indexWorker_turn (env_clone env) s = Some s' \<Longrightarrow> live_step env s s'"
| put_summary: "PutSummary ctx smr clock s = (x8, s') \<Longrightarrow> live_step env s s'"
| put_knowledge: "PutKnowledge (env_clone env) (env_none env) (env_hash env) ctx kd now s = (x9, s') \<Longrightarrow> live_step env s s'"
| delete_knowledge: "DeleteKnowledge ctx tid did s = (x0, s') \<Longrightarrow> live_step env s s'"
| put_artifact: "PutArtifact ctx art clock s = (x10, s') \<Longrightarrow> live_step env s s'"
| delete_artifact: "DeleteArtifact ctx tid aid s = (x0, s') \<Longrightarrow> live_step env s s'"
| append_audit: "AppendAudit (env_clone env) (env_none env) ctx au uuid now s = (x11, s') \<Longrightarrow> live_step env s s'"
| upsert_vector: "UpsertVector (env_clone env) (env_none env) ctx vec now s = (x0, s') \<Longrightarrow> live_step env s s'"
| delete_vector: "DeleteVector ctx tid did s = (x0, s') \<Longrightarrow> live_step env s s'"
| put_object: "PutObject (env_hash env) ctx tid ok content ct now s = (x12, s') \<Longrightarrow> live_step env s s'"
| delete_object: "DeleteObject ctx tid ok s = (x0, s') \<Longrightarrow> live_step env s s'"
| close: "live_step env s (s\<lparr>st_indexDone := True\<rparr>)"

inductive store_step :: "'st store_env \<Rightarrow> 'st runtime_store \<Rightarrow> 'st runtime_store \<Rightarrow> bool" for env where
  live: "live_step env s s' \<Longrightarrow> store_step env s s'"
| delete_session: "DeleteSession ctx tid sid s = (x0, s') \<Longrightarrow> store_step env s s'"

text \<open>A step that does not delete the session, while other sessions may be deleted.\<close>

definition kept_step :: "'st store_env \<Rightarrow> string \<Rightarrow> string \<Rightarrow> 'st runtime_store \<Rightarrow> 'st runtime_store \<Rightarrow> bool" where
  "kept_step env tid sid s s' \<longleftrightarrow> store_step env s s'
     \<and> (get (st_sessions s) (key [tid, sid]) \<noteq> None \<longrightarrow> get (st_sessions s') (key [tid, sid]) \<noteq> None)"

inductive store_reachable :: "'st store_env \<Rightarrow> 'st runtime_store \<Rightarrow> bool" for env where
  start: "store_reachable env store_New"
| step: "store_reachable env s \<Longrightarrow> store_step env s s' \<Longrightarrow> store_reachable env s'"

lemma store_reachable_star:
  "(store_step env)\<^sup>*\<^sup>* s s' \<Longrightarrow> store_reachable env s \<Longrightarrow> store_reachable env s'"
  by (induction rule: rtranclp_induct) (auto intro: store_reachable.step)

subsection \<open>What a step does to the conversation records\<close>

lemma store_ops_keep [wf_intros]:
  "keeps s (CreateSession clone ctx tid sid st now s)"
  "keeps s (UpdateSessionState clone ctx tid sid v st now s)"
  "keeps s (DeleteSession ctx tid sid s)"
  "keeps s (TransitionMessage ctx mt clock s)"
  "keeps s (enqueueReplies ctx c rps now s)"
  "keeps s (ClaimReply ctx tid rid seg owner d clock s)"
  "keeps s (TransitionReply ctx rx clock s)"
  by (simp_all add: CreateSession_def UpdateSessionState_def DeleteSession_def TransitionMessage_def
      enqueueReplies_def ClaimReply_def TransitionReply_def Let_def keeps_intros split: prod.split)

lemma store_ops_keep2 [wf_intros]:
  "keeps s (RecordMessage ctx mi clock s)"
  "keeps s (AppendEventPayload valid same ctx ep now s)"
  "keeps s (EnqueueReply ctx rp now s)"
  by (auto simp: RecordMessage_def AppendEventPayload_def EnqueueReply_def Let_def
      intro!: keeps_intros split: option.split)

text \<open>The conversation records: everything but the capability maps.\<close>

definition same_core :: "'st runtime_store \<Rightarrow> 'st runtime_store \<Rightarrow> bool" where
  "same_core s s' \<longleftrightarrow> st_sessions s' = st_sessions s \<and> st_events s' = st_events s
     \<and> st_histories s' = st_histories s \<and> st_messages s' = st_messages s \<and> st_replies s' = st_replies s
     \<and> st_correlations s' = st_correlations s"

lemma same_core_refl [simp]: "same_core s s"
  by (simp add: same_core_def)

lemma same_core_check:
  "check err s rest = (x, s') \<Longrightarrow> (rest = (x, s') \<Longrightarrow> same_core s s') \<Longrightarrow> same_core s s'"
  by (cases err) auto

lemma same_core_fetch:
  "fetch v e s rest' = (x, s') \<Longrightarrow> (\<And>w. rest' w = (x, s') \<Longrightarrow> same_core s s') \<Longrightarrow> same_core s s'"
  by (cases v) auto

lemma enqueueIndex_core: "enqueueIndex clone ended v s = Some (x, s') \<Longrightarrow> same_core s s'"
  by (auto simp: enqueueIndex_def same_core_def split: if_splits option.splits)

lemma PutMemory_core: "PutMemory clone none ctx ended i uuid now s = (x, s') \<Longrightarrow> same_core s s'"
  by (auto simp: PutMemory_def Let_def same_core_def enqueueIndex_def
      split: option.splits if_splits sum.splits prod.splits)

lemma capability_core:
  "DeleteMemory ctx tid mid now s = (x0, s') \<Longrightarrow> same_core s s'"
  "PutSummary ctx smr clock s = (x8, s') \<Longrightarrow> same_core s s'"
  "PutKnowledge clone none hash ctx kd now s = (x9, s') \<Longrightarrow> same_core s s'"
  "DeleteKnowledge ctx tid did s = (x0, s') \<Longrightarrow> same_core s s'"
  "PutArtifact ctx art clock s = (x10, s') \<Longrightarrow> same_core s s'"
  "DeleteArtifact ctx tid aid s = (x0, s') \<Longrightarrow> same_core s s'"
  "AppendAudit clone none ctx au uuid now s = (x11, s') \<Longrightarrow> same_core s s'"
  "UpsertVector clone none ctx vec now s = (x0, s') \<Longrightarrow> same_core s s'"
  "DeleteVector ctx tid did s = (x0, s') \<Longrightarrow> same_core s s'"
  "PutObject hash ctx tid ok content ct now s = (x12, s') \<Longrightarrow> same_core s s'"
  "DeleteObject ctx tid ok s = (x0, s') \<Longrightarrow> same_core s s'"
  by (auto simp: DeleteMemory_def PutSummary_def PutKnowledge_def DeleteKnowledge_def PutArtifact_def
      DeleteArtifact_def AppendAudit_def UpsertVector_def DeleteVector_def PutObject_def DeleteObject_def
      Let_def same_core_def elim!: same_core_check [unfolded same_core_def] same_core_fetch [unfolded same_core_def]
      split: option.splits prod.splits object_reader.splits)

lemma index_core: "indexWorker_turn clone s = Some s' \<Longrightarrow> same_core s s'"
  by (auto simp: indexWorker_turn_def index_record_def same_core_def Let_def
      split: if_splits list.splits option.splits)

lemma EnqueueMemoryIndex_core: "EnqueueMemoryIndex clone ctx ended v s = Some (x, s') \<Longrightarrow> same_core s s'"
  by (auto simp: EnqueueMemoryIndex_def dest: enqueueIndex_core split: option.splits if_splits)

subsection \<open>What a success says\<close>

lemma store_check_None [simp]: "store_check ctx = None \<longleftrightarrow> (\<exists>look. ctx = Some look \<and> look 0 = None)"
  by (auto simp: store_check_def split: option.splits)

lemma ValidateTenant_None [simp]: "ValidateTenant t = None \<longleftrightarrow> t \<noteq> []"
  by (simp add: ValidateTenant_def)

lemma ValidateSession_None [simp]: "ValidateSession t i = None \<longleftrightarrow> t \<noteq> [] \<and> i \<noteq> []"
  by (simp add: ValidateSession_def)

text \<open>A segment as it is stored when it is enqueued.\<close>

definition pending :: "instant \<Rightarrow> reply_outbox \<Rightarrow> reply_outbox" where
  "pending now v = v\<lparr>rp_Status := ReplyPending, rp_CreatedAt := now, rp_UpdatedAt := now\<rparr>"

lemma reply_key_pending [simp]: "reply_key (pending now v) = reply_key v"
  by (simp add: reply_key_def pending_def)

definition added :: "instant \<Rightarrow> reply_outbox list \<Rightarrow> (string, reply_outbox) gomap \<Rightarrow> string \<Rightarrow> reply_outbox option" where
  "added now vs m k = (case get m k of
     Some e \<Rightarrow> Some e
   | None \<Rightarrow> map_option (pending now) (find (\<lambda>v. reply_key v = k) vs))"

lemma enqueue_loop_get:
  "enqueue_loop now vs m = (res, m') \<Longrightarrow> get m' k = added now vs m k"
proof (induction vs arbitrary: m res)
  case Nil
  then show ?case by (auto simp: added_def split: option.split)
next
  case (Cons v vs)
  show ?case
  proof (cases "get m (reply_key v)")
    case None
    with Cons.prems obtain res' where
      "enqueue_loop now vs (put (reply_key v) (pending now v) m) = (res', m')"
      by (auto simp: Let_def pending_def split: prod.splits)
    from Cons.IH [OF this] None show ?thesis by (auto simp: added_def split: option.split)
  next
    case (Some e)
    with Cons.prems obtain res' where "enqueue_loop now vs m = (res', m')"
      by (auto simp: Let_def split: prod.splits)
    from Cons.IH [OF this] Some show ?thesis by (auto simp: added_def split: option.split)
  qed
qed

lemma enqueue_loop_keyed: "enqueue_loop now vs m = (res, m') \<Longrightarrow> well_keyed m \<Longrightarrow> well_keyed m'"
  by (induction vs arbitrary: m res) (auto simp: Let_def split: option.splits prod.splits)

lemma enqueue_loop_result:
  "enqueue_loop now vs m = (res, m') \<Longrightarrow> distinct (map reply_key vs)
   \<Longrightarrow> res = map (\<lambda>v. case get m (reply_key v) of Some e \<Rightarrow> e | None \<Rightarrow> pending now v) vs"
proof (induction vs arbitrary: m res)
  case Nil
  then show ?case by simp
next
  case (Cons v vs)
  show ?case
  proof (cases "get m (reply_key v)")
    case None
    with Cons.prems(1) obtain res' where
      l: "enqueue_loop now vs (put (reply_key v) (pending now v) m) = (res', m')" "res = pending now v # res'"
      by (auto simp: Let_def pending_def split: prod.splits)
    have "\<forall>w\<in>set vs. reply_key w \<noteq> reply_key v" using Cons.prems(2) by (auto simp: image_iff)
    with Cons.IH [OF l(1)] Cons.prems(2) None l(2) show ?thesis by (auto intro!: map_cong)
  next
    case (Some e)
    with Cons.prems(1) obtain res' where "enqueue_loop now vs m = (res', m')" "res = e # res'"
      by (auto simp: Let_def split: prod.splits)
    with Cons.IH [OF this(1)] Cons.prems(2) Some show ?thesis by simp
  qed
qed

text \<open>A batch that passes the check: one event, one target, the segments 0 to n - 1.\<close>

lemma batch_loop_Inr:
  "batch_loop first seen vs = Inr seen' \<longleftrightarrow>
     list_all (batch_value_ok first) vs \<and> distinct (map rp_SegmentIndex vs)
     \<and> set seen \<inter> set (map rp_SegmentIndex vs) = {} \<and> seen' = rev (map rp_SegmentIndex vs) @ seen"
  by (induction vs arbitrary: seen) auto

definition batch_ok :: "reply_outbox \<Rightarrow> reply_outbox list \<Rightarrow> bool" where
  "batch_ok first vs \<longleftrightarrow> vs \<noteq> [] \<and> first = hd vs \<and> list_all (batch_value_ok first) vs
     \<and> distinct (map rp_SegmentIndex vs)
     \<and> set (map rp_SegmentIndex vs) = {0..<rp_SegmentCount first}"

lemma validateReplyBatch_Inr: "validateReplyBatch vs = Inr first \<longleftrightarrow> batch_ok first vs"
proof (cases vs)
  case Nil
  then show ?thesis by (simp add: validateReplyBatch_def batch_ok_def)
next
  case (Cons v ws)
  let ?is = "map rp_SegmentIndex vs" and ?n = "rp_SegmentCount v"
  have "set ?is = {0..<?n} \<longleftrightarrow> int (length ?is) = ?n \<and> (\<forall>i\<in>{0..<?n}. i \<in> set ?is)"
    if ok: "list_all (batch_value_ok v) vs" and d: "distinct ?is"
  proof
    assume eq: "set ?is = {0..<?n}"
    have "0 \<le> ?n" using ok by (auto simp: Cons batch_value_ok_def)
    have "length ?is = card {0..<?n}" using distinct_card [OF d] eq by simp
    with eq \<open>0 \<le> ?n\<close> show "int (length ?is) = ?n \<and> (\<forall>i\<in>{0..<?n}. i \<in> set ?is)" by simp
  next
    assume r: "int (length ?is) = ?n \<and> (\<forall>i\<in>{0..<?n}. i \<in> set ?is)"
    have "set ?is \<subseteq> {0..<?n}" using ok by (auto simp: list_all_iff batch_value_ok_def)
    with r show "set ?is = {0..<?n}" by auto
  qed
  moreover have "list_all (\<lambda>i. i \<in> set js) (map int [0..<nat ?n]) \<longleftrightarrow> (\<forall>i\<in>{0..<?n}. i \<in> set js)" for js :: "int list"
  proof -
    have "set (map int [0..<nat ?n]) = {0..<?n}" by (simp add: image_int_atLeastLessThan)
    then show ?thesis by (simp only: list_all_iff)
  qed
  ultimately show ?thesis
    by (auto simp: validateReplyBatch_def batch_ok_def batch_loop_Inr Cons)
qed

lemma batch_ok_keys: "batch_ok first vs \<Longrightarrow> distinct (map reply_key vs)"
proof -
  assume "batch_ok first vs"
  then have d: "distinct (map rp_SegmentIndex vs)" and v: "\<forall>v\<in>set vs. batch_value_ok first v"
    by (auto simp: batch_ok_def list_all_iff)
  have "distinct vs" using d by (simp add: distinct_map)
  moreover have "inj_on reply_key (set vs)"
  proof (rule inj_onI)
    fix x y assume xy: "x \<in> set vs" "y \<in> set vs" "reply_key x = reply_key y"
    then have "rp_SegmentIndex x = rp_SegmentIndex y" by (simp add: reply_key_def)
    with xy d show "x = y" by (auto simp: distinct_map inj_on_def)
  qed
  ultimately show ?thesis by (simp add: distinct_map)
qed

text \<open>A segment that may be enqueued: complete, and to an event with the same target.\<close>

definition segment_ok :: "'st runtime_store \<Rightarrow> reply_outbox \<Rightarrow> bool" where
  "segment_ok s v \<longleftrightarrow> rp_TenantID v \<noteq> [] \<and> rp_ReplyID v \<noteq> [] \<and> rp_EventID v \<noteq> []
     \<and> 0 \<le> rp_SegmentIndex v \<and> rp_SegmentIndex v < rp_SegmentCount v
     \<and> (\<exists>e. get (st_events s) (key [rp_TenantID v, rp_EventID v]) = Some e \<and> ev_ReplyTarget e = rp_ReplyTarget v)"

definition replies_added :: "instant \<Rightarrow> reply_outbox list \<Rightarrow> 'st runtime_store \<Rightarrow> 'st runtime_store \<Rightarrow> bool" where
  "replies_added now vs s s' \<longleftrightarrow>
     st_sessions s' = st_sessions s \<and> st_events s' = st_events s \<and> st_histories s' = st_histories s
     \<and> st_messages s' = st_messages s
     \<and> (\<forall>k. get (st_replies s') k = added now vs (st_replies s) k)
     \<and> (well_keyed (st_replies s) \<longrightarrow> well_keyed (st_replies s'))
     \<and> list_all (segment_ok s) vs"

lemma enqueueReplies_ok:
  assumes "enqueueReplies ctx c vs now s = (Inr res, s')"
  shows "\<exists>first. batch_ok first vs \<and> replies_added now vs s s' \<and> validateExistingReplies (st_replies s) vs = None
    \<and> enqueue_loop now vs (st_replies s) = (res, st_replies s')"
proof -
  from assms obtain first e where b: "batch_ok first vs"
    and e: "get (st_events s) (key [rp_TenantID first, rp_EventID first]) = Some e"
      "ev_ReplyTarget e = rp_ReplyTarget first"
    and loop: "enqueue_loop now vs (st_replies s) = (res, st_replies s')"
    and x: "validateExistingReplies (st_replies s) vs = None"
    and s': "st_sessions s' = st_sessions s" "st_events s' = st_events s" "st_histories s' = st_histories s"
      "st_messages s' = st_messages s"
    by (auto simp: enqueueReplies_def validateReplyBatch_Inr split: prod.splits)
  have "segment_ok s v" if "v \<in> set vs" for v
  proof -
    from b that have "batch_value_ok first v" by (auto simp: batch_ok_def list_all_iff)
    with e show ?thesis by (auto simp: batch_value_ok_def segment_ok_def)
  qed
  with b loop x s' enqueue_loop_get [OF loop] enqueue_loop_keyed [OF loop] show ?thesis
    by (auto simp: replies_added_def list_all_iff)
qed

lemma EnqueueReply_ok:
  assumes "EnqueueReply ctx v now s = (Inr r, s')"
  shows "same_core s s' \<or> replies_added now [v] s s'"
proof -
  let ?k = "reply_key v"
  from assms have ok: "segment_ok s v"
    by (auto simp: EnqueueReply_def Let_def segment_ok_def)
  have st: "(if rp_Status v = [] then ReplyPending else rp_Status v) = ReplyPending"
    using assms by (simp add: EnqueueReply_def Let_def)
  have "s' = s \<or> (get (st_replies s) ?k = None \<and> s' = s\<lparr>st_replies := put ?k (pending now v) (st_replies s)\<rparr>)"
    using assms unfolding EnqueueReply_def Let_def st
    by (auto simp: reply_key_def pending_def split: option.splits)
  with ok show ?thesis by (auto simp: replies_added_def added_def split: option.splits)
qed

lemma live_step_cases:
  assumes "live_step env s s'"
  obtains (same) "same_core s s'"
  | (created) tid sid v where "tid \<noteq> []" "sid \<noteq> []" "get (st_sessions s) (key [tid, sid]) = None"
      "ses_TenantID v = tid" "ses_SessionID v = sid" "ses_Version v = 1"
      "s' = s\<lparr>st_sessions := put (key [tid, sid]) v (st_sessions s)\<rparr>"
  | (updated) k v v' where "get (st_sessions s) k = Some v" "ses_TenantID v' = ses_TenantID v"
      "ses_SessionID v' = ses_SessionID v" "ses_Version v' = ses_Version v + 1"
      "s' = s\<lparr>st_sessions := put k v' (st_sessions s)\<rparr>"
  | (recorded) i sess n1 n2 n3 where "record_fails i = None"
      "get (st_messages s) (key [mi_TenantID i, mi_BindingID i, mi_ExternalMessageID i]) = None"
      "get (st_events s) (key [mi_TenantID i, mi_EventID i]) = None"
      "get (st_sessions s) (key [mi_TenantID i, mi_SessionID i]) = Some sess"
      "s' = s\<lparr>st_sessions := put (key [mi_TenantID i, mi_SessionID i])
                 (sess\<lparr>ses_Version := ses_Version sess + 1, ses_UpdatedAt := n1\<rparr>) (st_sessions s),
               st_events := put (key [mi_TenantID i, mi_EventID i]) (new_event i (ses_Version sess + 1) n2 n3) (st_events s),
               st_messages := put (key [mi_TenantID i, mi_BindingID i, mi_ExternalMessageID i])
                 (key [mi_TenantID i, mi_EventID i]) (st_messages s)\<rparr>"
  | (message) t v n1 n2 n3 where "get (st_events s) (key [mt_TenantID t, mt_EventID t]) = Some v"
      "mt_Owner t \<noteq> []" "ev_Status v = mt_From t" "ValidateMessageTransition (mt_From t) (mt_To t)"
      "validateMessageLease v t n1 = None"
      "s' = s\<lparr>st_events := put (key [mt_TenantID t, mt_EventID t]) (applyMessageTransition v t n2 n3) (st_events s)\<rparr>"
  | (appended) p entries where "ep_TenantID p \<noteq> []" "ep_SessionID p \<noteq> []" "ep_EventID p \<noteq> []"
      "get (st_sessions s) (key [ep_TenantID p, ep_SessionID p]) \<noteq> None"
      "entries = (case get (st_histories s) (key [ep_TenantID p, ep_SessionID p]) of None \<Rightarrow> [] | Some es \<Rightarrow> es)"
      "\<forall>e\<in>set entries. ep_EventID e \<noteq> ep_EventID p" "ep_HistorySeq p = int (length entries) + 1"
      "s' = s\<lparr>st_histories := put (key [ep_TenantID p, ep_SessionID p]) (entries @ [p]) (st_histories s)\<rparr>"
  | (enqueued) now vs where "replies_added now vs s s'"
  | (reply) k v v' where "get (st_replies s) k = Some v" "rp_FencingToken v' = wrap64 (rp_FencingToken v + 1)"
      "reply_key v' = reply_key v" "rp_EventID v' = rp_EventID v"
      "rp_SegmentCount v' = rp_SegmentCount v" "rp_Payload v' = rp_Payload v" "rp_ReplyTarget v' = rp_ReplyTarget v"
      "rp_TenantID v' = rp_TenantID v" "rp_SegmentIndex v' = rp_SegmentIndex v"
      "rp_ReplyID v' = rp_ReplyID v"
      "ValidateTransition (rp_Status v) (rp_Status v') \<or> rp_Status v = ReplySending \<and> rp_Status v' = ReplySending"
      "rp_LeaseOwner v' \<noteq> []"
      "s' = s\<lparr>st_replies := put k v' (st_replies s)\<rparr>"
  using assms
proof cases
  case (create ctx tid sid st now x1)
  show thesis
  proof (cases x1)
    case (Inl e)
    with create keepsD [OF store_ops_keep(1)] same show thesis by (metis same_core_refl)
  next
    case (Inr v)
    show thesis
      by (rule created [of tid sid "\<lparr>ses_TenantID = tid, ses_SessionID = sid, ses_Status = SessionActive,
          ses_Version = 1, ses_State = cloneMap (env_clone env) st, ses_CreatedAt = now, ses_UpdatedAt = now\<rparr>"])
        (use create Inr in \<open>auto simp: CreateSession_def Let_def\<close>)
  qed
next
  case (update ctx tid sid ver st now x1)
  show thesis
  proof (cases x1)
    case (Inl e)
    with update keepsD [OF store_ops_keep(2)] same show thesis by (metis same_core_refl)
  next
    case (Inr v)
    with update obtain w where w: "get (st_sessions s) (key [tid, sid]) = Some w"
      "s' = s\<lparr>st_sessions := put (key [tid, sid]) (w\<lparr>ses_Version := ses_Version w + 1,
         ses_State := cloneMap (env_clone env) st, ses_UpdatedAt := now\<rparr>) (st_sessions s)\<rparr>"
      by (auto simp: UpdateSessionState_def Let_def)
    show thesis by (rule updated [OF w(1) _ _ _ w(2)]) simp_all
  qed
next
  case (record_message ctx mi clock x2)
  show thesis
  proof (cases x2)
    case (Inl e)
    with record_message keepsD [OF store_ops_keep2(1)] same show thesis by (metis same_core_refl)
  next
    case (Inr v)
    with record_message consider "s' = s" | sess where "record_fails mi = None"
      "get (st_messages s) (key [mi_TenantID mi, mi_BindingID mi, mi_ExternalMessageID mi]) = None"
      "get (st_events s) (key [mi_TenantID mi, mi_EventID mi]) = None"
      "get (st_sessions s) (key [mi_TenantID mi, mi_SessionID mi]) = Some sess"
      "s' = s\<lparr>st_sessions := put (key [mi_TenantID mi, mi_SessionID mi])
                 (sess\<lparr>ses_Version := ses_Version sess + 1, ses_UpdatedAt := clock 0\<rparr>) (st_sessions s),
               st_events := put (key [mi_TenantID mi, mi_EventID mi])
                 (new_event mi (ses_Version sess + 1) (clock 1) (clock 2)) (st_events s),
               st_messages := put (key [mi_TenantID mi, mi_BindingID mi, mi_ExternalMessageID mi])
                 (key [mi_TenantID mi, mi_EventID mi]) (st_messages s)\<rparr>"
      by (auto simp: RecordMessage_def Let_def split: option.splits)
    then show thesis by cases (use same recorded in auto)
  qed
next
  case (transition_message ctx mt clock x3)
  show thesis
  proof (cases x3)
    case (Inl e)
    with transition_message keepsD [OF store_ops_keep(4)] same show thesis by (metis same_core_refl)
  next
    case (Inr v)
    with transition_message obtain w where "get (st_events s) (key [mt_TenantID mt, mt_EventID mt]) = Some w"
      "mt_Owner mt \<noteq> []" "ev_Status w = mt_From mt" "ValidateMessageTransition (mt_From mt) (mt_To mt)"
      "validateMessageLease w mt (clock 0) = None"
      "s' = s\<lparr>st_events := put (key [mt_TenantID mt, mt_EventID mt])
         (applyMessageTransition w mt (clock 1) (clock 2)) (st_events s)\<rparr>"
      by (auto simp: TransitionMessage_def Let_def validateMessageTransition_def)
    then show thesis by (rule message)
  qed
next
  case (append_payload ctx ep now x4)
  show thesis
  proof (cases x4)
    case (Inl e)
    with append_payload keepsD [OF store_ops_keep2(2)] same show thesis by (metis same_core_refl)
  next
    case (Inr v)
    let ?k = "key [ep_TenantID ep, ep_SessionID ep]"
    let ?es = "case get (st_histories s) ?k of None \<Rightarrow> [] | Some es \<Rightarrow> es"
    let ?p = "ep\<lparr>ep_HistorySeq := int (length ?es) + 1, ep_CreatedAt := now\<rparr>"
    from append_payload Inr have "s' = s \<or> (find (\<lambda>e. ep_EventID e = ep_EventID ep) ?es = None
        \<and> s' = s\<lparr>st_histories := put ?k (?es @ [?p]) (st_histories s)\<rparr>)"
      "ep_TenantID ep \<noteq> []" "ep_SessionID ep \<noteq> []" "ep_EventID ep \<noteq> []" "get (st_sessions s) ?k \<noteq> None"
      by (auto simp: AppendEventPayload_def validatePayload_def Let_def split: option.splits)
    with same appended [of ?p ?es] show thesis by (auto simp: find_None_iff)
  qed
next
  case (enqueue_reply ctx rp now x5)
  show thesis
  proof (cases x5)
    case (Inl e)
    with enqueue_reply keepsD [OF store_ops_keep2(3)] same show thesis by (metis same_core_refl)
  next
    case (Inr v)
    with enqueue_reply EnqueueReply_ok same enqueued show thesis by blast
  qed
next
  case (enqueue_replies ctx c rps now x6)
  show thesis
  proof (cases x6)
    case (Inl e)
    with enqueue_replies keepsD [OF store_ops_keep(5)] same show thesis by (metis same_core_refl)
  next
    case (Inr v)
    with enqueue_replies enqueueReplies_ok enqueued show thesis by blast
  qed
next
  case (claim_reply ctx tid rid seg owner d clock x5)
  show thesis
  proof (cases x5)
    case (Inl e)
    with claim_reply keepsD [OF store_ops_keep(6)] same show thesis by (metis same_core_refl)
  next
    case (Inr v')
    with claim_reply obtain v where v: "get (st_replies s) (replyKey tid rid seg) = Some v"
      "rp_Status v = ReplyPending \<or> rp_Status v = ReplyRetryable \<or> rp_Status v = ReplySending" "owner \<noteq> []"
      "v' = v\<lparr>rp_Status := ReplySending, rp_Attempts := wrap64 (rp_Attempts v + 1),
           rp_FencingToken := wrap64 (rp_FencingToken v + 1), rp_LeaseOwner := owner,
           rp_LeaseExpiresAt := Some (clock 1 + d), rp_UpdatedAt := clock 2\<rparr>"
      "s' = s\<lparr>st_replies := put (replyKey tid rid seg) v' (st_replies s)\<rparr>"
      by (auto simp: ClaimReply_def Let_def reply_lease_expired_def)
    show thesis
      by (rule reply [OF v(1) _ _ _ _ _ _ _ _ _ _ _ v(5)])
        (use v(2,3) in \<open>auto simp: v(4) reply_key_def ValidateTransition_def\<close>)
  qed
next
  case (transition_reply ctx rx clock x5)
  show thesis
  proof (cases x5)
    case (Inl e)
    with transition_reply keepsD [OF store_ops_keep(7)] same show thesis by (metis same_core_refl)
  next
    case (Inr v')
    with transition_reply obtain v where v: "get (st_replies s) (replyKey (rx_TenantID rx) (rx_ReplyID rx) (rx_SegmentIndex rx)) = Some v"
      "ValidateTransition (rx_From rx) (rx_To rx)" "rp_Status v = rx_From rx" "rx_Owner rx \<noteq> []"
      "v' = applyReplyTransition v rx (clock 1) (clock 2)"
      "s' = s\<lparr>st_replies := put (replyKey (rx_TenantID rx) (rx_ReplyID rx) (rx_SegmentIndex rx)) v' (st_replies s)\<rparr>"
      by (auto simp: TransitionReply_def Let_def reply_transition_conflict_def)
    show thesis
      by (rule reply [OF v(1) _ _ _ _ _ _ _ _ _ _ _ v(6)])
        (use v(2-4) in \<open>auto simp: v(5) reply_key_def applyReplyTransition_def\<close>)
  qed
qed (rule same, (erule capability_core PutMemory_core index_core EnqueueMemoryIndex_core | simp add: same_core_def))+

end
