(* ===== verification/Runtime_Invariant.thy ===== *)
theory Runtime_Invariant
  imports Runtime_Steps
begin

text \<open>
  The invariant of the in-memory runtime store: the maps point at each other consistently, event
  numbers are unique in a session, leases are set exactly while an event runs, and histories
  are numbered without gaps. Every reachable store satisfies it.
\<close>

subsection \<open>The invariant\<close>

definition sessions_ok :: "'st runtime_store \<Rightarrow> bool" where
  "sessions_ok s \<longleftrightarrow> (\<forall>k v. get (st_sessions s) k = Some v \<longrightarrow>
     key [ses_TenantID v, ses_SessionID v] = k \<and> ses_TenantID v \<noteq> [] \<and> ses_SessionID v \<noteq> [] \<and> 1 \<le> ses_Version v)"

definition lease_ok :: "message_event \<Rightarrow> bool" where
  "lease_ok e \<longleftrightarrow> (if ev_Status e = EventRunning then ev_LeaseOwner e \<noteq> [] \<and> ev_LeaseExpiresAt e \<noteq> None
     else ev_LeaseOwner e = [] \<and> ev_LeaseExpiresAt e = None)"

definition event_ok :: "string \<Rightarrow> message_event \<Rightarrow> bool" where
  "event_ok k e \<longleftrightarrow> key [ev_TenantID e, ev_EventID e] = k \<and> ev_TenantID e \<noteq> [] \<and> ev_EventID e \<noteq> []
     \<and> in_int64 (ev_FencingToken e) \<and> lease_ok e"

definition events_ok :: "'st runtime_store \<Rightarrow> bool" where
  "events_ok s \<longleftrightarrow> well_keyed (st_events s) \<and> (\<forall>k e. get (st_events s) k = Some e \<longrightarrow> event_ok k e)"

text \<open>Events and deduplication entries correspond to each other.\<close>

definition messages_ok :: "'st runtime_store \<Rightarrow> bool" where
  "messages_ok s \<longleftrightarrow>
     (\<forall>k e. get (st_events s) k = Some e
        \<longrightarrow> get (st_messages s) (key [ev_TenantID e, ev_BindingID e, ev_ExternalMessageID e]) = Some k)
     \<and> (\<forall>u k. get (st_messages s) u = Some k
        \<longrightarrow> (\<exists>e. get (st_events s) k = Some e
              \<and> key [ev_TenantID e, ev_BindingID e, ev_ExternalMessageID e] = u))"

text \<open>The number of an event is a version that its session had, and no other event of it has it.\<close>

definition seqs_ok :: "'st runtime_store \<Rightarrow> bool" where
  "seqs_ok s \<longleftrightarrow>
     (\<forall>k e. get (st_events s) k = Some e \<longrightarrow>
        (\<exists>v. get (st_sessions s) (key [ev_TenantID e, ev_SessionID e]) = Some v
           \<and> 1 < ev_EventSeq e \<and> ev_EventSeq e \<le> ses_Version v))
     \<and> (\<forall>k e k' e'. get (st_events s) k = Some e \<and> get (st_events s) k' = Some e'
          \<and> ev_TenantID e = ev_TenantID e' \<and> ev_SessionID e = ev_SessionID e' \<and> ev_EventSeq e = ev_EventSeq e'
          \<longrightarrow> k = k')"

definition reply_ok :: "'st runtime_store \<Rightarrow> string \<Rightarrow> reply_outbox \<Rightarrow> bool" where
  "reply_ok s k r \<longleftrightarrow> reply_key r = k \<and> segment_ok s r
     \<and> rp_Status r \<in> {ReplyPending, ReplySending, ReplySent, ReplyRetryable, ReplyDeadLetter}"

definition replies_ok :: "'st runtime_store \<Rightarrow> bool" where
  "replies_ok s \<longleftrightarrow> well_keyed (st_replies s) \<and> (\<forall>k r. get (st_replies s) k = Some r \<longrightarrow> reply_ok s k r)"

definition history_ok :: "string \<Rightarrow> event_payload list \<Rightarrow> bool" where
  "history_ok k es \<longleftrightarrow> map ep_HistorySeq es = map int [1..<Suc (length es)] \<and> distinct (map ep_EventID es)
     \<and> (\<forall>p\<in>set es. key [ep_TenantID p, ep_SessionID p] = k)"

definition histories_ok :: "'st runtime_store \<Rightarrow> bool" where
  "histories_ok s \<longleftrightarrow> (\<forall>k es. get (st_histories s) k = Some es \<longrightarrow> get (st_sessions s) k \<noteq> None \<and> history_ok k es)"

definition store_ok :: "'st runtime_store \<Rightarrow> bool" where
  "store_ok s \<longleftrightarrow> sessions_ok s \<and> events_ok s \<and> messages_ok s \<and> seqs_ok s \<and> replies_ok s \<and> histories_ok s"

subsection \<open>Live steps keep it\<close>

lemma sessions_okD:
  "sessions_ok s \<Longrightarrow> get (st_sessions s) k = Some v \<Longrightarrow>
     key [ses_TenantID v, ses_SessionID v] = k \<and> ses_TenantID v \<noteq> [] \<and> ses_SessionID v \<noteq> [] \<and> 1 \<le> ses_Version v"
  by (simp add: sessions_ok_def)

lemma events_okD: "events_ok s \<Longrightarrow> get (st_events s) k = Some e \<Longrightarrow> event_ok k e"
  by (simp add: events_ok_def)

lemma replies_okD: "replies_ok s \<Longrightarrow> get (st_replies s) k = Some r \<Longrightarrow> reply_ok s k r"
  by (simp add: replies_ok_def)

lemma histories_okD:
  "histories_ok s \<Longrightarrow> get (st_histories s) k = Some es \<Longrightarrow> get (st_sessions s) k \<noteq> None \<and> history_ok k es"
  by (simp add: histories_ok_def)

lemma apply_fields [simp]:
  "ev_TenantID (applyMessageTransition v t n u) = ev_TenantID v"
  "ev_EventID (applyMessageTransition v t n u) = ev_EventID v"
  "ev_SessionID (applyMessageTransition v t n u) = ev_SessionID v"
  "ev_BindingID (applyMessageTransition v t n u) = ev_BindingID v"
  "ev_ExternalMessageID (applyMessageTransition v t n u) = ev_ExternalMessageID v"
  "ev_EventSeq (applyMessageTransition v t n u) = ev_EventSeq v"
  "ev_ReplyTarget (applyMessageTransition v t n u) = ev_ReplyTarget v"
  "ev_FencingToken (applyMessageTransition v t n u) = wrap64 (ev_FencingToken v + 1)"
  "ev_Status (applyMessageTransition v t n u) = mt_To t"
  by (simp_all add: applyMessageTransition_def Let_def)

lemma new_event_fields [simp]:
  "ev_TenantID (new_event i q c u) = mi_TenantID i" "ev_EventID (new_event i q c u) = mi_EventID i"
  "ev_SessionID (new_event i q c u) = mi_SessionID i" "ev_BindingID (new_event i q c u) = mi_BindingID i"
  "ev_ExternalMessageID (new_event i q c u) = mi_ExternalMessageID i" "ev_EventSeq (new_event i q c u) = q"
  "ev_ReplyTarget (new_event i q c u) = mi_ReplyTarget i"
  by (simp_all add: new_event_def)

lemma sessions_ok_put:
  "sessions_ok s \<Longrightarrow> st_sessions s' = put k v (st_sessions s) \<Longrightarrow> key [ses_TenantID v, ses_SessionID v] = k
   \<Longrightarrow> ses_TenantID v \<noteq> [] \<Longrightarrow> ses_SessionID v \<noteq> [] \<Longrightarrow> 1 \<le> ses_Version v \<Longrightarrow> sessions_ok s'"
  by (simp add: sessions_ok_def)

lemma live_sessions: "live_step env s s' \<Longrightarrow> sessions_ok s \<Longrightarrow> sessions_ok s'"
proof (erule live_step_cases)
  fix k v v'
  assume a: "sessions_ok s" "get (st_sessions s) k = Some v" "ses_TenantID v' = ses_TenantID v"
    "ses_SessionID v' = ses_SessionID v" "ses_Version v' = ses_Version v + 1"
    "s' = s\<lparr>st_sessions := put k v' (st_sessions s)\<rparr>"
  from sessions_okD [OF a(1,2)] a(3-6) show "sessions_ok s'"
    by (intro sessions_ok_put [OF a(1), of s' k v']) auto
next
  fix i :: message_event_input and sess :: "'a session" and n1 n2 n3
  assume a: "sessions_ok s" "get (st_sessions s) (key [mi_TenantID i, mi_SessionID i]) = Some sess"
    and s': "s' = s\<lparr>st_sessions := put (key [mi_TenantID i, mi_SessionID i])
                 (sess\<lparr>ses_Version := ses_Version sess + 1, ses_UpdatedAt := n1\<rparr>) (st_sessions s),
               st_events := put (key [mi_TenantID i, mi_EventID i]) (new_event i (ses_Version sess + 1) n2 n3) (st_events s),
               st_messages := put (key [mi_TenantID i, mi_BindingID i, mi_ExternalMessageID i])
                 (key [mi_TenantID i, mi_EventID i]) (st_messages s)\<rparr>"
  from sessions_okD [OF a] s' show "sessions_ok s'"
    by (intro sessions_ok_put [OF a(1), of s' "key [mi_TenantID i, mi_SessionID i]"
        "sess\<lparr>ses_Version := ses_Version sess + 1, ses_UpdatedAt := n1\<rparr>"]) auto
qed (simp_all add: sessions_ok_def same_core_def replies_added_def)

lemma live_events: "live_step env s s' \<Longrightarrow> events_ok s \<Longrightarrow> events_ok s'"
proof (erule live_step_cases)
  fix i :: message_event_input and sess :: "'a session" and n1 n2 n3
  assume a: "events_ok s" "record_fails i = None"
    and s': "s' = s\<lparr>st_sessions := put (key [mi_TenantID i, mi_SessionID i])
                 (sess\<lparr>ses_Version := ses_Version sess + 1, ses_UpdatedAt := n1\<rparr>) (st_sessions s),
               st_events := put (key [mi_TenantID i, mi_EventID i]) (new_event i (ses_Version sess + 1) n2 n3) (st_events s),
               st_messages := put (key [mi_TenantID i, mi_BindingID i, mi_ExternalMessageID i])
                 (key [mi_TenantID i, mi_EventID i]) (st_messages s)\<rparr>"
  have "event_ok (key [mi_TenantID i, mi_EventID i]) (new_event i q n2 n3)" for q
    using a(2) by (simp add: event_ok_def lease_ok_def record_fails_def new_event_def event_status_defs in_int64_def)
  with a s' show "events_ok s'" by (simp add: events_ok_def)
next
  fix t v n1 n2 n3
  assume a: "events_ok s" "get (st_events s) (key [mt_TenantID t, mt_EventID t]) = Some v" "mt_Owner t \<noteq> []"
    "s' = s\<lparr>st_events := put (key [mt_TenantID t, mt_EventID t]) (applyMessageTransition v t n2 n3) (st_events s)\<rparr>"
  from events_okD [OF a(1,2)] a(3)
  have "event_ok (key [mt_TenantID t, mt_EventID t]) (applyMessageTransition v t n2 n3)"
    by (auto simp: event_ok_def lease_ok_def applyMessageTransition_def Let_def wrap64_range)
  with a show "events_ok s'" by (simp add: events_ok_def)
qed (simp_all add: events_ok_def same_core_def replies_added_def)

lemma messages_okD:
  assumes "messages_ok s"
  shows "get (st_events s) k = Some e
      \<Longrightarrow> get (st_messages s) (key [ev_TenantID e, ev_BindingID e, ev_ExternalMessageID e]) = Some k"
    and "get (st_messages s) u = Some k
      \<Longrightarrow> \<exists>e. get (st_events s) k = Some e \<and> key [ev_TenantID e, ev_BindingID e, ev_ExternalMessageID e] = u"
  using assms by (simp_all add: messages_ok_def)

lemma messages_ok_cong:
  assumes "messages_ok s" and "st_events s' = st_events s" and "st_messages s' = st_messages s"
  shows "messages_ok s'"
  using assms(1) unfolding messages_ok_def assms(2,3) .

lemma live_messages: "live_step env s s' \<Longrightarrow> messages_ok s \<Longrightarrow> messages_ok s'"
proof (erule live_step_cases)
  fix i :: message_event_input and sess :: "'a session" and n1 n2 n3
  let ?u = "key [mi_TenantID i, mi_BindingID i, mi_ExternalMessageID i]" and ?k = "key [mi_TenantID i, mi_EventID i]"
  assume a: "messages_ok s" "get (st_messages s) ?u = None" "get (st_events s) ?k = None"
    and s': "s' = s\<lparr>st_sessions := put (key [mi_TenantID i, mi_SessionID i])
                 (sess\<lparr>ses_Version := ses_Version sess + 1, ses_UpdatedAt := n1\<rparr>) (st_sessions s),
               st_events := put ?k (new_event i (ses_Version sess + 1) n2 n3) (st_events s),
               st_messages := put ?u ?k (st_messages s)\<rparr>"
  show "messages_ok s'"
    unfolding messages_ok_def
  proof (intro conjI allI impI)
    fix k e
    assume e: "get (st_events s') k = Some e"
    show "get (st_messages s') (key [ev_TenantID e, ev_BindingID e, ev_ExternalMessageID e]) = Some k"
    proof (cases "k = ?k")
      case True
      with e s' show ?thesis by auto
    next
      case False
      with e s' have "get (st_events s) k = Some e" by simp
      from messages_okD(1) [OF a(1) this] a(2) s' show ?thesis by auto
    qed
  next
    fix u k
    assume u: "get (st_messages s') u = Some k"
    show "\<exists>e. get (st_events s') k = Some e \<and> key [ev_TenantID e, ev_BindingID e, ev_ExternalMessageID e] = u"
    proof (cases "u = ?u")
      case True
      with u s' show ?thesis by simp
    next
      case False
      with u s' have "get (st_messages s) u = Some k" by simp
      from messages_okD(2) [OF a(1) this] a(3) s' show ?thesis by auto
    qed
  qed
next
  fix t v n1 n2 n3
  assume a: "messages_ok s" "get (st_events s) (key [mt_TenantID t, mt_EventID t]) = Some v"
    and s': "s' = s\<lparr>st_events := put (key [mt_TenantID t, mt_EventID t]) (applyMessageTransition v t n2 n3) (st_events s)\<rparr>"
  show "messages_ok s'"
    unfolding messages_ok_def
  proof (intro conjI allI impI)
    fix k e
    assume "get (st_events s') k = Some e"
    with messages_okD(1) [OF a(1)] a(2) s'
    show "get (st_messages s') (key [ev_TenantID e, ev_BindingID e, ev_ExternalMessageID e]) = Some k"
      by (auto split: if_splits)
  next
    fix u k
    assume "get (st_messages s') u = Some k"
    with messages_okD(2) [OF a(1), of u k] a(2) s'
    show "\<exists>e. get (st_events s') k = Some e \<and> key [ev_TenantID e, ev_BindingID e, ev_ExternalMessageID e] = u"
      by auto
  qed
qed (erule messages_ok_cong; simp add: same_core_def replies_added_def)+

lemma seqs_okD:
  assumes "seqs_ok s"
  shows "get (st_events s) k = Some e \<Longrightarrow> \<exists>v. get (st_sessions s) (key [ev_TenantID e, ev_SessionID e]) = Some v
      \<and> 1 < ev_EventSeq e \<and> ev_EventSeq e \<le> ses_Version v"
    and "get (st_events s) k = Some e \<Longrightarrow> get (st_events s) k' = Some e' \<Longrightarrow> ev_TenantID e = ev_TenantID e'
      \<Longrightarrow> ev_SessionID e = ev_SessionID e' \<Longrightarrow> ev_EventSeq e = ev_EventSeq e' \<Longrightarrow> k = k'"
proof -
  show "get (st_events s) k = Some e \<Longrightarrow> \<exists>v. get (st_sessions s) (key [ev_TenantID e, ev_SessionID e]) = Some v
      \<and> 1 < ev_EventSeq e \<and> ev_EventSeq e \<le> ses_Version v"
    using assms by (simp add: seqs_ok_def)
  show "get (st_events s) k = Some e \<Longrightarrow> get (st_events s) k' = Some e' \<Longrightarrow> ev_TenantID e = ev_TenantID e'
      \<Longrightarrow> ev_SessionID e = ev_SessionID e' \<Longrightarrow> ev_EventSeq e = ev_EventSeq e' \<Longrightarrow> k = k'"
    using assms unfolding seqs_ok_def by blast
qed

text \<open>Sessions may move on as long as their versions do not go back.\<close>

lemma seqs_ok_sessions:
  assumes "seqs_ok s" and "st_events s' = st_events s"
    and "\<And>k v. get (st_sessions s) k = Some v \<Longrightarrow> \<exists>v'. get (st_sessions s') k = Some v' \<and> ses_Version v \<le> ses_Version v'"
  shows "seqs_ok s'"
proof -
  have "\<exists>v. get (st_sessions s') (key [ev_TenantID e, ev_SessionID e]) = Some v
      \<and> 1 < ev_EventSeq e \<and> ev_EventSeq e \<le> ses_Version v" if e: "get (st_events s) k = Some e" for k e
  proof -
    from seqs_okD(1) [OF assms(1) e] obtain v where v: "get (st_sessions s) (key [ev_TenantID e, ev_SessionID e]) = Some v"
      "1 < ev_EventSeq e" "ev_EventSeq e \<le> ses_Version v" by blast
    from assms(3) [OF v(1)] v(2,3) show ?thesis by fastforce
  qed
  with seqs_okD(2) [OF assms(1)] show ?thesis unfolding seqs_ok_def assms(2) by blast
qed

lemma seqs_ok_cong:
  assumes "seqs_ok s" and "st_events s' = st_events s" and "st_sessions s' = st_sessions s"
  shows "seqs_ok s'"
  using assms(1) unfolding seqs_ok_def assms(2,3) .

lemma live_seqs: "live_step env s s' \<Longrightarrow> sessions_ok s \<Longrightarrow> seqs_ok s \<Longrightarrow> seqs_ok s'"
proof (erule live_step_cases)
  fix tid sid v
  assume "seqs_ok s" "get (st_sessions s) (key [tid, sid]) = None"
    "s' = s\<lparr>st_sessions := put (key [tid, sid]) v (st_sessions s)\<rparr>"
  then show "seqs_ok s'" by (intro seqs_ok_sessions [of s s']) auto
next
  fix k v v'
  assume "seqs_ok s" "get (st_sessions s) k = Some v" "ses_Version v' = ses_Version v + 1"
    "s' = s\<lparr>st_sessions := put k v' (st_sessions s)\<rparr>"
  then show "seqs_ok s'" by (intro seqs_ok_sessions [of s s']) auto
next
  fix i :: message_event_input and sess :: "'a session" and n1 n2 n3
  let ?k = "key [mi_TenantID i, mi_EventID i]" and ?sk = "key [mi_TenantID i, mi_SessionID i]"
  let ?new = "new_event i (ses_Version sess + 1) n2 n3"
  assume a: "seqs_ok s" "get (st_sessions s) ?sk = Some sess" "get (st_events s) ?k = None" "sessions_ok s"
    and s': "s' = s\<lparr>st_sessions := put ?sk (sess\<lparr>ses_Version := ses_Version sess + 1, ses_UpdatedAt := n1\<rparr>) (st_sessions s),
               st_events := put ?k ?new (st_events s),
               st_messages := put (key [mi_TenantID i, mi_BindingID i, mi_ExternalMessageID i]) ?k (st_messages s)\<rparr>"
  define s1 where "s1 = s\<lparr>st_sessions := st_sessions s'\<rparr>"
  have s1: "seqs_ok s1"
    by (rule seqs_ok_sessions [OF a(1)]) (use a(2) in \<open>auto simp: s1_def s'\<close>)
  have old: "get (st_events s) k = Some e" if "get (st_events s') k = Some e" "k \<noteq> ?k" for k e
    using that by (simp add: s')
  have new: "e = ?new" if "get (st_events s') ?k = Some e" for e
    using that by (simp add: s')
  have less: "ev_EventSeq e < ev_EventSeq ?new" if "get (st_events s) k = Some e" "ev_TenantID e = mi_TenantID i"
      "ev_SessionID e = mi_SessionID i" for k e
    using seqs_okD(1) [OF a(1) that(1)] that(2,3) a(2) by auto
  show "seqs_ok s'"
    unfolding seqs_ok_def
  proof (intro conjI allI impI)
    fix k e
    assume e: "get (st_events s') k = Some e"
    show "\<exists>v. get (st_sessions s') (key [ev_TenantID e, ev_SessionID e]) = Some v
      \<and> 1 < ev_EventSeq e \<and> ev_EventSeq e \<le> ses_Version v"
    proof (cases "k = ?k")
      case True
      with new e sessions_okD [OF a(4,2)] show ?thesis by (auto simp: s')
    next
      case False
      with seqs_okD(1) [OF s1, of k e] old [OF e] show ?thesis by (simp add: s1_def)
    qed
  next
    fix k e k' e'
    assume b: "get (st_events s') k = Some e \<and> get (st_events s') k' = Some e'
          \<and> ev_TenantID e = ev_TenantID e' \<and> ev_SessionID e = ev_SessionID e' \<and> ev_EventSeq e = ev_EventSeq e'"
    consider "k = ?k" "k' = ?k" | "k = ?k" "k' \<noteq> ?k" | "k \<noteq> ?k" "k' = ?k" | "k \<noteq> ?k" "k' \<noteq> ?k" by blast
    then show "k = k'"
    proof cases
      case 2
      with b new old [of k' e'] less [of k' e'] show ?thesis by auto
    next
      case 3
      with b new old [of k e] less [of k e] show ?thesis by auto
    next
      case 4
      with b old seqs_okD(2) [OF a(1)] show ?thesis by blast
    qed simp
  qed
next
  fix t v n1 n2 n3
  assume a: "seqs_ok s" "get (st_events s) (key [mt_TenantID t, mt_EventID t]) = Some v"
    and s': "s' = s\<lparr>st_events := put (key [mt_TenantID t, mt_EventID t]) (applyMessageTransition v t n2 n3) (st_events s)\<rparr>"
  have e: "\<exists>e0. get (st_events s) k = Some e0 \<and> ev_TenantID e = ev_TenantID e0 \<and> ev_SessionID e = ev_SessionID e0
      \<and> ev_EventSeq e = ev_EventSeq e0" if "get (st_events s') k = Some e" for k e
    using that a(2) by (auto simp: s' split: if_splits)
  show "seqs_ok s'"
    unfolding seqs_ok_def
  proof (intro conjI allI impI)
    fix k e
    assume "get (st_events s') k = Some e"
    from e [OF this] seqs_okD(1) [OF a(1)]
    show "\<exists>v. get (st_sessions s') (key [ev_TenantID e, ev_SessionID e]) = Some v
      \<and> 1 < ev_EventSeq e \<and> ev_EventSeq e \<le> ses_Version v"
      by (fastforce simp: s')
  next
    fix k e k' e'
    assume b: "get (st_events s') k = Some e \<and> get (st_events s') k' = Some e'
          \<and> ev_TenantID e = ev_TenantID e' \<and> ev_SessionID e = ev_SessionID e' \<and> ev_EventSeq e = ev_EventSeq e'"
    from b e obtain e0 where e0: "get (st_events s) k = Some e0" "ev_TenantID e = ev_TenantID e0"
      "ev_SessionID e = ev_SessionID e0" "ev_EventSeq e = ev_EventSeq e0" by blast
    from b e obtain e1 where "get (st_events s) k' = Some e1" "ev_TenantID e' = ev_TenantID e1"
      "ev_SessionID e' = ev_SessionID e1" "ev_EventSeq e' = ev_EventSeq e1" by blast
    from seqs_okD(2) [OF a(1) e0(1) this(1)] this e0 b show "k = k'" by simp
  qed
qed (erule seqs_ok_cong; simp add: same_core_def replies_added_def)+

lemma live_event_kept:
  assumes "live_step env s s'" and "get (st_events s) k = Some e"
  shows "\<exists>e'. get (st_events s') k = Some e' \<and> ev_ReplyTarget e' = ev_ReplyTarget e
    \<and> ev_TenantID e' = ev_TenantID e \<and> ev_EventID e' = ev_EventID e \<and> ev_BindingID e' = ev_BindingID e
    \<and> ev_ExternalMessageID e' = ev_ExternalMessageID e \<and> ev_SessionID e' = ev_SessionID e
    \<and> ev_EventSeq e' = ev_EventSeq e
    \<and> ev_FencingToken e' \<in> {ev_FencingToken e, wrap64 (ev_FencingToken e + 1)}"
  using assms(1)
proof (cases rule: live_step_cases)
  case (recorded i sess n1 n2 n3)
  with assms(2) show ?thesis by auto
next
  case (message t v n1 n2 n3)
  with assms(2) show ?thesis by auto
qed (use assms(2) in \<open>simp_all add: same_core_def replies_added_def\<close>)

lemma segment_ok_live: "live_step env s s' \<Longrightarrow> segment_ok s v \<Longrightarrow> segment_ok s' v"
  using live_event_kept [of env s s'] unfolding segment_ok_def by metis

lemma reply_ok_live: "live_step env s s' \<Longrightarrow> reply_ok s k r \<Longrightarrow> reply_ok s' k r"
  using segment_ok_live [of env s s' r] by (simp add: reply_ok_def)

lemma replies_ok_same:
  assumes "live_step env s s'" and "replies_ok s" and "st_replies s' = st_replies s"
  shows "replies_ok s'"
  using assms(2) reply_ok_live [OF assms(1)] unfolding replies_ok_def assms(3) by blast

lemma live_replies:
  assumes l: "live_step env s s'" and ok: "replies_ok s"
  shows "replies_ok s'"
  using l
proof (cases rule: live_step_cases)
  case (enqueued now vs)
  have "reply_ok s' k r" if r: "get (st_replies s') k = Some r" for k r
  proof (cases "get (st_replies s) k")
    case None
    with r enqueued obtain v where "find (\<lambda>v. reply_key v = k) vs = Some v" "r = pending now v"
      by (auto simp: replies_added_def added_def)
    then have v: "v \<in> set vs" "reply_key v = k" "r = pending now v" by (auto simp: find_Some_iff)
    with enqueued have "segment_ok s v" by (auto simp: replies_added_def list_all_iff)
    from segment_ok_live [OF l this] v show ?thesis
      by (auto simp: reply_ok_def segment_ok_def pending_def reply_key_def)
  next
    case (Some r0)
    with r enqueued have "r = r0" by (simp add: replies_added_def added_def)
    with reply_ok_live [OF l replies_okD [OF ok Some]] show ?thesis by simp
  qed
  with ok enqueued show ?thesis by (simp add: replies_ok_def replies_added_def)
next
  case (reply k v v')
  have "reply_ok s k v" by (rule replies_okD [OF ok reply(1)])
  then have v': "reply_ok s k v'"
    using reply(3-11) by (auto simp: reply_ok_def segment_ok_def ValidateTransition_def split: if_splits)
  have "reply_ok s' j r" if "get (st_replies s') j = Some r" for j r
    using that reply(13) reply_ok_live [OF l v'] reply_ok_live [OF l replies_okD [OF ok, of j r]]
    by (auto split: if_splits)
  with ok reply(13) show ?thesis by (simp add: replies_ok_def)
qed (rule replies_ok_same [OF l ok], simp add: same_core_def)+

lemma histories_ok_sessions:
  assumes "histories_ok s" and "st_histories s' = st_histories s"
    and "\<And>k. get (st_sessions s) k \<noteq> None \<Longrightarrow> get (st_sessions s') k \<noteq> None"
  shows "histories_ok s'"
  using histories_okD [OF assms(1)] assms(3) unfolding histories_ok_def assms(2) by blast

lemma live_session_kept:
  assumes "live_step env s s'" and "get (st_sessions s) k = Some v"
  shows "\<exists>v'. get (st_sessions s') k = Some v' \<and> ses_Version v \<le> ses_Version v'"
  using assms(1)
  by (cases rule: live_step_cases) (use assms(2) in \<open>auto simp: same_core_def replies_added_def\<close>)

lemma live_histories:
  assumes l: "live_step env s s'" and ok: "histories_ok s"
  shows "histories_ok s'"
  using l
proof (cases rule: live_step_cases)
  case (appended p entries)
  let ?k = "key [ep_TenantID p, ep_SessionID p]"
  have "history_ok ?k entries"
  proof (cases "get (st_histories s) ?k")
    case None
    with appended(5) show ?thesis by (simp add: history_ok_def)
  next
    case (Some es)
    with histories_okD [OF ok Some] appended(5) show ?thesis by simp
  qed
  then have new: "history_ok ?k (entries @ [p])"
    using appended(6,7) by (auto simp: history_ok_def)
  show ?thesis
    unfolding histories_ok_def
  proof (intro allI impI)
    fix k es
    assume "get (st_histories s') k = Some es"
    with new appended(4,8) histories_okD [OF ok, of k es] show "get (st_sessions s') k \<noteq> None \<and> history_ok k es"
      by (cases "k = ?k") simp_all
  qed
qed (rule histories_ok_sessions [OF ok], simp add: same_core_def replies_added_def, use live_session_kept [OF l] in blast)+

lemma live_ok [wf_intros]: "live_step env s s' \<Longrightarrow> store_ok s \<Longrightarrow> store_ok s'"
  unfolding store_ok_def
  using live_sessions live_events live_messages live_seqs live_replies live_histories by blast

subsection \<open>Deleting a session keeps it\<close>

lemma get_fold_del: "get (fold (\<lambda>e. del (f e)) es m) k = (if k \<in> f ` set es then None else get m k)"
  by (induction es arbitrary: m) auto

definition in_session :: "string \<Rightarrow> string \<Rightarrow> message_event \<Rightarrow> bool" where
  "in_session tid sid e \<longleftrightarrow> ev_TenantID e = tid \<and> ev_SessionID e = sid"

lemma session_events_iff:
  "well_keyed m \<Longrightarrow> e \<in> set (session_events tid sid m) \<longleftrightarrow> in_session tid sid e \<and> (\<exists>k. get m k = Some e)"
  by (force simp: session_events_def in_session_def well_keyed_get_iff)

text \<open>What is left after a deletion.\<close>

lemma DeleteSession_ok:
  assumes "DeleteSession ctx tid sid s = (Inr u, s')" and ok: "events_ok s" "replies_ok s"
  shows "st_sessions s' = del (key [tid, sid]) (st_sessions s)
    \<and> st_histories s' = del (key [tid, sid]) (st_histories s)
    \<and> well_keyed (st_events s') \<and> well_keyed (st_replies s')
    \<and> (\<forall>k e. get (st_events s') k = Some e \<longleftrightarrow> get (st_events s) k = Some e \<and> \<not> in_session tid sid e)
    \<and> (\<forall>u k. get (st_messages s') u = Some k \<longleftrightarrow> get (st_messages s) u = Some k
         \<and> (\<forall>j e. get (st_events s) j = Some e \<and> in_session tid sid e
              \<longrightarrow> key [tid, ev_BindingID e, ev_ExternalMessageID e] \<noteq> u))
    \<and> (\<forall>k r. get (st_replies s') k = Some r \<longleftrightarrow> get (st_replies s) k = Some r
         \<and> \<not> (rp_TenantID r = tid \<and> (\<exists>j e. get (st_events s) j = Some e \<and> in_session tid sid e \<and> ev_EventID e = rp_EventID r)))"
proof -
  have wk: "well_keyed (st_events s)" "well_keyed (st_replies s)"
    using ok by (auto simp: events_ok_def replies_ok_def)
  let ?gone = "session_events tid sid (st_events s)"
  have s': "s' = s\<lparr>st_sessions := del (key [tid, sid]) (st_sessions s),
         st_histories := del (key [tid, sid]) (st_histories s),
         st_summaries := filter (\<lambda>(k, v). \<not> (sum_TenantID v = tid \<and> sum_SessionID v = sid)) (st_summaries s),
         st_events := filter (\<lambda>(k, e). \<not> (ev_TenantID e = tid \<and> ev_SessionID e = sid)) (st_events s),
         st_messages := fold (\<lambda>e. del (key [tid, ev_BindingID e, ev_ExternalMessageID e])) ?gone (st_messages s),
         st_replies := filter (\<lambda>(k, r). \<not> (rp_TenantID r = tid \<and> rp_EventID r \<in> set (map ev_EventID ?gone)))
                         (st_replies s)\<rparr>"
    using assms(1) by (auto simp: DeleteSession_def Let_def)
  have "get (st_events s') k = Some e \<longleftrightarrow> get (st_events s) k = Some e \<and> \<not> in_session tid sid e" for k e
    by (auto simp: s' get_filter [OF wk(1)] in_session_def split: option.split)
  moreover have "get (st_messages s') u = Some k \<longleftrightarrow> get (st_messages s) u = Some k
         \<and> (\<forall>j e. get (st_events s) j = Some e \<and> in_session tid sid e
              \<longrightarrow> key [tid, ev_BindingID e, ev_ExternalMessageID e] \<noteq> u)" for u k
  proof -
    have "u \<in> (\<lambda>e. key [tid, ev_BindingID e, ev_ExternalMessageID e]) ` set ?gone \<longleftrightarrow>
        (\<exists>j e. get (st_events s) j = Some e \<and> in_session tid sid e \<and> key [tid, ev_BindingID e, ev_ExternalMessageID e] = u)"
      unfolding image_iff Bex_def session_events_iff [OF wk(1)] by blast
    moreover have "st_messages s' = fold (\<lambda>e. del (key [tid, ev_BindingID e, ev_ExternalMessageID e])) ?gone (st_messages s)"
      by (simp add: s')
    ultimately show ?thesis by (simp only: get_fold_del split: if_split) blast
  qed
  moreover have "get (st_replies s') k = Some r \<longleftrightarrow> get (st_replies s) k = Some r
         \<and> \<not> (rp_TenantID r = tid \<and> (\<exists>j e. get (st_events s) j = Some e \<and> in_session tid sid e \<and> ev_EventID e = rp_EventID r))" for k r
  proof -
    have "rp_EventID r \<in> set (map ev_EventID ?gone) \<longleftrightarrow>
        (\<exists>j e. get (st_events s) j = Some e \<and> in_session tid sid e \<and> ev_EventID e = rp_EventID r)"
      unfolding set_map image_iff Bex_def session_events_iff [OF wk(1)] by metis
    moreover have "st_replies s' = filter (\<lambda>(k, r). \<not> (rp_TenantID r = tid \<and> rp_EventID r \<in> set (map ev_EventID ?gone)))
                         (st_replies s)"
      by (simp add: s')
    ultimately show ?thesis by (auto simp: get_filter [OF wk(2)] simp del: set_map split: option.split)
  qed
  ultimately show ?thesis using wk by (simp add: s')
qed

lemma delete_session_ok:
  assumes "DeleteSession ctx tid sid s = (Inr u, s')" and ok: "store_ok s"
  shows "store_ok s'"
proof -
  have oks: "sessions_ok s" "events_ok s" "messages_ok s" "seqs_ok s" "replies_ok s" "histories_ok s"
    using ok by (simp_all add: store_ok_def)
  note D = DeleteSession_ok [OF assms(1) oks(2,5)]
  have ev: "get (st_events s') k = Some e \<longleftrightarrow> get (st_events s) k = Some e \<and> \<not> in_session tid sid e" for k e
    using D by blast
  have msg: "get (st_messages s') u = Some k \<longleftrightarrow> get (st_messages s) u = Some k
      \<and> (\<forall>j e. get (st_events s) j = Some e \<and> in_session tid sid e
           \<longrightarrow> key [tid, ev_BindingID e, ev_ExternalMessageID e] \<noteq> u)" for u k
    using D by blast
  have rep: "get (st_replies s') k = Some r \<longleftrightarrow> get (st_replies s) k = Some r
      \<and> \<not> (rp_TenantID r = tid \<and> (\<exists>j e. get (st_events s) j = Some e \<and> in_session tid sid e \<and> ev_EventID e = rp_EventID r))" for k r
    using D by blast
  have ses: "get (st_sessions s') k = (if k = key [tid, sid] then None else get (st_sessions s) k)" for k
    using D by simp
  have "sessions_ok s'"
    using sessions_okD [OF oks(1)] unfolding sessions_ok_def ses by auto
  moreover have "events_ok s'"
    using D events_okD [OF oks(2)] unfolding events_ok_def ev by blast
  moreover have "messages_ok s'"
    unfolding messages_ok_def
  proof (intro conjI allI impI)
    fix k e
    assume e: "get (st_events s') k = Some e"
    then have e1: "get (st_events s) k = Some e" "\<not> in_session tid sid e" by (simp_all add: ev)
    note m = messages_okD(1) [OF oks(3) e1(1)]
    have "key [tid, ev_BindingID g, ev_ExternalMessageID g] \<noteq> key [ev_TenantID e, ev_BindingID e, ev_ExternalMessageID e]"
      if "get (st_events s) j = Some g" "in_session tid sid g" for j g
      using messages_okD(1) [OF oks(3) that(1)] m that e1 by (auto simp: in_session_def)
    with m show "get (st_messages s') (key [ev_TenantID e, ev_BindingID e, ev_ExternalMessageID e]) = Some k"
      unfolding msg by blast
  next
    fix u k
    assume "get (st_messages s') u = Some k"
    then have u: "get (st_messages s) u = Some k"
      "\<And>j g. get (st_events s) j = Some g \<Longrightarrow> in_session tid sid g \<Longrightarrow> key [tid, ev_BindingID g, ev_ExternalMessageID g] \<noteq> u"
      unfolding msg by blast+
    from messages_okD(2) [OF oks(3) u(1)] obtain e where e: "get (st_events s) k = Some e"
      "key [ev_TenantID e, ev_BindingID e, ev_ExternalMessageID e] = u" by blast
    with u(2) [OF e(1)] show "\<exists>e. get (st_events s') k = Some e \<and> key [ev_TenantID e, ev_BindingID e, ev_ExternalMessageID e] = u"
      by (auto simp: ev in_session_def)
  qed
  moreover have "seqs_ok s'"
  proof -
    have "get (st_sessions s') (key [ev_TenantID e, ev_SessionID e]) = get (st_sessions s) (key [ev_TenantID e, ev_SessionID e])"
      if "\<not> in_session tid sid e" for e
      using that by (auto simp: ses in_session_def)
    with seqs_okD [OF oks(4)] show ?thesis unfolding seqs_ok_def ev by metis
  qed
  moreover have "replies_ok s'"
  proof -
    have "reply_ok s' k r" if "get (st_replies s') k = Some r" for k r
    proof -
      from that have r: "get (st_replies s) k = Some r"
        "\<not> (rp_TenantID r = tid \<and> (\<exists>j e. get (st_events s) j = Some e \<and> in_session tid sid e \<and> ev_EventID e = rp_EventID r))"
        unfolding rep by blast+
      from replies_okD [OF oks(5) r(1)] obtain e where
        e: "get (st_events s) (key [rp_TenantID r, rp_EventID r]) = Some e" "ev_ReplyTarget e = rp_ReplyTarget r"
        by (auto simp: reply_ok_def segment_ok_def)
      from events_okD [OF oks(2) e(1)] have "ev_TenantID e = rp_TenantID r" "ev_EventID e = rp_EventID r"
        by (auto simp: event_ok_def)
      with r(2) e(1) have "\<not> in_session tid sid e" by (auto simp: in_session_def)
      with e replies_okD [OF oks(5) r(1)] show ?thesis by (auto simp: reply_ok_def segment_ok_def ev)
    qed
    with D show ?thesis by (simp add: replies_ok_def)
  qed
  moreover have "histories_ok s'"
  proof -
    have "get (st_histories s') k = Some es \<longleftrightarrow> k \<noteq> key [tid, sid] \<and> get (st_histories s) k = Some es" for k es
      using D by auto
    with histories_okD [OF oks(6)] show ?thesis unfolding histories_ok_def ses by auto
  qed
  ultimately show ?thesis by (simp add: store_ok_def)
qed

lemma store_step_ok [wf_intros]: "store_step env s s' \<Longrightarrow> store_ok s \<Longrightarrow> store_ok s'"
proof (erule store_step.cases)
  fix t t'
  assume "s = t" "s' = t'" "live_step env t t'" "store_ok s"
  then show "store_ok s'" by (blast intro: live_ok)
next
  fix ctx tid sid t x0 t'
  assume a: "s = t" "s' = t'" "DeleteSession ctx tid sid t = (x0, t')" "store_ok s"
  show "store_ok s'"
  proof (cases x0)
    case (Inl e)
    with a keepsD [OF store_ops_keep(3)] show ?thesis by metis
  next
    case (Inr u)
    with a delete_session_ok show ?thesis by metis
  qed
qed

lemma store_reachable_ok: "store_reachable env s \<Longrightarrow> store_ok s"
proof (induction rule: store_reachable.induct)
  case start
  show ?case
    by (simp add: store_ok_def sessions_ok_def events_ok_def messages_ok_def seqs_ok_def replies_ok_def
        histories_ok_def store_New_def)
next
  case (step s s')
  then show ?case by (blast intro: store_step_ok)
qed

end
