(* ===== verification/Runtime_Contracts.thy ===== *)
theory Runtime_Contracts
  imports Runtime_Invariant
begin

text \<open>
  What the in-memory runtime store promises its callers about a session that is not deleted,
  whatever happens to the other sessions: fenced leases on replies and on executions and
  optimistic locking of the session, as interpretations of the shared contracts.
\<close>

subsection \<open>The records of a session that is not deleted\<close>

lemma kept_step_cases:
  assumes "kept_step env tid sid s s'"
  obtains (live) "live_step env s s'" | (same) "s' = s"
  | (deleted) ctx tid' sid' u where "DeleteSession ctx tid' sid' s = (Inr u, s')"
      "get (st_sessions s) (key [tid, sid]) \<noteq> None \<Longrightarrow> (tid', sid') \<noteq> (tid, sid)"
proof -
  have step: "store_step env s s'" using assms by (simp add: kept_step_def)
  show thesis
    using step
  proof cases
    case live
    then show thesis by (rule that(1))
  next
    case (delete_session ctx tid' sid' x0)
    show thesis
    proof (cases x0)
      case (Inl e)
      with delete_session keepsD [OF store_ops_keep(3)] that(2) show thesis by metis
    next
      case (Inr u)
      with delete_session have d: "DeleteSession ctx tid' sid' s = (Inr u, s')" by simp
      then have "st_sessions s' = del (key [tid', sid']) (st_sessions s)" by (auto simp: DeleteSession_def Let_def)
      with assms have "(tid', sid') \<noteq> (tid, sid)" if "get (st_sessions s) (key [tid, sid]) \<noteq> None"
        using that by (auto simp: kept_step_def)
      with d show thesis by (rule that(3))
    qed
  qed
qed

text \<open>Steps from consistent states.\<close>

definition ok_step :: "('st runtime_store \<Rightarrow> 'st runtime_store \<Rightarrow> bool) \<Rightarrow> 'st runtime_store \<Rightarrow> 'st runtime_store \<Rightarrow> bool" where
  "ok_step step s s' \<longleftrightarrow> store_ok s \<and> step s s'"

lemma ok_step_star:
  assumes "step\<^sup>*\<^sup>* s s'" and "store_ok s" and "\<And>s s'. step s s' \<Longrightarrow> store_step env s s'"
  shows "(ok_step step)\<^sup>*\<^sup>* s s' \<and> store_ok s'"
  using assms(1)
proof (induction rule: rtranclp_induct)
  case base
  with assms(2) show ?case by simp
next
  case (step y z)
  then have "ok_step step y z" "store_ok z"
    using store_step_ok [OF assms(3)] by (auto simp: ok_step_def)
  with step show ?case by (auto intro: rtranclp.rtrancl_into_rtrancl)
qed

lemma kept_event:
  assumes "kept_step env tid sid s s'" and ok: "store_ok s"
    and e: "get (st_events s) k = Some e" "in_session tid sid e"
  shows "\<exists>e'. get (st_events s') k = Some e' \<and> in_session tid sid e' \<and> ev_EventID e' = ev_EventID e
    \<and> ev_BindingID e' = ev_BindingID e \<and> ev_ExternalMessageID e' = ev_ExternalMessageID e
    \<and> ev_EventSeq e' = ev_EventSeq e \<and> ev_FencingToken e' \<in> {ev_FencingToken e, wrap64 (ev_FencingToken e + 1)}"
  using assms(1)
proof (cases rule: kept_step_cases)
  case live
  from live_event_kept [OF this e(1)] e(2) show ?thesis by (auto simp: in_session_def)
next
  case same
  with e show ?thesis by simp
next
  case (deleted ctx tid' sid' u)
  have oks: "events_ok s" "replies_ok s" "seqs_ok s" using ok by (simp_all add: store_ok_def)
  have "get (st_sessions s) (key [tid, sid]) \<noteq> None"
    using seqs_okD(1) [OF oks(3) e(1)] e(2) by (auto simp: in_session_def)
  from deleted(2) [OF this] e(2) have "\<not> in_session tid' sid' e" by (auto simp: in_session_def)
  with DeleteSession_ok [OF deleted(1) oks(1,2)] e have "get (st_events s') k = Some e" by blast
  with e(2) show ?thesis by simp
qed

lemma kept_event_new:
  assumes "kept_step env tid sid s s'" and ok: "store_ok s"
    and e': "get (st_events s') k = Some e'" "in_session tid sid e'"
  shows "(\<exists>e. get (st_events s) k = Some e \<and> in_session tid sid e) \<or> ev_FencingToken e' = 0"
  using assms(1)
proof (cases rule: kept_step_cases)
  case live
  show ?thesis
  proof (cases "get (st_events s) k")
    case (Some e)
    from live_event_kept [OF live this] Some e' show ?thesis by (auto simp: in_session_def)
  next
    case None
    with live e' show ?thesis
      by (cases rule: live_step_cases)
         (auto simp: same_core_def replies_added_def new_event_def split: if_splits)
  qed
next
  case same
  with e' show ?thesis by simp
next
  case (deleted ctx tid' sid' u)
  have oks: "events_ok s" "replies_ok s" using ok by (simp_all add: store_ok_def)
  from DeleteSession_ok [OF deleted(1) oks] e' show ?thesis by blast
qed

lemma kept_star_event:
  assumes "(kept_step env tid sid)\<^sup>*\<^sup>* s s'" and "store_ok s"
    and "get (st_events s) k = Some e" and "in_session tid sid e"
  shows "store_ok s' \<and> (\<exists>e'. get (st_events s') k = Some e' \<and> in_session tid sid e' \<and> ev_EventID e' = ev_EventID e
    \<and> ev_BindingID e' = ev_BindingID e \<and> ev_ExternalMessageID e' = ev_ExternalMessageID e
    \<and> ev_EventSeq e' = ev_EventSeq e)"
  using assms(1)
proof (induction rule: rtranclp_induct)
  case base
  with assms(2-4) show ?case by blast
next
  case (step y z)
  then obtain e1 where y: "store_ok y" and e1: "get (st_events y) k = Some e1" "in_session tid sid e1"
    "ev_EventID e1 = ev_EventID e" "ev_BindingID e1 = ev_BindingID e"
    "ev_ExternalMessageID e1 = ev_ExternalMessageID e" "ev_EventSeq e1 = ev_EventSeq e" by blast
  have "store_ok z" using store_step_ok [of env y z] step(2) y by (simp add: kept_step_def)
  with kept_event [OF step(2) y e1(1,2)] e1(3-6) show ?case by auto
qed

text \<open>The reply is one to an event of the session.\<close>

definition reply_of :: "string \<Rightarrow> string \<Rightarrow> 'st runtime_store \<Rightarrow> reply_outbox \<Rightarrow> bool" where
  "reply_of tid sid s r \<longleftrightarrow> (\<exists>e. get (st_events s) (key [rp_TenantID r, rp_EventID r]) = Some e \<and> in_session tid sid e)"

lemma live_reply_kept:
  assumes "live_step env s s'" and "get (st_replies s) k = Some r"
  shows "\<exists>r'. get (st_replies s') k = Some r' \<and> rp_TenantID r' = rp_TenantID r \<and> rp_EventID r' = rp_EventID r
    \<and> rp_FencingToken r' \<in> {rp_FencingToken r, wrap64 (rp_FencingToken r + 1)}"
  using assms(1)
proof (cases rule: live_step_cases)
  case (enqueued now vs)
  with assms(2) show ?thesis by (auto simp: replies_added_def added_def)
next
  case (reply k' v v')
  with assms(2) show ?thesis by (cases "k' = k") auto
qed (use assms(2) in \<open>auto simp: same_core_def\<close>)

lemma kept_reply:
  assumes "kept_step env tid sid s s'" and ok: "store_ok s"
    and r: "get (st_replies s) k = Some r" "reply_of tid sid s r"
  shows "\<exists>r'. get (st_replies s') k = Some r' \<and> reply_of tid sid s' r'
    \<and> rp_FencingToken r' \<in> {rp_FencingToken r, wrap64 (rp_FencingToken r + 1)}"
proof -
  obtain e where e: "get (st_events s) (key [rp_TenantID r, rp_EventID r]) = Some e" "in_session tid sid e"
    using r(2) by (auto simp: reply_of_def)
  from kept_event [OF assms(1) ok e] obtain e' where
    e': "get (st_events s') (key [rp_TenantID r, rp_EventID r]) = Some e'" "in_session tid sid e'" by blast
  have "\<exists>r'. get (st_replies s') k = Some r' \<and> rp_TenantID r' = rp_TenantID r \<and> rp_EventID r' = rp_EventID r
    \<and> rp_FencingToken r' \<in> {rp_FencingToken r, wrap64 (rp_FencingToken r + 1)}"
    using assms(1)
  proof (cases rule: kept_step_cases)
    case live
    then show ?thesis by (rule live_reply_kept [OF _ r(1)])
  next
    case same
    with r(1) show ?thesis by simp
  next
    case (deleted ctx tid' sid' u)
    have oks: "events_ok s" "replies_ok s" using ok by (simp_all add: store_ok_def)
    note D = DeleteSession_ok [OF deleted(1) oks]
    from D e' e(1) have kept: "\<not> in_session tid' sid' e" by (metis option.inject)
    have "\<not> (\<exists>j g. get (st_events s) j = Some g \<and> in_session tid' sid' g \<and> ev_EventID g = rp_EventID r)"
      if "rp_TenantID r = tid'"
    proof
      assume "\<exists>j g. get (st_events s) j = Some g \<and> in_session tid' sid' g \<and> ev_EventID g = rp_EventID r"
      then obtain j g where g: "get (st_events s) j = Some g" "in_session tid' sid' g" "ev_EventID g = rp_EventID r" by blast
      with events_okD [OF oks(1) g(1)] that e(1) have "g = e" by (auto simp: event_ok_def in_session_def)
      with kept g(2) show False by simp
    qed
    with D r(1) have "get (st_replies s') k = Some r" by blast
    then show ?thesis by simp
  qed
  with e' show ?thesis unfolding reply_of_def by metis
qed

lemma kept_star_reply:
  assumes "(kept_step env tid sid)\<^sup>*\<^sup>* s s'" and "store_ok s" and "get (st_replies s) k = Some r" and "reply_of tid sid s r"
  shows "store_ok s' \<and> (\<exists>r'. get (st_replies s') k = Some r' \<and> reply_of tid sid s' r')"
  using assms(1)
proof (induction rule: rtranclp_induct)
  case base
  with assms(2-4) show ?case by blast
next
  case (step y z)
  then obtain r1 where y: "store_ok y" and r1: "get (st_replies y) k = Some r1" "reply_of tid sid y r1" by blast
  have "store_ok z" using store_step_ok [of env y z] step(2) y by (simp add: kept_step_def)
  with kept_reply [OF step(2) y r1] show ?case by blast
qed

lemma kept_session:
  assumes "kept_step env tid sid s s'" and "get (st_sessions s) (key [tid, sid]) = Some v"
  shows "\<exists>v'. get (st_sessions s') (key [tid, sid]) = Some v' \<and> ses_Version v \<le> ses_Version v'"
  using assms(1)
proof (cases rule: kept_step_cases)
  case live
  then show ?thesis by (rule live_session_kept [OF _ assms(2)])
next
  case same
  with assms(2) show ?thesis by simp
next
  case (deleted ctx tid' sid' u)
  then have "st_sessions s' = del (key [tid', sid']) (st_sessions s)" by (auto simp: DeleteSession_def Let_def)
  with deleted(2) assms(2) show ?thesis by auto
qed

subsection \<open>Fencing of replies\<close>

text \<open>
  Tokens are 64-bit integers and the first token of a segment is the caller's. A token has room
  when it is not negative and the next one does not wrap around.
\<close>

definition token_room :: "int \<Rightarrow> bool" where
  "token_room f \<longleftrightarrow> 0 \<le> f \<and> f < 2 ^ 63 - 1"

lemma token_room_next: "token_room f \<Longrightarrow> wrap64 (f + 1) = f + 1"
  by (rule wrap64_id) (simp add: token_room_def in_int64_def)

definition reply_room :: "string \<Rightarrow> 'st runtime_store \<Rightarrow> bool" where
  "reply_room k s \<longleftrightarrow> (case get (st_replies s) k of None \<Rightarrow> True | Some r \<Rightarrow> token_room (rp_FencingToken r))"

text \<open>A step that neither deletes the session nor takes the token of the segment out of its range.\<close>

definition delivery_step ::
  "'st store_env \<Rightarrow> string \<Rightarrow> string \<Rightarrow> string \<Rightarrow> 'st runtime_store \<Rightarrow> 'st runtime_store \<Rightarrow> bool" where
  "delivery_step env tid sid k s s' \<longleftrightarrow> kept_step env tid sid s s' \<and> reply_room k s"

definition reply_fence :: "string \<Rightarrow> string \<Rightarrow> string \<Rightarrow> 'st runtime_store \<Rightarrow> unit \<Rightarrow> int" where
  "reply_fence tid sid k s u = (case get (st_replies s) k of
     None \<Rightarrow> 0 | Some r \<Rightarrow> if reply_of tid sid s r then max 0 (rp_FencingToken r) else 0)"

definition reply_claimed ::
  "string \<Rightarrow> string \<Rightarrow> string \<Rightarrow> 'st runtime_store \<Rightarrow> unit \<Rightarrow> int \<Rightarrow> 'st runtime_store \<Rightarrow> bool" where
  "reply_claimed tid sid k s u f s' \<longleftrightarrow> store_ok s \<and> reply_room k s
     \<and> (\<exists>v. get (st_replies s) k = Some v \<and> reply_of tid sid s v)
     \<and> (\<exists>ctx tid' rid seg owner d clock r. k = replyKey tid' rid seg
          \<and> ClaimReply ctx tid' rid seg owner d clock s = (Inr r, s') \<and> rp_FencingToken r = f)"

definition reply_committed ::
  "string \<Rightarrow> string \<Rightarrow> string \<Rightarrow> 'st runtime_store \<Rightarrow> unit \<Rightarrow> int \<Rightarrow> 'st runtime_store \<Rightarrow> bool" where
  "reply_committed tid sid k s u f s' \<longleftrightarrow> 0 < f
     \<and> (\<exists>v. get (st_replies s) k = Some v \<and> reply_of tid sid s v)
     \<and> (\<exists>ctx t clock r. k = replyKey (rx_TenantID t) (rx_ReplyID t) (rx_SegmentIndex t)
          \<and> TransitionReply ctx t clock s = (Inr r, s') \<and> rx_FencingToken t = f)"

lemma ClaimReply_ok:
  assumes "ClaimReply ctx tid rid seg owner d clock s = (Inr r, s')"
  shows "\<exists>v. get (st_replies s) (replyKey tid rid seg) = Some v \<and> rp_FencingToken r = wrap64 (rp_FencingToken v + 1)
    \<and> get (st_replies s') (replyKey tid rid seg) = Some r \<and> rp_TenantID r = rp_TenantID v \<and> rp_EventID r = rp_EventID v
    \<and> st_events s' = st_events s \<and> st_sessions s' = st_sessions s"
  using assms by (auto simp: ClaimReply_def Let_def)

lemma TransitionReply_ok:
  assumes "TransitionReply ctx t clock s = (Inr r, s')"
  shows "\<exists>v. get (st_replies s) (replyKey (rx_TenantID t) (rx_ReplyID t) (rx_SegmentIndex t)) = Some v
    \<and> (rx_FencingToken t = 0 \<or> rp_FencingToken v = rx_FencingToken t) \<and> rp_Status v = rx_From t"
  using assms by (auto simp: TransitionReply_def Let_def reply_transition_conflict_def)

lemma claim_kept:
  assumes "ClaimReply ctx tid' rid seg owner d clock s = (x, s')"
  shows "kept_step env tid sid s s'"
  unfolding kept_step_def
proof
  have l: "live_step env s s'" using assms by (rule live_step.claim_reply)
  then show "store_step env s s'" by (rule store_step.live)
  show "get (st_sessions s) (key [tid, sid]) \<noteq> None \<longrightarrow> get (st_sessions s') (key [tid, sid]) \<noteq> None"
    using live_session_kept [OF l] by blast
qed

lemma delivery_fence:
  assumes "ok_step (delivery_step env tid sid k) s s'"
  shows "reply_fence tid sid k s u \<le> reply_fence tid sid k s' u"
proof (cases "\<exists>r. get (st_replies s) k = Some r \<and> reply_of tid sid s r")
  case True
  then obtain r where r: "get (st_replies s) k = Some r" "reply_of tid sid s r" by blast
  have st: "kept_step env tid sid s s'" "store_ok s" "token_room (rp_FencingToken r)"
    using assms r(1) by (auto simp: ok_step_def delivery_step_def reply_room_def)
  from kept_reply [OF st(1,2) r] token_room_next [OF st(3)] r show ?thesis by (auto simp: reply_fence_def)
qed (auto simp: reply_fence_def split: option.splits)

interpretation reply_fencing: fenced "ok_step (delivery_step env tid sid k)" "reply_fence tid sid k"
    "reply_claimed tid sid k" "reply_committed tid sid k"
  for env tid sid k
proof
  show "ok_step (delivery_step env tid sid k) s s' \<Longrightarrow> reply_fence tid sid k s u \<le> reply_fence tid sid k s' u"
    for s s' :: "'a runtime_store" and u
    by (rule delivery_fence)
  show "reply_claimed tid sid k s u f s' \<Longrightarrow> ok_step (delivery_step env tid sid k) s s'" for s s' u f
    by (auto simp: reply_claimed_def ok_step_def delivery_step_def intro: claim_kept)
  show "reply_claimed tid sid k s u f s' \<Longrightarrow> reply_fence tid sid k s u < f" for s s' :: "'a runtime_store" and u f
    by (auto simp: reply_claimed_def reply_fence_def reply_room_def token_room_next dest!: ClaimReply_ok)
       (auto simp: token_room_def)
  show "reply_claimed tid sid k s u f s' \<Longrightarrow> reply_fence tid sid k s' u = f" for s s' :: "'a runtime_store" and u f
    by (auto simp: reply_claimed_def reply_fence_def reply_room_def reply_of_def token_room_next dest!: ClaimReply_ok)
       (auto simp: token_room_def)
  show "reply_committed tid sid k s u f s' \<Longrightarrow> reply_fence tid sid k s u = f" for s s' :: "'a runtime_store" and u f
    by (auto simp: reply_committed_def reply_fence_def dest!: TransitionReply_ok)
qed

subsection \<open>Fencing of executions\<close>

definition event_room :: "string \<Rightarrow> 'st runtime_store \<Rightarrow> bool" where
  "event_room k s \<longleftrightarrow> (case get (st_events s) k of None \<Rightarrow> True | Some e \<Rightarrow> token_room (ev_FencingToken e))"

text \<open>A step that neither deletes the session nor takes the token of the event out of its range.\<close>

definition execution_step ::
  "'st store_env \<Rightarrow> string \<Rightarrow> string \<Rightarrow> string \<Rightarrow> 'st runtime_store \<Rightarrow> 'st runtime_store \<Rightarrow> bool" where
  "execution_step env tid sid k s s' \<longleftrightarrow> kept_step env tid sid s s' \<and> event_room k s"

definition event_fence :: "string \<Rightarrow> string \<Rightarrow> string \<Rightarrow> 'st runtime_store \<Rightarrow> unit \<Rightarrow> int" where
  "event_fence tid sid k s u = (case get (st_events s) k of
     None \<Rightarrow> 0 | Some e \<Rightarrow> if in_session tid sid e then ev_FencingToken e else 0)"

definition execution_started ::
  "string \<Rightarrow> string \<Rightarrow> string \<Rightarrow> 'st runtime_store \<Rightarrow> unit \<Rightarrow> int \<Rightarrow> 'st runtime_store \<Rightarrow> bool" where
  "execution_started tid sid k s u f s' \<longleftrightarrow> store_ok s \<and> event_room k s
     \<and> (\<exists>v. get (st_events s) k = Some v \<and> in_session tid sid v)
     \<and> (\<exists>ctx t clock e. k = key [mt_TenantID t, mt_EventID t]
          \<and> TransitionMessage ctx t clock s = (Inr e, s') \<and> mt_To t = EventRunning \<and> ev_FencingToken e = f)"

definition execution_ended ::
  "string \<Rightarrow> string \<Rightarrow> string \<Rightarrow> 'st runtime_store \<Rightarrow> unit \<Rightarrow> int \<Rightarrow> 'st runtime_store \<Rightarrow> bool" where
  "execution_ended tid sid k s u f s' \<longleftrightarrow> (\<exists>v. get (st_events s) k = Some v \<and> in_session tid sid v)
     \<and> (\<exists>ctx t clock e. k = key [mt_TenantID t, mt_EventID t]
          \<and> TransitionMessage ctx t clock s = (Inr e, s') \<and> mt_From t = EventRunning
          \<and> mt_To t \<noteq> EventExecutionReconciling \<and> mt_FencingToken t = f)"

lemma TransitionMessage_ok:
  assumes "TransitionMessage ctx t clock s = (Inr e, s')"
  shows "\<exists>v. get (st_events s) (key [mt_TenantID t, mt_EventID t]) = Some v
    \<and> e = applyMessageTransition v t (clock 1) (clock 2) \<and> ev_Status v = mt_From t
    \<and> ValidateMessageTransition (mt_From t) (mt_To t) \<and> validateMessageLease v t (clock 0) = None
    \<and> s' = s\<lparr>st_events := put (key [mt_TenantID t, mt_EventID t]) e (st_events s)\<rparr>"
  using assms by (auto simp: TransitionMessage_def Let_def validateMessageTransition_def)

lemma transition_kept:
  assumes "TransitionMessage ctx t clock s = (x, s')"
  shows "kept_step env tid sid s s'"
  unfolding kept_step_def
proof
  have l: "live_step env s s'" using assms by (rule live_step.transition_message)
  then show "store_step env s s'" by (rule store_step.live)
  show "get (st_sessions s) (key [tid, sid]) \<noteq> None \<longrightarrow> get (st_sessions s') (key [tid, sid]) \<noteq> None"
    using live_session_kept [OF l] by blast
qed

lemma execution_fence:
  assumes "ok_step (execution_step env tid sid k) s s'"
  shows "event_fence tid sid k s u \<le> event_fence tid sid k s' u"
proof -
  have st: "kept_step env tid sid s s'" "store_ok s" "event_room k s"
    using assms by (auto simp: ok_step_def execution_step_def)
  show ?thesis
  proof (cases "\<exists>e. get (st_events s) k = Some e \<and> in_session tid sid e")
    case True
    then obtain e where e: "get (st_events s) k = Some e" "in_session tid sid e" by blast
    with st(3) have "token_room (ev_FencingToken e)" by (simp add: event_room_def)
    from kept_event [OF st(1,2) e] token_room_next [OF this] e show ?thesis by (auto simp: event_fence_def)
  next
    case False
    then have "event_fence tid sid k s u = 0" by (auto simp: event_fence_def split: option.splits)
    moreover have "event_fence tid sid k s' u = 0"
      using kept_event_new [OF st(1,2)] False by (auto simp: event_fence_def split: option.splits)
    ultimately show ?thesis by simp
  qed
qed

interpretation execution_fencing: fenced "ok_step (execution_step env tid sid k)" "event_fence tid sid k"
    "execution_started tid sid k" "execution_ended tid sid k"
  for env tid sid k
proof
  show "ok_step (execution_step env tid sid k) s s' \<Longrightarrow> event_fence tid sid k s u \<le> event_fence tid sid k s' u"
    for s s' :: "'a runtime_store" and u
    by (rule execution_fence)
  show "execution_started tid sid k s u f s' \<Longrightarrow> ok_step (execution_step env tid sid k) s s'" for s s' u f
    by (auto simp: execution_started_def ok_step_def execution_step_def intro: transition_kept)
  show "execution_started tid sid k s u f s' \<Longrightarrow> event_fence tid sid k s u < f" for s s' :: "'a runtime_store" and u f
    by (auto simp: execution_started_def event_fence_def event_room_def token_room_next dest!: TransitionMessage_ok)
  show "execution_started tid sid k s u f s' \<Longrightarrow> event_fence tid sid k s' u = f" for s s' :: "'a runtime_store" and u f
    by (auto simp: execution_started_def event_fence_def in_session_def dest!: TransitionMessage_ok)
  show "execution_ended tid sid k s u f s' \<Longrightarrow> event_fence tid sid k s u = f" for s s' :: "'a runtime_store" and u f
    by (auto simp: execution_ended_def event_fence_def validateMessageLease_def event_status_defs
        dest!: TransitionMessage_ok split: if_splits)
qed

subsection \<open>Optimistic locking of sessions\<close>

definition session_version :: "string \<Rightarrow> string \<Rightarrow> 'st runtime_store \<Rightarrow> unit \<Rightarrow> int" where
  "session_version tid sid s u = (case get (st_sessions s) (key [tid, sid]) of None \<Rightarrow> 0 | Some v \<Rightarrow> ses_Version v)"

definition session_updated ::
  "'st store_env \<Rightarrow> string \<Rightarrow> string \<Rightarrow> 'st runtime_store \<Rightarrow> unit \<Rightarrow> int \<Rightarrow> 'st runtime_store \<Rightarrow> bool" where
  "session_updated env tid sid s u v s' \<longleftrightarrow>
     store_ok s \<and> (\<exists>ctx st now x. UpdateSessionState (env_clone env) ctx tid sid v st now s = (Inr x, s'))"

interpretation session_locking: versioned "ok_step (kept_step env tid sid)" "session_version tid sid"
    "session_updated env tid sid"
  for env tid sid
proof
  show "session_version tid sid s u \<le> session_version tid sid s' u"
    if l: "ok_step (kept_step env tid sid) s s'" for s s' :: "'a runtime_store" and u
  proof (cases "get (st_sessions s) (key [tid, sid])")
    case (Some v)
    with l kept_session [of env tid sid s s' v] show ?thesis by (auto simp: session_version_def ok_step_def)
  next
    case None
    have "store_ok s'" using l store_step_ok [of env s s'] by (simp add: ok_step_def kept_step_def)
    with None show ?thesis
      using sessions_okD [of s' "key [tid, sid]"] by (fastforce simp: session_version_def store_ok_def split: option.splits)
  qed
  show "ok_step (kept_step env tid sid) s s'" if "session_updated env tid sid s u v s'" for s s' u v
  proof -
    from that obtain ctx st now x where up: "store_ok s"
      "UpdateSessionState (env_clone env) ctx tid sid v st now s = (Inr x, s')" by (auto simp: session_updated_def)
    have "live_step env s s'" by (rule live_step.update [OF up(2)])
    with up(1) live_session_kept [OF this] show ?thesis
      by (auto simp: ok_step_def kept_step_def intro: store_step.live)
  qed
  show "session_updated env tid sid s u v s' \<Longrightarrow> session_version tid sid s u = v" for s s' u v
    by (auto simp: session_updated_def session_version_def UpdateSessionState_def Let_def)
  show "session_updated env tid sid s u v s' \<Longrightarrow> session_version tid sid s' u = v + 1" for s s' u v
    by (auto simp: session_updated_def session_version_def UpdateSessionState_def Let_def)
qed

subsection \<open>An example store\<close>

definition demo_env :: "unit store_env" where
  "demo_env = \<lparr>env_clone = Some, env_none = (), env_valid = (\<lambda>_. True), env_same = (=), env_hash = (\<lambda>d. d)\<rparr>"

definition demo_message :: message_event_input where
  "demo_message = \<lparr>mi_TenantID = ''t'', mi_EventID = ''e'', mi_SessionID = ''s'', mi_BindingID = ''b'',
     mi_ExternalMessageID = ''x'', mi_IdempotencyKey = [], mi_ReplyTarget = zeroReplyTarget\<rparr>"

definition demo_move :: "string \<Rightarrow> string \<Rightarrow> string \<Rightarrow> int \<Rightarrow> message_transition" where
  "demo_move source target owner token = \<lparr>mt_TenantID = ''t'', mt_EventID = ''e'', mt_From = source, mt_To = target,
     mt_Owner = owner, mt_FencingToken = token, mt_LeaseDuration = 5, mt_ReplyID = [], mt_SegmentCount = 0\<rparr>"

definition demo_segment :: "nat \<Rightarrow> string \<Rightarrow> reply_outbox" where
  "demo_segment i payload = \<lparr>rp_TenantID = ''t'', rp_ReplyID = ''r'', rp_EventID = ''e'', rp_SegmentIndex = int i,
     rp_SegmentCount = 2, rp_Payload = payload, rp_ReplyTarget = zeroReplyTarget, rp_Status = [], rp_Attempts = 0,
     rp_FencingToken = 0, rp_LeaseOwner = [], rp_LeaseExpiresAt = None, rp_ProviderMessageID = [],
     rp_LastErrorClass = [], rp_CreatedAt = 0, rp_UpdatedAt = 0\<rparr>"

definition demo_deliver :: "string \<Rightarrow> int \<Rightarrow> reply_transition" where
  "demo_deliver owner token = \<lparr>rx_TenantID = ''t'', rx_ReplyID = ''r'', rx_SegmentIndex = 0, rx_From = ReplySending,
     rx_To = ReplySent, rx_Owner = owner, rx_FencingToken = token, rx_LeaseDuration = 0, rx_ErrorClass = [],
     rx_ProviderID = ''p''\<rparr>"

definition demo_session :: "int \<Rightarrow> instant \<Rightarrow> unit session" where
  "demo_session v at = \<lparr>ses_TenantID = ''t'', ses_SessionID = ''s'', ses_Status = SessionActive, ses_Version = v,
     ses_State = None, ses_CreatedAt = 1, ses_UpdatedAt = at\<rparr>"

definition demo_event :: "string \<Rightarrow> int \<Rightarrow> string \<Rightarrow> instant option \<Rightarrow> instant \<Rightarrow> message_event" where
  "demo_event status token owner expires at = (new_event demo_message 2 2 at)\<lparr>ev_Status := status,
     ev_FencingToken := token, ev_LeaseOwner := owner, ev_LeaseExpiresAt := expires\<rparr>"

definition demo_s1 :: "unit runtime_store" where
  "demo_s1 = store_New\<lparr>st_sessions := [(key [''t'', ''s''], demo_session 1 1)]\<rparr>"

definition demo_s2 :: "unit runtime_store" where
  "demo_s2 = store_New\<lparr>st_sessions := [(key [''t'', ''s''], demo_session 2 2)],
     st_events := [(key [''t'', ''e''], demo_event EventReceived 0 [] None 2)],
     st_messages := [(key [''t'', ''b'', ''x''], key [''t'', ''e''])]\<rparr>"

definition demo_s3 :: "unit runtime_store" where
  "demo_s3 = demo_s2\<lparr>st_events := [(key [''t'', ''e''], demo_event EventRunning 1 ''w1'' (Some 8) 3)]\<rparr>"

definition demo_s4 :: "unit runtime_store" where
  "demo_s4 = demo_s2\<lparr>st_events := [(key [''t'', ''e''], demo_event EventExecutionReconciling 2 [] None 9)]\<rparr>"

definition demo_s5 :: "unit runtime_store" where
  "demo_s5 = demo_s2\<lparr>st_events := [(key [''t'', ''e''], demo_event EventRunning 3 ''w2'' (Some 15) 10)]\<rparr>"

definition demo_reply :: "string \<Rightarrow> int \<Rightarrow> string \<Rightarrow> instant option \<Rightarrow> instant \<Rightarrow> reply_outbox" where
  "demo_reply status token owner expires at = (pending 11 (demo_segment 0 ''a''))\<lparr>rp_Status := status,
     rp_Attempts := token, rp_FencingToken := token, rp_LeaseOwner := owner, rp_LeaseExpiresAt := expires,
     rp_UpdatedAt := at\<rparr>"

definition demo_replies :: "reply_outbox \<Rightarrow> unit runtime_store" where
  "demo_replies r = demo_s2\<lparr>st_replies := [(replyKey ''t'' ''r'' 0, r),
     (replyKey ''t'' ''r'' 1, pending 11 (demo_segment 1 ''b''))]\<rparr>"

definition demo_r1 :: "unit runtime_store" where
  "demo_r1 = demo_replies (demo_reply ReplyPending 0 [] None 11)"

definition demo_r2 :: "unit runtime_store" where
  "demo_r2 = demo_replies (demo_reply ReplySending 1 ''w1'' (Some 17) 12)"

definition demo_r3 :: "unit runtime_store" where
  "demo_r3 = demo_replies (demo_reply ReplySending 2 ''w2'' (Some 25) 20)"

lemma demo_zero_target [simp]: "ValidateReplyTarget zeroReplyTarget = None"
  by (simp add: ValidateReplyTarget_def)

lemma demo_tokens [simp]: "wrap64 1 = 1" "wrap64 2 = 2" "wrap64 3 = 3"
  by (simp_all add: wrap64_def)

lemmas demo_states = demo_s1_def demo_s2_def demo_s3_def demo_s4_def demo_s5_def demo_session_def demo_event_def
  demo_message_def new_event_def demo_move_def

lemma demo_move1:
  "\<exists>v. CreateSession (env_clone demo_env) (Some background) ''t'' ''s'' None 1 store_New = (Inr v, demo_s1)"
  by (simp add: CreateSession_def store_New_def demo_states cloneMap_def Let_def)

lemma demo_move2:
  "RecordMessage (Some background) demo_message (\<lambda>_. 2) demo_s1 = (Inr (demo_event EventReceived 0 [] None 2, False), demo_s2)"
  by (simp add: RecordMessage_def record_fails_def store_New_def demo_states Let_def)

lemma demo_move3: "TransitionMessage (Some background) (demo_move EventReceived EventRunning ''w1'' 0) (\<lambda>_. 3) demo_s2
    = (Inr (demo_event EventRunning 1 ''w1'' (Some 8) 3), demo_s3)"
  by (simp add: TransitionMessage_def validateMessageTransition_def ValidateMessageTransition_def validateMessageLease_def
      applyMessageTransition_def store_New_def demo_states Let_def event_status_defs)

lemma demo_move4: "TransitionMessage (Some background) (demo_move EventRunning EventExecutionReconciling ''w2'' 0) (\<lambda>_. 9) demo_s3
    = (Inr (demo_event EventExecutionReconciling 2 [] None 9), demo_s4)"
  by (simp add: TransitionMessage_def validateMessageTransition_def ValidateMessageTransition_def validateMessageLease_def
      applyMessageTransition_def store_New_def demo_states Let_def event_status_defs)

lemma demo_move5: "TransitionMessage (Some background) (demo_move EventExecutionReconciling EventRunning ''w2'' 0) (\<lambda>_. 10) demo_s4
    = (Inr (demo_event EventRunning 3 ''w2'' (Some 15) 10), demo_s5)"
  by (simp add: TransitionMessage_def validateMessageTransition_def ValidateMessageTransition_def validateMessageLease_def
      applyMessageTransition_def store_New_def demo_states Let_def event_status_defs)

lemma demo_batch: "validateReplyBatch [demo_segment 0 ''a'', demo_segment 1 ''b''] = Inr (demo_segment 0 ''a'')"
  by (simp add: validateReplyBatch_def batch_value_ok_def demo_segment_def upt_rec)

lemma demo_reply1: "\<exists>rs. EnqueueReplies (Some background) [demo_segment 0 ''a'', demo_segment 1 ''b''] 11 demo_s2 = (Inr rs, demo_r1)"
  using demo_batch
  by (simp add: EnqueueReplies_def enqueueReplies_def zeroReplyCorrelation_def correlation_fails_def
      validateExistingReplies_def demo_r1_def demo_replies_def demo_reply_def demo_segment_def pending_def reply_key_def
      store_New_def demo_states Let_def)

lemma demo_reply2: "ClaimReply (Some background) ''t'' ''r'' 0 ''w1'' 5 (\<lambda>_. 12) demo_r1
    = (Inr (demo_reply ReplySending 1 ''w1'' (Some 17) 12), demo_r2)"
  by (simp add: ClaimReply_def demo_r1_def demo_r2_def demo_replies_def demo_reply_def pending_def Let_def)

lemma demo_reply3: "ClaimReply (Some background) ''t'' ''r'' 0 ''w2'' 5 (\<lambda>_. 20) demo_r2
    = (Inr (demo_reply ReplySending 2 ''w2'' (Some 25) 20), demo_r3)"
  by (simp add: ClaimReply_def demo_r2_def demo_r3_def demo_replies_def demo_reply_def pending_def reply_lease_expired_def
      Let_def)

lemma demo_live: "live_step demo_env store_New demo_s1" "live_step demo_env demo_s1 demo_s2" "live_step demo_env demo_s2 demo_s3"
  "live_step demo_env demo_s3 demo_s4" "live_step demo_env demo_s4 demo_s5" "live_step demo_env demo_s2 demo_r1"
  "live_step demo_env demo_r1 demo_r2" "live_step demo_env demo_r2 demo_r3"
proof -
  from demo_move1 show "live_step demo_env store_New demo_s1" by (auto intro: live_step.create)
  from demo_reply1 show "live_step demo_env demo_s2 demo_r1"
    by (auto simp: EnqueueReplies_def intro: live_step.enqueue_replies)
qed (rule live_step.record_message [OF demo_move2] live_step.transition_message [OF demo_move3]
    live_step.transition_message [OF demo_move4] live_step.transition_message [OF demo_move5]
    live_step.claim_reply [OF demo_reply2] live_step.claim_reply [OF demo_reply3])+

lemma demo_stores: "store_reachable demo_env demo_s1" "store_reachable demo_env demo_s2" "store_reachable demo_env demo_r1"
proof -
  show 1: "store_reachable demo_env demo_s1"
    by (rule store_reachable.step [OF store_reachable.start store_step.live [OF demo_live(1)]])
  show 2: "store_reachable demo_env demo_s2"
    by (rule store_reachable.step [OF 1 store_step.live [OF demo_live(2)]])
  show "store_reachable demo_env demo_r1"
    by (rule store_reachable.step [OF 2 store_step.live [OF demo_live(6)]])
qed

text \<open>A second session that is deleted while the history of the first one grows.\<close>

definition demo_payload :: "string \<Rightarrow> string \<Rightarrow> event_payload" where
  "demo_payload event payload = \<lparr>ep_TenantID = ''t'', ep_SessionID = ''s'', ep_EventID = event, ep_Payload = payload,
     ep_HistorySeq = 0, ep_CreatedAt = 0\<rparr>"

definition demo_append :: "string \<Rightarrow> instant \<Rightarrow> unit runtime_store \<Rightarrow> unit runtime_store" where
  "demo_append event now s =
     snd (AppendEventPayload (env_valid demo_env) (env_same demo_env) (Some background) (demo_payload event ''{}'') now s)"

definition demo_h1 :: "unit runtime_store" where
  "demo_h1 = demo_append ''e'' 4 (snd (CreateSession (env_clone demo_env) (Some background) ''t'' ''u'' None 3 demo_s2))"

definition demo_h2 :: "unit runtime_store" where
  "demo_h2 = snd (DeleteSession (Some background) ''t'' ''u'' demo_h1)"

definition demo_h3 :: "unit runtime_store" where
  "demo_h3 = demo_append ''f'' 5 demo_h2"

lemma kept_live: "live_step env s s' \<Longrightarrow> kept_step env tid sid s s'"
  using live_session_kept [of env s s'] by (auto simp: kept_step_def intro: store_step.live)

lemma demo_append_live: "live_step demo_env s (demo_append event now s)"
  unfolding demo_append_def by (rule live_step.append_payload [OF surjective_pairing])

lemma demo_kept:
  "(kept_step demo_env ''t'' ''s'')\<^sup>*\<^sup>* demo_s2 demo_h1" "(kept_step demo_env ''t'' ''s'')\<^sup>*\<^sup>* demo_h1 demo_h3"
proof -
  have "live_step demo_env demo_s2 (snd (CreateSession (env_clone demo_env) (Some background) ''t'' ''u'' None 3 demo_s2))"
    by (rule live_step.create [OF surjective_pairing])
  then show "(kept_step demo_env ''t'' ''s'')\<^sup>*\<^sup>* demo_s2 demo_h1"
    unfolding demo_h1_def by (meson demo_append_live kept_live rtranclp.rtrancl_refl rtranclp.rtrancl_into_rtrancl)
  have "store_step demo_env demo_h1 demo_h2"
    unfolding demo_h2_def by (rule store_step.delete_session [OF surjective_pairing])
  moreover have "get (st_sessions demo_h2) (key [''t'', ''s'']) \<noteq> None" by code_simp
  ultimately have "kept_step demo_env ''t'' ''s'' demo_h1 demo_h2" by (simp add: kept_step_def)
  then show "(kept_step demo_env ''t'' ''s'')\<^sup>*\<^sup>* demo_h1 demo_h3"
    unfolding demo_h3_def by (meson demo_append_live kept_live rtranclp.rtrancl_refl rtranclp.rtrancl_into_rtrancl)
qed

end
