(* ===== verification/Runtime_Props.thy ===== *)
theory Runtime_Props
  imports Runtime_Contracts
begin

text \<open>
  The properties of the in-memory runtime store: consistency, idempotent recording of inbound
  messages, fencing of executions and deliveries, sessions, histories, atomic batches of reply
  segments and the isolation of tenants.
\<close>

subsection \<open>Shared facts\<close>

lemma live_star_ok: "(live_step env)\<^sup>*\<^sup>* s s' \<Longrightarrow> store_ok s \<Longrightarrow> store_ok s'"
  by (induction rule: rtranclp_induct) (auto intro: live_ok)

lemma kept_star_store: "(kept_step env tid sid)\<^sup>*\<^sup>* s s' \<Longrightarrow> (store_step env)\<^sup>*\<^sup>* s s'"
  by (erule rtranclp_mono [THEN predicate2D, rotated]) (auto simp: kept_step_def)

subsection \<open>Properties\<close>

text \<open>
  C19: a reachable runtime store is consistent. Every event lies in a session that exists, its
  number is one of the versions of that session and no other event of the session has it; the
  deduplication entry of its message leads to it; it holds a lease exactly while it runs. Every
  reply segment belongs to a stored event with the same target, and a session's history is
  numbered from one without gaps and holds each event once.
\<close>

theorem store_consistent:
  assumes "store_reachable env s"
  shows "(\<forall>k e. get (st_events s) k = Some e \<longrightarrow>
        k = key [ev_TenantID e, ev_EventID e]
        \<and> get (st_messages s) (key [ev_TenantID e, ev_BindingID e, ev_ExternalMessageID e]) = Some k
        \<and> (\<exists>v. get (st_sessions s) (key [ev_TenantID e, ev_SessionID e]) = Some v \<and> ev_EventSeq e \<le> ses_Version v)
        \<and> (\<forall>k' e'. get (st_events s) k' = Some e' \<and> ev_TenantID e' = ev_TenantID e \<and> ev_SessionID e' = ev_SessionID e
             \<and> ev_EventSeq e' = ev_EventSeq e \<longrightarrow> k' = k)
        \<and> (ev_LeaseExpiresAt e \<noteq> None \<longleftrightarrow> ev_Status e = EventRunning))
    \<and> (\<forall>k r. get (st_replies s) k = Some r \<longrightarrow>
        k = replyKey (rp_TenantID r) (rp_ReplyID r) (rp_SegmentIndex r)
        \<and> 0 \<le> rp_SegmentIndex r \<and> rp_SegmentIndex r < rp_SegmentCount r
        \<and> (\<exists>e. get (st_events s) (key [rp_TenantID r, rp_EventID r]) = Some e \<and> ev_ReplyTarget e = rp_ReplyTarget r))
    \<and> (\<forall>k es. get (st_histories s) k = Some es \<longrightarrow>
        get (st_sessions s) k \<noteq> None \<and> map ep_HistorySeq es = map int [1..<Suc (length es)]
        \<and> distinct (map ep_EventID es))"
proof -
  have ok: "events_ok s" "messages_ok s" "seqs_ok s" "replies_ok s" "histories_ok s"
    using store_reachable_ok [OF assms] by (simp_all add: store_ok_def)
  have "k = key [ev_TenantID e, ev_EventID e] \<and> (ev_LeaseExpiresAt e \<noteq> None \<longleftrightarrow> ev_Status e = EventRunning)
      \<and> (\<exists>v. get (st_sessions s) (key [ev_TenantID e, ev_SessionID e]) = Some v \<and> ev_EventSeq e \<le> ses_Version v)"
    if "get (st_events s) k = Some e" for k e
    using events_okD [OF ok(1) that] seqs_okD(1) [OF ok(3) that]
    by (auto simp: event_ok_def lease_ok_def split: if_splits)
  moreover note messages_okD(1) [OF ok(2)]
  moreover have "k' = k" if "get (st_events s) k = Some e" "get (st_events s) k' = Some e'" "ev_TenantID e' = ev_TenantID e"
    "ev_SessionID e' = ev_SessionID e" "ev_EventSeq e' = ev_EventSeq e" for k e k' e'
    by (rule seqs_okD(2) [OF ok(3) that(2,1,3-5)])
  moreover have "k = replyKey (rp_TenantID r) (rp_ReplyID r) (rp_SegmentIndex r)
        \<and> 0 \<le> rp_SegmentIndex r \<and> rp_SegmentIndex r < rp_SegmentCount r
        \<and> (\<exists>e. get (st_events s) (key [rp_TenantID r, rp_EventID r]) = Some e \<and> ev_ReplyTarget e = rp_ReplyTarget r)"
    if "get (st_replies s) k = Some r" for k r
    using replies_okD [OF ok(4) that] by (auto simp: reply_ok_def segment_ok_def reply_key_def)
  moreover have "get (st_sessions s) k \<noteq> None \<and> map ep_HistorySeq es = map int [1..<Suc (length es)]
        \<and> distinct (map ep_EventID es)" if "get (st_histories s) k = Some es" for k es
    using histories_okD [OF ok(5) that] by (simp add: history_ok_def)
  ultimately show ?thesis by blast
qed

theorem store_consistent_witness:
  "get (st_messages demo_r1) (key [''t'', ''b'', ''x'']) = Some (key [''t'', ''e''])"
  using store_consistent [OF demo_stores(3), THEN conjunct1, rule_format, of "key [''t'', ''e'']"
      "demo_event EventReceived 0 [] None 2", THEN conjunct2, THEN conjunct1]
  by (simp add: demo_r1_def demo_replies_def demo_s2_def)

text \<open>
  C20: an inbound message is recorded once. After a message was recorded, recording the same
  external message of the binding again reports the first event as a duplicate and changes
  nothing, in every later state up to which the session of that event was not deleted; other
  sessions may come and go.
\<close>

theorem store_RecordMessage_once:
  assumes "store_reachable env s" and "RecordMessage ctx i clock s = (Inr (e, dup), s1)"
    and "(kept_step env (ev_TenantID e) (ev_SessionID e))\<^sup>*\<^sup>* s1 s2"
    and "store_check ctx' = None" and "record_fails i' = None"
    and "mi_TenantID i' = mi_TenantID i" and "mi_BindingID i' = mi_BindingID i"
    and "mi_ExternalMessageID i' = mi_ExternalMessageID i"
  shows "\<exists>e'. RecordMessage ctx' i' clock' s2 = (Inr (e', True), s2) \<and> ev_EventID e' = ev_EventID e
    \<and> ev_SessionID e' = ev_SessionID e \<and> ev_EventSeq e' = ev_EventSeq e"
proof -
  let ?u = "key [mi_TenantID i, mi_BindingID i, mi_ExternalMessageID i]"
  have ok: "store_ok s" by (rule store_reachable_ok [OF assms(1)])
  have ok1: "store_ok s1" using live_ok [OF live_step.record_message [OF assms(2)] ok] .
  obtain k where k: "get (st_messages s1) ?u = Some k" "get (st_events s1) k = Some e"
  proof (cases "get (st_messages s) ?u")
    case None
    with assms(2) that show thesis by (auto simp: RecordMessage_def Let_def)
  next
    case (Some k)
    with ok messages_okD(2) [of s ?u k] obtain e0 where "get (st_events s) k = Some e0"
      by (auto simp: store_ok_def)
    with Some assms(2) that show thesis by (auto simp: RecordMessage_def Let_def)
  qed
  from ok1 messages_okD(2) [OF _ k(1)] k(2)
  have ids: "key [ev_TenantID e, ev_BindingID e, ev_ExternalMessageID e] = ?u" by (auto simp: store_ok_def)
  have "in_session (ev_TenantID e) (ev_SessionID e) e" by (simp add: in_session_def)
  from kept_star_event [OF assms(3) ok1 k(2) this] obtain e' where e': "store_ok s2" "get (st_events s2) k = Some e'"
    "ev_TenantID e' = ev_TenantID e" "ev_EventID e' = ev_EventID e" "ev_BindingID e' = ev_BindingID e"
    "ev_ExternalMessageID e' = ev_ExternalMessageID e" "ev_SessionID e' = ev_SessionID e"
    "ev_EventSeq e' = ev_EventSeq e" by (auto simp: in_session_def)
  from messages_okD(1) [OF _ e'(2)] e' ids have "get (st_messages s2) ?u = Some k" by (simp add: store_ok_def)
  with e' assms(4-8) show ?thesis by (simp add: RecordMessage_def Let_def)
qed

theorem store_RecordMessage_once_witness:
  "\<exists>e'. RecordMessage (Some background) (demo_message\<lparr>mi_EventID := ''other''\<rparr>) (\<lambda>_. 9) demo_h3 = (Inr (e', True), demo_h3)
     \<and> ev_EventID e' = ''e''"
  using store_RecordMessage_once [OF demo_stores(1) demo_move2, of demo_h3 "Some background"
      "demo_message\<lparr>mi_EventID := ''other''\<rparr>" "\<lambda>_. 9"] rtranclp_trans [OF demo_kept]
  by (auto simp: record_fails_def demo_message_def demo_event_def new_event_def)



text \<open>
  C22: a delivery that lost its lease cannot report. When a reply segment was claimed by one
  worker and later claimed again, the first worker, under the token it was given, can neither
  mark the segment as sent nor as retryable nor as dead in any later state up to which the
  session of the reply was not deleted; other sessions may come and go. The tokens are 64-bit
  integers that wrap around and the first token of a segment is chosen by the caller that
  enqueues it: the segment's token is between 0 and the largest but one when a step is taken.
\<close>

theorem store_reply_fenced:
  assumes "store_reachable env s"
    and "ClaimReply c1 tid rid seg owner1 d1 clock1 s = (Inr r1, s1)"
    and "get (st_events s) (key [tid, rp_EventID r1]) = Some e" and "reply_room (replyKey tid rid seg) s"
    and "(delivery_step env tid (ev_SessionID e) (replyKey tid rid seg))\<^sup>*\<^sup>* s1 s2"
    and "ClaimReply c2 tid rid seg owner2 d2 clock2 s2 = (Inr r2, s3)" and "reply_room (replyKey tid rid seg) s2"
    and "(delivery_step env tid (ev_SessionID e) (replyKey tid rid seg))\<^sup>*\<^sup>* s3 s4"
    and "rx_TenantID t = tid" and "rx_ReplyID t = rid" and "rx_SegmentIndex t = seg"
    and "rx_FencingToken t = rp_FencingToken r1"
  shows "\<exists>err. TransitionReply c t clock s4 = (Inl err, s4)"
proof (rule keeps_refused [OF store_ops_keep(7)])
  fix r s5
  let ?k = "replyKey tid rid seg" and ?sid = "ev_SessionID e"
  let ?stored = "\<lambda>s. \<exists>v. get (st_replies s) ?k = Some v \<and> reply_of tid ?sid s v"
  have step: "delivery_step env tid ?sid ?k s s' \<Longrightarrow> store_step env s s'" for s s' :: "'a runtime_store"
    by (simp add: delivery_step_def kept_step_def)
  have kept: "(delivery_step env tid ?sid ?k)\<^sup>*\<^sup>* s s' \<Longrightarrow> (kept_step env tid ?sid)\<^sup>*\<^sup>* s s'" for s s' :: "'a runtime_store"
    by (erule rtranclp_mono [THEN predicate2D, rotated]) (auto simp: delivery_step_def)
  have stored_after: "?stored s'" if "(delivery_step env tid ?sid ?k)\<^sup>*\<^sup>* s s'" "store_ok s" "?stored s"
    for s s' :: "'a runtime_store"
    using kept_star_reply [OF kept [OF that(1)] that(2)] that(3) by blast
  have ok: "store_ok s" by (rule store_reachable_ok [OF assms(1)])
  have ok1: "store_ok s1" by (rule live_ok [OF live_step.claim_reply [OF assms(2)] ok])
  note star1 = ok_step_star [OF assms(5) ok1 step]
  have ok3: "store_ok s3" by (rule live_ok [OF live_step.claim_reply [OF assms(6)] conjunct2 [OF star1]])
  note star3 = ok_step_star [OF assms(8) ok3 step]
  from ClaimReply_ok [OF assms(2)] obtain v where v: "get (st_replies s) ?k = Some v"
    "rp_FencingToken r1 = wrap64 (rp_FencingToken v + 1)" "get (st_replies s1) ?k = Some r1"
    "rp_TenantID r1 = rp_TenantID v" "rp_EventID r1 = rp_EventID v" "st_events s1 = st_events s" by blast
  have "rp_TenantID v = tid"
    using replies_okD [OF _ v(1)] ok by (auto simp: store_ok_def reply_ok_def reply_key_def)
  moreover have "in_session tid ?sid e"
    using events_okD [OF _ assms(3)] ok by (auto simp: store_ok_def event_ok_def in_session_def)
  ultimately have stored: "?stored s" "?stored s1" using v assms(3) by (auto simp: reply_of_def)
  have stored2: "?stored s2" by (rule stored_after [OF assms(5) ok1 stored(2)])
  then have "?stored s3" using ClaimReply_ok [OF assms(6)] by (auto simp: reply_of_def)
  then have stored4: "?stored s4" by (rule stored_after [OF assms(8) ok3])
  have "token_room (rp_FencingToken v)" using assms(4) v(1) by (simp add: reply_room_def)
  then have pos: "0 < rp_FencingToken r1" using v(2) by (simp add: token_room_next) (simp add: token_room_def)
  have "reply_claimed tid ?sid ?k s () (rp_FencingToken r1) s1"
    unfolding reply_claimed_def using ok assms(2,4) stored(1) by blast
  moreover have "reply_claimed tid ?sid ?k s2 () (rp_FencingToken r2) s3"
    unfolding reply_claimed_def using star1 assms(6,7) stored2 by blast
  ultimately have "\<not> reply_committed tid ?sid ?k s4 () (rp_FencingToken r1) s5"
    using reply_fencing.stale_holder_never_commits star1 star3 by blast
  then show "TransitionReply c t clock s4 \<noteq> (Inr r, s5)"
    unfolding reply_committed_def using pos assms(9-12) stored4 by metis
qed

theorem store_reply_fenced_witness:
  "\<exists>err. TransitionReply (Some background) (demo_deliver ''w1'' 1) (\<lambda>_. 21) demo_r3 = (Inl err, demo_r3)"
proof -
  let ?k = "replyKey ''t'' ''r'' 0"
  have room: "reply_room ?k demo_r1" "reply_room ?k demo_r2"
    by (simp_all add: reply_room_def token_room_def demo_r1_def demo_r2_def demo_replies_def demo_reply_def)
  have "get (st_events demo_r1) (key [''t'', ''e'']) = Some (demo_event EventReceived 0 [] None 2)"
    by (simp add: demo_r1_def demo_replies_def demo_s2_def)
  from store_reply_fenced [OF demo_stores(3) demo_reply2 _ room(1) rtranclp.rtrancl_refl demo_reply3 room(2)
      rtranclp.rtrancl_refl, where t = "demo_deliver ''w1'' 1" and c = "Some background" and clock = "\<lambda>_. 21"] this
  show ?thesis by (simp add: demo_reply_def demo_deliver_def pending_def demo_segment_def)
qed

text \<open>
  No update of a session state is lost. After a state was written from one version of a
  session, every state computed from the same version is refused and changes nothing, in every
  later state up to which the session was not deleted.
\<close>

theorem store_no_lost_state:
  assumes "store_reachable env s"
    and "UpdateSessionState (env_clone env) c1 tid sid v st1 now1 s = (Inr x, s1)"
    and "(kept_step env tid sid)\<^sup>*\<^sup>* s1 s2"
  shows "\<exists>err. UpdateSessionState (env_clone env) c2 tid sid v st2 now2 s2 = (Inl err, s2)"
proof (rule keeps_refused [OF store_ops_keep(2)])
  fix y s3
  have ok: "store_ok s" by (rule store_reachable_ok [OF assms(1)])
  have ok1: "store_ok s1" by (rule live_ok [OF live_step.update [OF assms(2)] ok])
  have "(ok_step (kept_step env tid sid))\<^sup>*\<^sup>* s1 s2 \<and> store_ok s2"
    by (rule ok_step_star [OF assms(3) ok1, where env = env]) (simp add: kept_step_def)
  moreover have "session_updated env tid sid s () v s1"
    unfolding session_updated_def using ok assms(2) by blast
  ultimately have "\<not> session_updated env tid sid s2 () v s3" "store_ok s2"
    using session_locking.no_lost_update by blast+
  then show "UpdateSessionState (env_clone env) c2 tid sid v st2 now2 s2 \<noteq> (Inr y, s3)"
    unfolding session_updated_def by blast
qed

theorem store_no_lost_state_witness:
  "\<exists>s1 err. UpdateSessionState (env_clone demo_env) (Some background) ''t'' ''s'' 1 (Some ()) 2 demo_s1
       = (Inr (demo_session 2 2\<lparr>ses_State := Some ()\<rparr>), s1)
     \<and> UpdateSessionState (env_clone demo_env) (Some background) ''t'' ''s'' 1 None 3 s1 = (Inl err, s1)"
proof -
  obtain s1 where s1: "UpdateSessionState (env_clone demo_env) (Some background) ''t'' ''s'' 1 (Some ()) 2 demo_s1
       = (Inr (demo_session 2 2\<lparr>ses_State := Some ()\<rparr>), s1)"
    by (simp add: UpdateSessionState_def demo_s1_def demo_session_def demo_env_def cloneMap_def cloneSession_def Let_def)
  with store_no_lost_state [OF demo_stores(1) this rtranclp.rtrancl_refl, of "Some background" None 3] show ?thesis by blast
qed

lemma live_history:
  assumes "live_step env s s'" and "get (st_histories s) k = Some es"
  shows "\<exists>more. get (st_histories s') k = Some (es @ more)"
  using assms(1)
proof (cases rule: live_step_cases)
  case (appended p entries)
  with assms(2) show ?thesis by (auto split: option.splits)
qed (use assms(2) in \<open>auto simp: same_core_def replies_added_def\<close>)

lemma kept_history:
  assumes "kept_step env tid sid s s'" and ok: "store_ok s" and es: "get (st_histories s) (key [tid, sid]) = Some es"
  shows "\<exists>more. get (st_histories s') (key [tid, sid]) = Some (es @ more)"
  using assms(1)
proof (cases rule: kept_step_cases)
  case live
  then show ?thesis by (rule live_history [OF _ es])
next
  case same
  with es show ?thesis by simp
next
  case (deleted ctx tid' sid' u)
  have "get (st_sessions s) (key [tid, sid]) \<noteq> None"
    using histories_okD [OF _ es] ok by (simp add: store_ok_def)
  from deleted(2) [OF this] have "key [tid, sid] \<noteq> key [tid', sid']" by auto
  moreover have "st_histories s' = del (key [tid', sid']) (st_histories s)"
    using deleted(1) by (auto simp: DeleteSession_def Let_def)
  ultimately show ?thesis using es by simp
qed

lemma kept_star_history:
  assumes "(kept_step env tid sid)\<^sup>*\<^sup>* s s'" and "store_ok s" and "get (st_sessions s) (key [tid, sid]) \<noteq> None"
  shows "store_ok s' \<and> get (st_sessions s') (key [tid, sid]) \<noteq> None
    \<and> (\<forall>es. get (st_histories s) (key [tid, sid]) = Some es \<longrightarrow>
         (\<exists>more. get (st_histories s') (key [tid, sid]) = Some (es @ more)))"
  using assms(1)
proof (induction rule: rtranclp_induct)
  case base
  with assms(2,3) show ?case by (metis append_Nil2)
next
  case (step y z)
  have "store_ok z" "get (st_sessions z) (key [tid, sid]) \<noteq> None"
    using store_step_ok [of env y z] step by (auto simp: kept_step_def)
  moreover have "\<exists>more. get (st_histories z) (key [tid, sid]) = Some (es @ more)"
    if es: "get (st_histories s) (key [tid, sid]) = Some es" for es
  proof -
    from step es obtain m where "store_ok y" "get (st_histories y) (key [tid, sid]) = Some (es @ m)" by blast
    with kept_history [OF step(2)] show ?thesis by (metis append.assoc)
  qed
  ultimately show ?case by blast
qed

text \<open>
  C23: histories only grow. What a session's history holds is a prefix of what it holds in every
  later state up to which the session was not deleted, whatever happens to the other sessions;
  the entries are numbered from one without gaps, and no event is in the history twice.
\<close>

theorem store_history_append_only:
  assumes "store_reachable env s" and "ListEventPayloads ctx tid sid s = Inr es"
    and "(kept_step env tid sid)\<^sup>*\<^sup>* s s'" and "store_check ctx' = None"
  shows "\<exists>more. ListEventPayloads ctx' tid sid s' = Inr (es @ more)
    \<and> map ep_HistorySeq (es @ more) = map int [1..<Suc (length (es @ more))] \<and> distinct (map ep_EventID (es @ more))"
proof -
  let ?k = "key [tid, sid]"
  have ses: "tid \<noteq> []" "sid \<noteq> []" "get (st_sessions s) ?k \<noteq> None"
    and es: "es = (case get (st_histories s) ?k of None \<Rightarrow> [] | Some es \<Rightarrow> es)"
    using assms(2) by (auto simp: ListEventPayloads_def)
  note later = kept_star_history [OF assms(3) store_reachable_ok [OF assms(1)] ses(3)]
  obtain more where more: "(case get (st_histories s') ?k of None \<Rightarrow> [] | Some es \<Rightarrow> es) = es @ more"
  proof (cases "get (st_histories s) ?k")
    case None
    with es that show thesis by simp
  next
    case (Some hs)
    with later es that show thesis by auto
  qed
  have "ListEventPayloads ctx' tid sid s' = Inr (es @ more)"
    using later ses(1,2) assms(4) more by (auto simp: ListEventPayloads_def)
  moreover have "history_ok ?k (es @ more)"
    using more later histories_okD [of s' ?k] by (auto simp: store_ok_def history_ok_def split: option.splits)
  ultimately show ?thesis unfolding history_ok_def by blast
qed

theorem store_history_append_only_witness:
  "\<exists>p q. ListEventPayloads (Some background) ''t'' ''s'' demo_h1 = Inr [p]
     \<and> get (st_sessions demo_h1) (key [''t'', ''u'']) \<noteq> None \<and> get (st_sessions demo_h3) (key [''t'', ''u'']) = None
     \<and> ListEventPayloads (Some background) ''t'' ''s'' demo_h3 = Inr ([p] @ [q])
     \<and> map ep_HistorySeq [p, q] = [1, 2] \<and> ep_EventID p \<noteq> ep_EventID q"
proof -
  let ?p = "(demo_payload ''e'' ''{}'')\<lparr>ep_HistorySeq := 1, ep_CreatedAt := 4\<rparr>"
  have h1: "ListEventPayloads (Some background) ''t'' ''s'' demo_h1 = Inr [?p]" by code_simp
  have reach: "store_reachable demo_env demo_h1"
    by (rule store_reachable_star [OF kept_star_store [OF demo_kept(1)] demo_stores(2)])
  from store_history_append_only [OF reach h1 demo_kept(2), of "Some background"] obtain more where
    more: "ListEventPayloads (Some background) ''t'' ''s'' demo_h3 = Inr ([?p] @ more)"
      "map ep_HistorySeq ([?p] @ more) = map int [1..<Suc (length ([?p] @ more))]" "distinct (map ep_EventID ([?p] @ more))"
    by auto
  have "map_sum id length (ListEventPayloads (Some background) ''t'' ''s'' demo_h3) = Inr 2" by code_simp
  with more(1) have "length more = 1" by simp
  then obtain q where q: "more = [q]" by (cases more) auto
  have "get (st_sessions demo_h1) (key [''t'', ''u'']) \<noteq> None" "get (st_sessions demo_h3) (key [''t'', ''u'']) = None"
    by code_simp+
  with h1 more show ?thesis unfolding q by (intro exI [of _ ?p] exI [of _ q]) (simp add: upt_rec)
qed

lemma added_all:
  assumes "distinct (map reply_key vs)" and "v \<in> set vs"
  shows "added now vs m (reply_key v) = (case get m (reply_key v) of Some e \<Rightarrow> Some e | None \<Rightarrow> Some (pending now v))"
proof -
  have "find (\<lambda>w. reply_key w = reply_key v) vs = Some v"
    using assms
  proof (induction vs)
    case (Cons w vs)
    then show ?case by (cases "w = v") (auto simp: image_iff)
  qed simp
  then show ?thesis by (simp add: added_def split: option.split)
qed

lemma enqueue_loop_present:
  "(\<And>v. v \<in> set vs \<Longrightarrow> get m (reply_key v) = Some (f v)) \<Longrightarrow> enqueue_loop now vs m = (map f vs, m)"
  by (induction vs) auto

text \<open>After a batch was enqueued, every segment of it is stored and agrees with the offered one.\<close>

lemma enqueued_segments:
  assumes "enqueueReplies ctx c vs now s = (Inr rs, s')" and ok: "replies_ok s"
  obtains f where "rs = map f vs" "\<And>v. v \<in> set vs \<Longrightarrow> get (st_replies s') (reply_key v) = Some (f v)"
    "\<And>v. v \<in> set vs \<Longrightarrow> \<not> reply_differs (f v) v \<and> rp_SegmentIndex (f v) = rp_SegmentIndex v"
proof -
  define f where "f = (\<lambda>v. case get (st_replies s) (reply_key v) of Some e \<Rightarrow> e | None \<Rightarrow> pending now v)"
  from enqueueReplies_ok [OF assms(1)] obtain first where b: "batch_ok first vs" "replies_added now vs s s'"
    "validateExistingReplies (st_replies s) vs = None" "enqueue_loop now vs (st_replies s) = (rs, st_replies s')"
    by blast
  have "rs = map f vs" unfolding f_def by (rule enqueue_loop_result [OF b(4) batch_ok_keys [OF b(1)]])
  moreover have "get (st_replies s') (reply_key v) = Some (f v)" if "v \<in> set vs" for v
  proof -
    have "get (st_replies s') (reply_key v) = added now vs (st_replies s) (reply_key v)"
      using b(2) by (simp add: replies_added_def)
    with added_all [OF batch_ok_keys [OF b(1)] that] show ?thesis by (simp add: f_def split: option.split)
  qed
  moreover have "\<not> reply_differs (f v) v \<and> rp_SegmentIndex (f v) = rp_SegmentIndex v" if v: "v \<in> set vs" for v
  proof (cases "get (st_replies s) (reply_key v)")
    case None
    then show ?thesis by (simp add: f_def reply_differs_def pending_def)
  next
    case (Some e)
    with b(3) v have "\<not> reply_differs e v" by (auto simp: validateExistingReplies_def list_ex_iff)
    moreover have "reply_key e = reply_key v" using replies_okD [OF ok Some] by (simp add: reply_ok_def)
    ultimately show ?thesis using Some by (simp add: f_def reply_key_def)
  qed
  ultimately show thesis by (rule that)
qed

text \<open>
  C24: a batch of reply segments is enqueued as a whole. Either the call is refused and nothing
  changes, or the segments 0 to n - 1 of the reply are all stored and can be read, and offering
  the same batch again returns the same segments and changes nothing.
\<close>

theorem store_batch_atomic:
  assumes "store_reachable env s" and "store_check ctx' = None"
  shows "case EnqueueReplies ctx vs now s of
      (Inl e, s') \<Rightarrow> s' = s
    | (Inr rs, s') \<Rightarrow>
        length rs = length vs \<and> set (map rp_SegmentIndex vs) = {0..<rp_SegmentCount (hd vs)}
        \<and> (\<forall>i<length vs. rp_SegmentIndex (rs ! i) = rp_SegmentIndex (vs ! i) \<and> rp_Payload (rs ! i) = rp_Payload (vs ! i)
             \<and> GetReply ctx' (rp_TenantID (vs ! i)) (rp_ReplyID (vs ! i)) (rp_SegmentIndex (vs ! i)) s' = Inr (rs ! i))
        \<and> EnqueueReplies ctx' vs now' s' = (Inr rs, s')"
proof -
  obtain x s' where eq: "EnqueueReplies ctx vs now s = (x, s')" by fastforce
  show ?thesis
  proof (cases x)
    case (Inl e)
    with eq keepsD [OF store_ops_keep(5)] show ?thesis by (simp add: EnqueueReplies_def)
  next
    case (Inr rs)
    with eq have enq: "enqueueReplies ctx zeroReplyCorrelation vs now s = (Inr rs, s')"
      by (simp add: EnqueueReplies_def)
    have "replies_ok s" using store_reachable_ok [OF assms(1)] by (simp add: store_ok_def)
    from enqueued_segments [OF enq this] obtain f where f: "rs = map f vs"
      "\<And>v. v \<in> set vs \<Longrightarrow> get (st_replies s') (reply_key v) = Some (f v)"
      "\<And>v. v \<in> set vs \<Longrightarrow> \<not> reply_differs (f v) v \<and> rp_SegmentIndex (f v) = rp_SegmentIndex v" by blast
    from enqueueReplies_ok [OF enq] obtain first where b: "batch_ok first vs" "replies_added now vs s s'" by blast
    have seg: "segment_ok s v" if "v \<in> set vs" for v using b(2) that by (auto simp: replies_added_def list_all_iff)
    have "GetReply ctx' (rp_TenantID v) (rp_ReplyID v) (rp_SegmentIndex v) s' = Inr (f v)" if "v \<in> set vs" for v
      using f(2) [OF that] seg [OF that] assms(2) by (auto simp: GetReply_def reply_key_def segment_ok_def)
    moreover have "EnqueueReplies ctx' vs now' s' = (Inr rs, s')"
    proof -
      have "first \<in> set vs" using b(1) by (simp add: batch_ok_def)
      with seg obtain e where "get (st_events s) (key [rp_TenantID first, rp_EventID first]) = Some e"
        "ev_ReplyTarget e = rp_ReplyTarget first" unfolding segment_ok_def by blast
      moreover have "st_events s' = st_events s" using b(2) by (simp add: replies_added_def)
      moreover have "validateExistingReplies (st_replies s') vs = None"
        using f(2,3) by (auto simp: validateExistingReplies_def list_ex_iff)
      moreover have "enqueue_loop now' vs (st_replies s') = (rs, st_replies s')"
        unfolding f(1) by (rule enqueue_loop_present [OF f(2)])
      ultimately show ?thesis
        using b(1) assms(2)
        by (auto simp: EnqueueReplies_def enqueueReplies_def validateReplyBatch_Inr correlation_fails_def
            zeroReplyCorrelation_def)
    qed
    moreover have "set (map rp_SegmentIndex vs) = {0..<rp_SegmentCount (hd vs)}"
      using b(1) by (simp add: batch_ok_def)
    ultimately show ?thesis using eq Inr f(1,3) by (auto simp: reply_differs_def)
  qed
qed

theorem store_batch_atomic_witness:
  "\<exists>rs. EnqueueReplies (Some background) [demo_segment 0 ''a'', demo_segment 1 ''b''] 11 demo_s2 = (Inr rs, demo_r1)
     \<and> EnqueueReplies (Some background) [demo_segment 0 ''a'', demo_segment 1 ''b''] 12 demo_r1 = (Inr rs, demo_r1)"
  using demo_reply1 store_batch_atomic [OF demo_stores(2), where ctx' = "Some background" and ctx = "Some background"
      and vs = "[demo_segment 0 ''a'', demo_segment 1 ''b'']" and now = 11 and now' = 12]
  by auto

subsection \<open>Isolation of tenants\<close>

text \<open>An operation on conversation records for one tenant.\<close>

inductive tenant_op :: "'st store_env \<Rightarrow> string \<Rightarrow> 'st runtime_store \<Rightarrow> 'st runtime_store \<Rightarrow> bool" for env tid where
  create: "CreateSession (env_clone env) ctx tid sid st now s = (x1, s') \<Longrightarrow> tenant_op env tid s s'"
| update: "UpdateSessionState (env_clone env) ctx tid sid v st now s = (x1, s') \<Longrightarrow> tenant_op env tid s s'"
| delete: "DeleteSession ctx tid sid s = (x0, s') \<Longrightarrow> tenant_op env tid s s'"
| record_message: "mi_TenantID i = tid \<Longrightarrow> RecordMessage ctx i clock s = (x2, s') \<Longrightarrow> tenant_op env tid s s'"
| transition_message: "mt_TenantID t = tid \<Longrightarrow> TransitionMessage ctx t clock s = (x3, s') \<Longrightarrow> tenant_op env tid s s'"
| append_payload: "ep_TenantID p = tid \<Longrightarrow> AppendEventPayload (env_valid env) (env_same env) ctx p now s = (x4, s')
    \<Longrightarrow> tenant_op env tid s s'"
| enqueue_reply: "rp_TenantID r = tid \<Longrightarrow> EnqueueReply ctx r now s = (x5, s') \<Longrightarrow> tenant_op env tid s s'"
| enqueue_replies: "rp_TenantID (hd rs) = tid \<Longrightarrow> enqueueReplies ctx c rs now s = (x6, s') \<Longrightarrow> tenant_op env tid s s'"
| claim_reply: "ClaimReply ctx tid rid seg owner d clock s = (x5, s') \<Longrightarrow> tenant_op env tid s s'"
| transition_reply: "rx_TenantID x = tid \<Longrightarrow> TransitionReply ctx x clock s = (x5, s') \<Longrightarrow> tenant_op env tid s s'"

definition untouched :: "string \<Rightarrow> 'st runtime_store \<Rightarrow> 'st runtime_store \<Rightarrow> bool" where
  "untouched t s s' \<longleftrightarrow> (\<forall>ids. get (st_sessions s') (key (t # ids)) = get (st_sessions s) (key (t # ids))
     \<and> get (st_events s') (key (t # ids)) = get (st_events s) (key (t # ids))
     \<and> get (st_histories s') (key (t # ids)) = get (st_histories s) (key (t # ids))
     \<and> get (st_messages s') (key (t # ids)) = get (st_messages s) (key (t # ids))
     \<and> get (st_replies s') (key (t # ids)) = get (st_replies s) (key (t # ids))
     \<and> get (st_correlations s') (key (t # ids)) = get (st_correlations s) (key (t # ids)))"

lemma untouched_refl [simp]: "untouched t s s"
  by (simp add: untouched_def)

lemma untouched_kept:
  assumes "keeps s m" and "m = (x, s')" and "\<And>a. m = (Inr a, s') \<Longrightarrow> untouched t s s'"
  shows "untouched t s s'"
proof (cases x)
  case (Inl e)
  with keepsD [OF assms(1)] assms(2) show ?thesis by simp
next
  case (Inr a)
  with assms(2,3) show ?thesis by simp
qed

lemma other_key: "t \<noteq> tid \<Longrightarrow> key (t # ids) \<noteq> key (tid # js)" "t \<noteq> tid \<Longrightarrow> key (t # ids) \<noteq> replyKey tid r i"
  by (simp_all add: replyKey_def)

lemma untouched_session_ops:
  assumes "t \<noteq> tid"
  shows "CreateSession clone ctx tid sid st now s = (x1, s') \<Longrightarrow> untouched t s s'"
    "UpdateSessionState clone ctx tid sid v st now s = (x1, s') \<Longrightarrow> untouched t s s'"
proof -
  show "untouched t s s'" if "CreateSession clone ctx tid sid st now s = (x1, s')"
    by (rule untouched_kept [OF store_ops_keep(1) that])
      (use assms in \<open>auto simp: CreateSession_def Let_def untouched_def\<close>)
  show "untouched t s s'" if "UpdateSessionState clone ctx tid sid v st now s = (x1, s')"
    by (rule untouched_kept [OF store_ops_keep(2) that])
      (use assms in \<open>auto simp: UpdateSessionState_def Let_def untouched_def\<close>)
qed

lemma untouched_message_ops:
  assumes "t \<noteq> tid"
  shows "mi_TenantID i = tid \<Longrightarrow> RecordMessage ctx i clock s = (x2, s') \<Longrightarrow> untouched t s s'"
    "mt_TenantID m = tid \<Longrightarrow> TransitionMessage ctx m clock s = (x3, s') \<Longrightarrow> untouched t s s'"
    "ep_TenantID p = tid \<Longrightarrow> AppendEventPayload valid same ctx p now s = (x4, s') \<Longrightarrow> untouched t s s'"
proof -
  show "untouched t s s'" if i: "mi_TenantID i = tid" and o: "RecordMessage ctx i clock s = (x2, s')"
    by (rule untouched_kept [OF store_ops_keep2(1) o])
      (use assms i in \<open>auto simp: RecordMessage_def Let_def untouched_def split: option.splits\<close>)
  show "untouched t s s'" if i: "mt_TenantID m = tid" and o: "TransitionMessage ctx m clock s = (x3, s')"
    by (rule untouched_kept [OF store_ops_keep(4) o])
      (use assms i in \<open>auto simp: TransitionMessage_def Let_def untouched_def\<close>)
  show "untouched t s s'" if i: "ep_TenantID p = tid" and o: "AppendEventPayload valid same ctx p now s = (x4, s')"
    by (rule untouched_kept [OF store_ops_keep2(2) o])
      (use assms i in \<open>auto simp: AppendEventPayload_def Let_def untouched_def split: option.splits\<close>)
qed

lemma untouched_reply_ops:
  assumes "t \<noteq> tid"
  shows "ClaimReply ctx tid rid seg owner d clock s = (x5, s') \<Longrightarrow> untouched t s s'"
    "rx_TenantID x = tid \<Longrightarrow> TransitionReply ctx x clock s = (x5, s') \<Longrightarrow> untouched t s s'"
    "rp_TenantID r = tid \<Longrightarrow> EnqueueReply ctx r now s = (x5, s') \<Longrightarrow> untouched t s s'"
proof -
  show "untouched t s s'" if "ClaimReply ctx tid rid seg owner d clock s = (x5, s')"
    by (rule untouched_kept [OF store_ops_keep(6) that])
      (use assms in \<open>auto simp: ClaimReply_def Let_def untouched_def replyKey_def\<close>)
  show "untouched t s s'" if i: "rx_TenantID x = tid" and o: "TransitionReply ctx x clock s = (x5, s')"
    by (rule untouched_kept [OF store_ops_keep(7) o])
      (use assms i in \<open>auto simp: TransitionReply_def Let_def untouched_def replyKey_def\<close>)
  show "untouched t s s'" if i: "rp_TenantID r = tid" and o: "EnqueueReply ctx r now s = (x5, s')"
    by (rule untouched_kept [OF store_ops_keep2(3) o])
      (use assms i in \<open>auto simp: EnqueueReply_def Let_def untouched_def replyKey_def split: option.splits\<close>)
qed

lemma untouched_correlations:
  assumes "t \<noteq> tid" and "rp_TenantID (hd rs) = tid" and "enqueueReplies ctx c rs now s = (Inr res, s')"
  shows "get (st_correlations s') (key (t # ids)) = get (st_correlations s) (key (t # ids))"
proof -
  obtain result replies where loop: "enqueue_loop now rs (st_replies s) = (result, replies)" by fastforce
  with assms(3) obtain first where v: "validateReplyBatch rs = Inr first"
    and c: "correlation_fails c first (st_correlations s) = None"
    and s': "st_correlations s' = (if rc_RequestID c \<noteq> []
        then put (key [rc_TenantID c, rc_EventID c]) c (st_correlations s) else st_correlations s)"
    by (auto simp: enqueueReplies_def)
  from v have "first = hd rs" by (simp add: validateReplyBatch_Inr batch_ok_def)
  with c assms(2) have "rc_RequestID c \<noteq> [] \<Longrightarrow> rc_TenantID c = tid" by (simp add: correlation_fails_def)
  with s' assms(1) show ?thesis by simp
qed

lemma untouched_batch:
  assumes "t \<noteq> tid" and "rp_TenantID (hd rs) = tid" and "enqueueReplies ctx c rs now s = (x6, s')"
  shows "untouched t s s'"
proof (rule untouched_kept [OF store_ops_keep(5) assms(3)])
  fix res
  assume enq: "enqueueReplies ctx c rs now s = (Inr res, s')"
  from enqueueReplies_ok [OF this] obtain first where b: "batch_ok first rs" "replies_added now rs s s'" by blast
  have first: "first = hd rs" "list_all (batch_value_ok first) rs" using b(1) unfolding batch_ok_def by blast+
  have "rp_TenantID v = tid" if "v \<in> set rs" for v
  proof -
    from first(2) that have "batch_value_ok first v" by (simp add: list_all_iff)
    then show ?thesis using first(1) assms(2) by (simp add: batch_value_ok_def)
  qed
  then have "find (\<lambda>v. reply_key v = key (t # ids)) rs = None" for ids
    using assms(1) by (auto simp: find_None_iff reply_key_def replyKey_def)
  then have "get (st_replies s') (key (t # ids)) = get (st_replies s) (key (t # ids))" for ids
    using b(2) by (simp add: replies_added_def added_def split: option.split)
  moreover have "get (st_correlations s') (key (t # ids)) = get (st_correlations s) (key (t # ids))" for ids
    by (rule untouched_correlations [OF assms(1,2) enq])
  ultimately show "untouched t s s'" using b(2) by (simp add: untouched_def replies_added_def)
qed

lemma untouched_delete:
  assumes "t \<noteq> tid" and "DeleteSession ctx tid sid s = (x0, s')" and ok: "store_ok s"
  shows "untouched t s s'"
proof (rule untouched_kept [OF store_ops_keep(3) assms(2)])
  fix u
  assume d: "DeleteSession ctx tid sid s = (Inr u, s')"
  have oks: "events_ok s" "replies_ok s" using ok by (simp_all add: store_ok_def)
  note D = DeleteSession_ok [OF d oks]
  have ses: "get (st_sessions s') (key (t # ids)) = get (st_sessions s) (key (t # ids))"
    "get (st_histories s') (key (t # ids)) = get (st_histories s) (key (t # ids))" for ids
    using D assms(1) by auto
  have ev: "get (st_events s') (key (t # ids)) = Some e \<longleftrightarrow> get (st_events s) (key (t # ids)) = Some e" for ids e
    using D events_okD [OF oks(1), of "key (t # ids)" e] assms(1) by (auto simp: in_session_def event_ok_def)
  have msg: "get (st_messages s') (key (t # ids)) = Some k \<longleftrightarrow> get (st_messages s) (key (t # ids)) = Some k" for ids k
    using D assms(1) by auto
  have rep: "get (st_replies s') (key (t # ids)) = Some r \<longleftrightarrow> get (st_replies s) (key (t # ids)) = Some r" for ids r
    using D replies_okD [OF oks(2), of "key (t # ids)" r] assms(1) by (auto simp: reply_ok_def reply_key_def replyKey_def)
  have "st_correlations s' = st_correlations s" using d by (auto simp: DeleteSession_def Let_def)
  moreover have "get (st_events s') (key (t # ids)) = get (st_events s) (key (t # ids))"
    "get (st_messages s') (key (t # ids)) = get (st_messages s) (key (t # ids))"
    "get (st_replies s') (key (t # ids)) = get (st_replies s) (key (t # ids))" for ids
    using ev [of ids] msg [of ids] rep [of ids] by (metis not_Some_eq)+
  ultimately show "untouched t s s'" using ses by (simp add: untouched_def)
qed

text \<open>
  C25: tenants are isolated. An operation on sessions, messages, histories or replies for one
  tenant leaves every such record of every other tenant exactly as it was, whatever the tenant
  identifiers are.
\<close>

theorem store_tenant_isolated:
  assumes "store_reachable env s" and "tenant_op env tid s s'" and "t \<noteq> tid"
  shows "untouched t s s'"
  using assms(2)
proof cases
  case create
  then show ?thesis by (rule untouched_session_ops(1) [OF assms(3)])
next
  case update
  then show ?thesis by (rule untouched_session_ops(2) [OF assms(3)])
next
  case delete
  then show ?thesis by (rule untouched_delete [OF assms(3) _ store_reachable_ok [OF assms(1)]])
next
  case record_message
  then show ?thesis by (rule untouched_message_ops(1) [OF assms(3)])
next
  case transition_message
  then show ?thesis by (rule untouched_message_ops(2) [OF assms(3)])
next
  case append_payload
  then show ?thesis by (rule untouched_message_ops(3) [OF assms(3)])
next
  case enqueue_reply
  then show ?thesis by (rule untouched_reply_ops(3) [OF assms(3)])
next
  case enqueue_replies
  then show ?thesis by (rule untouched_batch [OF assms(3)])
next
  case claim_reply
  then show ?thesis by (rule untouched_reply_ops(1) [OF assms(3)])
next
  case transition_reply
  then show ?thesis by (rule untouched_reply_ops(2) [OF assms(3)])
qed

theorem store_tenant_isolated_witness:
  "\<exists>s'. DeleteSession (Some background) ''t'' ''s'' demo_s2 = (Inr (), s') \<and> untouched ''u'' demo_s2 s'"
proof -
  obtain s' where d: "DeleteSession (Some background) ''t'' ''s'' demo_s2 = (Inr (), s')"
    by (simp add: DeleteSession_def demo_s2_def Let_def)
  from store_tenant_isolated [OF demo_stores(2) tenant_op.delete [OF d], of "''u''"] d show ?thesis by auto
qed

end
