(* ===== verification/Outbox_Materializer.thy ===== *)
theory Outbox_Materializer
  imports Runtime_Props
begin

text \<open>
  The materializer of replies, \<^verbatim>\<open>runtime/outbox/materializer.go\<close>: the reply of a completed execution
  is cut into segments of bounded length that are stored as one batch under the identity of the
  reply.

  \<open>norm\<close> is the normal form of a trace parent that the tracing library computes, and \<open>ambient\<close> the
  trace parent that it reads from the context of the storage operation. The in-memory store
  offers both batch interfaces that the code asks for by type assertion. Telemetry leaves no
  mark on the state.
\<close>

subsection \<open>Segments\<close>

text \<open>\<^verbatim>\<open>string(runes)\<close>.\<close>

definition encode_runes :: "nat list \<Rightarrow> string" where
  "encode_runes rs = concat (map encode_rune rs)"

text \<open>The loop of \<^verbatim>\<open>splitRunes\<close>; the segment size of a materializer is positive.\<close>

function split_loop :: "nat \<Rightarrow> nat list \<Rightarrow> string list" where
  "split_loop n rs =
     (if rs = [] \<or> n = 0 then [] else encode_runes (take n rs) # split_loop n (drop n rs))"
  by pat_completeness auto
termination
  by (relation "measure (length \<circ> snd)") simp_all

declare split_loop.simps [simp del]

text \<open>
  The capacity of the result is computed in 64 bits and wraps around for a segment size near the
  largest integer; a negative capacity is a panic, here \<open>None\<close>.
\<close>

definition splitRunes :: "string \<Rightarrow> nat \<Rightarrow> string list option" where
  "splitRunes value n =
     (if trim_space value = [] then Some []
      else if quot (wrap64 (int (length (runes value)) + int n - 1)) (int n) < 0 then None
      else Some (split_loop n (runes value)))"

subsection \<open>Materialization\<close>

datatype materialize_error = MErrInvalid | MErrMaterialization "rs_error option" | MPanicMakeSlice

definition defaultSegmentRunes :: nat where "defaultSegmentRunes = 512"

record materializer =
  mz_segmentSize :: nat

record materialize_input =
  mzi_TenantID :: string
  mzi_EventID :: string
  mzi_ReplyID :: string
  mzi_RequestID :: string
  mzi_TraceID :: string
  mzi_TraceParent :: string
  mzi_Payload :: string
  mzi_ReplyTarget :: reply_target

definition NewMaterializer :: "bool \<Rightarrow> int \<Rightarrow> materialize_error + materializer" where
  "NewMaterializer hasStore segmentSize =
     ensure (fails (\<not> hasStore) MErrInvalid)
     (Inr \<lparr>mz_segmentSize = (if segmentSize \<le> 0 then defaultSegmentRunes else nat segmentSize)\<rparr>)"

text \<open>The classes of errors that pass the boundary: every other error is reduced to a failure.\<close>

definition redactedMaterializationError :: "rs_error \<Rightarrow> materialize_error" where
  "redactedMaterializationError e =
     (case e of RErrIllegalTransition \<Rightarrow> MErrMaterialization None | _ \<Rightarrow> MErrMaterialization (Some e))"

definition reply_segment :: "materialize_input \<Rightarrow> nat \<Rightarrow> nat \<Rightarrow> string \<Rightarrow> reply_outbox" where
  "reply_segment i count index payload =
     \<lparr>rp_TenantID = mzi_TenantID i, rp_ReplyID = mzi_ReplyID i, rp_EventID = mzi_EventID i,
      rp_SegmentIndex = int index, rp_SegmentCount = int count, rp_Payload = payload,
      rp_ReplyTarget = mzi_ReplyTarget i, rp_Status = [], rp_Attempts = 0, rp_FencingToken = 0, rp_LeaseOwner = [],
      rp_LeaseExpiresAt = None, rp_ProviderMessageID = [], rp_LastErrorClass = [], rp_CreatedAt = 0, rp_UpdatedAt = 0\<rparr>"

definition reply_segments :: "materialize_input \<Rightarrow> string list \<Rightarrow> reply_outbox list" where
  "reply_segments i segments =
     map (\<lambda>(index, payload). reply_segment i (length segments) index payload) (enumerate 0 segments)"

definition Materialize ::
  "(string \<Rightarrow> string) \<Rightarrow> string \<Rightarrow> materializer option \<Rightarrow> goctx \<Rightarrow> materialize_input \<Rightarrow> instant \<Rightarrow> 'st runtime_store
   \<Rightarrow> (materialize_error + nat) \<times> 'st runtime_store" where
  "Materialize norm ambient mz ctx i now s =
     fetch mz MErrInvalid s (\<lambda>m.
     check (fails (ctx = None \<or> ValidateTenant (mzi_TenantID i) \<noteq> None \<or> mzi_EventID i = [] \<or> mzi_ReplyID i = []
                   \<or> ValidateReplyTarget (mzi_ReplyTarget i) \<noteq> None) MErrInvalid) s
     (fetch (splitRunes (mzi_Payload i) (mz_segmentSize m)) MPanicMakeSlice s (\<lambda>segments.
      let replies = reply_segments i segments;
          result = (if mzi_RequestID i \<noteq> []
            then EnqueueRepliesWithCorrelation norm ctx
              \<lparr>rc_TenantID = mzi_TenantID i, rc_EventID = mzi_EventID i, rc_RequestID = mzi_RequestID i,
               rc_TraceID = mzi_TraceID i,
               rc_TraceParent = (if mzi_TraceParent i = [] then ambient else norm (mzi_TraceParent i))\<rparr> replies now s
            else EnqueueReplies ctx replies now s)
      in
      check (fails (segments = []) MErrInvalid) s
      (case result of
         (Inl e, s') \<Rightarrow> (Inl (redactedMaterializationError e), s')
       | (Inr _, s') \<Rightarrow> (Inr (length segments), s')))))"

subsection \<open>Cutting and joining\<close>

lemma split_loop_reduce:
  "0 < n \<Longrightarrow> rs \<noteq> [] \<Longrightarrow> split_loop n rs = encode_runes (take n rs) # split_loop n (drop n rs)"
  by (subst split_loop.simps) simp

lemma split_loop_Nil [simp]: "split_loop n [] = []"
  by (subst split_loop.simps) simp

lemma encode_runes_append: "encode_runes (xs @ ys) = encode_runes xs @ encode_runes ys"
  by (simp add: encode_runes_def)

lemma concat_split_loop: "0 < n \<Longrightarrow> concat (split_loop n rs) = encode_runes rs"
proof (induction n rs rule: split_loop.induct)
  case (1 n rs)
  show ?case
  proof (cases "rs = []")
    case True
    then show ?thesis by (simp add: encode_runes_def)
  next
    case False
    with 1 show ?thesis
      by (simp add: split_loop_reduce encode_runes_append [symmetric])
  qed
qed

text \<open>\<^verbatim>\<open>utf8.ValidString\<close>: no byte decodes to the replacement character on its own.\<close>

definition utf8_valid :: "string \<Rightarrow> bool" where
  "utf8_valid s \<longleftrightarrow> list_all (\<lambda>(r, bs). \<not> (r = rune_error \<and> length bs = 1)) (chunks s)"

text \<open>The encoding of a code point from its six-bit groups.\<close>

lemma six_bits:
  fixes q t :: nat
  assumes "t < 64"
  shows "(q * 64 + t) div 64 = q" "(q * 64 + t) mod 64 = t"
  using assms by simp_all

lemma div_6_12: "(r :: nat) div 4096 = r div 64 div 64"
  by (simp add: div_mult2_eq [symmetric])

lemma div_6_18: "(r :: nat) div 262144 = r div 64 div 64 div 64"
  by (simp add: div_mult2_eq [symmetric])

lemma encode_groups:
  "t < 64 \<Longrightarrow> 2 \<le> a \<Longrightarrow> a < 32 \<Longrightarrow> encode_rune (a * 64 + t) = [char_of (0xC0 + a), char_of (0x80 + t)]"
  "t < 64 \<Longrightarrow> u < 64 \<Longrightarrow> a < 16 \<Longrightarrow> 0x20 \<le> a * 64 + u \<Longrightarrow>
    encode_rune ((a * 64 + u) * 64 + t) = [char_of (0xE0 + a), char_of (0x80 + u), char_of (0x80 + t)]"
  "t < 64 \<Longrightarrow> u < 64 \<Longrightarrow> v < 64 \<Longrightarrow> 0x10 \<le> a * 64 + v \<Longrightarrow>
    encode_rune (((a * 64 + v) * 64 + u) * 64 + t)
      = [char_of (0xF0 + a), char_of (0x80 + v), char_of (0x80 + u), char_of (0x80 + t)]"
proof -
  show "encode_rune (a * 64 + t) = [char_of (0xC0 + a), char_of (0x80 + t)]"
    if "t < 64" "2 \<le> a" "a < 32"
    using that by (simp add: encode_rune_def)
  show "encode_rune ((a * 64 + u) * 64 + t) = [char_of (0xE0 + a), char_of (0x80 + u), char_of (0x80 + t)]"
    if "t < 64" "u < 64" "a < 16" "0x20 \<le> a * 64 + u"
  proof -
    let ?r = "(a * 64 + u) * 64 + t"
    have "\<not> ?r < 0x80" "\<not> ?r < 0x800" "?r < 0x10000" using that by auto
    then show ?thesis
      unfolding encode_rune_def div_6_12 six_bits [OF that(1)] six_bits [OF that(2)] by simp
  qed
  show "encode_rune (((a * 64 + v) * 64 + u) * 64 + t)
      = [char_of (0xF0 + a), char_of (0x80 + v), char_of (0x80 + u), char_of (0x80 + t)]"
    if "t < 64" "u < 64" "v < 64" "0x10 \<le> a * 64 + v"
  proof -
    let ?r = "((a * 64 + v) * 64 + u) * 64 + t"
    have "\<not> ?r < 0x80" "\<not> ?r < 0x800" "\<not> ?r < 0x10000" using that by auto
    then show ?thesis
      unfolding encode_rune_def div_6_12 div_6_18 six_bits [OF that(1)] six_bits [OF that(2)] six_bits [OF that(3)] by simp
  qed
qed

lemma tail6_cont: "cont lo hi c \<Longrightarrow> 0x80 \<le> lo \<Longrightarrow> hi \<le> 0xBF \<Longrightarrow> tail6 c < 64 \<and> char_of (0x80 + tail6 c) = c \<and> lo - 0x80 \<le> tail6 c"
  by (auto simp: cont_def tail6_def)

lemma encode_decode2:
  assumes "snd (decode2 b cs) \<noteq> 1" and "0xC2 \<le> b" and "b < 0xE0"
  shows "encode_rune (fst (decode2 b cs)) = char_of b # take (snd (decode2 b cs) - 1) cs"
proof (cases cs)
  case Nil
  with assms show ?thesis by simp
next
  case (Cons c1 ds)
  with assms have c: "cont 0x80 0xBF c1" by (auto split: if_splits)
  note t = tail6_cont [OF c, simplified]
  have "encode_rune ((b - 0xC0) * 64 + tail6 c1) = [char_of (0xC0 + (b - 0xC0)), char_of (0x80 + tail6 c1)]"
    by (rule encode_groups(1)) (use t assms in auto)
  with t c assms Cons show ?thesis by simp
qed

lemma encode_decode3:
  assumes "snd (decode3 b cs) \<noteq> 1" and "0xE0 \<le> b" and "b < 0xF0"
  shows "encode_rune (fst (decode3 b cs)) = char_of b # take (snd (decode3 b cs) - 1) cs"
proof (cases "(b, cs)" rule: decode3.cases)
  case (1 b' c1 c2 ds)
  with assms have c: "cont (if b = 0xE0 then 0xA0 else 0x80) (if b = 0xED then 0x9F else 0xBF) c1" "cont 0x80 0xBF c2"
    by (auto split: if_splits)
  have t1: "tail6 c1 < 64" "char_of (0x80 + tail6 c1) = c1" "b = 0xE0 \<Longrightarrow> 0x20 \<le> tail6 c1"
    using tail6_cont [OF c(1)] by (auto split: if_splits)
  note t2 = tail6_cont [OF c(2), simplified]
  have "0x20 \<le> (b - 0xE0) * 64 + tail6 c1" using t1(3) assms(2) by (cases "b = 0xE0") auto
  from encode_groups(2) [OF t2 [THEN conjunct1] t1(1) _ this] assms(2,3)
  have "encode_rune (((b - 0xE0) * 64 + tail6 c1) * 64 + tail6 c2) = [char_of b, c1, c2]"
    using t1(2) t2 by simp
  with 1 c show ?thesis by (simp add: algebra_simps)
qed (use assms in auto)

lemma encode_decode4:
  assumes "snd (decode4 b cs) \<noteq> 1" and "0xF0 \<le> b" and "b < 0xF5"
  shows "encode_rune (fst (decode4 b cs)) = char_of b # take (snd (decode4 b cs) - 1) cs"
proof (cases "(b, cs)" rule: decode4.cases)
  case (1 b' c1 c2 c3 ds)
  with assms have c: "cont (if b = 0xF0 then 0x90 else 0x80) (if b = 0xF4 then 0x8F else 0xBF) c1"
    "cont 0x80 0xBF c2" "cont 0x80 0xBF c3"
    by (auto split: if_splits)
  have t1: "tail6 c1 < 64" "char_of (0x80 + tail6 c1) = c1" "b = 0xF0 \<Longrightarrow> 0x10 \<le> tail6 c1"
    using tail6_cont [OF c(1)] by (auto split: if_splits)
  note t2 = tail6_cont [OF c(2), simplified]
  note t3 = tail6_cont [OF c(3), simplified]
  have "0x10 \<le> (b - 0xF0) * 64 + tail6 c1" using t1(3) assms(2) by (cases "b = 0xF0") auto
  from encode_groups(3) [OF t3 [THEN conjunct1] t2 [THEN conjunct1] t1(1) this] assms(2,3)
  have "encode_rune ((((b - 0xF0) * 64 + tail6 c1) * 64 + tail6 c2) * 64 + tail6 c3) = [char_of b, c1, c2, c3]"
    using t1(2) t2 t3 by simp
  with 1 c show ?thesis by (simp add: algebra_simps)
qed (use assms in auto)

lemma decode_one:
  "snd (decode2 b cs) = 1 \<Longrightarrow> fst (decode2 b cs) = rune_error"
  "snd (decode3 b cs) = 1 \<Longrightarrow> fst (decode3 b cs) = rune_error"
  "snd (decode4 b cs) = 1 \<Longrightarrow> fst (decode4 b cs) = rune_error"
proof -
  show "fst (decode2 b cs) = rune_error" if "snd (decode2 b cs) = 1"
    using that by (cases "(b, cs)" rule: decode2.cases) (auto split: if_splits)
  show "fst (decode3 b cs) = rune_error" if "snd (decode3 b cs) = 1"
    using that by (cases "(b, cs)" rule: decode3.cases) (auto split: if_splits)
  show "fst (decode4 b cs) = rune_error" if "snd (decode4 b cs) = 1"
    using that by (cases "(b, cs)" rule: decode4.cases) (auto split: if_splits)
qed

lemma encode_decode_rune:
  assumes "s \<noteq> []" and "\<not> (fst (decode_rune s) = rune_error \<and> snd (decode_rune s) = 1)"
  shows "encode_rune (fst (decode_rune s)) = take (snd (decode_rune s)) s"
proof -
  obtain c cs where s: "s = c # cs" using assms(1) by (cases s) auto
  let ?d = "decode_first (byte c) cs"
  have tk: "take w s = c # take (w - 1) cs" if "0 < w" for w using that s by (cases w) auto
  have w: "0 < snd (decode_rune s)" using decode_rune_width [OF assms(1)] by simp
  have "encode_rune (fst ?d) = c # take (snd ?d - 1) cs"
  proof -
    have one: "\<not> (fst ?d = rune_error \<and> snd ?d = 1)" using assms(2) s by simp
    consider "byte c < 0x80" | "0xC2 \<le> byte c" "byte c < 0xE0" | "0xE0 \<le> byte c" "byte c < 0xF0"
      | "0xF0 \<le> byte c" "byte c < 0xF5"
      using one by (auto simp: decode_first_def split: if_splits)
    then show ?thesis
    proof cases
      case 1
      then show ?thesis by (simp add: decode_first_def encode_rune_def)
    next
      case 2
      then have d: "?d = decode2 (byte c) cs" by (simp add: decode_first_def)
      from encode_decode2 [OF _ 2, of cs] one decode_one(1) [of "byte c" cs] show ?thesis by (auto simp: d)
    next
      case 3
      then have d: "?d = decode3 (byte c) cs" by (simp add: decode_first_def)
      from encode_decode3 [OF _ 3, of cs] one decode_one(2) [of "byte c" cs] show ?thesis by (auto simp: d)
    next
      case 4
      then have d: "?d = decode4 (byte c) cs" by (simp add: decode_first_def)
      from encode_decode4 [OF _ 4, of cs] one decode_one(3) [of "byte c" cs] show ?thesis by (auto simp: d)
    qed
  qed
  with tk [OF w] s show ?thesis by simp
qed

text \<open>A valid text is the encoding of its code points, chunk by chunk.\<close>

lemma chunk_valid:
  assumes "utf8_valid s" and "(r, bs) \<in> set (chunks s)"
  shows "encode_rune r = bs"
  using assms
proof (induction s rule: chunks.induct)
  case (1 s)
  have ne: "s \<noteq> []" using 1(3) by auto
  have v: "\<not> (fst (decode_rune s) = rune_error \<and> snd (decode_rune s) = 1)"
    "utf8_valid (drop (snd (decode_rune s)) s)"
    using 1(2) decode_rune_width [OF ne] by (auto simp: utf8_valid_def chunks_ne [OF ne])
  from 1(3) consider "r = fst (decode_rune s)" "bs = take (snd (decode_rune s)) s"
    | "(r, bs) \<in> set (chunks (drop (snd (decode_rune s)) s))"
    by (auto simp: chunks_ne [OF ne])
  then show ?case
  proof cases
    case 1
    with encode_decode_rune [OF ne v(1)] show ?thesis by simp
  next
    case 2
    with 1(1) [OF ne v(2)] show ?thesis by blast
  qed
qed

lemma encode_runes_id: "utf8_valid s \<Longrightarrow> encode_runes (runes s) = s"
proof -
  assume v: "utf8_valid s"
  have E: "map (encode_rune \<circ> fst) (chunks s) = map snd (chunks s)"
    using chunk_valid [OF v] by auto
  have "encode_runes (runes s) = unchunk (chunks s)"
    unfolding encode_runes_def unchunk_def runes_def map_map E ..
  then show ?thesis by simp
qed

text \<open>Any text, valid or not, has characters that are encoded so that they are read back.\<close>

lemma decode_extend:
  "snd (decode2 b cs) \<noteq> 1 \<Longrightarrow> decode2 b (take (snd (decode2 b cs) - 1) cs @ t) = decode2 b cs"
  "snd (decode3 b cs) \<noteq> 1 \<Longrightarrow> decode3 b (take (snd (decode3 b cs) - 1) cs @ t) = decode3 b cs"
  "snd (decode4 b cs) \<noteq> 1 \<Longrightarrow> decode4 b (take (snd (decode4 b cs) - 1) cs @ t) = decode4 b cs"
proof -
  show "decode2 b (take (snd (decode2 b cs) - 1) cs @ t) = decode2 b cs" if "snd (decode2 b cs) \<noteq> 1"
    using that by (cases "(b, cs)" rule: decode2.cases) (auto split: if_splits)
  show "decode3 b (take (snd (decode3 b cs) - 1) cs @ t) = decode3 b cs" if "snd (decode3 b cs) \<noteq> 1"
    using that by (cases "(b, cs)" rule: decode3.cases) (auto simp: numeral_2_eq_2 split: if_splits)
  show "decode4 b (take (snd (decode4 b cs) - 1) cs @ t) = decode4 b cs" if "snd (decode4 b cs) \<noteq> 1"
    using that by (cases "(b, cs)" rule: decode4.cases) (auto simp: numeral_3_eq_3 split: if_splits)
qed

lemma decode_rune_extend:
  assumes "s \<noteq> []" and "\<not> (fst (decode_rune s) = rune_error \<and> snd (decode_rune s) = 1)"
  shows "decode_rune (take (snd (decode_rune s)) s @ t) = decode_rune s"
proof -
  obtain c cs where s: "s = c # cs" using assms(1) by (cases s) auto
  let ?d = "decode_first (byte c) cs"
  have one: "\<not> (fst ?d = rune_error \<and> snd ?d = 1)" using assms(2) s by simp
  have "0 < snd ?d" using decode_rune_width [OF assms(1)] s by simp
  then have "take (snd ?d) s = c # take (snd ?d - 1) cs" using s by (cases "snd ?d") auto
  moreover have "decode_first (byte c) (take (snd ?d - 1) cs @ t) = ?d"
    using one decode_one [of "byte c" cs] decode_extend [of "byte c" cs t]
    by (auto simp: decode_first_def split: if_splits)
  ultimately show ?thesis using s by simp
qed

definition readable :: "nat \<Rightarrow> bool" where
  "readable r \<longleftrightarrow> encode_rune r \<noteq> [] \<and> (\<forall>t. decode_rune (encode_rune r @ t) = (r, length (encode_rune r)))"

lemma readable_rune_error: "readable rune_error"
proof -
  have e: "encode_rune rune_error = [char_of (0xEF :: nat), char_of (0xBF :: nat), char_of (0xBD :: nat)]"
    by (simp add: encode_rune_def rune_error_def)
  have "decode_rune (encode_rune rune_error @ t) = (rune_error, 3)" for t
    unfolding e by (simp add: decode_first_def cont_def tail6_def rune_error_def)
  with e show ?thesis by (simp add: readable_def)
qed

lemma readable_runes: "r \<in> set (runes s) \<Longrightarrow> readable r"
proof (induction s rule: chunks.induct)
  case (1 s)
  have ne: "s \<noteq> []" using 1(2) by (auto simp: runes_def)
  let ?r = "fst (decode_rune s)" and ?w = "snd (decode_rune s)"
  from 1(2) consider "r = ?r" | "r \<in> set (runes (drop ?w s))" by (auto simp: runes_def chunks_ne [OF ne])
  then show ?case
  proof cases
    case 1
    show ?thesis
    proof (cases "?r = rune_error \<and> ?w = 1")
      case True
      with 1 readable_rune_error show ?thesis by simp
    next
      case False
      note e = encode_decode_rune [OF ne False] and x = decode_rune_extend [OF ne False]
      from decode_rune_width [OF ne] have "length (take ?w s) = ?w" "take ?w s \<noteq> []" by auto
      with e x 1 show ?thesis by (simp add: readable_def)
    qed
  next
    case 2
    with 1(1) [OF ne] show ?thesis by blast
  qed
qed

lemma chunks_encode_runes:
  "list_all readable rs \<Longrightarrow> chunks (encode_runes rs) = map (\<lambda>r. (r, encode_rune r)) rs"
proof (induction rs)
  case Nil
  show ?case by (simp add: encode_runes_def)
next
  case (Cons r rs)
  then have r: "encode_rune r \<noteq> []" "decode_rune (encode_rune r @ t) = (r, length (encode_rune r))" for t
    by (auto simp: readable_def)
  have "encode_runes (r # rs) = encode_rune r @ encode_runes rs" by (simp add: encode_runes_def)
  with r Cons show ?case by (simp add: chunks_ne)
qed

lemma encode_runes_read:
  "list_all readable rs \<Longrightarrow> runes (encode_runes rs) = rs"
  "list_all readable rs \<Longrightarrow> rune_count (encode_runes rs) = length rs"
  by (simp_all add: runes_def rune_count_def chunks_encode_runes comp_def)

lemma split_loop_bounds:
  "0 < n \<Longrightarrow> list_all readable rs \<Longrightarrow> seg \<in> set (split_loop n rs) \<Longrightarrow> 0 < rune_count seg \<and> rune_count seg \<le> n"
proof (induction n rs rule: split_loop.induct)
  case (1 n rs)
  then have ne: "rs \<noteq> []" by auto
  have parts: "list_all readable (take n rs)" "list_all readable (drop n rs)"
    using 1(3) by (auto simp: list_all_iff dest: in_set_takeD in_set_dropD)
  from 1(2,4) ne consider "seg = encode_runes (take n rs)" | "seg \<in> set (split_loop n (drop n rs))"
    by (auto simp: split_loop_reduce)
  then show ?case
  proof cases
    case 1
    with parts(1) ne \<open>0 < n\<close> show ?thesis by (simp add: encode_runes_read)
  next
    case 2
    with 1(1) [OF _ \<open>0 < n\<close> parts(2)] ne \<open>0 < n\<close> show ?thesis by simp
  qed
qed

lemma splitRunes_spec:
  assumes "0 < n" and "splitRunes v n = Some segs" and "segs \<noteq> []"
  shows "concat segs = encode_runes (runes v)" and "runes (concat segs) = runes v"
    and "utf8_valid v \<Longrightarrow> concat segs = v"
    and "seg \<in> set segs \<Longrightarrow> 0 < rune_count seg \<and> rune_count seg \<le> n"
proof -
  have eq: "segs = split_loop n (runes v)" using assms(2,3) by (auto simp: splitRunes_def split: if_splits)
  have ok: "list_all readable (runes v)" using readable_runes by (simp add: list_all_iff)
  show c: "concat segs = encode_runes (runes v)" by (simp add: eq concat_split_loop assms(1))
  show "runes (concat segs) = runes v" unfolding c by (rule encode_runes_read(1) [OF ok])
  show "concat segs = v" if "utf8_valid v" unfolding c using that by (rule encode_runes_id)
  show "0 < rune_count seg \<and> rune_count seg \<le> n" if "seg \<in> set segs"
    using split_loop_bounds [OF assms(1) ok] that eq by simp
qed

text \<open>A segment size near the largest integer makes the capacity negative.\<close>

theorem splitRunes_overflow: "splitRunes ''abc'' (2 ^ 63 - 1) = None"
proof -
  have "trim_space ''abc'' \<noteq> []" "length (runes ''abc'') = 3" by code_simp+
  then show ?thesis by (simp add: splitRunes_def quot_def wrap64_def)
qed

text \<open>The batch behind a successful materialization.\<close>

lemma Materialize_ok:
  assumes "Materialize norm ambient (Some m) ctx i now s = (Inr n, s')"
  obtains segs c res where "splitRunes (mzi_Payload i) (mz_segmentSize m) = Some segs" "n = length segs" "n \<noteq> 0"
    "enqueueReplies ctx c (reply_segments i segs) now s = (Inr res, s')"
    "ValidateTenant (mzi_TenantID i) = None" "mzi_ReplyID i \<noteq> []"
proof (cases "splitRunes (mzi_Payload i) (mz_segmentSize m)")
  case None
  with assms show thesis by (simp add: Materialize_def split: option.splits)
next
  case (Some segs)
  with assms that [OF Some] show thesis
    by (auto simp: Materialize_def Let_def EnqueueReplies_def EnqueueRepliesWithCorrelation_def
        split: prod.splits sum.splits if_splits)
qed

lemma reply_segments_nth:
  "length (reply_segments i segs) = length segs"
  "j < length segs \<Longrightarrow> reply_segments i segs ! j = reply_segment i (length segs) j (segs ! j)"
  by (simp_all add: reply_segments_def nth_enumerate_eq)

subsection \<open>Properties\<close>

text \<open>
  C28: a reply survives its way into the outbox. After a reply was materialized, its n segments can
  be read from the store one by one, each knows its index and the number of segments, and each
  is a text of at least one and at most the configured number of characters. Read in order they
  make up the reply character by character: the concatenation of the segments is the encoding of
  the characters of the reply, in which every byte that is not part of valid UTF-8 has become the
  replacement character U+FFFD, and it is the reply itself when the reply is valid UTF-8.
\<close>

theorem materialize_roundtrip:
  assumes "store_reachable env s" and "NewMaterializer True limit = Inr m"
    and "Materialize norm ambient (Some m) ctx i now s = (Inr n, s')" and "store_check ctx' = None"
  shows "\<exists>rs. length rs = n \<and> concat (map rp_Payload rs) = encode_runes (runes (mzi_Payload i))
    \<and> runes (concat (map rp_Payload rs)) = runes (mzi_Payload i)
    \<and> (utf8_valid (mzi_Payload i) \<longrightarrow> concat (map rp_Payload rs) = mzi_Payload i)
    \<and> (\<forall>j<n. GetReply ctx' (mzi_TenantID i) (mzi_ReplyID i) (int j) s' = Inr (rs ! j)
         \<and> rp_SegmentIndex (rs ! j) = int j \<and> rp_SegmentCount (rs ! j) = int n
         \<and> rp_ReplyTarget (rs ! j) = mzi_ReplyTarget i
         \<and> 0 < rune_count (rp_Payload (rs ! j)) \<and> rune_count (rp_Payload (rs ! j)) \<le> mz_segmentSize m)"
proof -
  have pos: "0 < mz_segmentSize m" using assms(2) by (auto simp: NewMaterializer_def defaultSegmentRunes_def)
  from Materialize_ok [OF assms(3)] obtain segs c res where
    split: "splitRunes (mzi_Payload i) (mz_segmentSize m) = Some segs" and n: "n = length segs" "n \<noteq> 0"
    and enq: "enqueueReplies ctx c (reply_segments i segs) now s = (Inr res, s')"
    and valid: "ValidateTenant (mzi_TenantID i) = None" "mzi_ReplyID i \<noteq> []" by blast
  let ?vs = "reply_segments i segs"
  have "replies_ok s" using store_reachable_ok [OF assms(1)] by (simp add: store_ok_def)
  from enqueued_segments [OF enq this] obtain f where
    f: "\<And>v. v \<in> set ?vs \<Longrightarrow> get (st_replies s') (reply_key v) = Some (f v)"
      "\<And>v. v \<in> set ?vs \<Longrightarrow> \<not> reply_differs (f v) v \<and> rp_SegmentIndex (f v) = rp_SegmentIndex v" by blast
  have ne: "segs \<noteq> []" using n by auto
  have seg: "?vs ! j = reply_segment i n j (segs ! j)" "?vs ! j \<in> set ?vs" if "j < n" for j
    using that n(1) nth_mem [of j ?vs] by (simp_all only: reply_segments_nth)
  have stored: "GetReply ctx' (mzi_TenantID i) (mzi_ReplyID i) (int j) s' = Inr (f (?vs ! j))"
    "rp_SegmentIndex (f (?vs ! j)) = int j" "rp_SegmentCount (f (?vs ! j)) = int n" "rp_Payload (f (?vs ! j)) = segs ! j"
    "rp_ReplyTarget (f (?vs ! j)) = mzi_ReplyTarget i" if "j < n" for j
    using f(1) [OF seg(2) [OF that]] f(2) [OF seg(2) [OF that]] assms(4) valid
    by (simp_all add: seg(1) [OF that] GetReply_def reply_key_def reply_differs_def reply_segment_def)
  have payloads: "map rp_Payload (map f ?vs) = segs"
    using stored(4) n(1) by (intro nth_equalityI) (simp_all add: reply_segments_nth(1))
  note spec = splitRunes_spec [OF pos split ne]
  have "0 < rune_count (segs ! j) \<and> rune_count (segs ! j) \<le> mz_segmentSize m" if "j < n" for j
    using spec(4) that n(1) by simp
  with stored n(1) spec(1-3) show ?thesis
    by (intro exI [of _ "map f ?vs"] conjI) (simp_all add: reply_segments_nth(1) payloads del: map_map)
qed

definition demo_reply_input :: materialize_input where
  "demo_reply_input = \<lparr>mzi_TenantID = ''t'', mzi_EventID = ''e'', mzi_ReplyID = ''e'', mzi_RequestID = ''q'',
     mzi_TraceID = [], mzi_TraceParent = [], mzi_Payload = ''abc'', mzi_ReplyTarget = zeroReplyTarget\<rparr>"

theorem materialize_roundtrip_witness:
  "\<exists>s' rs. Materialize id [] (Some \<lparr>mz_segmentSize = 2\<rparr>) (Some background) demo_reply_input 9 demo_s2 = (Inr 2, s')
     \<and> length rs = 2 \<and> concat (map rp_Payload rs) = ''abc'' \<and> GetReply (Some background) ''t'' ''e'' 1 s' = Inr (rs ! 1)"
proof -
  obtain s' where m: "Materialize id [] (Some \<lparr>mz_segmentSize = 2\<rparr>) (Some background) demo_reply_input 9 demo_s2 = (Inr 2, s')"
  proof
    have "fst (Materialize id [] (Some \<lparr>mz_segmentSize = 2\<rparr>) (Some background) demo_reply_input 9 demo_s2) = Inr 2"
      by code_simp
    then show "Materialize id [] (Some \<lparr>mz_segmentSize = 2\<rparr>) (Some background) demo_reply_input 9 demo_s2
        = (Inr 2, snd (Materialize id [] (Some \<lparr>mz_segmentSize = 2\<rparr>) (Some background) demo_reply_input 9 demo_s2))"
      by (metis prod.collapse)
  qed
  have new: "NewMaterializer True 2 = Inr \<lparr>mz_segmentSize = 2\<rparr>" by (simp add: NewMaterializer_def)
  have valid: "utf8_valid (mzi_Payload demo_reply_input)" by code_simp
  have "store_check (Some background) = None" by (simp add: store_check_def)
  from materialize_roundtrip [OF demo_stores(2) new m this] valid obtain rs where
    rs: "length rs = 2" "concat (map rp_Payload rs) = ''abc''"
    and get: "\<forall>j<2. GetReply (Some background) ''t'' ''e'' (int j) s' = Inr (rs ! j)"
    by (auto simp: demo_reply_input_def)
  from get [rule_format, of 1] rs m show ?thesis by auto
qed

text \<open>
  A repeated materialization is documented as idempotent, and it is for a reply without a request
  identifier. With a request identifier and no trace parent of its own, the trace parent of the
  ambient operation is stored with the reply, so that repeating the same call under another
  operation is refused as a conflict.
\<close>

theorem materialize_replay_conflict:
  "\<exists>s'. Materialize id ''op1'' (Some \<lparr>mz_segmentSize = 2\<rparr>) (Some background) demo_reply_input 9 demo_s2 = (Inr 2, s')
     \<and> fst (Materialize id ''op2'' (Some \<lparr>mz_segmentSize = 2\<rparr>) (Some background) demo_reply_input 10 s')
         = Inl (MErrMaterialization (Some RErrConflict))"
proof -
  let ?m = "Materialize id ''op1'' (Some \<lparr>mz_segmentSize = 2\<rparr>) (Some background) demo_reply_input 9 demo_s2"
  have "fst ?m = Inr 2" by code_simp
  moreover have "fst (Materialize id ''op2'' (Some \<lparr>mz_segmentSize = 2\<rparr>) (Some background) demo_reply_input 10 (snd ?m))
      = Inl (MErrMaterialization (Some RErrConflict))"
    by code_simp
  ultimately show ?thesis by (metis prod.collapse)
qed

end
