(* ===== verification/Audit_Log.thy ===== *)
theory Audit_Log
  imports Ident
begin

text \<open>
  Business audit and usage accounting, \<^verbatim>\<open>audit/audit.go\<close>, \<^verbatim>\<open>audit/producer.go\<close> and \<^verbatim>\<open>audit/handoff.go\<close>:
  the validated audit event, the tenant-scoped in-memory store that appends events once and
  aggregates their usage, the recorder that turns outcomes into events, and the store of
  execution handoffs.

  A store is a view with the tenant of the caller on a shared backend; \<open>None\<close> is a nil store or
  one without a backend. The JSON form of an event under SHA-256 is the argument \<open>digest\<close>, which
  is \<open>None\<close> where the encoder fails; \<open>sha\<close> is the hexadecimal SHA-256 sum. An instant has no
  location, so \<open>ae_UTC\<close> says whether the location of the time of an event is UTC. Copies of
  pointers are the values themselves.
\<close>

subsection \<open>Events\<close>

datatype audit_error = AuErrInvalid | AuErrTenantScope | AuErrNotFound | AuErrConflict | AuErrCtx ctx_error | AuErrJSON

definition audit_SchemaVersion :: int where "audit_SchemaVersion = 1"

definition audit_EventControlPlaneChanged :: string where "audit_EventControlPlaneChanged = ''control_plane.changed''"
definition audit_EventExecutionStarted :: string where "audit_EventExecutionStarted = ''execution.started''"
definition audit_EventExecutionCompleted :: string where "audit_EventExecutionCompleted = ''execution.completed''"
definition audit_EventExecutionFailed :: string where "audit_EventExecutionFailed = ''execution.failed''"
definition audit_EventExecutionCanceled :: string where "audit_EventExecutionCanceled = ''execution.canceled''"
definition audit_EventExecutionTimedOut :: string where "audit_EventExecutionTimedOut = ''execution.timed_out''"
definition audit_EventExecutionFallback :: string where "audit_EventExecutionFallback = ''execution.fallback''"
definition audit_EventCanarySelected :: string where "audit_EventCanarySelected = ''execution.canary_selected''"
definition audit_EventToolAllowed :: string where "audit_EventToolAllowed = ''tool.allowed''"
definition audit_EventToolDenied :: string where "audit_EventToolDenied = ''tool.denied''"
definition audit_EventToolApprovalRequired :: string where "audit_EventToolApprovalRequired = ''tool.approval_required''"
definition audit_EventIMAuthorizationAllowed :: string where "audit_EventIMAuthorizationAllowed = ''im.authorization_allowed''"
definition audit_EventIMAuthorizationDenied :: string where "audit_EventIMAuthorizationDenied = ''im.authorization_denied''"
definition audit_EventIMIngressAccepted :: string where "audit_EventIMIngressAccepted = ''im.ingress_accepted''"
definition audit_EventIMIngressDuplicate :: string where "audit_EventIMIngressDuplicate = ''im.ingress_duplicate''"
definition audit_EventIMDeliverySent :: string where "audit_EventIMDeliverySent = ''im.delivery_sent''"
definition audit_EventIMDeliveryRetryScheduled :: string where "audit_EventIMDeliveryRetryScheduled = ''im.delivery_retry_scheduled''"
definition audit_EventIMDeliveryDeadLettered :: string where "audit_EventIMDeliveryDeadLettered = ''im.delivery_dead_lettered''"
definition audit_EventIMDeliveryReconciled :: string where "audit_EventIMDeliveryReconciled = ''im.delivery_reconciled''"
definition audit_EventBudgetRejected :: string where "audit_EventBudgetRejected = ''budget.rejected''"
definition audit_EventContentRedacted :: string where "audit_EventContentRedacted = ''content.redacted''"
definition audit_EventAuditIncomplete :: string where "audit_EventAuditIncomplete = ''audit_incomplete''"

definition audit_event_types :: "string list" where
  "audit_event_types = [
    audit_EventControlPlaneChanged, audit_EventExecutionStarted, audit_EventExecutionCompleted,
    audit_EventExecutionFailed, audit_EventExecutionCanceled, audit_EventExecutionTimedOut,
    audit_EventExecutionFallback, audit_EventCanarySelected, audit_EventToolAllowed,
    audit_EventToolDenied, audit_EventToolApprovalRequired, audit_EventIMAuthorizationAllowed,
    audit_EventIMAuthorizationDenied, audit_EventIMIngressAccepted, audit_EventIMIngressDuplicate,
    audit_EventIMDeliverySent, audit_EventIMDeliveryRetryScheduled,
    audit_EventIMDeliveryDeadLettered, audit_EventIMDeliveryReconciled, audit_EventBudgetRejected,
    audit_EventContentRedacted, audit_EventAuditIncomplete]"

definition audit_DecisionAllow :: string where "audit_DecisionAllow = ''allow''"
definition audit_DecisionDeny :: string where "audit_DecisionDeny = ''deny''"
definition audit_DecisionApprovalRequired :: string where "audit_DecisionApprovalRequired = ''approval_required''"
definition audit_DecisionAccepted :: string where "audit_DecisionAccepted = ''accepted''"
definition audit_DecisionDuplicate :: string where "audit_DecisionDuplicate = ''duplicate''"
definition audit_DecisionRejected :: string where "audit_DecisionRejected = ''rejected''"

definition audit_decisions :: "string list" where
  "audit_decisions = [
    audit_DecisionAllow, audit_DecisionDeny, audit_DecisionApprovalRequired,
    audit_DecisionAccepted, audit_DecisionDuplicate, audit_DecisionRejected]"

definition audit_ResultSuccess :: string where "audit_ResultSuccess = ''success''"
definition audit_ResultFailure :: string where "audit_ResultFailure = ''failure''"
definition audit_ResultCanceled :: string where "audit_ResultCanceled = ''canceled''"
definition audit_ResultTimeout :: string where "audit_ResultTimeout = ''timeout''"
definition audit_ResultRejected :: string where "audit_ResultRejected = ''rejected''"

definition audit_results :: "string list" where
  "audit_results = [
    audit_ResultSuccess, audit_ResultFailure, audit_ResultCanceled, audit_ResultTimeout,
    audit_ResultRejected]"

definition audit_ErrorCanceled :: string where "audit_ErrorCanceled = ''canceled''"
definition audit_ErrorTimeout :: string where "audit_ErrorTimeout = ''timeout''"
definition audit_ErrorInvalid :: string where "audit_ErrorInvalid = ''invalid''"
definition audit_ErrorUnauthenticated :: string where "audit_ErrorUnauthenticated = ''unauthenticated''"
definition audit_ErrorRateLimited :: string where "audit_ErrorRateLimited = ''rate_limited''"
definition audit_ErrorDuplicate :: string where "audit_ErrorDuplicate = ''duplicate''"
definition audit_ErrorUnavailable :: string where "audit_ErrorUnavailable = ''unavailable''"
definition audit_ErrorStorage :: string where "audit_ErrorStorage = ''storage''"
definition audit_ErrorModel :: string where "audit_ErrorModel = ''model''"
definition audit_ErrorTool :: string where "audit_ErrorTool = ''tool''"
definition audit_ErrorProvider :: string where "audit_ErrorProvider = ''provider_error''"
definition audit_ErrorBudget :: string where "audit_ErrorBudget = ''budget''"
definition audit_ErrorRedacted :: string where "audit_ErrorRedacted = ''redacted''"
definition audit_ErrorConflict :: string where "audit_ErrorConflict = ''conflict''"

definition audit_error_types :: "string list" where
  "audit_error_types = [
    audit_ErrorCanceled, audit_ErrorTimeout, audit_ErrorInvalid, audit_ErrorUnauthenticated,
    audit_ErrorRateLimited, audit_ErrorDuplicate, audit_ErrorUnavailable, audit_ErrorStorage,
    audit_ErrorModel, audit_ErrorTool, audit_ErrorProvider, audit_ErrorBudget, audit_ErrorRedacted,
    audit_ErrorConflict]"

record usage =
  us_InputTokens :: "int option"
  us_OutputTokens :: "int option"
  us_ModelCostMinor :: "int option"
  us_ToolCostMinor :: "int option"
  us_Currency :: string
  us_BudgetUsedTokens :: "int option"
  us_BudgetUsedMinor :: "int option"
  us_ExecutionResult :: string
  us_Provider :: string
  us_Model :: string

record audit_event =
  ae_SchemaVersion :: int
  ae_EventID :: string
  ae_EventType :: string
  ae_TenantID :: string
  ae_Channel :: string
  ae_UserID :: string
  ae_SessionID :: string
  ae_AgentAppID :: string
  ae_Revision :: "int option"
  ae_ModelProfileID :: string
  ae_ToolName :: string
  ae_Decision :: string
  ae_LatencyMS :: "int option"
  ae_ErrorType :: string
  ae_Cost :: "usage option"
  ae_RequestID :: string
  ae_TraceID :: string
  ae_CorrelationID :: string
  ae_ActorType :: string
  ae_ActorID :: string
  ae_Reason :: string
  ae_PreviousVersion :: "int option"
  ae_NextVersion :: "int option"
  ae_OccurredAt :: instant
  ae_UTC :: bool

definition validEventType :: "string \<Rightarrow> bool" where
  "validEventType value \<longleftrightarrow> value \<in> set audit_event_types"

definition validDecision :: "string \<Rightarrow> bool" where
  "validDecision value \<longleftrightarrow> value \<in> set audit_decisions"

definition validResult :: "string \<Rightarrow> bool" where
  "validResult value \<longleftrightarrow> value \<in> set audit_results"

definition validErrorType :: "string \<Rightarrow> bool" where
  "validErrorType value \<longleftrightarrow> value \<in> set audit_error_types"

definition hasControl :: "string \<Rightarrow> bool" where
  "hasControl value \<longleftrightarrow> list_ex is_control (runes value)"

text \<open>\<^verbatim>\<open>strings.Contains\<close>, and \<^verbatim>\<open>strings.FieldsFunc\<close> with everything but \<^verbatim>\<open>a\<close> to \<^verbatim>\<open>z\<close> as separator.\<close>

primrec contains :: "string \<Rightarrow> string \<Rightarrow> bool" where
  "contains needle [] \<longleftrightarrow> needle = []"
| "contains needle (c # cs) \<longleftrightarrow> take (length needle) (c # cs) = needle \<or> contains needle cs"

definition is_lower :: "char \<Rightarrow> bool" where
  "is_lower c \<longleftrightarrow> 97 \<le> byte c \<and> byte c \<le> 122"

fun lower_words :: "string \<Rightarrow> string \<Rightarrow> string list" where
  "lower_words acc [] = (if acc = [] then [] else [rev acc])"
| "lower_words acc (c # cs) =
     (if is_lower c then lower_words (c # acc) cs
      else (if acc = [] then [] else [rev acc]) @ lower_words [] cs)"

definition containsSensitivePhrase :: "string \<Rightarrow> bool" where
  "containsSensitivePhrase value \<longleftrightarrow>
     list_ex (\<lambda>phrase. contains phrase value)
       [''://'', ''authorization'', ''bearer '', ''api_key'', ''api-key'', ''token='', ''secret='', ''secret_ref'',
        ''password='', ''dsn='', ''provider error'']"

fun sensitive_words :: "string list \<Rightarrow> bool" where
  "sensitive_words (w # next # ws) \<longleftrightarrow>
     w \<in> set [''bearer'', ''authorization'', ''token'', ''secret'', ''password'', ''dsn''] \<or> (w = ''api'' \<and> next = ''key'')
     \<or> sensitive_words (next # ws)"
| "sensitive_words _ \<longleftrightarrow> False"

definition containsSensitiveWords :: "string \<Rightarrow> bool" where
  "containsSensitiveWords value = sensitive_words (lower_words [] value)"

definition containsSensitive :: "string list \<Rightarrow> bool" where
  "containsSensitive values \<longleftrightarrow>
     list_ex (\<lambda>value. let lower = to_lower value in containsSensitivePhrase lower \<or> containsSensitiveWords lower) values"

definition audit_iso4217 :: "string list" where
  "audit_iso4217 = [
    ''AED'', ''AFN'', ''ALL'', ''AMD'', ''ANG'', ''AOA'', ''ARS'', ''AUD'', ''AWG'', ''AZN'',
    ''BAM'', ''BBD'', ''BDT'', ''BGN'', ''BHD'', ''BIF'', ''BMD'', ''BND'', ''BOB'', ''BOV'',
    ''BRL'', ''BSD'', ''BTN'', ''BWP'', ''BYN'', ''BZD'', ''CAD'', ''CDF'', ''CHE'', ''CHF'',
    ''CHW'', ''CLF'', ''CLP'', ''CNY'', ''COP'', ''COU'', ''CRC'', ''CUC'', ''CUP'', ''CVE'',
    ''CZK'', ''DJF'', ''DKK'', ''DOP'', ''DZD'', ''EGP'', ''ERN'', ''ETB'', ''EUR'', ''FJD'',
    ''FKP'', ''GBP'', ''GEL'', ''GHS'', ''GIP'', ''GMD'', ''GNF'', ''GTQ'', ''GYD'', ''HKD'',
    ''HNL'', ''HTG'', ''HUF'', ''IDR'', ''ILS'', ''INR'', ''IQD'', ''IRR'', ''ISK'', ''JMD'',
    ''JOD'', ''JPY'', ''KES'', ''KGS'', ''KHR'', ''KMF'', ''KPW'', ''KRW'', ''KWD'', ''KYD'',
    ''KZT'', ''LAK'', ''LBP'', ''LKR'', ''LRD'', ''LSL'', ''LYD'', ''MAD'', ''MDL'', ''MGA'',
    ''MKD'', ''MMK'', ''MNT'', ''MOP'', ''MRU'', ''MUR'', ''MVR'', ''MWK'', ''MXN'', ''MXV'',
    ''MYR'', ''MZN'', ''NAD'', ''NGN'', ''NIO'', ''NOK'', ''NPR'', ''NZD'', ''OMR'', ''PAB'',
    ''PEN'', ''PGK'', ''PHP'', ''PKR'', ''PLN'', ''PYG'', ''QAR'', ''RON'', ''RSD'', ''RUB'',
    ''RWF'', ''SAR'', ''SBD'', ''SCR'', ''SDG'', ''SEK'', ''SGD'', ''SHP'', ''SLE'', ''SLL'',
    ''SOS'', ''SRD'', ''SSP'', ''STN'', ''SVC'', ''SYP'', ''SZL'', ''THB'', ''TJS'', ''TMT'',
    ''TND'', ''TOP'', ''TRY'', ''TTD'', ''TWD'', ''TZS'', ''UAH'', ''UGX'', ''USD'', ''USN'',
    ''UYI'', ''UYU'', ''UYW'', ''UZS'', ''VED'', ''VES'', ''VND'', ''VUV'', ''WST'', ''XAF'',
    ''XAG'', ''XAU'', ''XBA'', ''XBB'', ''XBC'', ''XBD'', ''XCD'', ''XDR'', ''XOF'', ''XPD'',
    ''XPF'', ''XPT'', ''XSU'', ''XTS'', ''XUA'', ''XXX'', ''YER'', ''ZAR'', ''ZMW'', ''ZWG''
  ]"

definition audit_validCurrency :: "string \<Rightarrow> bool" where
  "audit_validCurrency value \<longleftrightarrow> value \<in> set audit_iso4217"

definition negative :: "int option \<Rightarrow> bool" where
  "negative v \<longleftrightarrow> (case v of None \<Rightarrow> False | Some n \<Rightarrow> n < 0)"

definition usage_Validate :: "usage \<Rightarrow> audit_error option" where
  "usage_Validate u =
     first_error
       [fails (list_ex negative [us_InputTokens u, us_OutputTokens u, us_ModelCostMinor u, us_ToolCostMinor u,
                 us_BudgetUsedTokens u, us_BudgetUsedMinor u]) AuErrInvalid,
        fails ((us_ModelCostMinor u \<noteq> None \<or> us_ToolCostMinor u \<noteq> None \<or> us_BudgetUsedMinor u \<noteq> None)
                 \<and> \<not> audit_validCurrency (us_Currency u)
               \<or> us_ExecutionResult u \<noteq> [] \<and> \<not> validResult (us_ExecutionResult u)) AuErrInvalid,
        fails (list_ex (\<lambda>value. hasControl value \<or> contains ''://'' value \<or> containsSensitive [value])
                 [us_Currency u, us_Provider u, us_Model u]) AuErrInvalid]"

definition ae_validIdentity :: "audit_event \<Rightarrow> bool" where
  "ae_validIdentity e \<longleftrightarrow>
     ae_SchemaVersion e = audit_SchemaVersion \<and> ae_EventID e = trim_space (ae_EventID e)
     \<and> ae_TenantID e = trim_space (ae_TenantID e) \<and> trim_space (ae_EventID e) \<noteq> []
     \<and> trim_space (ae_TenantID e) \<noteq> [] \<and> validEventType (ae_EventType e) \<and> ae_OccurredAt e \<noteq> 0 \<and> ae_UTC e"

text \<open>The text fields that are searched for control characters and for secrets.\<close>

definition ae_texts :: "audit_event \<Rightarrow> string list" where
  "ae_texts e =
     [ae_EventID e, ae_TenantID e, ae_Channel e, ae_UserID e, ae_SessionID e, ae_AgentAppID e, ae_ModelProfileID e,
      ae_ToolName e, ae_ErrorType e, ae_RequestID e, ae_TraceID e, ae_CorrelationID e, ae_ActorType e, ae_ActorID e,
      ae_Reason e]"

definition ae_validFields :: "audit_event \<Rightarrow> bool" where
  "ae_validFields e \<longleftrightarrow>
     \<not> list_ex hasControl (ae_texts e) \<and> \<not> (negative (ae_LatencyMS e) \<or> negative (ae_Revision e))"

definition ae_validVersions :: "audit_event \<Rightarrow> bool" where
  "ae_validVersions e \<longleftrightarrow>
     (case (ae_PreviousVersion e, ae_NextVersion e) of
        (None, None) \<Rightarrow> True
      | (Some previous, Some next) \<Rightarrow> previous \<ge> 0 \<and> previous \<noteq> 2 ^ 63 - 1 \<and> next = wrap64 (previous + 1)
      | _ \<Rightarrow> False)"

definition ae_validControlPlaneMetadata :: "audit_event \<Rightarrow> bool" where
  "ae_validControlPlaneMetadata e \<longleftrightarrow>
     ae_EventType e \<noteq> audit_EventControlPlaneChanged
     \<or> trim_space (ae_ActorType e) \<noteq> [] \<and> trim_space (ae_ActorID e) \<noteq> [] \<and> trim_space (ae_Reason e) \<noteq> []
        \<and> trim_space (ae_CorrelationID e) \<noteq> [] \<and> ae_PreviousVersion e \<noteq> None"

definition ae_validMetadata :: "audit_event \<Rightarrow> bool" where
  "ae_validMetadata e \<longleftrightarrow>
     rune_count (trim_space (ae_Reason e)) \<le> 1000 \<and> (ae_Decision e = [] \<or> validDecision (ae_Decision e))
     \<and> (ae_ErrorType e = [] \<or> validErrorType (ae_ErrorType e)) \<and> \<not> containsSensitive (ae_texts e)
     \<and> (case ae_Cost e of None \<Rightarrow> True | Some u \<Rightarrow> usage_Validate u = None)"

definition ae_Validate :: "audit_event \<Rightarrow> audit_error option" where
  "ae_Validate e =
     first_error
       [fails (\<not> ae_validIdentity e) AuErrInvalid,
        fails (\<not> ae_validFields e \<or> \<not> ae_validVersions e \<or> \<not> ae_validControlPlaneMetadata e) AuErrInvalid,
        fails (\<not> ae_validMetadata e) AuErrInvalid]"

type_synonym audit_digest = "audit_event \<Rightarrow> string option"

definition ae_Digest :: "audit_digest \<Rightarrow> audit_event \<Rightarrow> audit_error + string" where
  "ae_Digest digest e = ensure (ae_Validate e) (require (digest e) AuErrJSON Inr)"

subsection \<open>The store\<close>

record audit_record_entry =
  ar_event :: audit_event
  ar_digest :: string

type_synonym audit_backend = "(string \<times> string, audit_record_entry) gomap"

record append_result =
  apr_Event :: audit_event
  apr_Duplicate :: bool
  apr_Digest :: string

record audit_query =
  aq_EventTypes :: "string list"
  aq_Since :: instant
  aq_Until :: instant

text \<open>A store is the tenant of its caller.\<close>

type_synonym audit_store = "string option"

definition NewInMemoryWithBackend :: "string \<Rightarrow> audit_error + audit_store" where
  "NewInMemoryWithBackend tenantID =
     (let t = trim_space tenantID in
      ensure (fails (t = [] \<or> hasControl t) AuErrInvalid) (Inr (Some t)))"

definition audit_scope :: "audit_store \<Rightarrow> string \<Rightarrow> audit_error option" where
  "audit_scope st tenantID =
     fails (case st of None \<Rightarrow> True | Some t \<Rightarrow> t = [] \<or> tenantID \<noteq> t) AuErrTenantScope"

definition audit_check :: "goctx \<Rightarrow> nat \<Rightarrow> audit_error option" where
  "audit_check ctx n = (case ctx of None \<Rightarrow> Some AuErrInvalid | Some look \<Rightarrow> map_option AuErrCtx (look n))"

definition audit_Append ::
  "audit_digest \<Rightarrow> audit_store \<Rightarrow> goctx \<Rightarrow> audit_event \<Rightarrow> audit_backend
   \<Rightarrow> (audit_error + append_result) \<times> audit_backend" where
  "audit_Append digest st ctx event b =
     check (first_error [audit_check ctx 0, audit_scope st (ae_TenantID event)]) b
     (proceed (ae_Digest digest event) b (\<lambda>d.
      check (audit_check ctx 1) b
      (let k = (ae_TenantID event, ae_EventID event) in
       case get b k of
         Some existing \<Rightarrow>
           check (fails (ar_digest existing \<noteq> d) AuErrConflict) b
           (Inr \<lparr>apr_Event = ar_event existing, apr_Duplicate = True, apr_Digest = d\<rparr>, b)
       | None \<Rightarrow>
           (Inr \<lparr>apr_Event = event, apr_Duplicate = False, apr_Digest = d\<rparr>,
            put k \<lparr>ar_event = event, ar_digest = d\<rparr> b))))"

definition audit_Get :: "audit_store \<Rightarrow> goctx \<Rightarrow> string \<Rightarrow> audit_backend \<Rightarrow> audit_error + audit_event" where
  "audit_Get st ctx eventID b =
     ensure (audit_check ctx 0)
     (require st AuErrTenantScope (\<lambda>t.
      ensure (fails (audit_scope st t \<noteq> None \<or> trim_space eventID = []) AuErrTenantScope)
      (require (get b (t, trim_space eventID)) AuErrNotFound (\<lambda>v. Inr (ar_event v)))))"

definition query_selects :: "string \<Rightarrow> audit_query \<Rightarrow> audit_event \<Rightarrow> bool" where
  "query_selects tenantID q e \<longleftrightarrow>
     ae_TenantID e = tenantID \<and> (aq_EventTypes q = [] \<or> ae_EventType e \<in> set (aq_EventTypes q))
     \<and> \<not> (aq_Since q \<noteq> 0 \<and> ae_OccurredAt e < aq_Since q) \<and> \<not> (aq_Until q \<noteq> 0 \<and> ae_OccurredAt e > aq_Until q)"

definition audit_List ::
  "audit_store \<Rightarrow> goctx \<Rightarrow> nat \<Rightarrow> audit_query \<Rightarrow> audit_backend \<Rightarrow> audit_error + audit_event list" where
  "audit_List st ctx n q b =
     ensure (audit_check ctx n)
     (require st AuErrTenantScope (\<lambda>t.
      ensure (first_error
        [fails (audit_scope st t \<noteq> None) AuErrTenantScope,
         fails (\<not> list_all validEventType (aq_EventTypes q)) AuErrInvalid])
      (Inr (sort_key (\<lambda>e. (ae_OccurredAt e, ae_EventID e))
        (filter (query_selects t q) (map (ar_event \<circ> snd) b))))))"

subsection \<open>Usage\<close>

definition GroupTenant :: string where "GroupTenant = ''tenant''"
definition GroupApp :: string where "GroupApp = ''app''"
definition GroupChannel :: string where "GroupChannel = ''channel''"
definition GroupProvider :: string where "GroupProvider = ''provider''"
definition GroupModel :: string where "GroupModel = ''model''"

definition validGroup :: "string \<Rightarrow> bool" where
  "validGroup value \<longleftrightarrow> value \<in> set [GroupTenant, GroupApp, GroupChannel, GroupProvider, GroupModel]"

record usage_total =
  ut_TenantID :: string
  ut_AppID :: string
  ut_Channel :: string
  ut_Provider :: string
  ut_Model :: string
  ut_InputTokens :: int
  ut_OutputTokens :: int
  ut_ModelCostMinor :: int
  ut_ToolCostMinor :: int
  ut_BudgetUsedTokens :: int
  ut_BudgetUsedMinor :: int
  ut_EventCount :: int
  ut_Currency :: string

text \<open>Adding to a 64-bit counter what a pointer points to.\<close>

definition add_to :: "int \<Rightarrow> int option \<Rightarrow> int" where
  "add_to n v = (case v of None \<Rightarrow> n | Some m \<Rightarrow> wrap64 (n + m))"

definition addUsage :: "usage_total \<Rightarrow> usage \<Rightarrow> usage_total" where
  "addUsage t u =
     t\<lparr>ut_EventCount := wrap64 (ut_EventCount t + 1),
       ut_InputTokens := add_to (ut_InputTokens t) (us_InputTokens u),
       ut_OutputTokens := add_to (ut_OutputTokens t) (us_OutputTokens u),
       ut_ModelCostMinor := add_to (ut_ModelCostMinor t) (us_ModelCostMinor u),
       ut_ToolCostMinor := add_to (ut_ToolCostMinor t) (us_ToolCostMinor u),
       ut_BudgetUsedTokens := add_to (ut_BudgetUsedTokens t) (us_BudgetUsedTokens u),
       ut_BudgetUsedMinor := add_to (ut_BudgetUsedMinor t) (us_BudgetUsedMinor u)\<rparr>"

text \<open>\<^verbatim>\<open>strings.Join(parts, "\x00")\<close>.\<close>

fun join_nul :: "string list \<Rightarrow> string" where
  "join_nul [] = []"
| "join_nul [p] = p"
| "join_nul (p # ps) = p @ CHR 0x00 # join_nul ps"

text \<open>The part of a key that a dimension adds; the switch adds nothing for another value.\<close>

definition event_dimension :: "audit_event \<Rightarrow> usage \<Rightarrow> string \<Rightarrow> string list" where
  "event_dimension e u g =
     (if g = GroupTenant then [ae_TenantID e] else if g = GroupApp then [ae_AgentAppID e]
      else if g = GroupChannel then [ae_Channel e] else if g = GroupProvider then [us_Provider u]
      else if g = GroupModel then [us_Model u] else [])"

definition total_dimension :: "usage_total \<Rightarrow> string \<Rightarrow> string list" where
  "total_dimension t g =
     (if g = GroupTenant then [ut_TenantID t] else if g = GroupApp then [ut_AppID t]
      else if g = GroupChannel then [ut_Channel t] else if g = GroupProvider then [ut_Provider t]
      else if g = GroupModel then [ut_Model t] else [])"

definition aggregateKey :: "audit_event \<Rightarrow> usage \<Rightarrow> string list \<Rightarrow> string" where
  "aggregateKey e u groups = join_nul (us_Currency u # concat (map (event_dimension e u) groups))"

definition aggregateKeyTotal :: "usage_total \<Rightarrow> string list \<Rightarrow> string" where
  "aggregateKeyTotal t groups = join_nul (ut_Currency t # concat (map (total_dimension t) groups))"

definition new_total :: "string \<Rightarrow> audit_event \<Rightarrow> usage \<Rightarrow> usage_total" where
  "new_total tenantID e u =
     \<lparr>ut_TenantID = tenantID, ut_AppID = ae_AgentAppID e, ut_Channel = ae_Channel e, ut_Provider = us_Provider u,
      ut_Model = us_Model u, ut_InputTokens = 0, ut_OutputTokens = 0, ut_ModelCostMinor = 0, ut_ToolCostMinor = 0,
      ut_BudgetUsedTokens = 0, ut_BudgetUsedMinor = 0, ut_EventCount = 0, ut_Currency = us_Currency u\<rparr>"

fun usage_loop ::
  "string \<Rightarrow> string list \<Rightarrow> audit_event list \<Rightarrow> (string, usage_total) gomap \<Rightarrow> (string, usage_total) gomap" where
  "usage_loop tenantID groupBy [] groups = groups"
| "usage_loop tenantID groupBy (e # es) groups =
     (case ae_Cost e of
        None \<Rightarrow> usage_loop tenantID groupBy es groups
      | Some u \<Rightarrow>
          (let k = aggregateKey e u groupBy;
               total = (case get groups k of None \<Rightarrow> new_total tenantID e u | Some t \<Rightarrow> t)
           in usage_loop tenantID groupBy es (put k (addUsage total u) groups)))"

definition AggregateUsage ::
  "audit_store \<Rightarrow> goctx \<Rightarrow> audit_query \<Rightarrow> string list \<Rightarrow> audit_backend \<Rightarrow> audit_error + usage_total list" where
  "AggregateUsage st ctx q groupBy b =
     ensure (first_error [audit_check ctx 0, fails (\<not> list_all validGroup groupBy) AuErrInvalid])
     (andthen (audit_List st ctx 1 q b) (\<lambda>events.
      require st AuErrTenantScope (\<lambda>t.
      Inr (sort_key (\<lambda>total. aggregateKeyTotal total groupBy) (map snd (usage_loop t groupBy events []))))))"

subsection \<open>Producers\<close>

text \<open>
  A writer appends an event to a state of its own. The errors of \<^verbatim>\<open>Record\<close>: the write failed
  before it was tried, the event is invalid, or the write failed with an error of the writer.
\<close>

type_synonym 'w audit_writer = "goctx \<Rightarrow> audit_event \<Rightarrow> 'w \<Rightarrow> (audit_error + append_result) \<times> 'w"

datatype record_error = RecWriteFailed | RecInvalid audit_error | RecAppend audit_error

record 'w recorder =
  rec_Writer :: "'w audit_writer option"
  rec_TenantID :: string

definition length_bytes :: "string \<Rightarrow> string" where
  "length_bytes part =
     (let n = length part in
      [char_of (n div 2 ^ 24 mod 256), char_of (n div 2 ^ 16 mod 256), char_of (n div 2 ^ 8 mod 256),
       char_of (n mod 256)])"

definition NewEventID :: "(string \<Rightarrow> string) \<Rightarrow> string list \<Rightarrow> string" where
  "NewEventID sha parts = ''audit_'' @ take 32 (sha (concat (map (\<lambda>part. length_bytes part @ part) parts)))"

definition completed_event :: "(string \<Rightarrow> string) \<Rightarrow> string \<Rightarrow> audit_event \<Rightarrow> instant \<Rightarrow> audit_event" where
  "completed_event sha tenantID e now =
     (let e1 = (if ae_TenantID e = [] then e\<lparr>ae_TenantID := trim_space tenantID\<rparr> else e);
          e2 = (if ae_SchemaVersion e1 = 0 then e1\<lparr>ae_SchemaVersion := audit_SchemaVersion\<rparr> else e1);
          e3 = (if ae_EventID e2 = []
                then e2\<lparr>ae_EventID := NewEventID sha [ae_EventType e2, ae_RequestID e2, ae_TraceID e2, ae_CorrelationID e2]\<rparr>
                else e2)
      in if ae_OccurredAt e3 = 0 then e3\<lparr>ae_OccurredAt := now, ae_UTC := True\<rparr> else e3)"

definition rec_Record ::
  "(string \<Rightarrow> string) \<Rightarrow> 'w recorder \<Rightarrow> goctx \<Rightarrow> audit_event \<Rightarrow> instant \<Rightarrow> 'w \<Rightarrow> (record_error + unit) \<times> 'w" where
  "rec_Record sha r ctx event now w =
     (case rec_Writer r of
        None \<Rightarrow> (Inr (), w)
      | Some writer \<Rightarrow>
          check (fails (ctx = None) RecWriteFailed) w
          (let e = completed_event sha (rec_TenantID r) event now in
           check (map_option RecInvalid (ae_Validate e)) w
           (case writer ctx e w of
              (Inl err, w') \<Rightarrow> (Inl (RecAppend err), w')
            | (Inr _, w') \<Rightarrow> (Inr (), w'))))"

definition zeroEvent :: audit_event where
  "zeroEvent =
     \<lparr>ae_SchemaVersion = 0, ae_EventID = [], ae_EventType = [], ae_TenantID = [], ae_Channel = [], ae_UserID = [],
      ae_SessionID = [], ae_AgentAppID = [], ae_Revision = None, ae_ModelProfileID = [], ae_ToolName = [],
      ae_Decision = [], ae_LatencyMS = None, ae_ErrorType = [], ae_Cost = None, ae_RequestID = [], ae_TraceID = [],
      ae_CorrelationID = [], ae_ActorType = [], ae_ActorID = [], ae_Reason = [], ae_PreviousVersion = None,
      ae_NextVersion = None, ae_OccurredAt = 0, ae_UTC = True\<rparr>"

definition rec_ControlPlane ::
  "(string \<Rightarrow> string) \<Rightarrow> 'w recorder \<Rightarrow> goctx \<Rightarrow> string \<Rightarrow> string \<Rightarrow> string \<Rightarrow> string \<Rightarrow> string \<Rightarrow> string \<Rightarrow> int \<Rightarrow> int
   \<Rightarrow> instant \<Rightarrow> 'w \<Rightarrow> (record_error + unit) \<times> 'w" where
  "rec_ControlPlane sha r ctx eventID tenantID actorType actorID reason correlationID previous next =
     rec_Record sha r ctx
       (zeroEvent\<lparr>ae_EventID := eventID, ae_EventType := audit_EventControlPlaneChanged, ae_TenantID := tenantID,
          ae_ActorType := actorType, ae_ActorID := actorID, ae_Reason := reason, ae_CorrelationID := correlationID,
          ae_PreviousVersion := Some previous, ae_NextVersion := Some next\<rparr>)"

definition rec_ToolDecision ::
  "(string \<Rightarrow> string) \<Rightarrow> 'w recorder \<Rightarrow> goctx \<Rightarrow> string \<Rightarrow> string \<Rightarrow> string \<Rightarrow> string \<Rightarrow> string \<Rightarrow> string
   \<Rightarrow> instant \<Rightarrow> 'w \<Rightarrow> (record_error + unit) \<times> 'w" where
  "rec_ToolDecision sha r ctx eventType requestID traceID toolName decision errorType =
     rec_Record sha r ctx
       (zeroEvent\<lparr>ae_EventType := eventType, ae_RequestID := requestID, ae_TraceID := traceID, ae_ToolName := toolName,
          ae_Decision := decision, ae_ErrorType := errorType\<rparr>)"

definition rec_BudgetRejected ::
  "(string \<Rightarrow> string) \<Rightarrow> 'w recorder \<Rightarrow> goctx \<Rightarrow> string \<Rightarrow> string \<Rightarrow> instant \<Rightarrow> 'w \<Rightarrow> (record_error + unit) \<times> 'w" where
  "rec_BudgetRejected sha r ctx requestID traceID =
     rec_Record sha r ctx
       (zeroEvent\<lparr>ae_EventType := audit_EventBudgetRejected, ae_RequestID := requestID, ae_TraceID := traceID,
          ae_Decision := audit_DecisionRejected, ae_ErrorType := audit_ErrorBudget\<rparr>)"

definition rec_Redacted ::
  "(string \<Rightarrow> string) \<Rightarrow> 'w recorder \<Rightarrow> goctx \<Rightarrow> string \<Rightarrow> string \<Rightarrow> instant \<Rightarrow> 'w \<Rightarrow> (record_error + unit) \<times> 'w" where
  "rec_Redacted sha r ctx requestID traceID =
     rec_Record sha r ctx
       (zeroEvent\<lparr>ae_EventType := audit_EventContentRedacted, ae_RequestID := requestID, ae_TraceID := traceID,
          ae_Decision := audit_DecisionAccepted, ae_ErrorType := audit_ErrorRedacted\<rparr>)"

definition rec_Fallback ::
  "(string \<Rightarrow> string) \<Rightarrow> 'w recorder \<Rightarrow> goctx \<Rightarrow> string \<Rightarrow> string \<Rightarrow> instant \<Rightarrow> 'w \<Rightarrow> (record_error + unit) \<times> 'w" where
  "rec_Fallback sha r ctx requestID traceID =
     rec_Record sha r ctx
       (zeroEvent\<lparr>ae_EventType := audit_EventExecutionFallback, ae_RequestID := requestID, ae_TraceID := traceID,
          ae_Decision := audit_DecisionAccepted\<rparr>)"

definition rec_IM ::
  "(string \<Rightarrow> string) \<Rightarrow> 'w recorder \<Rightarrow> goctx \<Rightarrow> string \<Rightarrow> string \<Rightarrow> string \<Rightarrow> string \<Rightarrow> string \<Rightarrow> string \<Rightarrow> string
   \<Rightarrow> instant \<Rightarrow> 'w \<Rightarrow> (record_error + unit) \<times> 'w" where
  "rec_IM sha r ctx eventType requestID traceID userID sessionID decision errorType =
     rec_Record sha r ctx
       (zeroEvent\<lparr>ae_EventType := eventType, ae_RequestID := requestID, ae_TraceID := traceID, ae_UserID := userID,
          ae_SessionID := sessionID, ae_Decision := decision, ae_ErrorType := errorType\<rparr>)"

definition rec_IMAuthorization ::
  "(string \<Rightarrow> string) \<Rightarrow> 'w recorder \<Rightarrow> goctx \<Rightarrow> string \<Rightarrow> string \<Rightarrow> string \<Rightarrow> string \<Rightarrow> bool
   \<Rightarrow> instant \<Rightarrow> 'w \<Rightarrow> (record_error + unit) \<times> 'w" where
  "rec_IMAuthorization sha r ctx requestID traceID userID sessionID allowed =
     (let (eventType, decision) = (if allowed then (audit_EventIMAuthorizationAllowed, audit_DecisionAccepted)
                                   else (audit_EventIMAuthorizationDenied, audit_DecisionRejected))
      in rec_IM sha r ctx eventType requestID traceID userID sessionID decision [])"

definition rec_IMReconciled ::
  "(string \<Rightarrow> string) \<Rightarrow> 'w recorder \<Rightarrow> goctx \<Rightarrow> string \<Rightarrow> string \<Rightarrow> string
   \<Rightarrow> instant \<Rightarrow> 'w \<Rightarrow> (record_error + unit) \<times> 'w" where
  "rec_IMReconciled sha r ctx requestID traceID errorType =
     rec_IM sha r ctx audit_EventIMDeliveryReconciled requestID traceID [] []
       (if errorType \<noteq> [] then audit_DecisionRejected else audit_DecisionAccepted) errorType"

subsection \<open>Execution handoffs\<close>

datatype handoff_error = HErrInvalid | HErrNotFound | HErrConflict | HErrCtx ctx_error

definition HandoffPending :: string where "HandoffPending = ''pending''"
definition HandoffFinalized :: string where "HandoffFinalized = ''finalized''"
definition HandoffRepairable :: string where "HandoffRepairable = ''repairable''"

record handoff =
  ho_TenantID :: string
  ho_HandoffID :: string
  ho_RequestID :: string
  ho_TraceID :: string
  ho_EventID :: string
  ho_State :: string
  ho_Result :: string
  ho_ErrorType :: string
  ho_LatencyMS :: "int option"
  ho_Cost :: "usage option"
  ho_CreatedAt :: instant
  ho_UpdatedAt :: instant

type_synonym handoff_store = "(string, handoff) gomap"

definition handoffContext :: "goctx \<Rightarrow> handoff_error option" where
  "handoffContext ctx = (case ctx of None \<Rightarrow> Some HErrInvalid | Some look \<Rightarrow> map_option HErrCtx (look 0))"

definition handoff_key :: "string \<Rightarrow> string \<Rightarrow> string" where
  "handoff_key tenantID handoffID = tenantID @ CHR 0x00 # handoffID"

definition handoff_Reserve ::
  "goctx \<Rightarrow> handoff \<Rightarrow> instant \<Rightarrow> handoff_store \<Rightarrow> (handoff_error + handoff) \<times> handoff_store" where
  "handoff_Reserve ctx value now s =
     check (first_error
       [handoffContext ctx,
        fails (ho_TenantID value = [] \<or> ho_HandoffID value = [] \<or> ho_RequestID value = []
               \<or> ho_State value \<noteq> HandoffPending) HErrInvalid]) s
     (let v = value\<lparr>ho_CreatedAt := now, ho_UpdatedAt := now\<rparr>;
          k = handoff_key (ho_TenantID value) (ho_HandoffID value)
      in
      case get s k of
        Some old \<Rightarrow> check (fails (ho_RequestID old \<noteq> ho_RequestID value) HErrConflict) s (Inr old, s)
      | None \<Rightarrow> (Inr v, put k v s))"

definition handoff_Finalize ::
  "goctx \<Rightarrow> handoff \<Rightarrow> instant \<Rightarrow> handoff_store \<Rightarrow> (handoff_error + handoff) \<times> handoff_store" where
  "handoff_Finalize ctx value now s =
     check (first_error
       [handoffContext ctx,
        fails (ho_TenantID value = [] \<or> ho_HandoffID value = [] \<or> ho_State value \<noteq> HandoffFinalized) HErrInvalid]) s
     (let k = handoff_key (ho_TenantID value) (ho_HandoffID value) in
      fetch (get s k) HErrNotFound s (\<lambda>old.
      if ho_State old = HandoffFinalized then (Inr old, s)
      else
        (let v = value\<lparr>ho_CreatedAt := ho_CreatedAt old, ho_UpdatedAt := now, ho_RequestID := ho_RequestID old,
                       ho_TraceID := ho_TraceID old, ho_EventID := ho_EventID old\<rparr>
         in (Inr v, put k v s))))"

definition handoff_Get ::
  "goctx \<Rightarrow> string \<Rightarrow> string \<Rightarrow> handoff_store \<Rightarrow> handoff_error + handoff" where
  "handoff_Get ctx tenantID handoffID s =
     ensure (handoffContext ctx) (require (get s (handoff_key tenantID handoffID)) HErrNotFound Inr)"

end
