(* ===== verification/Audit_Props.thy ===== *)
theory Audit_Props
  imports Audit_Log
begin

text \<open>
  What the audit store guarantees: events are appended once and never change, and the usage that
  it reports for a tenant is exactly the usage of the tenant's events, group by group.
\<close>

subsection \<open>Control characters\<close>

lemma no_control_no_nul: "\<not> hasControl s \<Longrightarrow> CHR 0x00 \<notin> set s"
  using ascii_byte_rune [of "CHR 0x00" s] by (force simp: hasControl_def is_control_def list_ex_iff)

subsection \<open>Group keys\<close>

lemma nul_split:
  assumes "p @ CHR 0x00 # xs = q @ CHR 0x00 # ys" and "CHR 0x00 \<notin> set p" and "CHR 0x00 \<notin> set q"
  shows "p = q \<and> xs = ys"
  using assms
proof (induction p arbitrary: q)
  case Nil
  then show ?case by (cases q) auto
next
  case (Cons c p)
  then show ?case by (cases q) auto
qed

lemma join_nul_inj:
  assumes "join_nul (p # ps) = join_nul (q # qs)"
    and "\<forall>s\<in>set (p # ps). CHR 0x00 \<notin> set s" and "\<forall>s\<in>set (q # qs). CHR 0x00 \<notin> set s"
  shows "p # ps = q # qs"
  using assms
proof (induction ps arbitrary: p q qs)
  case Nil
  show ?case
  proof (cases qs)
    case Nil
    with Nil.prems show ?thesis by simp
  next
    case (Cons r rs)
    with Nil.prems have "CHR 0x00 \<in> set p" by simp
    with Nil.prems show ?thesis by simp
  qed
next
  case (Cons a ps)
  show ?case
  proof (cases qs)
    case Nil
    with Cons.prems have "CHR 0x00 \<in> set q" by (metis in_set_conv_decomp join_nul.simps(2,3))
    with Cons.prems show ?thesis by simp
  next
    case (Cons r rs)
    with Cons.prems have "p = q \<and> join_nul (a # ps) = join_nul (r # rs)"
      by (intro nul_split) simp_all
    with Cons.IH [of a r rs] Cons.prems Cons show ?thesis by simp
  qed
qed

text \<open>Events whose texts carry no control character have the same key only in the same group.\<close>

definition group_of :: "audit_event \<Rightarrow> usage \<Rightarrow> string list \<Rightarrow> string list" where
  "group_of e u groups = us_Currency u # concat (map (event_dimension e u) groups)"

definition total_group :: "usage_total \<Rightarrow> string list \<Rightarrow> string list" where
  "total_group t groups = ut_Currency t # concat (map (total_dimension t) groups)"

definition plain :: "audit_event \<Rightarrow> bool" where
  "plain e \<longleftrightarrow> list_all (\<lambda>s. CHR 0x00 \<notin> set s) (ae_texts e)
     \<and> (case ae_Cost e of None \<Rightarrow> True | Some u \<Rightarrow>
          CHR 0x00 \<notin> set (us_Currency u) \<and> CHR 0x00 \<notin> set (us_Provider u) \<and> CHR 0x00 \<notin> set (us_Model u))"

lemma Validate_plain: "ae_Validate e = None \<Longrightarrow> plain e"
  by (auto simp: ae_Validate_def ae_validFields_def ae_validMetadata_def usage_Validate_def plain_def
      ae_texts_def no_control_no_nul split: option.splits)

lemma group_of_plain:
  assumes "plain e" and "ae_Cost e = Some u" and "s \<in> set (group_of e u groups)"
  shows "CHR 0x00 \<notin> set s"
  using assms by (auto simp: plain_def group_of_def event_dimension_def ae_texts_def split: if_splits)

lemma aggregateKey_eq:
  assumes "plain e" "ae_Cost e = Some u" "plain e'" "ae_Cost e' = Some u'"
  shows "aggregateKey e u groups = aggregateKey e' u' groups \<longleftrightarrow> group_of e u groups = group_of e' u' groups"
  using join_nul_inj [of "us_Currency u" "concat (map (event_dimension e u) groups)"
      "us_Currency u'" "concat (map (event_dimension e' u') groups)"]
    group_of_plain [OF assms(1,2)] group_of_plain [OF assms(3,4)]
  by (auto simp: aggregateKey_def group_of_def)

subsection \<open>Sums of usage\<close>

text \<open>The costed events of a group, and the amount behind a pointer.\<close>

definition costed :: "audit_event list \<Rightarrow> (audit_event \<times> usage) list" where
  "costed es = concat (map (\<lambda>e. case ae_Cost e of None \<Rightarrow> [] | Some u \<Rightarrow> [(e, u)]) es)"

definition amount :: "int option \<Rightarrow> int" where
  "amount v = (case v of None \<Rightarrow> 0 | Some n \<Rightarrow> n)"

lemma costed_simps [simp]:
  "costed [] = []"
  "costed (e # es) = (case ae_Cost e of None \<Rightarrow> costed es | Some u \<Rightarrow> (e, u) # costed es)"
  by (auto simp: costed_def split: option.split)

lemma costed_iff: "(e, u) \<in> set (costed es) \<longleftrightarrow> e \<in> set es \<and> ae_Cost e = Some u"
  by (induction es) (auto split: option.splits)

definition book :: "string \<Rightarrow> audit_event \<times> usage \<Rightarrow> usage_total option \<Rightarrow> usage_total option" where
  "book t eu acc = Some (addUsage (case acc of None \<Rightarrow> new_total t (fst eu) (snd eu) | Some x \<Rightarrow> x) (snd eu))"

lemma usage_loop_get:
  "get (usage_loop t groups es m) k =
     fold (book t) (filter (\<lambda>(e, u). aggregateKey e u groups = k) (costed es)) (get m k)"
  by (induction es arbitrary: m) (auto simp: Let_def book_def split: option.splits)

lemma usage_loop_keyed: "well_keyed m \<Longrightarrow> well_keyed (usage_loop t groups es m)"
  by (induction es arbitrary: m) (auto simp: Let_def split: option.splits)

text \<open>The usage that a list of costed events adds up to, on 64-bit counters.\<close>

definition sums_to :: "(audit_event \<times> usage) list \<Rightarrow> usage_total \<Rightarrow> bool" where
  "sums_to eus t \<longleftrightarrow>
     ut_EventCount t = wrap64 (int (length eus))
     \<and> ut_InputTokens t = wrap64 (\<Sum>(e, u)\<leftarrow>eus. amount (us_InputTokens u))
     \<and> ut_OutputTokens t = wrap64 (\<Sum>(e, u)\<leftarrow>eus. amount (us_OutputTokens u))
     \<and> ut_ModelCostMinor t = wrap64 (\<Sum>(e, u)\<leftarrow>eus. amount (us_ModelCostMinor u))
     \<and> ut_ToolCostMinor t = wrap64 (\<Sum>(e, u)\<leftarrow>eus. amount (us_ToolCostMinor u))
     \<and> ut_BudgetUsedTokens t = wrap64 (\<Sum>(e, u)\<leftarrow>eus. amount (us_BudgetUsedTokens u))
     \<and> ut_BudgetUsedMinor t = wrap64 (\<Sum>(e, u)\<leftarrow>eus. amount (us_BudgetUsedMinor u))"

lemma add_to_wrap: "add_to (wrap64 n) v = wrap64 (n + amount v)"
  by (cases v) (simp_all add: add_to_def amount_def wrap64_range)

lemma sums_to_snoc: "sums_to eus t \<Longrightarrow> sums_to (eus @ [(e, u)]) (addUsage t u)"
  by (simp add: sums_to_def addUsage_def add_to_wrap add.commute [of 1])

lemma sums_to_new: "sums_to [] (new_total t e u)"
  by (simp add: sums_to_def new_total_def wrap64_def)

lemma addUsage_group [simp]: "total_group (addUsage t u) groups = total_group t groups"
proof -
  have "total_dimension (addUsage t u) = total_dimension t"
    by (rule ext) (simp add: total_dimension_def addUsage_def)
  then show ?thesis by (simp add: total_group_def addUsage_def)
qed

lemma fold_book:
  assumes "sums_to done x"
  shows "\<exists>y. fold (book t) eus (Some x) = Some y \<and> sums_to (done @ eus) y \<and> total_group y groups = total_group x groups"
  using assms
proof (induction eus arbitrary: "done" x)
  case Nil
  then show ?case by simp
next
  case (Cons eu eus)
  obtain e u where eu: "eu = (e, u)" by fastforce
  from Cons.IH [OF sums_to_snoc [OF Cons.prems, of e u]] show ?case by (simp add: eu book_def)
qed

lemma book_group:
  assumes "eus \<noteq> []"
  shows "\<exists>y. fold (book t) eus None = Some y \<and> sums_to eus y
    \<and> total_group y groups = total_group (new_total t (fst (hd eus)) (snd (hd eus))) groups"
proof (cases eus)
  case Nil
  with assms show ?thesis by simp
next
  case (Cons eu rest)
  obtain e u where eu: "eu = (e, u)" by fastforce
  from fold_book [OF sums_to_snoc [OF sums_to_new [of t e u], of e u], of t rest groups] show ?thesis
    by (simp add: Cons eu book_def)
qed

lemma new_total_group: "ae_TenantID e = t \<Longrightarrow> total_group (new_total t e u) groups = group_of e u groups"
proof -
  assume "ae_TenantID e = t"
  then have "total_dimension (new_total t e u) = event_dimension e u"
    by (intro ext) (simp add: total_dimension_def event_dimension_def new_total_def)
  then show ?thesis by (simp add: total_group_def group_of_def new_total_def)
qed

subsection \<open>Reachable stores\<close>

inductive audit_step :: "audit_digest \<Rightarrow> audit_backend \<Rightarrow> audit_backend \<Rightarrow> bool" for digest where
  append: "audit_Append digest st ctx e b = (x, b') \<Longrightarrow> audit_step digest b b'"

inductive audit_reachable :: "audit_digest \<Rightarrow> audit_backend \<Rightarrow> bool" for digest where
  start: "audit_reachable digest []"
| step: "audit_reachable digest b \<Longrightarrow> audit_step digest b b' \<Longrightarrow> audit_reachable digest b'"

definition entry_ok :: "audit_digest \<Rightarrow> string \<times> string \<Rightarrow> audit_record_entry \<Rightarrow> bool" where
  "entry_ok digest k r \<longleftrightarrow> (ae_TenantID (ar_event r), ae_EventID (ar_event r)) = k \<and> ae_Validate (ar_event r) = None
     \<and> digest (ar_event r) = Some (ar_digest r)"

definition audit_ok :: "audit_digest \<Rightarrow> audit_backend \<Rightarrow> bool" where
  "audit_ok digest b \<longleftrightarrow> well_keyed b \<and> (\<forall>k r. get b k = Some r \<longrightarrow> entry_ok digest k r)"

lemma audit_okD: "audit_ok digest b \<Longrightarrow> get b k = Some r \<Longrightarrow> entry_ok digest k r"
  unfolding audit_ok_def by blast

lemma audit_Append_keep: "keeps b (audit_Append digest st ctx e b)"
  by (auto simp: audit_Append_def Let_def intro!: keeps_intros split: option.split)

text \<open>An append changes nothing or adds one valid event under a fresh key.\<close>

lemma audit_step_cases:
  assumes "audit_step digest b b'"
  obtains (same) "b' = b"
  | (added) r k where "get b k = None" "entry_ok digest k r" "b' = put k r b"
  using assms
proof cases
  case (append st ctx e x)
  show thesis
  proof (cases x)
    case (Inl err)
    with append keepsD [OF audit_Append_keep] same show thesis by blast
  next
    case (Inr a)
    with append consider "b' = b"
      | d where "get b (ae_TenantID e, ae_EventID e) = None" "ae_Digest digest e = Inr d"
          "b' = put (ae_TenantID e, ae_EventID e) \<lparr>ar_event = e, ar_digest = d\<rparr> b"
      by (auto simp: audit_Append_def Let_def split: option.splits)
    then show thesis
    proof cases
      case 1
      then show thesis by (rule same)
    next
      case 2
      then have "entry_ok digest (ae_TenantID e, ae_EventID e) \<lparr>ar_event = e, ar_digest = d\<rparr>"
        by (auto simp: entry_ok_def ae_Digest_def)
      with 2 show thesis by (intro added)
    qed
  qed
qed

lemma audit_step_ok: "audit_step digest b b' \<Longrightarrow> audit_ok digest b \<Longrightarrow> audit_ok digest b'"
  by (erule audit_step_cases) (auto simp: audit_ok_def split: if_splits)

lemma audit_reachable_ok: "audit_reachable digest b \<Longrightarrow> audit_ok digest b"
  by (induction rule: audit_reachable.induct) (simp_all add: audit_ok_def [of digest "[]"] audit_step_ok)

lemma audit_star_kept:
  assumes "(audit_step digest)\<^sup>*\<^sup>* b b'" and "get b k = Some r"
  shows "get b' k = Some r"
  using assms(1)
proof (induction rule: rtranclp_induct)
  case base
  show ?case by (rule assms(2))
next
  case (step b1 b2)
  from step(2) show ?case
    by (cases rule: audit_step_cases) (use step(3) in \<open>auto\<close>)
qed

lemma audit_List_iff:
  assumes "audit_ok digest b" and "audit_List (Some t) ctx n q b = Inr es"
  shows "e \<in> set es \<longleftrightarrow> query_selects t q e \<and> (\<exists>r. get b (t, ae_EventID e) = Some r \<and> ar_event r = e)"
proof -
  have es: "set es = {e. query_selects t q e \<and> (\<exists>k r. (k, r) \<in> set b \<and> ar_event r = e)}"
    using assms(2) by (force simp: audit_List_def)
  have "(\<exists>k r. (k, r) \<in> set b \<and> ar_event r = e) \<longleftrightarrow> (\<exists>r. get b (t, ae_EventID e) = Some r \<and> ar_event r = e)"
    if "ae_TenantID e = t"
    using assms(1) that by (auto simp: audit_ok_def entry_ok_def well_keyed_get_iff)
  with es show ?thesis by (auto simp: query_selects_def)
qed

text \<open>The events of a reachable store that a query lists are those of one tenant and plain.\<close>

lemma listed_plain:
  assumes "audit_ok digest b" and "audit_List (Some t) ctx n q b = Inr es" and "e \<in> set es"
  shows "plain e" "ae_TenantID e = t"
proof -
  from audit_List_iff [OF assms(1,2)] assms(3) obtain r where
    r: "query_selects t q e" "get b (t, ae_EventID e) = Some r" "ar_event r = e" by blast
  from audit_okD [OF assms(1) r(2)] r(3) show "plain e" by (auto simp: entry_ok_def intro: Validate_plain)
  from r(1) show "ae_TenantID e = t" by (simp add: query_selects_def)
qed

text \<open>The entries of the map of groups.\<close>

lemma usage_loop_entry:
  assumes "\<And>e. e \<in> set es \<Longrightarrow> plain e \<and> ae_TenantID e = t" and "get (usage_loop t groups es []) k = Some x"
  shows "join_nul (total_group x groups) = k"
    and "sums_to (filter (\<lambda>(e, u). group_of e u groups = total_group x groups) (costed es)) x"
    and "\<exists>(e, u)\<in>set (costed es). group_of e u groups = total_group x groups"
proof -
  let ?eus = "filter (\<lambda>(e, u). aggregateKey e u groups = k) (costed es)"
  have fold: "fold (book t) ?eus None = Some x" using assms(2) by (simp add: usage_loop_get)
  then have ne: "?eus \<noteq> []" by (cases ?eus) simp_all
  obtain e0 u0 where hd: "hd ?eus = (e0, u0)" by fastforce
  then have mem: "(e0, u0) \<in> set (costed es)" "aggregateKey e0 u0 groups = k"
    using hd_in_set [OF ne] by auto
  then have e0: "e0 \<in> set es" "ae_Cost e0 = Some u0" by (simp_all add: costed_iff)
  from book_group [OF ne, of t groups] fold hd have x: "sums_to ?eus x" "total_group x groups = group_of e0 u0 groups"
    using new_total_group assms(1) [OF e0(1)] by auto
  show "join_nul (total_group x groups) = k" using mem(2) by (simp add: x(2) group_of_def aggregateKey_def)
  have "aggregateKey e u groups = k \<longleftrightarrow> group_of e u groups = total_group x groups" if "(e, u) \<in> set (costed es)" for e u
    using that mem(2) x(2) aggregateKey_eq [of e u e0 u0 groups] assms(1) e0 by (auto simp: costed_iff)
  then have "?eus = filter (\<lambda>(e, u). group_of e u groups = total_group x groups) (costed es)"
    by (intro filter_cong) auto
  with x(1) show "sums_to (filter (\<lambda>(e, u). group_of e u groups = total_group x groups) (costed es)) x" by simp
  show "\<exists>(e, u)\<in>set (costed es). group_of e u groups = total_group x groups" using mem(1) x(2) by auto
qed

lemma distinct_map_sort_key: "distinct (map f xs) \<Longrightarrow> distinct (map f (sort_key g xs))"
  by (simp add: distinct_map)

lemma usage_loop_covers:
  assumes "(e, u) \<in> set (costed es)"
  shows "\<exists>x. get (usage_loop t groups es []) (aggregateKey e u groups) = Some x"
proof -
  have "filter (\<lambda>(e', u'). aggregateKey e' u' groups = aggregateKey e u groups) (costed es) \<noteq> []"
    using assms by (auto simp: filter_empty_conv)
  from book_group [OF this] show ?thesis by (auto simp: usage_loop_get)
qed

subsection \<open>Properties\<close>

text \<open>Two executions of one application on different models, for the witnesses.\<close>

definition demo_usage :: "string \<Rightarrow> int \<Rightarrow> usage" where
  "demo_usage model n =
     \<lparr>us_InputTokens = Some n, us_OutputTokens = None, us_ModelCostMinor = Some 3, us_ToolCostMinor = None,
      us_Currency = ''EUR'', us_BudgetUsedTokens = None, us_BudgetUsedMinor = None,
      us_ExecutionResult = audit_ResultSuccess, us_Provider = ''p'', us_Model = model\<rparr>"

definition demo_audit :: "string \<Rightarrow> string \<Rightarrow> int \<Rightarrow> audit_event" where
  "demo_audit eid model n =
     zeroEvent\<lparr>ae_SchemaVersion := 1, ae_EventID := eid, ae_EventType := audit_EventExecutionCompleted,
       ae_TenantID := ''t'', ae_AgentAppID := ''app'', ae_Cost := Some (demo_usage model n), ae_OccurredAt := 7\<rparr>"

definition demo_audit_digest :: audit_digest where
  "demo_audit_digest e = Some (ae_EventID e)"

definition demo_backend :: audit_backend where
  "demo_backend =
     [((''t'', ''a''), \<lparr>ar_event = demo_audit ''a'' ''m'' 5, ar_digest = ''a''\<rparr>),
      ((''t'', ''b''), \<lparr>ar_event = demo_audit ''b'' ''m'' 6, ar_digest = ''b''\<rparr>)]"

lemma demo_audit_valid: "ae_Validate (demo_audit ''a'' ''m'' 5) = None" "ae_Validate (demo_audit ''b'' ''m'' 6) = None"
  by code_simp+

lemma demo_append:
  "audit_Append demo_audit_digest (Some ''t'') (Some background) (demo_audit ''a'' ''m'' 5) []
     = (Inr \<lparr>apr_Event = demo_audit ''a'' ''m'' 5, apr_Duplicate = False, apr_Digest = ''a''\<rparr>,
        [((''t'', ''a''), \<lparr>ar_event = demo_audit ''a'' ''m'' 5, ar_digest = ''a''\<rparr>)])"
  "audit_Append demo_audit_digest (Some ''t'') (Some background) (demo_audit ''b'' ''m'' 6)
       [((''t'', ''a''), \<lparr>ar_event = demo_audit ''a'' ''m'' 5, ar_digest = ''a''\<rparr>)]
     = (Inr \<lparr>apr_Event = demo_audit ''b'' ''m'' 6, apr_Duplicate = False, apr_Digest = ''b''\<rparr>, demo_backend)"
  using demo_audit_valid
  by (simp_all add: audit_Append_def audit_check_def audit_scope_def ae_Digest_def demo_audit_digest_def Let_def
      demo_backend_def demo_audit_def)

lemma demo_audit_reachable: "audit_reachable demo_audit_digest demo_backend"
  by (rule audit_reachable.step [OF audit_reachable.step [OF audit_reachable.start audit_step.append [OF demo_append(1)]]
        audit_step.append [OF demo_append(2)]])

text \<open>
  C29: the audit log is append-only. An accepted event can be read unchanged in every later state;
  appending it again reports a duplicate and changes nothing; and an event that claims its
  identifier with another content is refused.
\<close>

theorem audit_append_only:
  assumes "audit_reachable digest b" and "audit_Append digest (Some t) ctx e b = (Inr res, b1)"
    and "(audit_step digest)\<^sup>*\<^sup>* b1 b2" and "\<And>i. look i = None"
  shows "audit_Get (Some t) (Some look) (ae_EventID e) b2 = Inr (apr_Event res)
    \<and> audit_Append digest (Some t) (Some look) e b2
        = (Inr \<lparr>apr_Event = apr_Event res, apr_Duplicate = True, apr_Digest = apr_Digest res\<rparr>, b2)
    \<and> (ae_EventID e' = ae_EventID e \<and> ae_TenantID e' = t \<and> digest e' \<noteq> Some (apr_Digest res)
        \<longrightarrow> (\<exists>err. audit_Append digest (Some t) (Some look) e' b2 = (Inl err, b2)))"
proof -
  have t: "ae_TenantID e = t" "t \<noteq> []" using assms(2) by (auto simp: audit_Append_def audit_scope_def)
  have d: "ae_Digest digest e = Inr (apr_Digest res)"
    and stored: "\<exists>r. get b1 (t, ae_EventID e) = Some r \<and> ar_event r = apr_Event res \<and> ar_digest r = apr_Digest res"
    using assms(2) t by (auto simp: audit_Append_def Let_def split: option.splits)
  then obtain r where r: "get b2 (t, ae_EventID e) = Some r" "ar_event r = apr_Event res" "ar_digest r = apr_Digest res"
    using audit_star_kept [OF assms(3)] by blast
  have valid: "ae_Validate e = None" using d by (simp add: ae_Digest_def)
  have id: "trim_space (ae_EventID e) = ae_EventID e" "ae_EventID e \<noteq> []"
    using valid by (auto simp: ae_Validate_def ae_validIdentity_def)
  have "audit_Get (Some t) (Some look) (ae_EventID e) b2 = Inr (apr_Event res)"
    using r t id assms(4) by (simp add: audit_Get_def audit_check_def audit_scope_def)
  moreover have "audit_Append digest (Some t) (Some look) e b2
      = (Inr \<lparr>apr_Event = apr_Event res, apr_Duplicate = True, apr_Digest = apr_Digest res\<rparr>, b2)"
    using r t d assms(4) by (simp add: audit_Append_def audit_check_def audit_scope_def)
  moreover have "\<exists>err. audit_Append digest (Some t) (Some look) e' b2 = (Inl err, b2)"
    if "ae_EventID e' = ae_EventID e" "ae_TenantID e' = t" "digest e' \<noteq> Some (apr_Digest res)"
    by (rule keeps_refused [OF audit_Append_keep])
      (use that r in \<open>auto simp: audit_Append_def ae_Digest_def\<close>)
  ultimately show ?thesis by blast
qed

theorem audit_append_only_witness:
  "audit_Get (Some ''t'') (Some background) ''a'' demo_backend = Inr (demo_audit ''a'' ''m'' 5)"
  using audit_append_only [OF audit_reachable.start demo_append(1)
      r_into_rtranclp [of "audit_step demo_audit_digest", OF audit_step.append [OF demo_append(2)]], of background]
  by (simp add: demo_audit_def)

text \<open>
  C30: the reported usage is exact. The totals that the store reports for a tenant belong to
  different groups, each total adds up exactly the usage of the tenant's selected events in its
  group (on 64-bit counters), and every selected event with usage is in the group of a total:
  the text separator of the group keys never merges two groups.
\<close>

theorem audit_usage_exact:
  assumes "audit_reachable digest b" and "AggregateUsage (Some t) ctx q groups b = Inr totals"
  shows "\<exists>es. audit_List (Some t) ctx 1 q b = Inr es
    \<and> distinct (map (\<lambda>x. total_group x groups) totals)
    \<and> (\<forall>x\<in>set totals. sums_to (filter (\<lambda>(e, u). group_of e u groups = total_group x groups) (costed es)) x)
    \<and> set (map (\<lambda>x. total_group x groups) totals) = set (map (\<lambda>(e, u). group_of e u groups) (costed es))"
proof -
  from assms(2) obtain es where es: "audit_List (Some t) ctx 1 q b = Inr es"
    and totals: "totals = sort_key (\<lambda>x. aggregateKeyTotal x groups) (map snd (usage_loop t groups es []))"
    by (auto simp: AggregateUsage_def)
  let ?m = "usage_loop t groups es []"
  have ok: "audit_ok digest b" by (rule audit_reachable_ok [OF assms(1)])
  have plain: "plain e \<and> ae_TenantID e = t" if "e \<in> set es" for e using listed_plain [OF ok es that] by blast
  have keyed: "well_keyed ?m" by (simp add: usage_loop_keyed)
  have members: "x \<in> set totals \<longleftrightarrow> (\<exists>k. get ?m k = Some x)" for x
    using well_keyed_get_iff [OF keyed] by (force simp: totals)
  note entry = usage_loop_entry [OF plain]
  have E: "map (\<lambda>x. join_nul (total_group x groups)) (map snd ?m) = map fst ?m"
    using entry(1) well_keyed_get_iff [OF keyed] by (auto simp: list_eq_iff_nth_eq dest: nth_mem)
  have "distinct (map (\<lambda>x. join_nul (total_group x groups)) (map snd ?m))" unfolding E by (rule keyed)
  then have "distinct (map (\<lambda>x. total_group x groups) (map snd ?m))"
    by (simp add: distinct_map inj_on_def)
  then have "distinct (map (\<lambda>x. total_group x groups) totals)"
    unfolding totals by (rule distinct_map_sort_key)
  moreover have "\<forall>x\<in>set totals. sums_to (filter (\<lambda>(e, u). group_of e u groups = total_group x groups) (costed es)) x"
    using entry(2) members by blast
  moreover have "set (map (\<lambda>x. total_group x groups) totals) = set (map (\<lambda>(e, u). group_of e u groups) (costed es))"
  proof (intro equalityI subsetI)
    fix g
    assume "g \<in> set (map (\<lambda>x. total_group x groups) totals)"
    then obtain x k where x: "get ?m k = Some x" "g = total_group x groups" using members by auto
    from entry(3) [OF _ x(1)] x(2) show "g \<in> set (map (\<lambda>(e, u). group_of e u groups) (costed es))" by force
  next
    fix g
    assume "g \<in> set (map (\<lambda>(e, u). group_of e u groups) (costed es))"
    then obtain e u where eu: "(e, u) \<in> set (costed es)" "g = group_of e u groups" by auto
    from usage_loop_covers [OF eu(1)] obtain x where x: "get ?m (aggregateKey e u groups) = Some x" by blast
    from entry(3) [OF _ x] obtain e' u' where e': "(e', u') \<in> set (costed es)"
      "group_of e' u' groups = total_group x groups" by blast
    have "aggregateKey e' u' groups = aggregateKey e u groups"
      using entry(1) [OF _ x] e'(2) by (simp add: aggregateKey_def group_of_def)
    with aggregateKey_eq [of e' u' e u groups] plain e'(1) eu(1) have "total_group x groups = g"
      by (auto simp: costed_iff eu(2) e'(2) [symmetric])
    with x members show "g \<in> set (map (\<lambda>x. total_group x groups) totals)" by force
  qed
  ultimately show ?thesis using es by blast
qed

theorem audit_usage_exact_witness:
  "\<exists>x. AggregateUsage (Some ''t'') (Some background) \<lparr>aq_EventTypes = [], aq_Since = 0, aq_Until = 0\<rparr> [GroupModel] demo_backend
       = Inr [x] \<and> sums_to [(demo_audit ''a'' ''m'' 5, demo_usage ''m'' 5), (demo_audit ''b'' ''m'' 6, demo_usage ''m'' 6)] x"
proof -
  let ?q = "\<lparr>aq_EventTypes = [], aq_Since = 0, aq_Until = 0\<rparr>"
  let ?x = "\<lparr>ut_TenantID = ''t'', ut_AppID = ''app'', ut_Channel = [], ut_Provider = ''p'', ut_Model = ''m'',
      ut_InputTokens = 11, ut_OutputTokens = 0, ut_ModelCostMinor = 6, ut_ToolCostMinor = 0, ut_BudgetUsedTokens = 0,
      ut_BudgetUsedMinor = 0, ut_EventCount = 2, ut_Currency = ''EUR''\<rparr>"
  have x: "AggregateUsage (Some ''t'') (Some background) ?q [GroupModel] demo_backend = Inr [?x]"
    by code_simp
  have es: "audit_List (Some ''t'') (Some background) 1 ?q demo_backend
      = Inr [demo_audit ''a'' ''m'' 5, demo_audit ''b'' ''m'' 6]"
    by code_simp
  from audit_usage_exact [OF demo_audit_reachable x] es
  have "sums_to [(demo_audit ''a'' ''m'' 5, demo_usage ''m'' 5), (demo_audit ''b'' ''m'' 6, demo_usage ''m'' 6)] ?x"
    by (simp add: demo_audit_def demo_usage_def group_of_def total_group_def event_dimension_def total_dimension_def
        GroupTenant_def GroupApp_def GroupChannel_def GroupProvider_def GroupModel_def)
  with x show ?thesis by blast
qed

end
