(* ===== verification/Outbox_Worker.thy ===== *)
theory Outbox_Worker
  imports Complex_Main Outbox_Materializer Audit_Props
begin

text \<open>
  The delivery worker of the reply outbox, \<^verbatim>\<open>runtime/outbox/worker.go\<close>: it claims the reply segments
  of a tenant, hands them to a channel provider, settles them under the fence of its claim,
  records audit facts, and advances an event once all its segments are sent.

  The state is a world: the runtime store, the audit writer's state, the calls that the worker
  made to the provider, and the number of storage operations so far. What the worker does not
  decide is a \<open>nature\<close>: before each storage operation other processes may change the store, each
  operation sees its own context and clock, each call to the provider has its own outcome; \<open>on_nil\<close>
  tells that the caller passed no context. Telemetry and the trace values of contexts leave no
  mark on the world. Floating point arithmetic is exact arithmetic followed by the rounding
  \<open>on_round\<close>, a jitter that is not a number acts like none, and the conversion of a floating point
  number outside the 64-bit integers, which the language leaves to the implementation, is \<open>on_wide\<close>.
\<close>

subsection \<open>Providers and errors\<close>

definition DeliveryAccepted :: string where "DeliveryAccepted = ''accepted''"
definition DeliveryRejected :: string where "DeliveryRejected = ''rejected''"
definition DeliveryUnknown :: string where "DeliveryUnknown = ''unknown''"

text \<open>What \<^verbatim>\<open>errors.Is\<close> and \<^verbatim>\<open>errors.As\<close> see of the error of a delivery: class and retryable flag of a \<^verbatim>\<open>DeliveryError\<close>.\<close>

record delivery_failure =
  df_deadline :: bool
  df_canceled :: bool
  df_delivery :: "(string \<times> bool) option"

datatype provider_call = PDeliver reply_outbox | PReconcile reply_outbox

datatype outbox_error = OErrInvalid | OErrAlreadyRunning | OErrCtx ctx_error | OErrStore rs_error | OErrAudit record_error

definition normalizeErrorClass :: "string \<Rightarrow> string" where
  "normalizeErrorClass cls =
     (if cls \<in> set [''rate_limited'', ''timeout'', ''canceled'', ''invalid'', ''unauthenticated'', ''not_ready'',
                    ''unavailable'', ''provider_rejected'', ''provider_error''] then cls else ''provider_error'')"

definition metricErrorClass :: "string \<Rightarrow> string" where
  "metricErrorClass cls =
     (if normalizeErrorClass cls \<in> set [''rate_limited'', ''timeout'', ''canceled'', ''invalid'', ''unauthenticated'',
                    ''not_ready'', ''unavailable''] then normalizeErrorClass cls else ''error'')"

definition classify :: "delivery_failure \<Rightarrow> string \<times> bool" where
  "classify e =
     (if df_deadline e then (''timeout'', True)
      else if df_canceled e then (''canceled'', True)
      else case df_delivery e of
        Some (cls, retryable) \<Rightarrow> if cls \<noteq> [] then (normalizeErrorClass cls, retryable) else (''provider_error'', True)
      | None \<Rightarrow> (''provider_error'', True))"

subsection \<open>The worker and its world\<close>

record 'w outbox_worker =
  ob_tenantID :: string
  ob_owner :: string
  ob_leaseDuration :: duration
  ob_maxAttempts :: int
  ob_backoffBase :: duration
  ob_backoffMax :: duration
  ob_jitter :: real
  ob_audit :: "'w recorder"
  ob_running :: bool

record 'w outbox_config =
  oc_hasStore :: bool
  oc_hasProvider :: bool
  oc_TenantID :: string
  oc_Owner :: string
  oc_LeaseDuration :: duration
  oc_MaxAttempts :: int
  oc_BackoffBase :: duration
  oc_BackoffMax :: duration
  oc_Jitter :: real
  oc_AuditWriter :: "'w audit_writer option"

definition outbox_New :: "'w outbox_config \<Rightarrow> outbox_error + 'w outbox_worker" where
  "outbox_New c =
     (let attempts = (if oc_MaxAttempts c \<le> 0 then 3 else oc_MaxAttempts c);
          base = (if oc_BackoffBase c = 0 then 100 * 1000000 else oc_BackoffBase c);
          mx = (if oc_BackoffMax c = 0 then 30 * 1000000000 else oc_BackoffMax c)
      in
      ensure (first_error
        [fails (\<not> oc_hasStore c \<or> \<not> oc_hasProvider c \<or> ValidateTenant (oc_TenantID c) \<noteq> None \<or> oc_Owner c = []
                \<or> oc_LeaseDuration c \<le> 0) OErrInvalid,
         fails (oc_BackoffBase c < 0 \<or> oc_BackoffMax c < 0 \<or> oc_Jitter c < 0 \<or> oc_Jitter c > 1) OErrInvalid,
         fails (mx < base) OErrInvalid])
      (Inr \<lparr>ob_tenantID = oc_TenantID c, ob_owner = oc_Owner c, ob_leaseDuration = oc_LeaseDuration c,
            ob_maxAttempts = attempts, ob_backoffBase = base, ob_backoffMax = mx, ob_jitter = oc_Jitter c,
            ob_audit = \<lparr>rec_Writer = oc_AuditWriter c, rec_TenantID = oc_TenantID c\<rparr>, ob_running = False\<rparr>))"

record ('st, 'w) outbox_world =
  ow_store :: "'st runtime_store"
  ow_audit :: 'w
  ow_calls :: "provider_call list"
  ow_tick :: nat

record 'st outbox_nature =
  on_other :: "nat \<Rightarrow> 'st runtime_store \<Rightarrow> 'st runtime_store"
  on_ctx :: "nat \<Rightarrow> ctx_error option"
  on_clock :: "nat \<Rightarrow> nat \<Rightarrow> instant"
  on_now :: "nat \<Rightarrow> nat \<Rightarrow> instant"
  on_deliver :: "nat \<Rightarrow> reply_outbox \<Rightarrow> delivery_failure + string"
  on_reconcile :: "nat \<Rightarrow> reply_outbox \<Rightarrow> (string \<times> string) option"
  on_audit_now :: "nat \<Rightarrow> instant"
  on_norm :: "string \<Rightarrow> string"
  on_sha :: "string \<Rightarrow> string"
  on_round :: "real \<Rightarrow> real"
  on_wide :: "real \<Rightarrow> int"
  on_nil :: bool

text \<open>
  \<^verbatim>\<open>observeStorage\<close>: one operation on the store as it is by then, with its context and its clock.
\<close>

definition observeStorage ::
  "'st outbox_nature \<Rightarrow> (goctx \<Rightarrow> (nat \<Rightarrow> instant) \<Rightarrow> 'st runtime_store \<Rightarrow> (rs_error + 'a) \<times> 'st runtime_store)
   \<Rightarrow> ('st, 'w) outbox_world \<Rightarrow> (rs_error + 'a) \<times> ('st, 'w) outbox_world" where
  "observeStorage nt operation ow =
     (let n = ow_tick ow;
          (r, s) = operation (Some (\<lambda>_. on_ctx nt n)) (on_clock nt n) (on_other nt n (ow_store ow))
      in (r, ow\<lparr>ow_store := s, ow_tick := n + 1\<rparr>))"

text \<open>An operation that only reads.\<close>

definition reading :: "(goctx \<Rightarrow> 's \<Rightarrow> 'e + 'a) \<Rightarrow> goctx \<Rightarrow> (nat \<Rightarrow> instant) \<Rightarrow> 's \<Rightarrow> ('e + 'a) \<times> 's" where
  "reading f c clock s = (f c s, s)"

subsection \<open>When a segment is due\<close>

definition outbox_eligible :: "reply_outbox \<Rightarrow> instant \<Rightarrow> bool" where
  "outbox_eligible v now \<longleftrightarrow>
     rp_Status v = ReplyPending \<or> rp_Status v = ReplyRetryable
     \<or> rp_Status v = ReplySending \<and> (case rp_LeaseExpiresAt v of None \<Rightarrow> False | Some expiry \<Rightarrow> \<not> expiry > now)"

unbundle bit_operations_syntax

text \<open>The 32-bit FNV-1a hash.\<close>

definition fnv32a :: "string \<Rightarrow> nat" where
  "fnv32a s = fold (\<lambda>c h. ((h XOR byte c) * 16777619) mod 2 ^ 32) s 2166136261"

definition retry_delay :: "(real \<Rightarrow> real) \<Rightarrow> 'w outbox_worker \<Rightarrow> reply_outbox \<Rightarrow> real" where
  "retry_delay rnd w v =
     (let attempt = (if rp_Attempts v < 1 then 1 else rp_Attempts v);
          mx = rnd (real_of_int (ob_backoffMax w));
          delay = rnd (rnd (real_of_int (ob_backoffBase w)) * 2 ^ nat (attempt - 1));
          capped = (if delay > mx then mx else delay)
      in if ob_jitter w > 0
         then rnd (capped * rnd (1 + rnd (rnd (rnd (rnd (real (fnv32a (rp_ReplyID v) mod 1000) / 999) - 1 / 2) * 2)
                                          * ob_jitter w)))
         else capped)"

definition truncate_real :: "real \<Rightarrow> int" where
  "truncate_real x = (if x < 0 then \<lceil>x\<rceil> else \<lfloor>x\<rfloor>)"

text \<open>\<^verbatim>\<open>time.Duration(delay)\<close>.\<close>

definition to_duration :: "(real \<Rightarrow> int) \<Rightarrow> real \<Rightarrow> duration" where
  "to_duration wide x = (if in_int64 (truncate_real x) then truncate_real x else wide x)"

definition retryDue :: "(real \<Rightarrow> real) \<Rightarrow> (real \<Rightarrow> int) \<Rightarrow> 'w outbox_worker \<Rightarrow> reply_outbox \<Rightarrow> instant \<Rightarrow> bool" where
  "retryDue rnd wide w v now \<longleftrightarrow>
     rp_Status v \<noteq> ReplyRetryable \<or> ob_backoffBase w \<le> 0 \<or> rp_UpdatedAt v = 0
     \<or> \<not> now < rp_UpdatedAt v + to_duration wide (retry_delay rnd w v)"

subsection \<open>Claiming and settling\<close>

definition claimCandidate ::
  "'st outbox_nature \<Rightarrow> 'w outbox_worker \<Rightarrow> reply_outbox \<Rightarrow> ('st, 'w) outbox_world
   \<Rightarrow> (rs_error + reply_outbox option) \<times> ('st, 'w) outbox_world" where
  "claimCandidate nt w candidate ow =
     (if \<not> outbox_eligible candidate (on_now nt (ow_tick ow) 0)
         \<or> \<not> retryDue (on_round nt) (on_wide nt) w candidate (on_now nt (ow_tick ow) 1)
      then (Inr None, ow)
      else case observeStorage nt (\<lambda>c clock. ClaimReply c (rp_TenantID candidate) (rp_ReplyID candidate)
                  (rp_SegmentIndex candidate) (ob_owner w) (ob_leaseDuration w) clock) ow of
        (Inl e, ow') \<Rightarrow> (if e = RErrConflict \<or> e = RErrNotFound then Inr None else Inl e, ow')
      | (Inr claimed, ow') \<Rightarrow> (Inr (Some claimed), ow'))"

text \<open>The transition that settles a claimed segment, under the owner and the token of the claim.\<close>

definition settle ::
  "'w outbox_worker \<Rightarrow> reply_outbox \<Rightarrow> string \<Rightarrow> string \<Rightarrow> string \<Rightarrow> reply_transition" where
  "settle w claimed target providerID cls =
     \<lparr>rx_TenantID = rp_TenantID claimed, rx_ReplyID = rp_ReplyID claimed, rx_SegmentIndex = rp_SegmentIndex claimed,
      rx_From = ReplySending, rx_To = target, rx_Owner = ob_owner w, rx_FencingToken = rp_FencingToken claimed,
      rx_LeaseDuration = 0, rx_ErrorClass = cls, rx_ProviderID = providerID\<rparr>"

definition message_move :: "'w outbox_worker \<Rightarrow> string \<Rightarrow> string \<Rightarrow> string \<Rightarrow> message_transition" where
  "message_move w eventID source target =
     \<lparr>mt_TenantID = ob_tenantID w, mt_EventID = eventID, mt_From = source, mt_To = target, mt_Owner = ob_owner w,
      mt_FencingToken = 0, mt_LeaseDuration = 0, mt_ReplyID = [], mt_SegmentCount = 0\<rparr>"

text \<open>
  \<^verbatim>\<open>advanceEvent\<close>: the event is moved to replied when all its listed segments are sent. Errors end
  the call and are not reported.
\<close>

definition advanceEvent ::
  "'st outbox_nature \<Rightarrow> 'w outbox_worker \<Rightarrow> string \<Rightarrow> ('st, 'w) outbox_world \<Rightarrow> ('st, 'w) outbox_world" where
  "advanceEvent nt w eventID ow =
     (if eventID = [] then ow
      else case observeStorage nt (reading (\<lambda>c. ListReplyCandidates c (ob_tenantID w))) ow of
        (Inl _, ow1) \<Rightarrow> ow1
      | (Inr candidates, ow1) \<Rightarrow>
          (let mine = filter (\<lambda>v. rp_EventID v = eventID) candidates in
           if mine = [] \<or> \<not> list_all (\<lambda>v. rp_Status v = ReplySent) mine then ow1
           else case observeStorage nt (reading (\<lambda>c. GetMessage c (ob_tenantID w) eventID)) ow1 of
             (Inl _, ow2) \<Rightarrow> ow2
           | (Inr event, ow2) \<Rightarrow>
               (let (stop, status, ow3) =
                  (if ev_Status event = EventCompleted
                   then (case observeStorage nt (\<lambda>c. TransitionMessage c
                                 (message_move w eventID EventCompleted EventReplyPending)) ow2 of
                           (Inl _, ow') \<Rightarrow> (True, [], ow')
                         | (Inr _, ow') \<Rightarrow> (False, EventReplyPending, ow'))
                   else (False, ev_Status event, ow2))
                in if \<not> stop \<and> status = EventReplyPending
                   then snd (observeStorage nt (\<lambda>c. TransitionMessage c
                               (message_move w eventID EventReplyPending EventReplied)) ow3)
                   else ow3)))"

definition recordDelivery ::
  "'st outbox_nature \<Rightarrow> 'w outbox_worker \<Rightarrow> string \<Rightarrow> reply_outbox \<Rightarrow> string \<Rightarrow> ('st, 'w) outbox_world
   \<Rightarrow> (outbox_error + unit) \<times> ('st, 'w) outbox_world" where
  "recordDelivery nt w eventType v cls ow =
     (let decision = (if eventType \<noteq> audit_EventIMDeliverySent then audit_DecisionRejected else audit_DecisionAccepted);
          (r, ow1) = observeStorage nt (reading (\<lambda>c. GetReplyCorrelation (on_norm nt) c (rp_TenantID v) (rp_EventID v))) ow;
          (requestID, traceID) = (case r of Inl _ \<Rightarrow> (rp_ReplyID v, []) | Inr c \<Rightarrow> (rc_RequestID c, rc_TraceID c));
          n = ow_tick ow1
      in
      case rec_IM (on_sha nt) (ob_audit w) (Some (\<lambda>_. on_ctx nt n)) eventType requestID traceID [] [] decision cls
             (on_audit_now nt n) (ow_audit ow1) of
        (Inl e, a) \<Rightarrow> (Inl (OErrAudit e), ow1\<lparr>ow_audit := a, ow_tick := n + 1\<rparr>)
      | (Inr _, a) \<Rightarrow> (Inr (), ow1\<lparr>ow_audit := a, ow_tick := n + 1\<rparr>))"

definition acceptDelivery ::
  "'st outbox_nature \<Rightarrow> 'w outbox_worker \<Rightarrow> reply_outbox \<Rightarrow> string \<Rightarrow> ('st, 'w) outbox_world
   \<Rightarrow> (outbox_error + unit) \<times> ('st, 'w) outbox_world" where
  "acceptDelivery nt w claimed providerID ow =
     (case observeStorage nt (\<lambda>c. TransitionReply c (settle w claimed ReplySent providerID [])) ow of
        (Inl e, ow1) \<Rightarrow> (Inl (OErrStore e), ow1)
      | (Inr _, ow1) \<Rightarrow>
          (case recordDelivery nt w audit_EventIMDeliverySent claimed [] ow1 of
             (Inl e, ow2) \<Rightarrow> (Inl e, ow2)
           | (Inr _, ow2) \<Rightarrow> (Inr (), advanceEvent nt w (rp_EventID claimed) ow2)))"

definition reject_target :: "'w outbox_worker \<Rightarrow> reply_outbox \<Rightarrow> bool \<Rightarrow> string" where
  "reject_target w claimed retryable =
     (if \<not> retryable \<or> rp_Attempts claimed \<ge> ob_maxAttempts w then ReplyDeadLetter else ReplyRetryable)"

definition rejectDelivery ::
  "'st outbox_nature \<Rightarrow> 'w outbox_worker \<Rightarrow> reply_outbox \<Rightarrow> delivery_failure \<Rightarrow> ('st, 'w) outbox_world
   \<Rightarrow> (outbox_error + unit) \<times> ('st, 'w) outbox_world" where
  "rejectDelivery nt w claimed failure ow =
     (let (cls, retryable) = classify failure;
          target = reject_target w claimed retryable
      in
      case observeStorage nt (\<lambda>c. TransitionReply c (settle w claimed target [] cls)) ow of
        (Inl e, ow1) \<Rightarrow> (Inl (OErrStore e), ow1)
      | (Inr _, ow1) \<Rightarrow>
          recordDelivery nt w (if target = ReplyDeadLetter then audit_EventIMDeliveryDeadLettered
                               else audit_EventIMDeliveryRetryScheduled) claimed cls ow1)"

text \<open>The calls to the provider are counted and logged.\<close>

definition outbox_reconcile ::
  "'st outbox_nature \<Rightarrow> 'w outbox_worker \<Rightarrow> reply_outbox \<Rightarrow> ('st, 'w) outbox_world
   \<Rightarrow> bool \<times> ('st, 'w) outbox_world" where
  "outbox_reconcile nt w claimed ow =
     (let answer = on_reconcile nt (length (ow_calls ow)) claimed;
          ow1 = ow\<lparr>ow_calls := ow_calls ow @ [PReconcile claimed]\<rparr>
      in
      case answer of
        None \<Rightarrow> (False, ow1)
      | Some (status, providerID) \<Rightarrow>
          if status = DeliveryUnknown then (False, ow1)
          else (let (target, cls) = (if status = DeliveryRejected then (ReplyRetryable, ''provider_rejected'') else (ReplySent, []))
                in case observeStorage nt (\<lambda>c. TransitionReply c (settle w claimed target providerID cls)) ow1 of
                     (Inl _, ow2) \<Rightarrow> (False, ow2)
                   | (Inr _, ow2) \<Rightarrow> (True, ow2)))"

definition processClaimed ::
  "'st outbox_nature \<Rightarrow> 'w outbox_worker \<Rightarrow> reply_outbox \<Rightarrow> reply_outbox \<Rightarrow> ('st, 'w) outbox_world
   \<Rightarrow> (outbox_error + unit) \<times> ('st, 'w) outbox_world" where
  "processClaimed nt w candidate claimed ow =
     (if rp_Status candidate = ReplySending
      then (case outbox_reconcile nt w claimed ow of
              (True, ow1) \<Rightarrow> (Inr (), advanceEvent nt w (rp_EventID claimed) ow1)
            | (False, ow1) \<Rightarrow> (Inr (), ow1))
      else
        (let ow1 = ow\<lparr>ow_calls := ow_calls ow @ [PDeliver claimed]\<rparr> in
         case on_deliver nt (length (ow_calls ow)) claimed of
           Inr providerID \<Rightarrow> acceptDelivery nt w claimed providerID ow1
         | Inl failure \<Rightarrow> rejectDelivery nt w claimed failure ow1))"

fun outbox_loop ::
  "'st outbox_nature \<Rightarrow> 'w outbox_worker \<Rightarrow> reply_outbox list \<Rightarrow> int \<Rightarrow> ('st, 'w) outbox_world
   \<Rightarrow> (int \<times> outbox_error option) \<times> ('st, 'w) outbox_world" where
  "outbox_loop nt w [] processed ow = ((processed, None), ow)"
| "outbox_loop nt w (candidate # candidates) processed ow =
     (case claimCandidate nt w candidate ow of
        (Inl e, ow1) \<Rightarrow> ((processed, Some (OErrStore e)), ow1)
      | (Inr None, ow1) \<Rightarrow> outbox_loop nt w candidates processed ow1
      | (Inr (Some claimed), ow1) \<Rightarrow>
          (case processClaimed nt w candidate claimed ow1 of
             (Inr _, ow2) \<Rightarrow> outbox_loop nt w candidates (processed + 1) ow2
           | (Inl e, ow2) \<Rightarrow>
               if e = OErrStore RErrConflict then outbox_loop nt w candidates (processed + 1) ow2
               else ((processed + 1, Some e), ow2)))"

definition outbox_RunOnce ::
  "'st outbox_nature \<Rightarrow> 'w outbox_worker \<Rightarrow> ('st, 'w) outbox_world
   \<Rightarrow> (int \<times> outbox_error option) \<times> ('st, 'w) outbox_world" where
  "outbox_RunOnce nt w ow =
     (if on_nil nt then ((0, Some OErrInvalid), ow)
      else case observeStorage nt (reading (\<lambda>c. ListReplyCandidates c (ob_tenantID w))) ow of
        (Inl e, ow1) \<Rightarrow> ((0, Some (OErrStore e)), ow1)
      | (Inr candidates, ow1) \<Rightarrow> outbox_loop nt w candidates 0 ow1)"

subsection \<open>The polling loop\<close>

definition beginRun :: "goctx \<Rightarrow> 'w outbox_worker option \<Rightarrow> (outbox_error + unit) \<times> 'w outbox_worker option" where
  "beginRun ctx wopt =
     (case (wopt, ctx) of
        (Some w, Some look) \<Rightarrow>
          check (first_error [map_option OErrCtx (look 0), fails (ob_running w) OErrAlreadyRunning]) wopt
          (Inr (), Some (w\<lparr>ob_running := True\<rparr>))
      | _ \<Rightarrow> (Inl OErrInvalid, wopt))"

text \<open>\<^verbatim>\<open>errors.Is\<close> with an error of a context, through joined and wrapped errors.\<close>

fun is_context_error :: "outbox_error \<Rightarrow> bool" where
  "is_context_error (OErrCtx _) = True"
| "is_context_error (OErrStore (RErrCtx _)) = True"
| "is_context_error (OErrAudit (RecAppend (AuErrCtx _))) = True"
| "is_context_error _ = False"

text \<open>
  The turns of \<^verbatim>\<open>runLoop\<close>: the nature of each turn and the error of the context if the wait after
  it ended with the context. The loop ends with an error of the run or of the context; \<open>None\<close> is a
  loop that still polls. The worker is released when it ends.
\<close>

fun runLoop ::
  "'w outbox_worker \<Rightarrow> ('st outbox_nature \<times> ctx_error option) list \<Rightarrow> ('st, 'w) outbox_world
   \<Rightarrow> (outbox_error \<times> 'w outbox_worker) option \<times> ('st, 'w) outbox_world" where
  "runLoop w [] ow = (None, ow)"
| "runLoop w ((nt, ended) # turns) ow =
     (case outbox_RunOnce nt w ow of
        ((_, err), ow1) \<Rightarrow>
          (case err of
             Some e \<Rightarrow>
               if \<not> is_context_error e then (Some (e, w\<lparr>ob_running := False\<rparr>), ow1)
               else (case ended of Some c \<Rightarrow> (Some (OErrCtx c, w\<lparr>ob_running := False\<rparr>), ow1)
                     | None \<Rightarrow> runLoop w turns ow1)
           | None \<Rightarrow>
               (case ended of Some c \<Rightarrow> (Some (OErrCtx c, w\<lparr>ob_running := False\<rparr>), ow1)
                | None \<Rightarrow> runLoop w turns ow1)))"

end
