(* ===== verification/Outbox_Props.thy ===== *)
theory Outbox_Props
  imports Outbox_Worker
begin

text \<open>
  What the delivery worker guarantees. A run is a sequence of a few kinds of moves; a predicate on
  worlds that each kind of move keeps is kept by the run, and the properties are instances of
  this rule.
\<close>

subsection \<open>The moves of a run\<close>

text \<open>What others do before the next operation of the worker, when that operation only reads.\<close>

definition others :: "'st outbox_nature \<Rightarrow> ('st, 'w) outbox_world \<Rightarrow> ('st, 'w) outbox_world" where
  "others nt ow = ow\<lparr>ow_store := on_other nt (ow_tick ow) (ow_store ow), ow_tick := ow_tick ow + 1\<rparr>"

definition logged :: "provider_call \<Rightarrow> ('st, 'w) outbox_world \<Rightarrow> ('st, 'w) outbox_world" where
  "logged call ow = ow\<lparr>ow_calls := ow_calls ow @ [call]\<rparr>"

definition claiming ::
  "'st outbox_nature \<Rightarrow> 'w outbox_worker \<Rightarrow> reply_outbox \<Rightarrow> ('st, 'w) outbox_world
   \<Rightarrow> (rs_error + reply_outbox) \<times> ('st, 'w) outbox_world" where
  "claiming nt w v = observeStorage nt (\<lambda>c clock. ClaimReply c (rp_TenantID v) (rp_ReplyID v)
     (rp_SegmentIndex v) (ob_owner w) (ob_leaseDuration w) clock)"

definition settling ::
  "'st outbox_nature \<Rightarrow> 'w outbox_worker \<Rightarrow> reply_outbox \<Rightarrow> string \<Rightarrow> string \<Rightarrow> string \<Rightarrow> ('st, 'w) outbox_world
   \<Rightarrow> (rs_error + reply_outbox) \<times> ('st, 'w) outbox_world" where
  "settling nt w v target pid cls = observeStorage nt (\<lambda>c. TransitionReply c (settle w v target pid cls))"

definition moving ::
  "'st outbox_nature \<Rightarrow> 'w outbox_worker \<Rightarrow> string \<Rightarrow> string \<Rightarrow> string \<Rightarrow> ('st, 'w) outbox_world
   \<Rightarrow> (rs_error + message_event) \<times> ('st, 'w) outbox_world" where
  "moving nt w eid source target = observeStorage nt (\<lambda>c. TransitionMessage c (message_move w eid source target))"

lemma observe_reading [simp]:
  "observeStorage nt (reading f) ow
     = (f (Some (\<lambda>_. on_ctx nt (ow_tick ow))) (on_other nt (ow_tick ow) (ow_store ow)), others nt ow)"
  by (simp add: observeStorage_def reading_def others_def Let_def)

text \<open>A call whose outcome accepts the segment with the key \<open>k\<close> under the message identifier \<open>pid\<close>.\<close>

fun accepts :: "'st outbox_nature \<Rightarrow> nat \<Rightarrow> provider_call \<Rightarrow> string \<Rightarrow> string \<Rightarrow> bool" where
  "accepts nt i (PDeliver r) k pid \<longleftrightarrow> reply_key r = k \<and> on_deliver nt i r = Inr pid"
| "accepts nt i (PReconcile r) k pid \<longleftrightarrow>
     reply_key r = k \<and> (\<exists>status. on_reconcile nt i r = Some (status, pid) \<and> status \<notin> {DeliveryUnknown, DeliveryRejected})"

text \<open>The rule: what every move keeps. A settlement as sent follows a call that accepted.\<close>

definition run_keeps :: "'st outbox_nature \<Rightarrow> 'w outbox_worker \<Rightarrow> (('st, 'w) outbox_world \<Rightarrow> bool) \<Rightarrow> bool" where
  "run_keeps nt w P \<longleftrightarrow>
     (\<forall>ow. P ow \<longrightarrow> P (others nt ow)) \<and> (\<forall>ow a n. P ow \<longrightarrow> P (ow\<lparr>ow_audit := a, ow_tick := n\<rparr>))
     \<and> (\<forall>ow v. P ow \<longrightarrow> P (snd (claiming nt w v ow))) \<and> (\<forall>ow call. P ow \<longrightarrow> P (logged call ow))
     \<and> (\<forall>ow v target pid cls. P (logged (PDeliver v) ow) \<and> target \<noteq> ReplySent
          \<longrightarrow> P (snd (settling nt w v target pid cls (logged (PDeliver v) ow))))
     \<and> (\<forall>ow v target pid cls. P (logged (PReconcile v) ow) \<and> target \<noteq> ReplySent
          \<longrightarrow> P (snd (settling nt w v target pid cls (logged (PReconcile v) ow))))
     \<and> (\<forall>ow v call pid cls. P ow \<and> P (logged call ow) \<and> accepts nt (length (ow_calls ow)) call (reply_key v) pid
          \<longrightarrow> P (snd (settling nt w v ReplySent pid cls (logged call ow))))
     \<and> (\<forall>ow eid. P ow \<longrightarrow> P (advanceEvent nt w eid ow))"

lemma run_keepsD:
  assumes "run_keeps nt w P"
  shows "P ow \<Longrightarrow> P (others nt ow)" "P ow \<Longrightarrow> P (ow\<lparr>ow_audit := a, ow_tick := n\<rparr>)"
    "P ow \<Longrightarrow> P (snd (claiming nt w v ow))" "P ow \<Longrightarrow> P (logged call ow)"
    "P (logged (PDeliver v) ow) \<Longrightarrow> target \<noteq> ReplySent \<Longrightarrow> P (snd (settling nt w v target pid cls (logged (PDeliver v) ow)))"
    "P (logged (PReconcile v) ow) \<Longrightarrow> target \<noteq> ReplySent
       \<Longrightarrow> P (snd (settling nt w v target pid cls (logged (PReconcile v) ow)))"
    "P ow \<Longrightarrow> accepts nt (length (ow_calls ow)) call (reply_key v) pid
       \<Longrightarrow> P (snd (settling nt w v ReplySent pid cls (logged call ow)))"
    "P ow \<Longrightarrow> P (advanceEvent nt w eid ow)"
  using assms unfolding run_keeps_def by simp_all

lemma recordDelivery_world:
  "\<exists>a n. snd (recordDelivery nt w et v cls ow) = (others nt ow)\<lparr>ow_audit := a, ow_tick := n\<rparr>"
  unfolding recordDelivery_def by (auto simp: Let_def case_prod_beta split: sum.split)

lemma run_keeps_record:
  assumes "run_keeps nt w P" and "P ow"
  shows "P (snd (recordDelivery nt w et v cls ow))"
  using recordDelivery_world [of nt w et v cls ow] run_keepsD(2) [OF assms(1) run_keepsD(1) [OF assms]] by metis

lemma run_keeps_accept:
  assumes r: "run_keeps nt w P" and "P ow" and "accepts nt (length (ow_calls ow)) call (reply_key v) pid"
  shows "P (snd (acceptDelivery nt w v pid (logged call ow)))"
proof -
  obtain x ow1 where s: "settling nt w v ReplySent pid [] (logged call ow) = (x, ow1)" by fastforce
  have P1: "P ow1" using run_keepsD(7) [OF r assms(2,3), of "[]"] s by simp
  obtain y ow2 where rec: "recordDelivery nt w audit_EventIMDeliverySent v [] ow1 = (y, ow2)" by fastforce
  have P2: "P ow2" using run_keeps_record [OF r P1, of audit_EventIMDeliverySent v "[]"] rec by simp
  from s P1 P2 rec run_keepsD(8) [OF r P2] show ?thesis
    by (simp add: acceptDelivery_def settling_def split: sum.split)
qed

lemma run_keeps_reject:
  assumes r: "run_keeps nt w P" and "P ow"
  shows "P (snd (rejectDelivery nt w v failure (logged (PDeliver v) ow)))"
proof -
  obtain cls b where c: "classify failure = (cls, b)" by fastforce
  let ?t = "reject_target w v b"
  obtain x ow1 where s: "settling nt w v ?t [] cls (logged (PDeliver v) ow) = (x, ow1)" by fastforce
  have "?t \<noteq> ReplySent" by (simp add: reject_target_def ReplySent_def ReplyDeadLetter_def ReplyRetryable_def)
  from run_keepsD(5) [OF r run_keepsD(4) [OF r assms(2)] this] s have P1: "P ow1" by (metis snd_conv)
  from s P1 run_keeps_record [OF r P1] c show ?thesis
    by (simp add: rejectDelivery_def settling_def Let_def split: sum.split)
qed

lemma run_keeps_reconcile:
  assumes r: "run_keeps nt w P" and "P ow"
  shows "P (snd (outbox_reconcile nt w v ow))"
proof (cases "on_reconcile nt (length (ow_calls ow)) v")
  case None
  with run_keepsD(4) [OF r assms(2)] show ?thesis by (simp add: outbox_reconcile_def logged_def)
next
  case (Some answer)
  obtain status pid where a: "answer = (status, pid)" by fastforce
  let ?ow = "logged (PReconcile v) ow"
  have P1: "P ?ow" by (rule run_keepsD(4) [OF r assms(2)])
  obtain x ow1 where s1: "settling nt w v ReplyRetryable pid ''provider_rejected'' ?ow = (x, ow1)" by fastforce
  obtain y ow2 where s2: "settling nt w v ReplySent pid [] ?ow = (y, ow2)" by fastforce
  have "P (snd (settling nt w v ReplyRetryable pid ''provider_rejected'' ?ow))"
    by (rule run_keepsD(6) [OF r P1]) (simp add: ReplySent_def ReplyRetryable_def)
  then have retry: "P ow1" by (simp add: s1)
  have sent: "P ow2" if "status \<noteq> DeliveryUnknown" "status \<noteq> DeliveryRejected"
    using run_keepsD(7) [OF r assms(2), of "PReconcile v" v pid "[]"] Some a that s2 by simp
  have eq: "outbox_reconcile nt w v ow =
      (if status = DeliveryUnknown then (False, ?ow)
       else if status = DeliveryRejected then (case x of Inl _ \<Rightarrow> (False, ow1) | Inr _ \<Rightarrow> (True, ow1))
       else (case y of Inl _ \<Rightarrow> (False, ow2) | Inr _ \<Rightarrow> (True, ow2)))"
    using s1 s2 by (simp add: outbox_reconcile_def Some a logged_def settling_def)
  show ?thesis unfolding eq using P1 retry sent by (simp split: sum.split)
qed

lemma run_keeps_process:
  assumes r: "run_keeps nt w P" and "P ow"
  shows "P (snd (processClaimed nt w c v ow))"
proof (cases "rp_Status c = ReplySending")
  case True
  obtain b ow1 where rc: "outbox_reconcile nt w v ow = (b, ow1)" by fastforce
  have "P ow1" using run_keeps_reconcile [OF assms, of v] rc by simp
  with run_keepsD(8) [OF r this] True rc show ?thesis by (auto simp: processClaimed_def split: bool.split)
next
  case False
  show ?thesis
  proof (cases "on_deliver nt (length (ow_calls ow)) v")
    case (Inl failure)
    with False run_keeps_reject [OF assms] show ?thesis by (simp add: processClaimed_def logged_def)
  next
    case (Inr pid)
    with False run_keeps_accept [OF assms, of "PDeliver v" v pid] show ?thesis
      by (simp add: processClaimed_def logged_def)
  qed
qed

lemma run_keeps_loop:
  assumes r: "run_keeps nt w P"
  shows "P ow \<Longrightarrow> P (snd (outbox_loop nt w cs n ow))"
proof (induction cs arbitrary: n ow)
  case Nil
  then show ?case by simp
next
  case (Cons c cs)
  obtain x ow1 where cl: "claimCandidate nt w c ow = (x, ow1)" by fastforce
  have P1: "P ow1"
    using run_keepsD(3) [OF r Cons.prems, of c] Cons.prems cl
    by (auto simp: claimCandidate_def claiming_def split: if_splits prod.splits sum.splits)
  show ?case
  proof (cases x)
    case (Inl e)
    with cl P1 show ?thesis by simp
  next
    case (Inr o1)
    show ?thesis
    proof (cases o1)
      case None
      with Inr cl Cons.IH [OF P1] show ?thesis by simp
    next
      case (Some v)
      obtain y ow2 where pc: "processClaimed nt w c v ow1 = (y, ow2)" by fastforce
      have P2: "P ow2" using run_keeps_process [OF r P1, of c v] pc by simp
      from Inr Some cl pc P2 Cons.IH [OF P2] show ?thesis by (auto split: sum.split)
    qed
  qed
qed

lemma run_keeps_RunOnce:
  assumes "run_keeps nt w P" and "P ow"
  shows "P (snd (outbox_RunOnce nt w ow))"
  using run_keepsD(1) [OF assms] run_keeps_loop [OF assms(1)]
  by (auto simp: outbox_RunOnce_def assms(2) split: sum.split)

text \<open>The segments of an event are all sent; it has some, and they are all sent.\<close>

definition all_sent :: "string \<Rightarrow> string \<Rightarrow> 'st runtime_store \<Rightarrow> bool" where
  "all_sent tid eid s \<longleftrightarrow>
     (\<forall>k r. get (st_replies s) k = Some r \<and> rp_TenantID r = tid \<and> rp_EventID r = eid \<longrightarrow> rp_Status r = ReplySent)"

definition delivered :: "string \<Rightarrow> string \<Rightarrow> 'st runtime_store \<Rightarrow> bool" where
  "delivered tid eid s \<longleftrightarrow> all_sent tid eid s
     \<and> (\<exists>k r. get (st_replies s) k = Some r \<and> rp_TenantID r = tid \<and> rp_EventID r = eid)"

definition listed :: "string \<Rightarrow> string \<Rightarrow> 'st runtime_store \<Rightarrow> bool" where
  "listed tid eid s \<longleftrightarrow> list_ex (\<lambda>(k, r). rp_TenantID r = tid \<and> rp_EventID r = eid) (st_replies s)"

lemma listed_delivered: "store_ok s \<Longrightarrow> all_sent tid eid s \<Longrightarrow> listed tid eid s \<Longrightarrow> delivered tid eid s"
  by (auto simp: delivered_def listed_def list_ex_iff store_ok_def replies_ok_def well_keyed_get_iff)

text \<open>An event is moved only after all its segments were seen as sent.\<close>

lemma listed_all_sent:
  assumes "ListReplyCandidates c tid s = Inr vs" and "list_all (\<lambda>v. rp_Status v = ReplySent) (filter (\<lambda>v. rp_EventID v = eid) vs)"
  shows "all_sent tid eid s"
  unfolding all_sent_def
proof (intro allI impI)
  fix k r
  assume r: "get (st_replies s) k = Some r \<and> rp_TenantID r = tid \<and> rp_EventID r = eid"
  then have "(k, r) \<in> set (st_replies s)" by (blast dest: get_SomeD)
  with r assms show "rp_Status r = ReplySent" by (force simp: ListReplyCandidates_def list_all_iff)
qed

lemma advance_keeps:
  assumes "\<And>ow. Q ow \<Longrightarrow> Q (others nt ow)"
    and "\<And>ow. Q ow \<Longrightarrow> all_sent (ob_tenantID w) eid (ow_store (others nt ow))
          \<Longrightarrow> listed (ob_tenantID w) eid (ow_store (others nt ow)) \<Longrightarrow> R (others nt ow)"
    and "\<And>ow. R ow \<Longrightarrow> R (others nt ow)"
    and "\<And>ow. R ow \<Longrightarrow> R (snd (moving nt w eid EventCompleted EventReplyPending ow))"
    and "\<And>ow. R ow \<Longrightarrow> R (snd (moving nt w eid EventReplyPending EventReplied ow))"
    and "\<And>ow. R ow \<Longrightarrow> Q ow" and "Q ow"
  shows "Q (advanceEvent nt w eid ow)"
proof (cases "eid = []")
  case True
  with assms(7) show ?thesis by (simp add: advanceEvent_def)
next
  case False
  let ?l = "ListReplyCandidates (Some (\<lambda>_. on_ctx nt (ow_tick ow))) (ob_tenantID w) (on_other nt (ow_tick ow) (ow_store ow))"
  let ?mine = "\<lambda>vs. filter (\<lambda>v. rp_EventID v = eid) vs"
  have Q1: "Q (others nt ow)" by (rule assms(1) [OF assms(7)])
  show ?thesis
  proof (cases "\<exists>vs. ?l = Inr vs \<and> \<not> (?mine vs = [] \<or> \<not> list_all (\<lambda>v. rp_Status v = ReplySent) (?mine vs))")
    case False
    with Q1 \<open>eid \<noteq> []\<close> show ?thesis by (auto simp: advanceEvent_def Let_def split: sum.split)
  next
    case True
    then obtain vs where vs: "?l = Inr vs" "?mine vs \<noteq> []" "list_all (\<lambda>v. rp_Status v = ReplySent) (?mine vs)" by blast
    have "all_sent (ob_tenantID w) eid (ow_store (others nt ow))"
      using listed_all_sent [OF vs(1,3)] by (simp add: others_def)
    moreover have "listed (ob_tenantID w) eid (ow_store (others nt ow))"
      using vs(1,2) by (force simp: ListReplyCandidates_def listed_def list_ex_iff filter_empty_conv others_def)
    ultimately have R1: "R (others nt ow)" by (rule assms(2) [OF assms(7)])
    let ?ow2 = "others nt (others nt ow)"
    obtain x ow3 where m: "moving nt w eid EventCompleted EventReplyPending ?ow2 = (x, ow3)" by fastforce
    have R2: "R ?ow2" by (rule assms(3) [OF R1])
    have R3: "R ow3" using assms(4) [OF R2] m by simp
    note R4 = assms(5) [OF R2] assms(5) [OF R3]
    let ?g = "GetMessage (Some (\<lambda>_. on_ctx nt (ow_tick (others nt ow)))) (ob_tenantID w) eid
        (on_other nt (ow_tick (others nt ow)) (ow_store (others nt ow)))"
    have eq: "advanceEvent nt w eid ow = (case ?g of Inl _ \<Rightarrow> ?ow2 | Inr event \<Rightarrow>
        if ev_Status event = EventCompleted
        then (case x of Inl _ \<Rightarrow> ow3 | Inr _ \<Rightarrow> snd (moving nt w eid EventReplyPending EventReplied ow3))
        else if ev_Status event = EventReplyPending then snd (moving nt w eid EventReplyPending EventReplied ?ow2)
        else ?ow2)"
      using vs m \<open>eid \<noteq> []\<close> by (auto simp: advanceEvent_def moving_def Let_def split: sum.split)
    have "EventReplyPending \<noteq> EventCompleted" by (simp add: EventReplyPending_def EventCompleted_def)
    then have "R (advanceEvent nt w eid ow)"
      unfolding eq using R2 R3 R4 by (simp split: sum.split)
    then show ?thesis by (rule assms(6))
  qed
qed

subsection \<open>Predicates on the store\<close>

lemma observe_store:
  "ow_store (snd (observeStorage nt op ow))
     = snd (op (Some (\<lambda>_. on_ctx nt (ow_tick ow))) (on_clock nt (ow_tick ow)) (on_other nt (ow_tick ow) (ow_store ow)))"
  "ow_calls (snd (observeStorage nt op ow)) = ow_calls ow"
  by (simp_all add: observeStorage_def Let_def case_prod_beta)

lemma run_keeps_store:
  assumes "\<And>n s. Q s \<Longrightarrow> Q (on_other nt n s)"
    and "\<And>c tid rid seg clock s. Q s \<Longrightarrow> Q (snd (ClaimReply c tid rid seg (ob_owner w) (ob_leaseDuration w) clock s))"
    and "\<And>c v target pid cls clock s. Q s \<Longrightarrow> Q (snd (TransitionReply c (settle w v target pid cls) clock s))"
    and "\<And>ow eid. Q (ow_store ow) \<Longrightarrow> Q (ow_store (advanceEvent nt w eid ow))"
  shows "run_keeps nt w (\<lambda>ow. Q (ow_store ow))"
  unfolding run_keeps_def
  by (simp add: others_def logged_def claiming_def settling_def observe_store assms)

text \<open>A run of the worker is a sequence of live steps of the store, if the others make live steps.\<close>

definition friendly :: "'st store_env \<Rightarrow> 'st outbox_nature \<Rightarrow> bool" where
  "friendly env nt \<longleftrightarrow> (\<forall>n s. (live_step env)\<^sup>*\<^sup>* s (on_other nt n s))"

lemma live_snd:
  assumes "(live_step env)\<^sup>*\<^sup>* s s1"
  shows "(live_step env)\<^sup>*\<^sup>* s (snd (ClaimReply c tid rid seg owner d clock s1))"
    "(live_step env)\<^sup>*\<^sup>* s (snd (TransitionReply c rx clock s1))"
    "(live_step env)\<^sup>*\<^sup>* s (snd (TransitionMessage c mt clock s1))"
  using assms live_step.claim_reply [OF surjective_pairing] live_step.transition_reply [OF surjective_pairing]
    live_step.transition_message [OF surjective_pairing]
  by (blast intro: rtranclp.rtrancl_into_rtrancl)+

lemma run_live:
  assumes "friendly env nt"
  shows "run_keeps nt w (\<lambda>ow. (live_step env)\<^sup>*\<^sup>* s (ow_store ow))"
proof (rule run_keeps_store)
  have f: "(live_step env)\<^sup>*\<^sup>* s (on_other nt n s')" if "(live_step env)\<^sup>*\<^sup>* s s'" for n s'
    using assms that unfolding friendly_def by (blast intro: rtranclp_trans)
  show "(live_step env)\<^sup>*\<^sup>* s (ow_store (advanceEvent nt w eid ow))"
    if "(live_step env)\<^sup>*\<^sup>* s (ow_store ow)" for ow :: "('a, 'b) outbox_world" and eid
    by (rule advance_keeps [where R = "\<lambda>ow. (live_step env)\<^sup>*\<^sup>* s (ow_store ow)"])
      (simp_all add: others_def moving_def observe_store f live_snd that)
qed (use assms in \<open>auto simp: friendly_def intro: live_snd rtranclp_trans\<close>)

subsection \<open>What the operations of the worker write\<close>

lemma ClaimReply_write:
  "snd (ClaimReply c tid rid seg owner d clock s) = s
   \<or> (\<exists>v v'. get (st_replies s) (replyKey tid rid seg) = Some v \<and> rp_Status v \<noteq> ReplySent
        \<and> rp_TenantID v' = rp_TenantID v \<and> rp_EventID v' = rp_EventID v \<and> rp_Status v' \<noteq> ReplySent
        \<and> snd (ClaimReply c tid rid seg owner d clock s)
            = s\<lparr>st_replies := put (replyKey tid rid seg) v' (st_replies s)\<rparr>)"
proof (cases "ClaimReply c tid rid seg owner d clock s")
  case (Pair x s')
  show ?thesis
  proof (cases x)
    case (Inl e)
    with Pair keepsD [OF store_ops_keep(6)] show ?thesis by fastforce
  next
    case (Inr a)
    with Pair obtain v where v: "get (st_replies s) (replyKey tid rid seg) = Some v" "rp_Status v \<noteq> ReplySent"
      and s': "s' = s\<lparr>st_replies := put (replyKey tid rid seg) (v\<lparr>rp_Status := ReplySending, rp_Attempts := wrap64 (rp_Attempts v + 1),
          rp_FencingToken := wrap64 (rp_FencingToken v + 1), rp_LeaseOwner := owner,
          rp_LeaseExpiresAt := Some (clock 1 + d), rp_UpdatedAt := clock 2\<rparr>) (st_replies s)\<rparr>"
      by (auto simp: ClaimReply_def Let_def reply_lease_expired_def ReplySent_def ReplyPending_def ReplyRetryable_def
          ReplySending_def)
    have "ReplySending \<noteq> ReplySent" by (simp add: ReplySending_def ReplySent_def)
    then show ?thesis
      unfolding Pair s' snd_conv
      by (intro disjI2 exI [of _ v] exI [of _ "v\<lparr>rp_Status := ReplySending, rp_Attempts := wrap64 (rp_Attempts v + 1),
          rp_FencingToken := wrap64 (rp_FencingToken v + 1), rp_LeaseOwner := owner,
          rp_LeaseExpiresAt := Some (clock 1 + d), rp_UpdatedAt := clock 2\<rparr>"]) (simp add: v)
  qed
qed

lemma TransitionReply_write:
  "snd (TransitionReply c t clock s) = s
   \<or> (\<exists>v v'. get (st_replies s) (replyKey (rx_TenantID t) (rx_ReplyID t) (rx_SegmentIndex t)) = Some v
        \<and> rp_Status v \<noteq> ReplySent \<and> rp_TenantID v' = rp_TenantID v \<and> rp_EventID v' = rp_EventID v
        \<and> rp_Status v' = rx_To t \<and> rp_ProviderMessageID v' = rx_ProviderID t
        \<and> snd (TransitionReply c t clock s)
            = s\<lparr>st_replies := put (replyKey (rx_TenantID t) (rx_ReplyID t) (rx_SegmentIndex t)) v' (st_replies s)\<rparr>)"
proof (cases "TransitionReply c t clock s")
  case (Pair x s')
  show ?thesis
  proof (cases x)
    case (Inl e)
    with Pair keepsD [OF store_ops_keep(7)] show ?thesis by fastforce
  next
    case (Inr a)
    with Pair obtain v where v: "get (st_replies s) (replyKey (rx_TenantID t) (rx_ReplyID t) (rx_SegmentIndex t)) = Some v"
      "rp_Status v = rx_From t" "ValidateTransition (rx_From t) (rx_To t)"
      "s' = s\<lparr>st_replies := put (replyKey (rx_TenantID t) (rx_ReplyID t) (rx_SegmentIndex t))
          (applyReplyTransition v t (clock 1) (clock 2)) (st_replies s)\<rparr>"
      by (auto simp: TransitionReply_def Let_def reply_transition_conflict_def)
    moreover have "rp_Status v \<noteq> ReplySent"
      using v(2,3) by (auto simp: ValidateTransition_def ReplySent_def ReplyPending_def ReplyRetryable_def ReplySending_def)
    ultimately show ?thesis
      unfolding Pair snd_conv
      by (intro disjI2 exI [of _ v] exI [of _ "applyReplyTransition v t (clock 1) (clock 2)"])
        (simp add: applyReplyTransition_def)
  qed
qed

lemma TransitionMessage_write:
  "snd (TransitionMessage c t clock s) = s
   \<or> (\<exists>v v'. get (st_events s) (key [mt_TenantID t, mt_EventID t]) = Some v
        \<and> ev_TenantID v' = ev_TenantID v \<and> ev_EventID v' = ev_EventID v \<and> ev_Status v' = mt_To t
        \<and> snd (TransitionMessage c t clock s)
            = s\<lparr>st_events := put (key [mt_TenantID t, mt_EventID t]) v' (st_events s)\<rparr>)"
proof (cases "TransitionMessage c t clock s")
  case (Pair x s')
  show ?thesis
  proof (cases x)
    case (Inl e)
    with Pair keepsD [OF store_ops_keep(4)] show ?thesis by fastforce
  next
    case (Inr a)
    with Pair obtain v where v: "get (st_events s) (key [mt_TenantID t, mt_EventID t]) = Some v"
      "s' = s\<lparr>st_events := put (key [mt_TenantID t, mt_EventID t]) (applyMessageTransition v t (clock 1) (clock 2)) (st_events s)\<rparr>"
      by (auto simp: TransitionMessage_def Let_def)
    then show ?thesis
      unfolding Pair snd_conv
      by (intro disjI2 exI [of _ v] exI [of _ "applyMessageTransition v t (clock 1) (clock 2)"])
        (simp add: applyMessageTransition_def Let_def)
  qed
qed

subsection \<open>A replied event has only sent segments\<close>

definition replied_complete :: "'st runtime_store \<Rightarrow> bool" where
  "replied_complete s \<longleftrightarrow>
     (\<forall>k e. get (st_events s) k = Some e \<and> ev_Status e = EventReplied \<longrightarrow> delivered (ev_TenantID e) (ev_EventID e) s)"

text \<open>
  The discipline of the other processes: none adds a segment to an event whose segments are all
  sent, and none marks an event as replied unless it has segments and all are sent.
\<close>

definition orderly :: "'st outbox_nature \<Rightarrow> bool" where
  "orderly nt \<longleftrightarrow> (\<forall>n s. store_ok s \<longrightarrow>
     (\<forall>tid eid. delivered tid eid s \<longrightarrow> delivered tid eid (on_other nt n s))
     \<and> (\<forall>k e'. get (st_events (on_other nt n s)) k = Some e' \<and> ev_Status e' = EventReplied \<longrightarrow>
          (\<exists>e. get (st_events s) k = Some e \<and> ev_Status e = EventReplied)
          \<or> delivered (ev_TenantID e') (ev_EventID e') (on_other nt n s)))"

lemma orderlyD:
  assumes "orderly nt" and "store_ok s"
  shows "delivered tid eid s \<Longrightarrow> delivered tid eid (on_other nt n s)"
    "get (st_events (on_other nt n s)) k = Some e' \<Longrightarrow> ev_Status e' = EventReplied \<Longrightarrow>
       (\<exists>e. get (st_events s) k = Some e \<and> ev_Status e = EventReplied)
       \<or> delivered (ev_TenantID e') (ev_EventID e') (on_other nt n s)"
  using assms unfolding orderly_def by blast+

text \<open>A write of a segment that is not sent touches no event all of whose segments are sent.\<close>

lemma delivered_write:
  assumes "delivered tid eid s" and "get (st_replies s) k = Some v" and "rp_Status v \<noteq> ReplySent"
    and "rp_TenantID v' = rp_TenantID v" and "rp_EventID v' = rp_EventID v"
  shows "delivered tid eid (s\<lparr>st_replies := put k v' (st_replies s)\<rparr>)"
proof -
  from assms(1) obtain j r where r: "get (st_replies s) j = Some r" "rp_TenantID r = tid" "rp_EventID r = eid"
    and sent: "all_sent tid eid s" by (auto simp: delivered_def)
  have "j \<noteq> k" using r sent assms(2,3) by (auto simp: all_sent_def)
  with r have "get (st_replies (s\<lparr>st_replies := put k v' (st_replies s)\<rparr>)) j = Some r" by simp
  moreover have "all_sent tid eid (s\<lparr>st_replies := put k v' (st_replies s)\<rparr>)"
    using sent assms(2-5) unfolding all_sent_def by auto
  ultimately show ?thesis using r(2,3) unfolding delivered_def by blast
qed

lemma replied_write:
  assumes "replied_complete s" and "get (st_replies s) k = Some v" and "rp_Status v \<noteq> ReplySent"
    and "rp_TenantID v' = rp_TenantID v" and "rp_EventID v' = rp_EventID v"
  shows "replied_complete (s\<lparr>st_replies := put k v' (st_replies s)\<rparr>)"
  using assms(1) delivered_write [OF _ assms(2-5)] by (auto simp: replied_complete_def)

lemma replied_replies:
  assumes "replied_complete s"
  shows "replied_complete (snd (ClaimReply c tid rid seg owner d clock s))"
    "replied_complete (snd (TransitionReply c t clock s))"
proof -
  show "replied_complete (snd (ClaimReply c tid rid seg owner d clock s))"
    using ClaimReply_write [of c tid rid seg owner d clock s] assms
    by (elim disjE exE conjE) (simp_all add: replied_write)
  show "replied_complete (snd (TransitionReply c t clock s))"
    using TransitionReply_write [of c t clock s] assms
    by (elim disjE exE conjE) (simp_all add: replied_write)
qed

lemma TransitionMessage_replies [simp]: "st_replies (snd (TransitionMessage c t clock s)) = st_replies s"
  using TransitionMessage_write [of c t clock s] by auto

lemma delivered_cong: "st_replies s' = st_replies s \<Longrightarrow> delivered tid eid s' = delivered tid eid s"
  by (simp add: delivered_def all_sent_def)

lemma delivered_move: "delivered tid eid (snd (TransitionMessage c t clock s)) = delivered tid eid s"
  by (rule delivered_cong) simp

lemma replied_move:
  assumes "store_ok s" and "replied_complete s" and "mt_To t = EventReplied \<longrightarrow> delivered (mt_TenantID t) (mt_EventID t) s"
  shows "replied_complete (snd (TransitionMessage c t clock s))"
  using TransitionMessage_write [of c t clock s]
proof (elim disjE exE conjE)
  fix v v'
  assume v: "get (st_events s) (key [mt_TenantID t, mt_EventID t]) = Some v" "ev_TenantID v' = ev_TenantID v"
    "ev_EventID v' = ev_EventID v" "ev_Status v' = mt_To t"
    and s': "snd (TransitionMessage c t clock s) = s\<lparr>st_events := put (key [mt_TenantID t, mt_EventID t]) v' (st_events s)\<rparr>"
  have "events_ok s" using assms(1) by (simp add: store_ok_def)
  from events_okD [OF this v(1)] have "ev_TenantID v = mt_TenantID t" "ev_EventID v = mt_EventID t"
    by (auto simp: event_ok_def)
  with v assms(2,3) show ?thesis
    unfolding replied_complete_def delivered_move by (auto simp: s' split: if_splits)
qed (use assms(2) in simp)

lemma live_snd_ok:
  assumes "store_ok s"
  shows "store_ok (snd (ClaimReply c tid rid seg owner d clock s))"
    "store_ok (snd (TransitionReply c rx clock s))" "store_ok (snd (TransitionMessage c mt clock s))"
  by (rule live_ok [OF live_step.claim_reply [OF surjective_pairing] assms]
      live_ok [OF live_step.transition_reply [OF surjective_pairing] assms]
      live_ok [OF live_step.transition_message [OF surjective_pairing] assms])+

lemma friendly_ok: "friendly env nt \<Longrightarrow> store_ok s \<Longrightarrow> store_ok (on_other nt n s)"
  unfolding friendly_def by (blast intro: live_star_ok)

lemma replied_other:
  assumes "friendly env nt" and "orderly nt" and ok: "store_ok s" and "replied_complete s"
  shows "replied_complete (on_other nt n s)"
  unfolding replied_complete_def
proof (intro allI impI)
  fix k e'
  assume e': "get (st_events (on_other nt n s)) k = Some e' \<and> ev_Status e' = EventReplied"
  from orderlyD(2) [OF assms(2) ok conjunct1 [OF e'] conjunct2 [OF e']]
  show "delivered (ev_TenantID e') (ev_EventID e') (on_other nt n s)"
  proof
    assume "\<exists>e. get (st_events s) k = Some e \<and> ev_Status e = EventReplied"
    then obtain e where e: "get (st_events s) k = Some e" "ev_Status e = EventReplied" by blast
    have "store_ok (on_other nt n s)" by (rule friendly_ok [OF assms(1) ok])
    with e' e ok events_okD [of s k e] events_okD [of "on_other nt n s" k e']
    have "ev_TenantID e' = ev_TenantID e" "ev_EventID e' = ev_EventID e"
      by (auto simp: store_ok_def event_ok_def)
    moreover have "delivered (ev_TenantID e) (ev_EventID e) s" using assms(4) e by (auto simp: replied_complete_def)
    ultimately show ?thesis using orderlyD(1) [OF assms(2) ok] by simp
  qed
qed

lemma run_replied:
  assumes f: "friendly env nt" and o: "orderly nt"
  shows "run_keeps nt w (\<lambda>ow. store_ok (ow_store ow) \<and> replied_complete (ow_store ow))"
proof (rule run_keeps_store)
  fix ow :: "('a, 'b) outbox_world" and eid
  assume "store_ok (ow_store ow) \<and> replied_complete (ow_store ow)"
  then show "store_ok (ow_store (advanceEvent nt w eid ow)) \<and> replied_complete (ow_store (advanceEvent nt w eid ow))"
    by (intro advance_keeps [where Q = "\<lambda>ow. store_ok (ow_store ow) \<and> replied_complete (ow_store ow)"
          and R = "\<lambda>ow. (store_ok (ow_store ow) \<and> replied_complete (ow_store ow))
              \<and> delivered (ob_tenantID w) eid (ow_store ow)"])
      (simp_all add: others_def moving_def observe_store friendly_ok [OF f] replied_other [OF f o] live_snd_ok
        listed_delivered orderlyD(1) [OF o] delivered_move replied_move message_move_def)
qed (simp_all add: friendly_ok [OF f] replied_other [OF f o] live_snd_ok replied_replies)

text \<open>
  C27: a run of the delivery worker keeps the meaning of the status replied, if the other processes
  keep to the same discipline. Suppose that, while the run lasts, the other processes make steps
  of the store other than deleting sessions, add no segment to an event whose segments are all
  sent, and mark an event as replied only when it has segments and all of them are sent. If
  before the run every event marked as replied had segments and all of them were sent, then this
  holds after the run, whatever the provider answers, the clocks show and the contexts report.
  The discipline is needed: the worker lists the segments and marks the event in two separate
  operations of the store (\<open>outbox_replied_race\<close>).
\<close>

theorem outbox_replied_complete:
  assumes "store_reachable env (ow_store ow)" and "friendly env nt" and "orderly nt"
    and "replied_complete (ow_store ow)"
  shows "replied_complete (ow_store (snd (outbox_RunOnce nt w ow)))"
  using run_keeps_RunOnce [OF run_replied [OF assms(2,3), of w], of ow] store_reachable_ok [OF assms(1)] assms(4)
  by simp

text \<open>An example: a completed event with two pending segments, a worker without an audit store and a quiet nature.\<close>

definition demo_completed :: "unit runtime_store" where
  "demo_completed = snd (TransitionMessage (Some background) (demo_move EventRunning EventCompleted ''w1'' 1) (\<lambda>_. 13)
     (snd (TransitionMessage (Some background) (demo_move EventReceived EventRunning ''w1'' 0) (\<lambda>_. 12) demo_r1)))"

definition demo_nature :: "unit outbox_nature" where
  "demo_nature = \<lparr>on_other = (\<lambda>_ s. s), on_ctx = (\<lambda>_. None), on_clock = (\<lambda>_ _. 20), on_now = (\<lambda>_ _. 20),
     on_deliver = (\<lambda>i _. Inr (''p'' @ itoa (int i))), on_reconcile = (\<lambda>_ _. None), on_audit_now = int, on_norm = id, on_sha = id,
     on_round = id, on_wide = (\<lambda>_. 0), on_nil = False\<rparr>"

definition demo_delivery :: "unit outbox_worker" where
  "demo_delivery = \<lparr>ob_tenantID = ''t'', ob_owner = ''o'', ob_leaseDuration = 5, ob_maxAttempts = 3, ob_backoffBase = 1,
     ob_backoffMax = 1, ob_jitter = 0, ob_audit = \<lparr>rec_Writer = None, rec_TenantID = ''t''\<rparr>, ob_running = True\<rparr>"

definition demo_world :: "'st runtime_store \<Rightarrow> 'w \<Rightarrow> ('st, 'w) outbox_world" where
  "demo_world s a = \<lparr>ow_store = s, ow_audit = a, ow_calls = [], ow_tick = 0\<rparr>"

lemma demo_completed_reachable: "store_reachable demo_env demo_completed"
  unfolding demo_completed_def
  by (intro store_reachable.step [OF _ store_step.live [OF live_step.transition_message [OF surjective_pairing]]]
      demo_stores(3))

lemma demo_nature_calm: "friendly demo_env demo_nature" "orderly demo_nature"
  by (simp_all add: friendly_def orderly_def demo_nature_def)

lemma replied_none:
  assumes "list_all (\<lambda>(k, e). ev_Status e \<noteq> EventReplied) (st_events s)"
  shows "replied_complete s"
  using assms get_SomeD unfolding replied_complete_def by (fastforce simp: list_all_iff)

theorem outbox_replied_complete_witness:
  "replied_complete (ow_store (snd (outbox_RunOnce demo_nature demo_delivery (demo_world demo_completed ()))))
   \<and> map_option ev_Status (get (st_events (ow_store (snd (outbox_RunOnce demo_nature demo_delivery
         (demo_world demo_completed ()))))) (key [''t'', ''e''])) = Some EventReplied"
proof
  have "list_all (\<lambda>(k, e). ev_Status e \<noteq> EventReplied) (st_events demo_completed)" by code_simp
  then have "replied_complete (ow_store (demo_world demo_completed ()))" by (simp add: demo_world_def replied_none)
  moreover have "store_reachable demo_env (ow_store (demo_world demo_completed ()))"
    by (simp add: demo_world_def demo_completed_reachable)
  ultimately show "replied_complete (ow_store (snd (outbox_RunOnce demo_nature demo_delivery (demo_world demo_completed ()))))"
    by (intro outbox_replied_complete [OF _ demo_nature_calm])
  show "map_option ev_Status (get (st_events (ow_store (snd (outbox_RunOnce demo_nature demo_delivery
         (demo_world demo_completed ()))))) (key [''t'', ''e''])) = Some EventReplied"
    by code_simp
qed

text \<open>
  Without the discipline a second reply that is enqueued for the event between the listing of its
  segments and the marking is overlooked: the event ends up as replied with a pending segment.
\<close>

definition demo_racing :: "unit outbox_nature" where
  "demo_racing = demo_nature\<lparr>on_other := (\<lambda>n s. if n = 12
     then snd (EnqueueReply (Some background) ((demo_segment 0 ''c'')\<lparr>rp_ReplyID := ''late''\<rparr>) 20 s) else s)\<rparr>"

theorem outbox_replied_race:
  "friendly demo_env demo_racing
   \<and> \<not> replied_complete (ow_store (snd (outbox_RunOnce demo_racing demo_delivery (demo_world demo_completed ()))))"
proof
  show "friendly demo_env demo_racing"
    by (auto simp: friendly_def demo_racing_def intro: live_step.enqueue_reply [OF surjective_pairing])
  let ?s = "ow_store (snd (outbox_RunOnce demo_racing demo_delivery (demo_world demo_completed ())))"
  have "case ?s of s \<Rightarrow> map_option (\<lambda>e. (ev_TenantID e, ev_EventID e, ev_Status e)) (get (st_events s) (key [''t'', ''e'']))
         = Some (''t'', ''e'', EventReplied)
      \<and> map_option (\<lambda>r. (rp_TenantID r, rp_EventID r, rp_Status r)) (get (st_replies s) (replyKey ''t'' ''late'' 0))
         = Some (''t'', ''e'', ReplyPending)"
    by code_simp
  then show "\<not> replied_complete ?s"
    by (fastforce simp: replied_complete_def delivered_def all_sent_def ReplySent_def ReplyPending_def)
qed

subsection \<open>A segment is sent only when the provider accepted it\<close>

text \<open>Others that settle no segment as sent: the worker is the only one that delivers.\<close>

definition no_sender :: "'st outbox_nature \<Rightarrow> bool" where
  "no_sender nt \<longleftrightarrow>
     (\<forall>n s k v. get (st_replies (on_other nt n s)) k = Some v \<and> rp_Status v = ReplySent
        \<longrightarrow> get (st_replies s) k = Some v)"

text \<open>
  Every sent segment was already so at the start of the run, or a call of the run to the provider,
  for this segment, was accepted under the message identifier that is stored.
\<close>

definition vouched :: "'st outbox_nature \<Rightarrow> nat \<Rightarrow> provider_call list \<Rightarrow> string \<Rightarrow> reply_outbox \<Rightarrow> bool" where
  "vouched nt n calls k v \<longleftrightarrow>
     (\<exists>i. n \<le> i \<and> i < length calls \<and> accepts nt i (calls ! i) k (rp_ProviderMessageID v))"

definition accounted ::
  "'st outbox_nature \<Rightarrow> ('st, 'w) outbox_world \<Rightarrow> ('st, 'w) outbox_world \<Rightarrow> bool" where
  "accounted nt ow0 ow \<longleftrightarrow>
     length (ow_calls ow0) \<le> length (ow_calls ow)
     \<and> (\<forall>k v. get (st_replies (ow_store ow)) k = Some v \<and> rp_Status v = ReplySent \<longrightarrow>
          get (st_replies (ow_store ow0)) k = Some v \<or> vouched nt (length (ow_calls ow0)) (ow_calls ow) k v)"

lemma accountedI:
  assumes "length (ow_calls ow0) \<le> length (ow_calls ow)"
    and "\<And>k v. get (st_replies (ow_store ow)) k = Some v \<Longrightarrow> rp_Status v = ReplySent \<Longrightarrow>
          get (st_replies (ow_store ow0)) k = Some v \<or> vouched nt (length (ow_calls ow0)) (ow_calls ow) k v"
  shows "accounted nt ow0 ow"
  using assms by (simp add: accounted_def)

lemma accountedD:
  assumes "accounted nt ow0 ow"
  shows "length (ow_calls ow0) \<le> length (ow_calls ow)"
    "get (st_replies (ow_store ow)) k = Some v \<Longrightarrow> rp_Status v = ReplySent \<Longrightarrow>
       get (st_replies (ow_store ow0)) k = Some v \<or> vouched nt (length (ow_calls ow0)) (ow_calls ow) k v"
  using assms by (simp_all add: accounted_def)

lemma vouched_append: "vouched nt n calls k v \<Longrightarrow> vouched nt n (calls @ rest) k v"
  unfolding vouched_def by (fastforce simp: nth_append)

text \<open>A step that settles nothing as sent.\<close>

lemma accounted_step:
  assumes "accounted nt ow0 ow" and "ow_calls ow' = ow_calls ow @ rest"
    and "\<And>k v. get (st_replies (ow_store ow')) k = Some v \<Longrightarrow> rp_Status v = ReplySent
       \<Longrightarrow> get (st_replies (ow_store ow)) k = Some v \<or> vouched nt (length (ow_calls ow0)) (ow_calls ow') k v"
  shows "accounted nt ow0 ow'"
proof (rule accountedI)
  show "length (ow_calls ow0) \<le> length (ow_calls ow')" using accountedD(1) [OF assms(1)] assms(2) by simp
  fix k v
  assume "get (st_replies (ow_store ow')) k = Some v" and sent: "rp_Status v = ReplySent"
  from assms(3) [OF this] show
    "get (st_replies (ow_store ow0)) k = Some v \<or> vouched nt (length (ow_calls ow0)) (ow_calls ow') k v"
    using accountedD(2) [OF assms(1) _ sent] vouched_append [of nt _ "ow_calls ow"] unfolding assms(2) by blast
qed

lemma no_senderD:
  "no_sender nt \<Longrightarrow> get (st_replies (on_other nt n s)) k = Some v \<Longrightarrow> rp_Status v = ReplySent
   \<Longrightarrow> get (st_replies s) k = Some v"
  unfolding no_sender_def by blast

lemma accounted_other: "no_sender nt \<Longrightarrow> accounted nt ow0 ow \<Longrightarrow> accounted nt ow0 (others nt ow)"
proof (erule accounted_step [where rest = "[]"])
  show "ow_calls (others nt ow) = ow_calls ow @ []" by (simp add: others_def)
  show "get (st_replies (ow_store ow)) k = Some v \<or> vouched nt (length (ow_calls ow0)) (ow_calls (others nt ow)) k v"
    if "no_sender nt" "get (st_replies (ow_store (others nt ow))) k = Some v" "rp_Status v = ReplySent" for k v
    using no_senderD [OF that(1) _ that(3)] that(2) by (simp add: others_def)
qed

lemma accounted_logged: "accounted nt ow0 ow \<Longrightarrow> accounted nt ow0 (logged call ow)"
  by (erule accounted_step [where rest = "[call]"]) (simp_all add: logged_def)

text \<open>A write after an interference: nothing is settled as sent, or a call just made was accepted.\<close>

lemma accounted_write:
  assumes "accounted nt ow0 (others nt ow)"
    and "ow_calls ow' = ow_calls ow"
    and "ow_store ow' = (ow_store (others nt ow))\<lparr>st_replies := put k v' (st_replies (ow_store (others nt ow)))\<rparr>"
    and "rp_Status v' = ReplySent \<longrightarrow> vouched nt (length (ow_calls ow0)) (ow_calls ow) k v'"
  shows "accounted nt ow0 ow'"
  by (rule accounted_step [OF assms(1), where rest = "[]"])
    (use assms(2-4) in \<open>auto simp: others_def split: if_splits\<close>)

lemma accounted_same:
  assumes "accounted nt ow0 (others nt ow)" and "ow_calls ow' = ow_calls ow"
    and "st_replies (ow_store ow') = st_replies (ow_store (others nt ow))"
  shows "accounted nt ow0 ow'"
  by (rule accounted_step [OF assms(1), where rest = "[]"]) (simp_all add: assms(2,3) others_def)

lemma others_store: "on_other nt (ow_tick ow) (ow_store ow) = ow_store (others nt ow)"
  by (simp add: others_def)

lemma accounted_claiming:
  assumes "accounted nt ow0 (others nt ow)"
  shows "accounted nt ow0 (snd (claiming nt w v ow))"
proof -
  let ?s = "ow_store (others nt ow)"
  let ?c = "ClaimReply (Some (\<lambda>_. on_ctx nt (ow_tick ow))) (rp_TenantID v) (rp_ReplyID v) (rp_SegmentIndex v)
        (ob_owner w) (ob_leaseDuration w) (on_clock nt (ow_tick ow)) ?s"
  have st: "ow_store (snd (claiming nt w v ow)) = snd ?c" and calls: "ow_calls (snd (claiming nt w v ow)) = ow_calls ow"
    by (simp_all add: claiming_def observe_store others_store)
  consider "snd ?c = ?s" | k v' where "rp_Status v' \<noteq> ReplySent" "snd ?c = ?s\<lparr>st_replies := put k v' (st_replies ?s)\<rparr>"
    using ClaimReply_write by metis
  then show ?thesis
  proof cases
    case 1
    show ?thesis by (rule accounted_same [OF assms calls]) (simp only: st 1)
  next
    case 2
    show ?thesis by (rule accounted_write [OF assms calls st [unfolded 2(2)]]) (use 2(1) in blast)
  qed
qed

lemma accounted_settling:
  assumes "accounted nt ow0 (others nt ow)"
    and "\<And>v'. target = ReplySent \<Longrightarrow> rp_ProviderMessageID v' = pid
           \<Longrightarrow> vouched nt (length (ow_calls ow0)) (ow_calls ow) (reply_key v) v'"
  shows "accounted nt ow0 (snd (settling nt w v target pid cls ow))"
proof -
  let ?s = "ow_store (others nt ow)"
  let ?t = "TransitionReply (Some (\<lambda>_. on_ctx nt (ow_tick ow))) (settle w v target pid cls) (on_clock nt (ow_tick ow)) ?s"
  have st: "ow_store (snd (settling nt w v target pid cls ow)) = snd ?t"
    and calls: "ow_calls (snd (settling nt w v target pid cls ow)) = ow_calls ow"
    by (simp_all add: settling_def observe_store others_store)
  have t: "replyKey (rx_TenantID (settle w v target pid cls)) (rx_ReplyID (settle w v target pid cls))
        (rx_SegmentIndex (settle w v target pid cls)) = reply_key v"
    "rx_To (settle w v target pid cls) = target" "rx_ProviderID (settle w v target pid cls) = pid"
    by (simp_all add: settle_def reply_key_def)
  consider "snd ?t = ?s" | v' where "rp_Status v' = target" "rp_ProviderMessageID v' = pid"
    "snd ?t = ?s\<lparr>st_replies := put (reply_key v) v' (st_replies ?s)\<rparr>"
    using TransitionReply_write [of _ "settle w v target pid cls"] unfolding t by metis
  then show ?thesis
  proof cases
    case 1
    show ?thesis by (rule accounted_same [OF assms(1) calls]) (simp only: st 1)
  next
    case 2
    show ?thesis by (rule accounted_write [OF assms(1) calls st [unfolded 2(3)]]) (use 2(1,2) assms(2) in blast)
  qed
qed

lemma accounted_moving:
  "accounted nt ow0 (others nt ow) \<Longrightarrow> accounted nt ow0 (snd (moving nt w eid source target ow))"
  by (rule accounted_same) (simp_all add: moving_def observe_store others_store)

lemma run_accounted:
  assumes n: "no_sender nt"
  shows "run_keeps nt w (accounted nt ow0)"
  unfolding run_keeps_def
proof (intro conjI allI impI)
  fix ow :: "('a, 'b) outbox_world" and v call target pid cls eid a n'
  note o = accounted_other [OF n]
  show "accounted nt ow0 (others nt ow)" if "accounted nt ow0 ow" by (rule o [OF that])
  show "accounted nt ow0 (ow\<lparr>ow_audit := a, ow_tick := n'\<rparr>)" if "accounted nt ow0 ow"
    using that by (simp add: accounted_def)
  show "accounted nt ow0 (logged call ow)" if "accounted nt ow0 ow" by (rule accounted_logged [OF that])
  show "accounted nt ow0 (snd (claiming nt w v ow))" if "accounted nt ow0 ow"
    by (rule accounted_claiming [OF o [OF that]])
  show "accounted nt ow0 (snd (settling nt w v target pid cls (logged (PDeliver v) ow)))"
    if "accounted nt ow0 (logged (PDeliver v) ow) \<and> target \<noteq> ReplySent"
    using that by (intro accounted_settling o) simp_all
  show "accounted nt ow0 (snd (settling nt w v target pid cls (logged (PReconcile v) ow)))"
    if "accounted nt ow0 (logged (PReconcile v) ow) \<and> target \<noteq> ReplySent"
    using that by (intro accounted_settling o) simp_all
  show "accounted nt ow0 (advanceEvent nt w eid ow)" if "accounted nt ow0 ow"
    by (rule advance_keeps [where R = "accounted nt ow0"]) (use that in \<open>simp_all add: o accounted_moving\<close>)
next
  fix ow :: "('a, 'b) outbox_world" and v call pid cls
  assume a: "accounted nt ow0 ow \<and> accounted nt ow0 (logged call ow)
      \<and> accepts nt (length (ow_calls ow)) call (reply_key v) pid"
  then have "length (ow_calls ow0) \<le> length (ow_calls ow)" by (simp add: accounted_def)
  with a show "accounted nt ow0 (snd (settling nt w v ReplySent pid cls (logged call ow)))"
    by (intro accounted_settling accounted_other [OF n]) (auto simp: logged_def vouched_def intro!: exI [of _ "length (ow_calls ow)"])
qed

text \<open>
  C26: suppose that no other process settles segments as sent while the run lasts. A segment that
  a run of the delivery worker leaves as sent and that was not stored so before the run was
  accepted by the provider: the run called the provider for this very segment, and the provider
  delivered it, or the reconciliation reported neither unknown nor rejected. The stored message
  identifier is the one this call returned. No failure, lost lease or other interference makes a
  segment count as sent.
\<close>

theorem outbox_sent_accepted:
  assumes "no_sender nt"
    and "get (st_replies (ow_store (snd (outbox_RunOnce nt w ow)))) k = Some v" and "rp_Status v = ReplySent"
    and "get (st_replies (ow_store ow)) k \<noteq> Some v"
  shows "\<exists>i r. length (ow_calls ow) \<le> i \<and> i < length (ow_calls (snd (outbox_RunOnce nt w ow))) \<and> reply_key r = k
     \<and> (ow_calls (snd (outbox_RunOnce nt w ow)) ! i = PDeliver r \<and> on_deliver nt i r = Inr (rp_ProviderMessageID v)
        \<or> ow_calls (snd (outbox_RunOnce nt w ow)) ! i = PReconcile r
          \<and> (\<exists>status. on_reconcile nt i r = Some (status, rp_ProviderMessageID v)
               \<and> status \<noteq> DeliveryUnknown \<and> status \<noteq> DeliveryRejected))"
proof -
  have "accounted nt ow ow" by (simp add: accounted_def)
  from accountedD(2) [OF run_keeps_RunOnce [OF run_accounted [OF assms(1)] this] assms(2,3)] assms(4)
  obtain i where i: "length (ow_calls ow) \<le> i" "i < length (ow_calls (snd (outbox_RunOnce nt w ow)))"
    "accepts nt i (ow_calls (snd (outbox_RunOnce nt w ow)) ! i) k (rp_ProviderMessageID v)"
    by (auto simp: vouched_def)
  then show ?thesis
    by (intro exI [of _ i]) (cases "ow_calls (snd (outbox_RunOnce nt w ow)) ! i"; simp)
qed

theorem outbox_sent_accepted_witness:
  "\<exists>v i r. get (st_replies (ow_store (snd (outbox_RunOnce demo_nature demo_delivery (demo_world demo_completed ())))))
       (replyKey ''t'' ''r'' 1) = Some v \<and> rp_Status v = ReplySent
     \<and> ow_calls (snd (outbox_RunOnce demo_nature demo_delivery (demo_world demo_completed ()))) ! i = PDeliver r
     \<and> on_deliver demo_nature i r = Inr (rp_ProviderMessageID v)"
proof -
  let ?ow = "demo_world demo_completed () :: (unit, unit) outbox_world"
  let ?k = "replyKey ''t'' ''r'' 1"
  have n: "no_sender demo_nature" by (simp add: no_sender_def demo_nature_def)
  have "map_option rp_Status (get (st_replies (ow_store (snd (outbox_RunOnce demo_nature demo_delivery ?ow)))) ?k) = Some ReplySent"
    by code_simp
  then obtain v where v: "get (st_replies (ow_store (snd (outbox_RunOnce demo_nature demo_delivery ?ow)))) ?k = Some v"
    "rp_Status v = ReplySent" by auto
  have "map_option rp_Status (get (st_replies (ow_store ?ow)) ?k) = Some ReplyPending" by code_simp
  then have "get (st_replies (ow_store ?ow)) ?k \<noteq> Some v" using v(2) by (auto simp: ReplySent_def ReplyPending_def)
  from outbox_sent_accepted [OF n v this] v show ?thesis by (auto simp: demo_nature_def)
qed

text \<open>
  The identifier of an audit event is made of its type, request and trace, which the segments of
  one reply have in common, and its digest covers the time. With an audit store behind the worker
  the second delivered segment of a reply is therefore refused as a conflict: the segment is
  sent, the run reports an error before the event is advanced, and since no segment is left to
  deliver, the event is never marked as replied.
\<close>

definition demo_hashing :: "unit outbox_nature" where
  "demo_hashing = demo_nature\<lparr>on_sha := (\<lambda>_. replicate 32 CHR ''a'')\<rparr>"

definition demo_audited :: "audit_backend outbox_worker" where
  "demo_audited = \<lparr>ob_tenantID = ''t'', ob_owner = ''o'', ob_leaseDuration = 5, ob_maxAttempts = 3, ob_backoffBase = 1,
     ob_backoffMax = 1, ob_jitter = 0,
     ob_audit = \<lparr>rec_Writer = Some (audit_Append (\<lambda>e. Some (itoa (ae_OccurredAt e))) (Some ''t'')), rec_TenantID = ''t''\<rparr>,
     ob_running = True\<rparr>"

theorem outbox_audit_conflict:
  "\<exists>n ow. outbox_RunOnce demo_hashing demo_audited (demo_world demo_completed []) = ((n, Some (OErrAudit (RecAppend AuErrConflict))), ow)
     \<and> list_all (\<lambda>(k, v). rp_Status v = ReplySent) (st_replies (ow_store ow))
     \<and> map_option ev_Status (get (st_events (ow_store ow)) (key [''t'', ''e''])) = Some EventCompleted
     \<and> map_option ev_Status (get (st_events (ow_store (snd (outbox_RunOnce demo_hashing demo_audited ow)))) (key [''t'', ''e'']))
         = Some EventCompleted"
proof -
  have "case outbox_RunOnce demo_hashing demo_audited (demo_world demo_completed []) of ((n, e), ow) \<Rightarrow>
      e = Some (OErrAudit (RecAppend AuErrConflict)) \<and> list_all (\<lambda>(k, v). rp_Status v = ReplySent) (st_replies (ow_store ow))
      \<and> map_option ev_Status (get (st_events (ow_store ow)) (key [''t'', ''e''])) = Some EventCompleted
      \<and> map_option ev_Status (get (st_events (ow_store (snd (outbox_RunOnce demo_hashing demo_audited ow)))) (key [''t'', ''e'']))
         = Some EventCompleted"
    by code_simp
  then show ?thesis by (auto split: prod.splits)
qed

end
