(* ===== verification/Channel_Binding.thy ===== *)
theory Channel_Binding
  imports Agent_App
begin

text \<open>
  The Channel Binding of \<^verbatim>\<open>channels/channels.go\<close> and the prepared changes of
  \<^verbatim>\<open>channels/repository.go\<close>: the tenant-scoped record that binds an account of an external
  messenger to an Agent App, its normalization, validation, digest and lifecycle.

  Three library functions are arguments, collected in a record: the hexadecimal SHA-256 sum of
  the JSON encoding of the digest payload and the JSON encoding of a protocol configuration
  (\<open>None\<close> where the encoder fails), and whether the URL parser accepts a text as an https
  origin: scheme https, a host, no user, no path but a slash, no query and no fragment. All
  instants are in UTC.
\<close>

subsection \<open>Data\<close>

datatype channel_error =
    ChErrInvalid
  | ChErrNotFound
  | ChErrConflict
  | ChErrDuplicateKey
  | ChErrDisabled
  | ChErrInvalidTransition
  | ChErrCandidateUnavailable
  | ChErrVerificationFailed
  | ChErrRandom
  | ChErrTenant
  | ChErrCtx ctx_error

definition ch_SchemaVersionV1 :: int where "ch_SchemaVersionV1 = 1"

definition ChannelWeCom :: string where "ChannelWeCom = ''wecom''"

definition ChannelTelegram :: string where "ChannelTelegram = ''telegram''"

definition ch_StatusDraft :: string where "ch_StatusDraft = ''draft''"

definition ch_StatusActive :: string where "ch_StatusActive = ''active''"

definition ch_StatusSuspended :: string where "ch_StatusSuspended = ''suspended''"

definition ch_StatusDisabled :: string where "ch_StatusDisabled = ''disabled''"

lemmas ch_status_defs = ch_StatusDraft_def ch_StatusActive_def ch_StatusSuspended_def ch_StatusDisabled_def

record wecom_configuration =
  wc_CorpID :: string
  wc_AgentID :: string
  wc_ReceiveID :: string

record telegram_configuration =
  tg_APIBaseURL :: string
  tg_WebhookPath :: string

record protocol_configuration =
  pc_WeCom :: "wecom_configuration option"
  pc_Telegram :: "telegram_configuration option"

record channel_metadata =
  chm_ActorType :: string
  chm_ActorID :: string
  chm_Reason :: string
  chm_CorrelationID :: string

record binding_CreateInput =
  bci_TenantID :: string
  bci_BindingKey :: string
  bci_Channel :: string
  bci_ProviderAccountID :: string
  bci_PublicRouteKeyDigest :: string
  bci_AppID :: string
  bci_SecretRef :: string
  bci_Protocol :: protocol_configuration
  bci_Status :: string
  bci_Metadata :: channel_metadata

record binding =
  bnd_TenantID :: string
  bnd_BindingID :: string
  bnd_BindingKey :: string
  bnd_Channel :: string
  bnd_ProviderAccountID :: string
  bnd_PublicRouteKeyDigest :: string
  bnd_AppID :: string
  bnd_SecretRef :: string
  bnd_Protocol :: protocol_configuration
  bnd_Status :: string
  bnd_Version :: int
  bnd_ConfigDigest :: string
  bnd_CreatedAt :: instant
  bnd_UpdatedAt :: instant

record config_payload =
  cfp_SchemaVersion :: int
  cfp_Channel :: string
  cfp_ProviderAccountID :: string
  cfp_PublicRouteKeyDigest :: string
  cfp_AppID :: string
  cfp_SecretRef :: string
  cfp_Protocol :: protocol_configuration

record channel_codec =
  cc_digest :: "config_payload \<Rightarrow> string option"
  cc_json :: "protocol_configuration \<Rightarrow> string option"
  cc_origin :: "string \<Rightarrow> bool"

subsection \<open>Normalization\<close>

definition channel_Validate :: "string \<Rightarrow> channel_error option" where
  "channel_Validate c = fails (c \<noteq> ChannelWeCom \<and> c \<noteq> ChannelTelegram) ChErrInvalid"

definition ch_hasControl :: "string \<Rightarrow> bool" where
  "ch_hasControl value \<longleftrightarrow> list_ex is_control (runes value)"

definition normalizeProtocolValue :: "string \<Rightarrow> channel_error + string" where
  "normalizeProtocolValue value =
     (let value = trim_space value in
      ensure (fails (rune_count value > 256 \<or> ch_hasControl value) ChErrInvalid) (Inr value))"

definition normalizeAPIBaseURL :: "channel_codec \<Rightarrow> string \<Rightarrow> channel_error + string" where
  "normalizeAPIBaseURL cd value =
     (let value = trim_space value in
      if value = [] then Inr []
      else ensure (first_error
        [fails (\<not> cc_origin cd value) ChErrInvalid,
         fails (rune_count value > 256 \<or> ch_hasControl value) ChErrInvalid]) (Inr value))"

definition normalizeWebhookPath :: "string \<Rightarrow> channel_error + string" where
  "normalizeWebhookPath value =
     (let value = trim_space value in
      if value = [] then Inr []
      else ensure (fails (take 1 value \<noteq> ''/'' \<or> CHR ''?'' \<in> set value \<or> CHR ''#'' \<in> set value
                          \<or> rune_count value > 256 \<or> ch_hasControl value) ChErrInvalid) (Inr value))"

definition normalize_wecom :: "wecom_configuration \<Rightarrow> channel_error + wecom_configuration" where
  "normalize_wecom w =
     andthen (normalizeProtocolValue (wc_CorpID w)) (\<lambda>corp.
     andthen (normalizeProtocolValue (wc_AgentID w)) (\<lambda>agent.
     andthen (normalizeProtocolValue (wc_ReceiveID w)) (\<lambda>receive.
     Inr \<lparr>wc_CorpID = corp, wc_AgentID = agent, wc_ReceiveID = receive\<rparr>)))"

definition normalize_telegram :: "channel_codec \<Rightarrow> telegram_configuration \<Rightarrow> channel_error + telegram_configuration" where
  "normalize_telegram cd t =
     andthen (normalizeAPIBaseURL cd (tg_APIBaseURL t)) (\<lambda>url.
     andthen (normalizeWebhookPath (tg_WebhookPath t)) (\<lambda>path.
     Inr \<lparr>tg_APIBaseURL = url, tg_WebhookPath = path\<rparr>))"

text \<open>A part of the configuration behind a pointer, when it is set.\<close>

definition optional :: "('a \<Rightarrow> 'e + 'b) \<Rightarrow> 'a option \<Rightarrow> 'e + 'b option" where
  "optional f x = (case x of None \<Rightarrow> Inr None | Some a \<Rightarrow> andthen (f a) (\<lambda>b. Inr (Some b)))"

definition normalizeProtocolConfiguration ::
  "channel_codec \<Rightarrow> string \<Rightarrow> protocol_configuration \<Rightarrow> channel_error + protocol_configuration" where
  "normalizeProtocolConfiguration cd channel c =
     ensure (first_error
       [channel_Validate channel,
        fails (channel = ChannelWeCom \<and> pc_Telegram c \<noteq> None) ChErrInvalid,
        fails (channel = ChannelTelegram \<and> pc_WeCom c \<noteq> None) ChErrInvalid])
     (andthen (optional normalize_wecom (pc_WeCom c)) (\<lambda>w.
      andthen (optional (normalize_telegram cd) (pc_Telegram c)) (\<lambda>t.
      Inr \<lparr>pc_WeCom = w, pc_Telegram = t\<rparr>)))"

definition normalizeBindingKey :: "string \<Rightarrow> channel_error + string" where
  "normalizeBindingKey k =
     (let k = to_lower (trim_space k) in
      if length k < 2 \<or> length k > 64 \<or> \<not> slug_first (hd k) then Inl ChErrInvalid
      else if \<not> list_all slug_char (tl k) then Inl ChErrInvalid
      else Inr k)"

definition normalizeRequiredValue :: "string \<Rightarrow> nat \<Rightarrow> channel_error + string" where
  "normalizeRequiredValue value maxLength =
     (let normalized = trim_space value in
      ensure (fails (normalized = [] \<or> rune_count normalized > maxLength \<or> ch_hasControl normalized) ChErrInvalid)
      (Inr normalized))"

definition is_hex :: "char \<Rightarrow> bool" where
  "is_hex c \<longleftrightarrow> c \<in> set ''0123456789abcdefABCDEF''"

definition normalizeRouteKeyDigest :: "string \<Rightarrow> channel_error + string" where
  "normalizeRouteKeyDigest digest =
     ensure (first_error
       [fails (length digest \<noteq> 64 \<or> to_lower digest \<noteq> digest) ChErrInvalid,
        fails (\<not> list_all is_hex digest) ChErrInvalid]) (Inr digest)"

definition ValidatePublicRouteKeyDigest :: "string \<Rightarrow> channel_error option" where
  "ValidatePublicRouteKeyDigest digest = error_of (normalizeRouteKeyDigest digest)"

text \<open>
  \<^verbatim>\<open>DigestPublicRouteKey\<close>: the digest of the channel and the key, each written with its length
  in front; \<open>sha\<close> is the hexadecimal SHA-256 sum.
\<close>

definition DigestPublicRouteKey :: "(string \<Rightarrow> string) \<Rightarrow> string \<Rightarrow> string \<Rightarrow> channel_error + string" where
  "DigestPublicRouteKey sha channel routeKey =
     ensure (channel_Validate channel)
     (let routeKey = trim_space routeKey in
      ensure (fails (routeKey = [] \<or> rune_count routeKey > 1024 \<or> ch_hasControl routeKey) ChErrInvalid)
      (Inr (sha (key [channel, routeKey]))))"

definition ch_validateCrockfordID :: "string \<Rightarrow> string \<Rightarrow> channel_error option" where
  "ch_validateCrockfordID i p =
     (let payload = trim_prefix p i in
      first_error
        [fails (payload = i \<or> length payload \<noteq> 26) ChErrInvalid,
         fails (payload ! 0 > CHR ''7'') ChErrInvalid,
         fails (\<not> list_all (\<lambda>r. r \<in> set (map byte crockford)) (runes payload)) ChErrInvalid])"

definition ch_validateTenantID :: "string \<Rightarrow> channel_error option" where
  "ch_validateTenantID i = ch_validateCrockfordID i ''t_''"

definition ch_validateAppID :: "string \<Rightarrow> channel_error option" where
  "ch_validateAppID i = ch_validateCrockfordID i ''app_''"

definition validateBindingID :: "string \<Rightarrow> channel_error option" where
  "validateBindingID i = ch_validateCrockfordID i ''cb_''"

subsection \<open>Validation\<close>

definition computeConfigDigest :: "channel_codec \<Rightarrow> binding \<Rightarrow> channel_error + string" where
  "computeConfigDigest cd b =
     require (cc_digest cd \<lparr>cfp_SchemaVersion = ch_SchemaVersionV1, cfp_Channel = bnd_Channel b,
        cfp_ProviderAccountID = bnd_ProviderAccountID b, cfp_PublicRouteKeyDigest = bnd_PublicRouteKeyDigest b,
        cfp_AppID = bnd_AppID b, cfp_SecretRef = bnd_SecretRef b, cfp_Protocol = bnd_Protocol b\<rparr>) ChErrInvalid Inr"

definition protocolEqual :: "channel_codec \<Rightarrow> protocol_configuration \<Rightarrow> protocol_configuration \<Rightarrow> bool" where
  "protocolEqual cd left right \<longleftrightarrow> cc_json cd left \<noteq> None \<and> cc_json cd left = cc_json cd right"

definition validateBindingIdentity :: "binding \<Rightarrow> channel_error option" where
  "validateBindingIdentity b =
     first_error
       [ch_validateTenantID (bnd_TenantID b),
        validateBindingID (bnd_BindingID b),
        error_of (normalizeBindingKey (bnd_BindingKey b)),
        fails (normalizeBindingKey (bnd_BindingKey b) \<noteq> Inr (bnd_BindingKey b)) ChErrInvalid,
        channel_Validate (bnd_Channel b)]"

definition validateBindingFields :: "binding \<Rightarrow> channel_error option" where
  "validateBindingFields b =
     first_error
       [fails (normalizeRequiredValue (bnd_ProviderAccountID b) 256 \<noteq> Inr (bnd_ProviderAccountID b)) ChErrInvalid,
        fails (normalizeRouteKeyDigest (bnd_PublicRouteKeyDigest b) \<noteq> Inr (bnd_PublicRouteKeyDigest b)) ChErrInvalid,
        ch_validateAppID (bnd_AppID b),
        fails (normalizeRequiredValue (bnd_SecretRef b) 256 \<noteq> Inr (bnd_SecretRef b)) ChErrInvalid]"

definition validateBindingProtocol :: "channel_codec \<Rightarrow> binding \<Rightarrow> channel_error option" where
  "validateBindingProtocol cd b =
     (case normalizeProtocolConfiguration cd (bnd_Channel b) (bnd_Protocol b) of
        Inl e \<Rightarrow> Some e
      | Inr p \<Rightarrow> fails (\<not> protocolEqual cd p (bnd_Protocol b)) ChErrInvalid)"

definition ch_validStatus :: "string \<Rightarrow> bool" where
  "ch_validStatus s \<longleftrightarrow> s = ch_StatusDraft \<or> s = ch_StatusActive \<or> s = ch_StatusSuspended \<or> s = ch_StatusDisabled"

text \<open>
  An instant is a time in UTC: the branch of the code that refuses another location is taken only
  for times that the model does not have.
\<close>

definition validateBindingLifecycle :: "binding \<Rightarrow> channel_error option" where
  "validateBindingLifecycle b =
     first_error
       [fails (\<not> ch_validStatus (bnd_Status b)) ChErrInvalid,
        fails (bnd_Version b < 1 \<or> bnd_CreatedAt b = 0 \<or> bnd_UpdatedAt b = 0 \<or> bnd_UpdatedAt b < bnd_CreatedAt b)
          ChErrInvalid]"

definition binding_Validate :: "channel_codec \<Rightarrow> binding \<Rightarrow> channel_error option" where
  "binding_Validate cd b =
     first_error
       [validateBindingIdentity b,
        validateBindingFields b,
        validateBindingProtocol cd b,
        validateBindingLifecycle b,
        error_of (computeConfigDigest cd b),
        fails (computeConfigDigest cd b \<noteq> Inr (bnd_ConfigDigest b)) ChErrInvalid]"

definition CanAcceptInbound :: "binding \<Rightarrow> bool" where
  "CanAcceptInbound b \<longleftrightarrow> bnd_Status b = ch_StatusActive"

definition ch_CanTransitionTo :: "binding \<Rightarrow> string \<Rightarrow> bool" where
  "ch_CanTransitionTo b nxt =
     (if bnd_Status b = ch_StatusDraft then nxt = ch_StatusActive \<or> nxt = ch_StatusDisabled
      else if bnd_Status b = ch_StatusActive then nxt = ch_StatusSuspended \<or> nxt = ch_StatusDisabled
      else if bnd_Status b = ch_StatusSuspended then nxt = ch_StatusActive \<or> nxt = ch_StatusDisabled
      else False)"

subsection \<open>Construction\<close>

definition newBindingID :: "int \<Rightarrow> nat list option \<Rightarrow> channel_error + string" where
  "newBindingID ms random =
     (case random of None \<Rightarrow> Inl ChErrRandom | Some bytes \<Rightarrow> Inr (''cb_'' @ ulid ms bytes))"

definition NewBindingAt ::
  "channel_codec \<Rightarrow> binding_CreateInput \<Rightarrow> int \<Rightarrow> nat list option \<Rightarrow> instant \<Rightarrow> channel_error + binding" where
  "NewBindingAt cd input ms random now =
     ensure (ch_validateTenantID (bci_TenantID input))
     (andthen (normalizeBindingKey (bci_BindingKey input)) (\<lambda>k.
      ensure (channel_Validate (bci_Channel input))
     (andthen (normalizeRequiredValue (bci_ProviderAccountID input) 256) (\<lambda>account.
      andthen (normalizeRouteKeyDigest (bci_PublicRouteKeyDigest input)) (\<lambda>route.
      ensure (ch_validateAppID (bci_AppID input))
     (andthen (normalizeRequiredValue (bci_SecretRef input) 256) (\<lambda>secret.
      andthen (normalizeProtocolConfiguration cd (bci_Channel input) (bci_Protocol input)) (\<lambda>protocol.
      let status = (if bci_Status input = [] then ch_StatusDraft else bci_Status input) in
      ensure (fails (status \<noteq> ch_StatusDraft \<and> status \<noteq> ch_StatusActive \<and> status \<noteq> ch_StatusSuspended) ChErrInvalid)
     (andthen (newBindingID ms random) (\<lambda>i.
      ensure (fails (now = 0) ChErrInvalid)
      (let b = \<lparr>bnd_TenantID = bci_TenantID input, bnd_BindingID = i, bnd_BindingKey = k,
                bnd_Channel = bci_Channel input, bnd_ProviderAccountID = account,
                bnd_PublicRouteKeyDigest = route, bnd_AppID = bci_AppID input, bnd_SecretRef = secret,
                bnd_Protocol = protocol, bnd_Status = status, bnd_Version = 1, bnd_ConfigDigest = [],
                bnd_CreatedAt = now, bnd_UpdatedAt = now\<rparr>
       in andthen (computeConfigDigest cd b) (\<lambda>digest. Inr (b\<lparr>bnd_ConfigDigest := digest\<rparr>)))))))))))))"

subsection \<open>Prepared changes\<close>

definition ch_EventCreated :: string where "ch_EventCreated = ''created''"

definition ch_EventConfigurationUpdated :: string where
  "ch_EventConfigurationUpdated = ''configuration_updated''"

definition ch_EventActivated :: string where "ch_EventActivated = ''activated''"

definition ch_EventSuspended :: string where "ch_EventSuspended = ''suspended''"

definition ch_EventResumed :: string where "ch_EventResumed = ''resumed''"

definition ch_EventDisabled :: string where "ch_EventDisabled = ''disabled''"

record channel_ChangeEvent =
  che_EventType :: string
  che_TenantID :: string
  che_BindingID :: string
  che_PreviousStatus :: string
  che_CurrentStatus :: string
  che_PreviousDigest :: string
  che_CurrentDigest :: string
  che_ActorType :: string
  che_ActorID :: string
  che_Reason :: string
  che_CorrelationID :: string
  che_PreviousVersion :: int
  che_NextVersion :: int
  che_OccurredAt :: instant

record binding_UpdateInput =
  bui_TenantID :: string
  bui_BindingID :: string
  bui_ExpectedVersion :: int
  bui_ProviderAccountID :: string
  bui_PublicRouteKeyDigest :: string
  bui_AppID :: string
  bui_SecretRef :: string
  bui_Protocol :: protocol_configuration
  bui_Metadata :: channel_metadata

record binding_TransitionInput =
  bti_TenantID :: string
  bti_BindingID :: string
  bti_ExpectedVersion :: int
  bti_NextStatus :: string
  bti_Metadata :: channel_metadata

definition normalizeChangeMetadata :: "channel_metadata \<Rightarrow> channel_error + channel_metadata" where
  "normalizeChangeMetadata m =
     (let actorType = trim_space (chm_ActorType m); actorID = trim_space (chm_ActorID m);
          reason = trim_space (chm_Reason m); correlation = trim_space (chm_CorrelationID m)
      in
      ensure (first_error
        [fails (actorType = [] \<or> actorID = [] \<or> reason = [] \<or> correlation = []) ChErrInvalid,
         fails (rune_count reason > 1000 \<or> ch_hasControl actorType \<or> ch_hasControl actorID \<or> ch_hasControl reason
                \<or> ch_hasControl correlation) ChErrInvalid])
      (Inr \<lparr>chm_ActorType = actorType, chm_ActorID = actorID, chm_Reason = reason, chm_CorrelationID = correlation\<rparr>))"

definition newChangeEvent ::
  "string \<Rightarrow> binding \<Rightarrow> string \<Rightarrow> string \<Rightarrow> string \<Rightarrow> string \<Rightarrow> int \<Rightarrow> int \<Rightarrow> instant \<Rightarrow> channel_metadata
   \<Rightarrow> channel_ChangeEvent" where
  "newChangeEvent eventType b previousStatus currentStatus previousDigest currentDigest previousVersion nextVersion at m =
     \<lparr>che_EventType = eventType, che_TenantID = bnd_TenantID b, che_BindingID = bnd_BindingID b,
      che_PreviousStatus = previousStatus, che_CurrentStatus = currentStatus, che_PreviousDigest = previousDigest,
      che_CurrentDigest = currentDigest, che_ActorType = chm_ActorType m, che_ActorID = chm_ActorID m,
      che_Reason = chm_Reason m, che_CorrelationID = chm_CorrelationID m, che_PreviousVersion = previousVersion,
      che_NextVersion = nextVersion, che_OccurredAt = at\<rparr>"

definition PrepareCreatedChange ::
  "channel_codec \<Rightarrow> binding \<Rightarrow> channel_metadata \<Rightarrow> channel_error + channel_ChangeEvent" where
  "PrepareCreatedChange cd b m =
     ensure (first_error [binding_Validate cd b, fails (bnd_Status b = ch_StatusDisabled) ChErrInvalid])
     (andthen (normalizeChangeMetadata m) (\<lambda>m.
      ensure (fails (bnd_Version b \<noteq> 1 \<or> bnd_CreatedAt b = 0 \<or> bnd_UpdatedAt b \<noteq> bnd_CreatedAt b) ChErrInvalid)
      (Inr (newChangeEvent ch_EventCreated b [] (bnd_Status b) [] (bnd_ConfigDigest b) 0 (bnd_Version b)
              (bnd_CreatedAt b) m))))"

text \<open>The checks that both changes of a stored binding begin with.\<close>

definition change_fails :: "channel_codec \<Rightarrow> binding \<Rightarrow> string \<Rightarrow> string \<Rightarrow> int \<Rightarrow> channel_error option" where
  "change_fails cd current tenantID bindingID expected =
     first_error
       [fails (bnd_TenantID current \<noteq> tenantID \<or> bnd_BindingID current \<noteq> bindingID) ChErrNotFound,
        binding_Validate cd current,
        fails (bnd_Status current = ch_StatusDisabled) ChErrDisabled,
        fails (expected \<noteq> bnd_Version current) ChErrConflict]"

definition PrepareConfigurationChange ::
  "channel_codec \<Rightarrow> binding \<Rightarrow> binding_UpdateInput \<Rightarrow> instant \<Rightarrow> channel_error + binding \<times> channel_ChangeEvent" where
  "PrepareConfigurationChange cd current input occurredAt =
     ensure (change_fails cd current (bui_TenantID input) (bui_BindingID input) (bui_ExpectedVersion input))
     (andthen (normalizeChangeMetadata (bui_Metadata input)) (\<lambda>m.
      andthen (normalizeRequiredValue (bui_ProviderAccountID input) 256) (\<lambda>account.
      andthen (normalizeRouteKeyDigest (bui_PublicRouteKeyDigest input)) (\<lambda>route.
      ensure (ch_validateAppID (bui_AppID input))
     (andthen (normalizeRequiredValue (bui_SecretRef input) 256) (\<lambda>secret.
      andthen (normalizeProtocolConfiguration cd (bnd_Channel current) (bui_Protocol input)) (\<lambda>protocol.
      ensure (fails (occurredAt = 0 \<or> occurredAt < bnd_UpdatedAt current) ChErrInvalid)
      (let b = current\<lparr>bnd_ProviderAccountID := account, bnd_PublicRouteKeyDigest := route,
                 bnd_AppID := bui_AppID input, bnd_SecretRef := secret, bnd_Protocol := protocol,
                 bnd_Version := bnd_Version current + 1, bnd_UpdatedAt := occurredAt\<rparr>
       in
       andthen (computeConfigDigest cd b) (\<lambda>digest.
       let updated = b\<lparr>bnd_ConfigDigest := digest\<rparr> in
       ensure (binding_Validate cd updated)
       (Inr (updated, newChangeEvent ch_EventConfigurationUpdated updated (bnd_Status current) (bnd_Status updated)
               (bnd_ConfigDigest current) (bnd_ConfigDigest updated) (bnd_Version current) (bnd_Version updated)
               occurredAt m)))))))))))"

definition status_event :: "string \<Rightarrow> string \<Rightarrow> string" where
  "status_event previous nxt =
     (if nxt = ch_StatusSuspended then ch_EventSuspended
      else if nxt = ch_StatusActive \<and> previous = ch_StatusSuspended then ch_EventResumed
      else if nxt = ch_StatusDisabled then ch_EventDisabled
      else ch_EventActivated)"

definition PrepareStatusChange ::
  "channel_codec \<Rightarrow> binding \<Rightarrow> binding_TransitionInput \<Rightarrow> instant \<Rightarrow> channel_error + binding \<times> channel_ChangeEvent" where
  "PrepareStatusChange cd current input occurredAt =
     ensure (first_error
       [change_fails cd current (bti_TenantID input) (bti_BindingID input) (bti_ExpectedVersion input),
        fails (\<not> ch_CanTransitionTo current (bti_NextStatus input)) ChErrInvalidTransition])
     (andthen (normalizeChangeMetadata (bti_Metadata input)) (\<lambda>m.
      ensure (fails (occurredAt = 0 \<or> occurredAt < bnd_UpdatedAt current) ChErrInvalid)
      (let updated = current\<lparr>bnd_Status := bti_NextStatus input, bnd_Version := bnd_Version current + 1,
                       bnd_UpdatedAt := occurredAt\<rparr>
       in
       ensure (binding_Validate cd updated)
       (Inr (updated, newChangeEvent (status_event (bnd_Status current) (bti_NextStatus input)) updated
               (bnd_Status current) (bnd_Status updated) (bnd_ConfigDigest current) (bnd_ConfigDigest updated)
               (bnd_Version current) (bnd_Version updated) occurredAt m)))))"

end
