(* ===== verification/Channel_Routing.thy ===== *)
theory Channel_Routing
  imports Channel_Binding Agent_Runtime
begin

text \<open>
  The trusted inbound boundary of \<^verbatim>\<open>channels/routing.go\<close>: candidates that a public route lookup
  hands out, the result of a provider verification with its proof, the routing target that
  joins it with an active tenant and an active application, and the identities of the runner.

  A proof or capability is a pointer that only this package creates; it holds the fields it
  vouches for, and its absence is \<open>None\<close>. The unexported fields cannot be set from outside,
  so values with a proof come from the constructors here.
\<close>

subsection \<open>Candidates\<close>

definition DefaultCandidateTTL :: duration where "DefaultCandidateTTL = 30 * 1000000000"

definition MaxCandidateLifetime :: duration where "MaxCandidateLifetime = 5 * 60 * 1000000000"

definition PurposeWebhookVerification :: string where
  "PurposeWebhookVerification = ''webhook-verification''"

definition purpose_validate :: "string \<Rightarrow> channel_error option" where
  "purpose_validate purpose =
     fails (purpose = [] \<or> ch_hasControl purpose \<or> rune_count purpose > 128) ChErrInvalid"

record secret_scope =
  ss_TenantID :: string
  ss_SecretRef :: string

definition secret_scope_Validate :: "secret_scope \<Rightarrow> channel_error option" where
  "secret_scope_Validate scope =
     first_error
       [ch_validateTenantID (ss_TenantID scope),
        fails (normalizeRequiredValue (ss_SecretRef scope) 256 \<noteq> Inr (ss_SecretRef scope)) ChErrInvalid]"

record candidate =
  cnd_Channel :: string
  cnd_PublicRouteKeyDigest :: string
  cnd_BindingVersion :: int
  cnd_ConfigDigest :: string
  cnd_Purpose :: string
  cnd_CandidateToken :: string
  cnd_IssuedAt :: instant
  cnd_ExpiresAt :: instant

definition validHexDigest :: "string \<Rightarrow> bool" where
  "validHexDigest value \<longleftrightarrow>
     length value = 64 \<and> to_lower value = value \<and> list_all (\<lambda>r. r \<in> set (map byte ''0123456789abcdef'')) (runes value)"

text \<open>
  The zero time as \<open>now\<close> leaves the expiry unchecked. An instant is a time in UTC, so that the check of
  the location does not appear.
\<close>

definition candidate_Validate :: "candidate \<Rightarrow> instant \<Rightarrow> channel_error option" where
  "candidate_Validate c now =
     first_error
       [channel_Validate (cnd_Channel c),
        ValidatePublicRouteKeyDigest (cnd_PublicRouteKeyDigest c),
        fails (cnd_BindingVersion c < 1 \<or> \<not> validHexDigest (cnd_ConfigDigest c)) ChErrInvalid,
        purpose_validate (cnd_Purpose c),
        fails (cnd_CandidateToken c = [] \<or> rune_count (cnd_CandidateToken c) > 256
               \<or> ch_hasControl (cnd_CandidateToken c)) ChErrInvalid,
        fails (cnd_IssuedAt c = 0 \<or> cnd_ExpiresAt c = 0 \<or> \<not> cnd_ExpiresAt c > cnd_IssuedAt c
               \<or> cnd_ExpiresAt c - cnd_IssuedAt c > MaxCandidateLifetime) ChErrInvalid,
        fails (now \<noteq> 0 \<and> (now < cnd_IssuedAt c \<or> \<not> now < cnd_ExpiresAt c)) ChErrCandidateUnavailable]"

definition NewCandidateBindingContext ::
  "string \<Rightarrow> string \<Rightarrow> int \<Rightarrow> string \<Rightarrow> string \<Rightarrow> string \<Rightarrow> instant \<Rightarrow> instant \<Rightarrow> channel_error + candidate" where
  "NewCandidateBindingContext channel routeDigest version configDigest purpose token issuedAt expiresAt =
     (let c = \<lparr>cnd_Channel = channel, cnd_PublicRouteKeyDigest = routeDigest, cnd_BindingVersion = version,
               cnd_ConfigDigest = configDigest, cnd_Purpose = purpose, cnd_CandidateToken = token,
               cnd_IssuedAt = issuedAt, cnd_ExpiresAt = expiresAt\<rparr>
      in ensure (candidate_Validate c issuedAt) (Inr c))"

record verifier_handle =
  vh_token :: string
  vh_Purpose :: string
  vh_ExpiresAt :: instant

definition NewScopedVerifierHandle :: "string \<Rightarrow> string \<Rightarrow> instant \<Rightarrow> channel_error + verifier_handle" where
  "NewScopedVerifierHandle token purpose expiresAt =
     ensure (fails (token = [] \<or> rune_count token > 256 \<or> ch_hasControl token \<or> purpose_validate purpose \<noteq> None
                    \<or> expiresAt = 0) ChErrInvalid)
     (Inr \<lparr>vh_token = token, vh_Purpose = purpose, vh_ExpiresAt = expiresAt\<rparr>)"

subsection \<open>Verified bindings\<close>

text \<open>The routing fields that a verified binding and a routing target share.\<close>

record route_fields =
  rf_TenantID :: string
  rf_BindingID :: string
  rf_BindingVersion :: int
  rf_AppID :: string
  rf_Channel :: string
  rf_ProviderAccountID :: string
  rf_ConfigDigest :: string

record verified_binding =
  vb_fields :: route_fields
  vb_proof :: "route_fields option"

definition verified_Validate :: "verified_binding \<Rightarrow> channel_error option" where
  "verified_Validate v =
     (case vb_proof v of
        None \<Rightarrow> Some ChErrVerificationFailed
      | Some p \<Rightarrow>
          first_error
            [fails (p \<noteq> vb_fields v) ChErrInvalid,
             ch_validateTenantID (rf_TenantID (vb_fields v)),
             validateBindingID (rf_BindingID (vb_fields v)),
             fails (rf_BindingVersion (vb_fields v) < 1) ChErrInvalid,
             ch_validateAppID (rf_AppID (vb_fields v)),
             channel_Validate (rf_Channel (vb_fields v)),
             fails (normalizeRequiredValue (rf_ProviderAccountID (vb_fields v)) 256
                      \<noteq> Inr (rf_ProviderAccountID (vb_fields v))
                    \<or> \<not> validHexDigest (rf_ConfigDigest (vb_fields v))) ChErrInvalid])"

definition binding_fields :: "binding \<Rightarrow> route_fields" where
  "binding_fields b =
     \<lparr>rf_TenantID = bnd_TenantID b, rf_BindingID = bnd_BindingID b, rf_BindingVersion = bnd_Version b,
      rf_AppID = bnd_AppID b, rf_Channel = bnd_Channel b, rf_ProviderAccountID = bnd_ProviderAccountID b,
      rf_ConfigDigest = bnd_ConfigDigest b\<rparr>"

definition newVerifiedBinding :: "channel_codec \<Rightarrow> binding \<Rightarrow> channel_error + verified_binding" where
  "newVerifiedBinding cd b =
     ensure (first_error [binding_Validate cd b, fails (\<not> CanAcceptInbound b) ChErrVerificationFailed])
     (Inr \<lparr>vb_fields = binding_fields b, vb_proof = Some (binding_fields b)\<rparr>)"

subsection \<open>Routing targets\<close>

record routing_target =
  rt_fields :: route_fields
  rt_capability :: "verified_binding option"

definition NewRoutingTarget ::
  "channel_codec \<Rightarrow> tenant_snapshot \<Rightarrow> binding option \<Rightarrow> app option \<Rightarrow> verified_binding \<Rightarrow> channel_error + routing_target" where
  "NewRoutingTarget cd snapshot bopt aopt v =
     (let t = snapshot_Tenant snapshot in
      ensure (fails (tenant_Validate t \<noteq> None \<or> \<not> CanAcceptExecution t) ChErrVerificationFailed)
      (require bopt ChErrVerificationFailed (\<lambda>b.
       require aopt ChErrVerificationFailed (\<lambda>a.
       ensure (first_error
         [fails (binding_Validate cd b \<noteq> None \<or> \<not> CanAcceptInbound b) ChErrVerificationFailed,
          fails (app_Validate a \<noteq> None \<or> \<not> app_CanAcceptExecution a) ChErrVerificationFailed,
          fails (verified_Validate v \<noteq> None) ChErrVerificationFailed,
          fails (tnt_TenantID t \<noteq> bnd_TenantID b \<or> tnt_TenantID t \<noteq> app_TenantID a
                 \<or> vb_fields v \<noteq> binding_fields b \<or> rf_AppID (vb_fields v) \<noteq> app_AppID a) ChErrVerificationFailed])
       (Inr \<lparr>rt_fields = (binding_fields b)\<lparr>rf_TenantID := tnt_TenantID t, rf_AppID := app_AppID a\<rparr>,
             rt_capability = Some v\<rparr>)))))"

definition target_Validate :: "routing_target \<Rightarrow> channel_error option" where
  "target_Validate target =
     (case rt_capability target of
        None \<Rightarrow> Some ChErrVerificationFailed
      | Some v \<Rightarrow>
          if rt_fields target \<noteq> vb_fields v then Some ChErrVerificationFailed else verified_Validate v)"

subsection \<open>Runner identities\<close>

definition ConversationDirect :: string where "ConversationDirect = ''direct''"

definition ConversationGroup :: string where "ConversationGroup = ''group''"

record identity_input =
  idi_ExternalUserID :: string
  idi_Kind :: string
  idi_ExternalPeerID :: string
  idi_ExternalChatID :: string
  idi_ExternalThreadID :: string

definition requiredExternalID :: "string \<Rightarrow> channel_error + string" where
  "requiredExternalID value =
     ensure (fails (value = [] \<or> ch_hasControl value \<or> rune_count value > 1024) ChErrInvalid) (Inr value)"

definition encodeIdentityParts :: "string list \<Rightarrow> string" where
  "encodeIdentityParts parts = concat (map (\<lambda>part. itoa (int (length part)) @ '':'' @ part) parts)"

definition conversation_id :: "identity_input \<Rightarrow> channel_error + string" where
  "conversation_id input =
     (if idi_Kind input = ConversationDirect then requiredExternalID (idi_ExternalPeerID input)
      else if idi_Kind input = ConversationGroup then requiredExternalID (idi_ExternalChatID input)
      else Inl ChErrInvalid)"

definition target_RunnerIdentity :: "routing_target \<Rightarrow> identity_input \<Rightarrow> channel_error + runner_identity" where
  "target_RunnerIdentity target input =
     ensure (target_Validate target)
     (andthen (requiredExternalID (idi_ExternalUserID input)) (\<lambda>userID.
      andthen (conversation_id input) (\<lambda>conversationID.
      ensure (fails (idi_ExternalThreadID input \<noteq> [] \<and> ch_hasControl (idi_ExternalThreadID input)) ChErrInvalid)
      (let f = rt_fields target;
           scopedUser = encodeIdentityParts [rf_Channel f, rf_BindingID f, userID];
           scopedSession = encodeIdentityParts [rf_Channel f, rf_BindingID f, idi_Kind input, conversationID,
                                                idi_ExternalThreadID input]
       in map_error (\<lambda>_. ChErrTenant) (NewRunnerIdentity (rf_TenantID f) scopedUser scopedSession)))))"

subsection \<open>What the boundary guarantees\<close>

lemma encodeIdentityParts_key: "encodeIdentityParts = key"
proof
  show "encodeIdentityParts ps = key ps" for ps
    by (induction ps) (simp_all add: encodeIdentityParts_def key.simps key_part_def)
qed

end
