(* ===== verification/Channel_Repo.thy ===== *)
theory Channel_Repo
  imports Channel_Routing
begin

text \<open>
  The Channel Binding repository and candidate index of \<^verbatim>\<open>channels/inmemory/inmemory.go\<close>, and
  the resolution of a candidate into a routing target (\<^verbatim>\<open>ResolveCandidateRoutingTarget\<close> of
  \<^verbatim>\<open>channels/routing.go\<close>) over it and the repositories of tenants and applications.

  Every operation holds the repository lock from its first lookup to its return. The looks at
  the context are, in order: on entry, while waiting for the lock, under the lock, and, in the
  operations that have it, before the result is stored; a nil context reports nothing, like the
  background context. The set of bindings of a route is a
  list without repetitions. \<open>tokens\<close> are the random tokens that one lookup draws, \<open>None\<close> where
  the random source fails.
\<close>

subsection \<open>State\<close>

datatype binding_scope = BindingScope string string

datatype binding_key_scope = BindingKeyScope string string

datatype route_scope = RouteScope string string

datatype account_scope = AccountScope string string

record candidate_record =
  cdr_scope :: binding_scope
  cdr_context :: candidate

record channel_options =
  cho_CandidateTTL :: duration
  cho_MaxCandidates :: int

record channel_repo =
  chr_candidateTTL :: duration
  chr_maxCandidates :: int
  chr_byID :: "(binding_scope, binding) gomap"
  chr_byKey :: "(binding_key_scope, string) gomap"
  chr_routeIndex :: "(route_scope, binding_scope list) gomap"
  chr_activeAccounts :: "(account_scope, binding_scope) gomap"
  chr_candidates :: "(string, candidate_record) gomap"

definition DefaultMaxCandidates :: int where "DefaultMaxCandidates = 4096"

definition channel_NewRepository :: "channel_options option \<Rightarrow> channel_repo" where
  "channel_NewRepository options =
     (let ttl = (case options of
                   None \<Rightarrow> DefaultCandidateTTL
                 | Some x \<Rightarrow> if cho_CandidateTTL x > 0 then cho_CandidateTTL x else DefaultCandidateTTL);
          maximum = (case options of
                   None \<Rightarrow> DefaultMaxCandidates
                 | Some x \<Rightarrow> if cho_MaxCandidates x > 0 then cho_MaxCandidates x else DefaultMaxCandidates)
      in \<lparr>chr_candidateTTL = (if ttl > MaxCandidateLifetime then MaxCandidateLifetime else ttl),
          chr_maxCandidates = maximum, chr_byID = [], chr_byKey = [], chr_routeIndex = [],
          chr_activeAccounts = [], chr_candidates = []\<rparr>)"

subsection \<open>Helpers\<close>

definition channel_checkContext :: "ctx \<Rightarrow> nat \<Rightarrow> channel_error option" where
  "channel_checkContext look i = map_option ChErrCtx (look i)"

definition channel_enter :: "ctx \<Rightarrow> channel_error option" where
  "channel_enter look =
     first_error [channel_checkContext look 0, channel_checkContext look 1, channel_checkContext look 2]"

definition channel_nowUTC :: "(nat \<Rightarrow> instant) \<Rightarrow> instant" where
  "channel_nowUTC clock = (if clock 0 = 0 then clock 1 else clock 0)"

definition binding_scope_of :: "binding \<Rightarrow> binding_scope" where
  "binding_scope_of b = BindingScope (bnd_TenantID b) (bnd_BindingID b)"

definition account_of :: "binding \<Rightarrow> account_scope" where
  "account_of b = AccountScope (bnd_Channel b) (bnd_ProviderAccountID b)"

definition route_of :: "binding \<Rightarrow> route_scope" where
  "route_of b = RouteScope (bnd_Channel b) (bnd_PublicRouteKeyDigest b)"

definition route_scopes :: "channel_repo \<Rightarrow> route_scope \<Rightarrow> binding_scope list" where
  "route_scopes r route = (case get (chr_routeIndex r) route of None \<Rightarrow> [] | Some scopes \<Rightarrow> scopes)"

definition addIndexesLocked :: "binding \<Rightarrow> channel_repo \<Rightarrow> channel_repo" where
  "addIndexesLocked b r =
     (if bnd_Status b \<noteq> ch_StatusActive then r
      else r\<lparr>chr_activeAccounts := put (account_of b) (binding_scope_of b) (chr_activeAccounts r),
             chr_routeIndex := put (route_of b) (List.insert (binding_scope_of b) (route_scopes r (route_of b)))
               (chr_routeIndex r)\<rparr>)"

definition removeIndexesLocked :: "binding \<Rightarrow> channel_repo \<Rightarrow> channel_repo" where
  "removeIndexesLocked b r =
     (if bnd_Status b \<noteq> ch_StatusActive then r
      else
        (let accounts = (if get (chr_activeAccounts r) (account_of b) = Some (binding_scope_of b)
                         then del (account_of b) (chr_activeAccounts r) else chr_activeAccounts r);
             scopes = removeAll (binding_scope_of b) (route_scopes r (route_of b))
         in r\<lparr>chr_activeAccounts := accounts,
              chr_routeIndex := (if scopes = [] then del (route_of b) (chr_routeIndex r)
                                 else put (route_of b) scopes (chr_routeIndex r))\<rparr>))"

definition activeAccountInUseLocked :: "binding \<Rightarrow> binding_scope \<Rightarrow> channel_repo \<Rightarrow> bool" where
  "activeAccountInUseLocked b except r =
     (case get (chr_activeAccounts r) (account_of b) of None \<Rightarrow> False | Some owner \<Rightarrow> owner \<noteq> except)"

definition pruneCandidatesLocked :: "instant \<Rightarrow> channel_repo \<Rightarrow> channel_repo" where
  "pruneCandidatesLocked now r =
     r\<lparr>chr_candidates := filter (\<lambda>(token, record). now < cnd_ExpiresAt (cdr_context record)) (chr_candidates r)\<rparr>"

subsection \<open>Operations\<close>

definition channel_Create ::
  "channel_codec \<Rightarrow> ctx \<Rightarrow> binding_CreateInput \<Rightarrow> int \<Rightarrow> nat list option \<Rightarrow> (nat \<Rightarrow> instant) \<Rightarrow> channel_repo
   \<Rightarrow> (channel_error + binding \<times> channel_ChangeEvent) \<times> channel_repo" where
  "channel_Create cd look input ms random clock r =
     check (channel_checkContext look 0) r
     (proceed (NewBindingAt cd input ms random (channel_nowUTC clock)) r (\<lambda>b.
      proceed (PrepareCreatedChange cd b (bci_Metadata input)) r (\<lambda>event.
      let scope = binding_scope_of b; keyScope = BindingKeyScope (bnd_TenantID b) (bnd_BindingKey b) in
      check (first_error
        [channel_checkContext look 1,
         channel_checkContext look 2,
         fails (get (chr_byID r) scope \<noteq> None) ChErrDuplicateKey,
         fails (get (chr_byKey r) keyScope \<noteq> None) ChErrDuplicateKey,
         fails (bnd_Status b = ch_StatusActive \<and> activeAccountInUseLocked b scope r) ChErrDuplicateKey,
         channel_checkContext look 3]) r
      (Inr (b, event), addIndexesLocked b (r\<lparr>chr_byID := put scope b (chr_byID r),
                         chr_byKey := put keyScope (bnd_BindingID b) (chr_byKey r)\<rparr>)))))"

definition channel_Get :: "ctx \<Rightarrow> string \<Rightarrow> string \<Rightarrow> channel_repo \<Rightarrow> channel_error + binding" where
  "channel_Get look tenantID bindingID r =
     ensure (channel_enter look) (require (get (chr_byID r) (BindingScope tenantID bindingID)) ChErrNotFound Inr)"

text \<open>The part that the two changes of a stored binding share.\<close>

definition store_change ::
  "ctx \<Rightarrow> binding_scope \<Rightarrow> binding \<Rightarrow> binding \<times> channel_ChangeEvent \<Rightarrow> channel_repo
   \<Rightarrow> (channel_error + binding \<times> channel_ChangeEvent) \<times> channel_repo" where
  "store_change look scope current change r =
     (let (updated, event) = change in
      check (first_error
        [fails (bnd_Status updated = ch_StatusActive \<and> activeAccountInUseLocked updated scope r) ChErrDuplicateKey,
         channel_checkContext look 3]) r
      (Inr (updated, event),
       let r1 = removeIndexesLocked current r
       in addIndexesLocked updated (r1\<lparr>chr_byID := put scope updated (chr_byID r1)\<rparr>)))"

definition channel_UpdateConfiguration ::
  "channel_codec \<Rightarrow> ctx \<Rightarrow> binding_UpdateInput \<Rightarrow> (nat \<Rightarrow> instant) \<Rightarrow> channel_repo
   \<Rightarrow> (channel_error + binding \<times> channel_ChangeEvent) \<times> channel_repo" where
  "channel_UpdateConfiguration cd look input clock r =
     check (channel_enter look) r
     (let scope = BindingScope (bui_TenantID input) (bui_BindingID input) in
      fetch (get (chr_byID r) scope) ChErrNotFound r (\<lambda>current.
      proceed (PrepareConfigurationChange cd current input (channel_nowUTC clock)) r (\<lambda>change.
      store_change look scope current change r)))"

definition channel_TransitionStatus ::
  "channel_codec \<Rightarrow> ctx \<Rightarrow> binding_TransitionInput \<Rightarrow> (nat \<Rightarrow> instant) \<Rightarrow> channel_repo
   \<Rightarrow> (channel_error + binding \<times> channel_ChangeEvent) \<times> channel_repo" where
  "channel_TransitionStatus cd look input clock r =
     check (channel_enter look) r
     (let scope = BindingScope (bti_TenantID input) (bti_BindingID input) in
      fetch (get (chr_byID r) scope) ChErrNotFound r (\<lambda>current.
      proceed (PrepareStatusChange cd current input (channel_nowUTC clock)) r (\<lambda>change.
      store_change look scope current change r)))"

definition channel_Activate ::
  "channel_codec \<Rightarrow> ctx \<Rightarrow> binding_TransitionInput \<Rightarrow> (nat \<Rightarrow> instant) \<Rightarrow> channel_repo
   \<Rightarrow> (channel_error + binding \<times> channel_ChangeEvent) \<times> channel_repo" where
  "channel_Activate cd look input = channel_TransitionStatus cd look (input\<lparr>bti_NextStatus := ch_StatusActive\<rparr>)"

definition channel_Suspend ::
  "channel_codec \<Rightarrow> ctx \<Rightarrow> binding_TransitionInput \<Rightarrow> (nat \<Rightarrow> instant) \<Rightarrow> channel_repo
   \<Rightarrow> (channel_error + binding \<times> channel_ChangeEvent) \<times> channel_repo" where
  "channel_Suspend cd look input = channel_TransitionStatus cd look (input\<lparr>bti_NextStatus := ch_StatusSuspended\<rparr>)"

definition channel_Resume ::
  "channel_codec \<Rightarrow> ctx \<Rightarrow> binding_TransitionInput \<Rightarrow> (nat \<Rightarrow> instant) \<Rightarrow> channel_repo
   \<Rightarrow> (channel_error + binding \<times> channel_ChangeEvent) \<times> channel_repo" where
  "channel_Resume cd look input = channel_TransitionStatus cd look (input\<lparr>bti_NextStatus := ch_StatusActive\<rparr>)"

definition channel_Disable ::
  "channel_codec \<Rightarrow> ctx \<Rightarrow> binding_TransitionInput \<Rightarrow> (nat \<Rightarrow> instant) \<Rightarrow> channel_repo
   \<Rightarrow> (channel_error + binding \<times> channel_ChangeEvent) \<times> channel_repo" where
  "channel_Disable cd look input = channel_TransitionStatus cd look (input\<lparr>bti_NextStatus := ch_StatusDisabled\<rparr>)"

subsection \<open>Candidates\<close>

fun scope_rank :: "binding_scope \<Rightarrow> string \<times> string" where
  "scope_rank (BindingScope tenantID bindingID) = (tenantID, bindingID)"

definition active_scope :: "channel_repo \<Rightarrow> binding_scope \<Rightarrow> bool" where
  "active_scope r scope =
     (case get (chr_byID r) scope of None \<Rightarrow> False | Some b \<Rightarrow> bnd_Status b = ch_StatusActive)"

text \<open>The records of one lookup; the \<open>n\<close>-th binding gets the \<open>n\<close>-th token.\<close>

fun issue_candidates ::
  "string \<Rightarrow> string \<Rightarrow> instant \<Rightarrow> (nat \<Rightarrow> string option) \<Rightarrow> channel_repo \<Rightarrow> nat \<Rightarrow> binding_scope list
   \<Rightarrow> channel_error + candidate_record list" where
  "issue_candidates channel routeDigest now tokens r n [] = Inr []"
| "issue_candidates channel routeDigest now tokens r n (scope # scopes) =
     require (get (chr_byID r) scope) ChErrCandidateUnavailable (\<lambda>b.
     require (tokens n) ChErrCandidateUnavailable (\<lambda>token.
     andthen (map_error (\<lambda>_. ChErrCandidateUnavailable)
       (NewCandidateBindingContext channel routeDigest (bnd_Version b) (bnd_ConfigDigest b)
          PurposeWebhookVerification token now (now + chr_candidateTTL r))) (\<lambda>c.
     andthen (issue_candidates channel routeDigest now tokens r (n + 1) scopes) (\<lambda>records.
     Inr (\<lparr>cdr_scope = scope, cdr_context = c\<rparr> # records)))))"

definition store_candidates :: "candidate_record list \<Rightarrow> channel_repo \<Rightarrow> channel_repo" where
  "store_candidates records r =
     r\<lparr>chr_candidates := fold (\<lambda>record. put (cnd_CandidateToken (cdr_context record)) record) records (chr_candidates r)\<rparr>"

text \<open>Expired candidates are dropped even when the lookup then fails.\<close>

definition channel_LookupCandidates ::
  "ctx \<Rightarrow> string \<Rightarrow> string \<Rightarrow> (nat \<Rightarrow> instant) \<Rightarrow> (nat \<Rightarrow> string option) \<Rightarrow> channel_repo
   \<Rightarrow> (channel_error + candidate list) \<times> channel_repo" where
  "channel_LookupCandidates look channel routeDigest clock tokens r =
     check (first_error
       [channel_checkContext look 0,
        fails (channel_Validate channel \<noteq> None \<or> ValidatePublicRouteKeyDigest routeDigest \<noteq> None)
          ChErrCandidateUnavailable,
        channel_checkContext look 1,
        channel_checkContext look 2]) r
     (let now = channel_nowUTC clock;
          r1 = pruneCandidatesLocked now r;
          scopes = filter (active_scope r1) (route_scopes r1 (RouteScope channel routeDigest))
      in
      check (first_error
        [fails (scopes = []) ChErrCandidateUnavailable,
         fails (int (length scopes) > chr_maxCandidates r1 - int (length (chr_candidates r1))) ChErrCandidateUnavailable]) r1
      (proceed (issue_candidates channel routeDigest now tokens r1 0 (sort_key scope_rank scopes)) r1 (\<lambda>records.
       check (channel_checkContext look 3) r1
       (Inr (map cdr_context records), store_candidates records r1))))"

text \<open>A candidate is gone when it is expired or stale, and when it is handed over.\<close>

definition candidate_current :: "binding \<Rightarrow> candidate \<Rightarrow> bool" where
  "candidate_current b c \<longleftrightarrow>
     bnd_Status b = ch_StatusActive \<and> bnd_Version b = cnd_BindingVersion c \<and> bnd_ConfigDigest b = cnd_ConfigDigest c
     \<and> bnd_Channel b = cnd_Channel c \<and> bnd_PublicRouteKeyDigest b = cnd_PublicRouteKeyDigest c"

definition channel_ConsumeCandidate ::
  "ctx \<Rightarrow> candidate \<Rightarrow> (nat \<Rightarrow> instant) \<Rightarrow> channel_repo \<Rightarrow> (channel_error + binding) \<times> channel_repo" where
  "channel_ConsumeCandidate look c clock r =
     check (first_error
       [channel_checkContext look 0,
        fails (cnd_CandidateToken c = []) ChErrCandidateUnavailable,
        fails (candidate_Validate c 0 \<noteq> None) ChErrCandidateUnavailable,
        channel_checkContext look 1,
        channel_checkContext look 2]) r
     (fetch (get (chr_candidates r) (cnd_CandidateToken c)) ChErrCandidateUnavailable r (\<lambda>record.
      check (fails (cdr_context record \<noteq> c) ChErrCandidateUnavailable) r
      (let now = channel_nowUTC clock;
           r1 = r\<lparr>chr_candidates := del (cnd_CandidateToken c) (chr_candidates r)\<rparr>
       in
       if \<not> now < cnd_ExpiresAt (cdr_context record) \<or> now < cnd_IssuedAt (cdr_context record)
       then (Inl ChErrCandidateUnavailable, r1)
       else case get (chr_byID r) (cdr_scope record) of
              None \<Rightarrow> (Inl ChErrCandidateUnavailable, r1)
            | Some b \<Rightarrow>
                if \<not> candidate_current b (cdr_context record) then (Inl ChErrCandidateUnavailable, r1)
                else (Inr b, r1))))"

subsection \<open>Resolving a candidate\<close>

text \<open>
  \<open>looks i\<close> is the context of the \<open>i\<close>-th call, which begins with a look of its own. \<open>verify\<close> is
  the protocol verification of the adapter. The repositories are as they are when they are read.
\<close>

definition resolve_error :: "channel_error \<Rightarrow> channel_error" where
  "resolve_error e = (case e of ChErrCtx c \<Rightarrow> ChErrCtx c | _ \<Rightarrow> ChErrVerificationFailed)"

definition resolve_tenant_error :: "tenant_error \<Rightarrow> channel_error" where
  "resolve_tenant_error e = (case e of TErrCtx c \<Rightarrow> ChErrCtx c | _ \<Rightarrow> ChErrVerificationFailed)"

definition resolve_agent_error :: "agent_error \<Rightarrow> channel_error" where
  "resolve_agent_error e = (case e of AErrCtx c \<Rightarrow> ChErrCtx c | _ \<Rightarrow> ChErrVerificationFailed)"

definition ResolveCandidateRoutingTarget ::
  "channel_codec \<Rightarrow> (nat \<Rightarrow> ctx) \<Rightarrow> (ctx \<Rightarrow> binding \<Rightarrow> channel_error option) \<Rightarrow> candidate \<Rightarrow> (nat \<Rightarrow> instant)
   \<Rightarrow> tenant_repo \<Rightarrow> agent_repo \<Rightarrow> channel_repo \<Rightarrow> (channel_error + routing_target) \<times> channel_repo" where
  "ResolveCandidateRoutingTarget cd looks verify c clock tenants apps r =
     check (first_error
       [channel_checkContext (looks 0) 0,
        fails (cnd_Channel c = []) ChErrVerificationFailed]) r
     (case channel_ConsumeCandidate (looks 1) c clock r of
        (Inl e, r1) \<Rightarrow> (Inl (resolve_error e), r1)
      | (Inr b, r1) \<Rightarrow>
          (case verify (looks 2) b of
             Some e \<Rightarrow> Inl (resolve_error e)
           | None \<Rightarrow>
               andthen (map_error (\<lambda>_. ChErrVerificationFailed) (newVerifiedBinding cd b)) (\<lambda>verified.
               andthen (map_error resolve_tenant_error (tenant_Get (Some (looks 3)) (bnd_TenantID b) tenants)) (\<lambda>t.
               andthen (map_error (\<lambda>_. ChErrVerificationFailed) (NewConfigurationSnapshot (Some t))) (\<lambda>snapshot.
               andthen (map_error resolve_agent_error (agent_Get (looks 4) (bnd_TenantID b) (bnd_AppID b) apps)) (\<lambda>a.
               map_error (\<lambda>_. ChErrVerificationFailed) (NewRoutingTarget cd snapshot (Some b) (Some a) verified))))),
           r1))"

end
