(* ===== verification/Channel_Props.thy ===== *)
theory Channel_Props
  imports Channel_Repo
begin

text \<open>
  What the Channel Binding repository guarantees: its indexes describe exactly the active
  bindings, no account of a messenger is served by two of them, and a candidate is a capability
  for one use, which yields the binding only in the version it was issued for.
\<close>

declare map_of_eq_Some_iff [simp del] split_paired_All [simp del] split_paired_Ex [simp del]

subsection \<open>Steps\<close>

text \<open>\<open>T\<close> are the tokens that lookups may draw.\<close>

inductive channel_step :: "channel_codec \<Rightarrow> string set \<Rightarrow> channel_repo \<Rightarrow> channel_repo \<Rightarrow> bool" for cd T where
  create: "channel_Create cd look ci ms random clock r = (x1, r') \<Longrightarrow> channel_step cd T r r'"
| update: "channel_UpdateConfiguration cd look ui clock r = (x1, r') \<Longrightarrow> channel_step cd T r r'"
| transition: "channel_TransitionStatus cd look ti clock r = (x1, r') \<Longrightarrow> channel_step cd T r r'"
| lookup: "channel_LookupCandidates look channel digest clock tokens r = (x2, r') \<Longrightarrow> (\<And>n t. tokens n = Some t \<Longrightarrow> t \<in> T)
    \<Longrightarrow> channel_step cd T r r'"
| consume: "channel_ConsumeCandidate look c clock r = (x3, r') \<Longrightarrow> channel_step cd T r r'"

subsection \<open>The invariant\<close>

definition bindings_ok :: "channel_codec \<Rightarrow> channel_repo \<Rightarrow> bool" where
  "bindings_ok cd r \<longleftrightarrow> well_keyed (chr_byID r)
     \<and> (\<forall>k b. get (chr_byID r) k = Some b \<longrightarrow> binding_scope_of b = k \<and> binding_Validate cd b = None)"

definition bkeys_ok :: "channel_repo \<Rightarrow> bool" where
  "bkeys_ok r \<longleftrightarrow> well_keyed (chr_byKey r)
     \<and> (\<forall>t k i. get (chr_byKey r) (BindingKeyScope t k) = Some i
          \<longleftrightarrow> (\<exists>b. get (chr_byID r) (BindingScope t i) = Some b \<and> bnd_BindingKey b = k))"

definition account_owner :: "channel_repo \<Rightarrow> account_scope \<Rightarrow> binding_scope \<Rightarrow> bool" where
  "account_owner r a k \<longleftrightarrow> (\<exists>b. get (chr_byID r) k = Some b \<and> bnd_Status b = ch_StatusActive \<and> account_of b = a)"

definition accounts_ok :: "channel_repo \<Rightarrow> bool" where
  "accounts_ok r \<longleftrightarrow> well_keyed (chr_activeAccounts r)
     \<and> (\<forall>a k. get (chr_activeAccounts r) a = Some k \<longleftrightarrow> account_owner r a k)"

definition on_route :: "channel_repo \<Rightarrow> route_scope \<Rightarrow> binding_scope \<Rightarrow> bool" where
  "on_route r route k \<longleftrightarrow> (\<exists>b. get (chr_byID r) k = Some b \<and> bnd_Status b = ch_StatusActive \<and> route_of b = route)"

definition routes_ok :: "channel_repo \<Rightarrow> bool" where
  "routes_ok r \<longleftrightarrow> well_keyed (chr_routeIndex r)
     \<and> (\<forall>route k. k \<in> set (route_scopes r route) \<longleftrightarrow> on_route r route k)
     \<and> (\<forall>route. distinct (route_scopes r route) \<and> get (chr_routeIndex r) route \<noteq> Some [])"

definition candidates_ok :: "channel_repo \<Rightarrow> bool" where
  "candidates_ok r \<longleftrightarrow> well_keyed (chr_candidates r)
     \<and> int (length (chr_candidates r)) \<le> chr_maxCandidates r
     \<and> (\<forall>t c. get (chr_candidates r) t = Some c \<longrightarrow>
          cnd_CandidateToken (cdr_context c) = t \<and> candidate_Validate (cdr_context c) 0 = None
          \<and> (\<exists>b. get (chr_byID r) (cdr_scope c) = Some b \<and> cnd_BindingVersion (cdr_context c) \<le> bnd_Version b
               \<and> bnd_Channel b = cnd_Channel (cdr_context c)))"

definition channel_ok :: "channel_codec \<Rightarrow> channel_repo \<Rightarrow> bool" where
  "channel_ok cd r \<longleftrightarrow> bindings_ok cd r \<and> bkeys_ok r \<and> accounts_ok r \<and> routes_ok r \<and> candidates_ok r"

lemma channel_new_ok: "channel_ok cd (channel_NewRepository options)"
  by (auto simp: channel_ok_def bindings_ok_def bkeys_ok_def accounts_ok_def account_owner_def routes_ok_def on_route_def
      candidates_ok_def channel_NewRepository_def route_scopes_def Let_def DefaultMaxCandidates_def split: option.split)

subsection \<open>The indexes\<close>

lemma index_frame [simp]:
  "chr_byID (addIndexesLocked b r) = chr_byID r" "chr_byKey (addIndexesLocked b r) = chr_byKey r"
  "chr_candidates (addIndexesLocked b r) = chr_candidates r" "chr_maxCandidates (addIndexesLocked b r) = chr_maxCandidates r"
  "chr_candidateTTL (addIndexesLocked b r) = chr_candidateTTL r"
  "chr_byID (removeIndexesLocked b r) = chr_byID r" "chr_byKey (removeIndexesLocked b r) = chr_byKey r"
  "chr_candidates (removeIndexesLocked b r) = chr_candidates r"
  "chr_maxCandidates (removeIndexesLocked b r) = chr_maxCandidates r"
  by (simp_all add: addIndexesLocked_def removeIndexesLocked_def Let_def)

lemma account_after_remove:
  assumes "accounts_ok r" and "get (chr_byID r) (binding_scope_of cur) = Some cur"
  shows "well_keyed (chr_activeAccounts (removeIndexesLocked cur r))"
    and "get (chr_activeAccounts (removeIndexesLocked cur r)) a = Some k \<longleftrightarrow> account_owner r a k \<and> k \<noteq> binding_scope_of cur"
proof -
  have iff: "get (chr_activeAccounts r) a = Some k \<longleftrightarrow> account_owner r a k" for a k
    using assms(1) by (simp add: accounts_ok_def)
  show "well_keyed (chr_activeAccounts (removeIndexesLocked cur r))"
    using assms(1) by (simp add: accounts_ok_def removeIndexesLocked_def Let_def)
  show "get (chr_activeAccounts (removeIndexesLocked cur r)) a = Some k \<longleftrightarrow> account_owner r a k \<and> k \<noteq> binding_scope_of cur"
  proof (cases "bnd_Status cur = ch_StatusActive")
    case False
    with assms(2) have "\<not> account_owner r a (binding_scope_of cur)" by (simp add: account_owner_def)
    moreover have "removeIndexesLocked cur r = r" using False by (simp add: removeIndexesLocked_def)
    ultimately show ?thesis using iff [of a k] by (simp only:) blast
  next
    case True
    with assms(2) have own: "account_owner r (account_of cur) (binding_scope_of cur)" by (simp add: account_owner_def)
    then have at: "get (chr_activeAccounts r) (account_of cur) = Some (binding_scope_of cur)" by (simp add: iff)
    have "account_owner r a (binding_scope_of cur) \<Longrightarrow> a = account_of cur" using assms(2) by (simp add: account_owner_def)
    moreover have "account_owner r (account_of cur) k \<Longrightarrow> k = binding_scope_of cur" using at iff [of "account_of cur" k] by simp
    moreover have "get (chr_activeAccounts (removeIndexesLocked cur r)) a
        = (if a = account_of cur then None else get (chr_activeAccounts r) a)"
      using True at by (simp add: removeIndexesLocked_def Let_def)
    ultimately show ?thesis using iff [of a k] by (cases "a = account_of cur") (simp_all, blast+)
  qed
qed

lemma accounts_after_add:
  assumes rem: "\<And>a k. get (chr_activeAccounts r) a = Some k \<longleftrightarrow> account_owner r0 a k \<and> k \<noteq> binding_scope_of b"
    and "well_keyed (chr_activeAccounts r)"
    and byID: "chr_byID r = put (binding_scope_of b) b (chr_byID r0)"
    and free: "\<And>k. bnd_Status b = ch_StatusActive \<Longrightarrow> account_owner r0 (account_of b) k \<Longrightarrow> k = binding_scope_of b"
  shows "accounts_ok (addIndexesLocked b r)"
proof -
  have own: "account_owner (addIndexesLocked b r) a k \<longleftrightarrow>
      (if k = binding_scope_of b then bnd_Status b = ch_StatusActive \<and> a = account_of b else account_owner r0 a k)" for a k
    by (auto simp: account_owner_def byID)
  have rem': "get (chr_activeAccounts r) a = Some k \<longleftrightarrow> account_owner r0 a k \<and> k \<noteq> binding_scope_of b" for a k
    by (rule rem)
  show ?thesis
    unfolding accounts_ok_def own
    using assms(2) rem' free by (auto simp: addIndexesLocked_def)
qed

lemma route_scopes_frame [simp]:
  "route_scopes (r\<lparr>chr_byID := y\<rparr>) = route_scopes r" "route_scopes (r\<lparr>chr_byKey := z\<rparr>) = route_scopes r"
  "route_scopes (r\<lparr>chr_candidates := c\<rparr>) = route_scopes r"
  by (simp_all add: route_scopes_def fun_eq_iff)

lemma route_scopes_remove:
  "route_scopes (removeIndexesLocked b r) route =
     (if bnd_Status b = ch_StatusActive \<and> route = route_of b then removeAll (binding_scope_of b) (route_scopes r route)
      else route_scopes r route)"
proof (cases "bnd_Status b = ch_StatusActive")
  case True
  let ?ks = "removeAll (binding_scope_of b) (route_scopes r (route_of b))"
  have "chr_routeIndex (removeIndexesLocked b r)
      = (if ?ks = [] then del (route_of b) (chr_routeIndex r) else put (route_of b) ?ks (chr_routeIndex r))"
    using True by (simp add: removeIndexesLocked_def Let_def)
  then have "get (chr_routeIndex (removeIndexesLocked b r)) route =
      (if route = route_of b then (if ?ks = [] then None else Some ?ks) else get (chr_routeIndex r) route)"
    by simp
  then show ?thesis using True by (simp add: route_scopes_def [of "removeIndexesLocked b r"] route_scopes_def [of r route])
qed (simp add: removeIndexesLocked_def)

lemma route_scopes_add:
  "route_scopes (addIndexesLocked b r) route =
     (if bnd_Status b = ch_StatusActive \<and> route = route_of b then List.insert (binding_scope_of b) (route_scopes r route)
      else route_scopes r route)"
proof (cases "bnd_Status b = ch_StatusActive")
  case True
  have "get (chr_routeIndex (addIndexesLocked b r)) route =
      (if route = route_of b then Some (List.insert (binding_scope_of b) (route_scopes r (route_of b)))
       else get (chr_routeIndex r) route)"
    using True by (simp add: addIndexesLocked_def)
  then show ?thesis using True by (simp add: route_scopes_def [of "addIndexesLocked b r"] route_scopes_def [of r route])
qed (simp add: addIndexesLocked_def)

lemmas route_scopes_index = route_scopes_remove route_scopes_add

lemma route_index_ne:
  assumes "\<And>route. get (chr_routeIndex r) route \<noteq> Some []"
  shows "get (chr_routeIndex (removeIndexesLocked b r)) route \<noteq> Some []"
    "get (chr_routeIndex (addIndexesLocked b r)) route \<noteq> Some []"
  using assms by (auto simp: removeIndexesLocked_def addIndexesLocked_def Let_def List.insert_def)

lemma route_index_keyed:
  assumes "well_keyed (chr_routeIndex r)"
  shows "well_keyed (chr_routeIndex (removeIndexesLocked b r))" "well_keyed (chr_routeIndex (addIndexesLocked b r))"
  using assms by (simp_all add: removeIndexesLocked_def addIndexesLocked_def Let_def)

lemma routes_after_change:
  assumes "routes_ok r" and cur: "get (chr_byID r) (binding_scope_of cur) = Some cur"
    and scope: "binding_scope_of b = binding_scope_of cur"
  shows "routes_ok (addIndexesLocked b (let r1 = removeIndexesLocked cur r
           in r1\<lparr>chr_byID := put (binding_scope_of cur) b (chr_byID r1)\<rparr>))"
proof -
  let ?r = "addIndexesLocked b (let r1 = removeIndexesLocked cur r in r1\<lparr>chr_byID := put (binding_scope_of cur) b (chr_byID r1)\<rparr>)"
  have iff: "k \<in> set (route_scopes r route) \<longleftrightarrow> on_route r route k" for route k
    using assms(1) by (simp add: routes_ok_def)
  have other: "on_route r route (binding_scope_of cur) \<longleftrightarrow> bnd_Status cur = ch_StatusActive \<and> route = route_of cur" for route
    using cur by (auto simp: on_route_def)
  have on: "on_route ?r route k \<longleftrightarrow>
      (if k = binding_scope_of cur then bnd_Status b = ch_StatusActive \<and> route = route_of b else on_route r route k)" for route k
    by (auto simp: on_route_def Let_def)
  have "k \<in> set (route_scopes ?r route) \<longleftrightarrow> on_route ?r route k" for route k
    unfolding on using other by (auto simp: Let_def route_scopes_index iff scope)
  moreover have "distinct (route_scopes ?r route)" for route
    using assms(1) by (simp add: routes_ok_def Let_def route_scopes_index distinct_removeAll)
  moreover have "get (chr_routeIndex ?r) route \<noteq> Some []" for route
    using assms(1) by (simp add: routes_ok_def Let_def route_index_ne)
  moreover have "well_keyed (chr_routeIndex ?r)"
    using assms(1) by (simp add: routes_ok_def Let_def route_index_keyed)
  ultimately show ?thesis unfolding routes_ok_def by blast
qed

lemma routes_after_create:
  assumes "routes_ok r" and "get (chr_byID r) (binding_scope_of b) = None"
  shows "routes_ok (addIndexesLocked b (r\<lparr>chr_byID := put (binding_scope_of b) b (chr_byID r), chr_byKey := m\<rparr>))"
proof -
  let ?r = "addIndexesLocked b (r\<lparr>chr_byID := put (binding_scope_of b) b (chr_byID r), chr_byKey := m\<rparr>)"
  have iff: "k \<in> set (route_scopes r route) \<longleftrightarrow> on_route r route k" for route k
    using assms(1) by (simp add: routes_ok_def)
  have on: "on_route ?r route k \<longleftrightarrow>
      (if k = binding_scope_of b then bnd_Status b = ch_StatusActive \<and> route = route_of b else on_route r route k)" for route k
    by (auto simp: on_route_def)
  have "\<not> on_route r route (binding_scope_of b)" for route using assms(2) by (simp add: on_route_def)
  then have "k \<in> set (route_scopes ?r route) \<longleftrightarrow> on_route ?r route k" for route k
    unfolding on by (auto simp: route_scopes_index iff)
  moreover have "distinct (route_scopes ?r route)" "get (chr_routeIndex ?r) route \<noteq> Some []" for route
    using assms(1) by (simp_all add: routes_ok_def route_scopes_index route_index_ne)
  moreover have "well_keyed (chr_routeIndex ?r)"
    using assms(1) by (simp add: routes_ok_def route_index_keyed)
  ultimately show ?thesis unfolding routes_ok_def by blast
qed

lemma account_free:
  assumes "accounts_ok r" and "\<not> activeAccountInUseLocked b scope r" and "account_owner r (account_of b) k"
  shows "k = scope"
proof -
  have "get (chr_activeAccounts r) (account_of b) = Some k" using assms(1,3) by (simp add: accounts_ok_def)
  with assms(2) show ?thesis by (simp add: activeAccountInUseLocked_def)
qed

lemma accounts_after_change:
  assumes "accounts_ok r" and "get (chr_byID r) (binding_scope_of cur) = Some cur"
    and "binding_scope_of b = binding_scope_of cur"
    and "bnd_Status b = ch_StatusActive \<Longrightarrow> \<not> activeAccountInUseLocked b (binding_scope_of cur) r"
  shows "accounts_ok (addIndexesLocked b (let r1 = removeIndexesLocked cur r
           in r1\<lparr>chr_byID := put (binding_scope_of cur) b (chr_byID r1)\<rparr>))"
  by (rule accounts_after_add [where ?r0.0 = r])
     (simp_all add: Let_def account_after_remove [OF assms(1,2)] assms(3) account_free [OF assms(1) assms(4)])

lemma accounts_after_create:
  assumes "accounts_ok r" and "get (chr_byID r) (binding_scope_of b) = None"
    and "bnd_Status b = ch_StatusActive \<Longrightarrow> \<not> activeAccountInUseLocked b (binding_scope_of b) r"
  shows "accounts_ok (addIndexesLocked b (r\<lparr>chr_byID := put (binding_scope_of b) b (chr_byID r), chr_byKey := m\<rparr>))"
proof (rule accounts_after_add [where ?r0.0 = r])
  have "\<not> account_owner r a (binding_scope_of b)" for a using assms(2) by (simp add: account_owner_def)
  then show "get (chr_activeAccounts (r\<lparr>chr_byID := put (binding_scope_of b) b (chr_byID r), chr_byKey := m\<rparr>)) a = Some k
      \<longleftrightarrow> account_owner r a k \<and> k \<noteq> binding_scope_of b" for a k
    using assms(1) by (auto simp: accounts_ok_def)
qed (use assms account_free in \<open>auto simp: accounts_ok_def\<close>)

subsection \<open>Changes of a binding\<close>

text \<open>What a prepared change leaves of the binding, and that it is valid.\<close>

definition follows :: "channel_codec \<Rightarrow> binding \<Rightarrow> binding \<Rightarrow> bool" where
  "follows cd cur b \<longleftrightarrow> binding_Validate cd b = None \<and> binding_scope_of b = binding_scope_of cur
     \<and> bnd_BindingKey b = bnd_BindingKey cur \<and> bnd_Channel b = bnd_Channel cur \<and> bnd_Version b = bnd_Version cur + 1
     \<and> bnd_Status cur \<noteq> ch_StatusDisabled"

lemma PrepareConfigurationChange_follows:
  "PrepareConfigurationChange cd cur i t = Inr (b, e) \<Longrightarrow> follows cd cur b \<and> bui_ExpectedVersion i = bnd_Version cur"
  by (auto simp: PrepareConfigurationChange_def change_fails_def follows_def binding_scope_of_def Let_def)

lemma PrepareStatusChange_follows:
  "PrepareStatusChange cd cur i t = Inr (b, e) \<Longrightarrow> follows cd cur b \<and> bti_ExpectedVersion i = bnd_Version cur"
  by (auto simp: PrepareStatusChange_def change_fails_def follows_def binding_scope_of_def Let_def)

lemma store_change_ok:
  assumes ok: "channel_ok cd r" and cur: "get (chr_byID r) scope = Some cur" and f: "follows cd cur b"
    and st: "store_change look scope cur (b, e) r = (Inr y, r')"
  shows "channel_ok cd r'"
proof -
  have scope: "scope = binding_scope_of cur" using ok cur by (auto simp: channel_ok_def bindings_ok_def)
  note c = cur [unfolded scope]
  have b: "binding_scope_of b = binding_scope_of cur" using f by (simp add: follows_def)
  from st have r': "r' = addIndexesLocked b (let r1 = removeIndexesLocked cur r
           in r1\<lparr>chr_byID := put (binding_scope_of cur) b (chr_byID r1)\<rparr>)"
    and free: "bnd_Status b = ch_StatusActive \<Longrightarrow> \<not> activeAccountInUseLocked b (binding_scope_of cur) r"
    by (auto simp: store_change_def scope)
  have id: "chr_byID r' = put (binding_scope_of cur) b (chr_byID r)" "chr_byKey r' = chr_byKey r"
    "chr_candidates r' = chr_candidates r" "chr_maxCandidates r' = chr_maxCandidates r"
    by (simp_all add: r' Let_def)
  have ids: "bnd_TenantID b = bnd_TenantID cur" "bnd_BindingID b = bnd_BindingID cur" "bnd_BindingKey b = bnd_BindingKey cur"
    using f by (simp_all add: follows_def binding_scope_of_def)
  have "accounts_ok r'" unfolding r' using ok by (intro accounts_after_change [OF _ c b free]) (simp_all add: channel_ok_def)
  moreover have "routes_ok r'" unfolding r' using ok by (intro routes_after_change [OF _ c b]) (simp add: channel_ok_def)
  moreover have "bindings_ok cd r'" using ok f by (auto simp: channel_ok_def bindings_ok_def id follows_def)
  moreover have "bkeys_ok r'"
    using ok c ids unfolding channel_ok_def bkeys_ok_def id by (auto simp: binding_scope_of_def)
  moreover have "candidates_ok r'"
    using ok c f unfolding channel_ok_def candidates_ok_def id follows_def by fastforce
  ultimately show ?thesis by (simp add: channel_ok_def)
qed

lemma create_ok:
  assumes ok: "channel_ok cd r" and cr: "channel_Create cd look ci ms random clock r = (Inr y, r')"
  shows "channel_ok cd r'"
proof -
  from cr obtain b e where prep: "PrepareCreatedChange cd b (bci_Metadata ci) = Inr e"
    and new: "get (chr_byID r) (binding_scope_of b) = None"
      "get (chr_byKey r) (BindingKeyScope (bnd_TenantID b) (bnd_BindingKey b)) = None"
    and free: "bnd_Status b = ch_StatusActive \<Longrightarrow> \<not> activeAccountInUseLocked b (binding_scope_of b) r"
    and r': "r' = addIndexesLocked b (r\<lparr>chr_byID := put (binding_scope_of b) b (chr_byID r),
        chr_byKey := put (BindingKeyScope (bnd_TenantID b) (bnd_BindingKey b)) (bnd_BindingID b) (chr_byKey r)\<rparr>)"
    by (auto simp: channel_Create_def Let_def)
  have valid: "binding_Validate cd b = None" using prep by (simp add: PrepareCreatedChange_def)
  have "accounts_ok r'" unfolding r' using ok by (intro accounts_after_create [OF _ new(1) free]) (simp_all add: channel_ok_def)
  moreover have "routes_ok r'" unfolding r' using ok by (intro routes_after_create [OF _ new(1)]) (simp add: channel_ok_def)
  moreover have "bindings_ok cd r'" using ok valid by (auto simp: channel_ok_def bindings_ok_def r')
  moreover have "bkeys_ok r'"
  proof -
    have iff: "get (chr_byKey r) (BindingKeyScope t k) = Some i
        \<longleftrightarrow> (\<exists>b. get (chr_byID r) (BindingScope t i) = Some b \<and> bnd_BindingKey b = k)" for t k i
      using ok by (simp add: channel_ok_def bkeys_ok_def)
    have "bnd_BindingKey ba \<noteq> bnd_BindingKey b" if "get (chr_byID r) (BindingScope (bnd_TenantID b) i) = Some ba" for i ba
      using iff [of "bnd_TenantID b" "bnd_BindingKey b" i] new(2) that by auto
    with ok iff new(1) show ?thesis
      unfolding channel_ok_def bkeys_ok_def r' by (auto simp: binding_scope_of_def)
  qed
  moreover have "candidates_ok r'"
    using ok new(1) unfolding channel_ok_def candidates_ok_def r' by fastforce
  ultimately show ?thesis by (simp add: channel_ok_def)
qed

subsection \<open>Candidates\<close>

lemma length_put: "length (put k v m) \<le> length m + 1"
  by (induction m) auto

lemma issued:
  assumes "issue_candidates channel digest now tokens r n scopes = Inr records" and "c \<in> set records"
  shows "cdr_scope c \<in> set scopes \<and> (\<exists>m. tokens m = Some (cnd_CandidateToken (cdr_context c)))
    \<and> (\<exists>b. get (chr_byID r) (cdr_scope c) = Some b \<and> NewCandidateBindingContext channel digest (bnd_Version b)
         (bnd_ConfigDigest b) PurposeWebhookVerification (cnd_CandidateToken (cdr_context c)) now (now + chr_candidateTTL r)
         = Inr (cdr_context c))"
  using assms
proof (induction scopes arbitrary: n records)
  case Nil
  then show ?case by simp
next
  case (Cons scope scopes)
  from Cons.prems(1) obtain b token ctxt rest where
    b: "get (chr_byID r) scope = Some b" "tokens n = Some token"
    and ctxt: "NewCandidateBindingContext channel digest (bnd_Version b) (bnd_ConfigDigest b)
        PurposeWebhookVerification token now (now + chr_candidateTTL r) = Inr ctxt"
    and rest: "issue_candidates channel digest now tokens r (n + 1) scopes = Inr rest"
    "records = \<lparr>cdr_scope = scope, cdr_context = ctxt\<rparr> # rest"
    by auto
  have "cnd_CandidateToken ctxt = token" using ctxt by (auto simp: NewCandidateBindingContext_def Let_def)
  with Cons.IH [OF rest(1)] Cons.prems(2) b ctxt rest(2) show ?case by auto
qed

lemma issued_length:
  "issue_candidates channel digest now tokens r n scopes = Inr records \<Longrightarrow> length records = length scopes"
  by (induction scopes arbitrary: n records) auto

lemma stored_candidates:
  "get (chr_candidates (store_candidates records r)) t = Some c \<Longrightarrow>
     get (chr_candidates r) t = Some c \<or> (c \<in> set records \<and> t = cnd_CandidateToken (cdr_context c))"
  "well_keyed (chr_candidates r) \<Longrightarrow> well_keyed (chr_candidates (store_candidates records r))"
  "length (chr_candidates (store_candidates records r)) \<le> length (chr_candidates r) + length records"
proof -
  let ?f = "\<lambda>record. put (cnd_CandidateToken (cdr_context record)) record"
  have "get (fold ?f records m) t = Some c \<Longrightarrow> get m t = Some c \<or> (c \<in> set records \<and> t = cnd_CandidateToken (cdr_context c))" for m
  proof (induction records arbitrary: m)
    case (Cons a records)
    from Cons.IH [of "?f a m"] Cons.prems show ?case by (auto split: if_splits)
  qed simp
  then show "get (chr_candidates (store_candidates records r)) t = Some c \<Longrightarrow>
     get (chr_candidates r) t = Some c \<or> (c \<in> set records \<and> t = cnd_CandidateToken (cdr_context c))"
    by (simp add: store_candidates_def)
  have "well_keyed m \<Longrightarrow> well_keyed (fold ?f records m)" for m by (induction records arbitrary: m) auto
  then show "well_keyed (chr_candidates r) \<Longrightarrow> well_keyed (chr_candidates (store_candidates records r))"
    by (simp add: store_candidates_def)
  have "length (fold ?f records m) \<le> length m + length records" for m
  proof (induction records arbitrary: m)
    case (Cons c cs)
    from Cons.IH [of "?f c m"] length_put [of "cnd_CandidateToken (cdr_context c)" c m] show ?case by simp
  qed simp
  then show "length (chr_candidates (store_candidates records r)) \<le> length (chr_candidates r) + length records"
    by (simp add: store_candidates_def)
qed

text \<open>Invariants other than that of the candidates do not depend on them.\<close>

lemma candidates_frame:
  "bindings_ok cd (r\<lparr>chr_candidates := m\<rparr>) = bindings_ok cd r" "bkeys_ok (r\<lparr>chr_candidates := m\<rparr>) = bkeys_ok r"
  "accounts_ok (r\<lparr>chr_candidates := m\<rparr>) = accounts_ok r" "routes_ok (r\<lparr>chr_candidates := m\<rparr>) = routes_ok r"
  by (simp_all add: bindings_ok_def bkeys_ok_def accounts_ok_def account_owner_def routes_ok_def on_route_def)

lemma candidates_shrink:
  assumes "candidates_ok r" and "well_keyed m" and "length m \<le> length (chr_candidates r)"
    and "\<And>t c. get m t = Some c \<Longrightarrow> get (chr_candidates r) t = Some c"
  shows "candidates_ok (r\<lparr>chr_candidates := m\<rparr>)"
proof -
  have "int (length m) \<le> chr_maxCandidates r" using assms(1,3) by (simp add: candidates_ok_def)
  with assms(1,2) assms(4) show ?thesis unfolding candidates_ok_def by simp blast
qed

lemma prune_ok:
  assumes "channel_ok cd r"
  shows "channel_ok cd (pruneCandidatesLocked now r)"
proof -
  let ?m = "filter (\<lambda>(token, record). now < cnd_ExpiresAt (cdr_context record)) (chr_candidates r)"
  have ok: "candidates_ok r" and wk: "well_keyed (chr_candidates r)" using assms by (simp_all add: channel_ok_def candidates_ok_def)
  have "candidates_ok (r\<lparr>chr_candidates := ?m\<rparr>)"
    by (rule candidates_shrink [OF ok]) (use wk in \<open>auto simp: get_filter split: option.splits if_splits\<close>)
  with assms show ?thesis by (simp add: channel_ok_def pruneCandidatesLocked_def candidates_frame)
qed

lemma issued_valid:
  "NewCandidateBindingContext channel digest v cdg p token t e = Inr c \<Longrightarrow>
     candidate_Validate c 0 = None \<and> cnd_Channel c = channel \<and> cnd_PublicRouteKeyDigest c = digest
     \<and> cnd_BindingVersion c = v \<and> cnd_ConfigDigest c = cdg \<and> cnd_CandidateToken c = token \<and> cnd_IssuedAt c = t \<and> cnd_ExpiresAt c = e"
  by (auto simp: NewCandidateBindingContext_def candidate_Validate_def Let_def)

lemma store_candidates_ok:
  assumes ok: "channel_ok cd r"
    and issue: "issue_candidates channel digest now tokens r 0 (sort_key scope_rank scopes) = Inr records"
    and room: "int (length scopes) \<le> chr_maxCandidates r - int (length (chr_candidates r))"
    and on: "\<And>scope. scope \<in> set scopes \<Longrightarrow> on_route r (RouteScope channel digest) scope"
  shows "channel_ok cd (store_candidates records r)"
proof -
  have c: "candidates_ok r" using ok by (simp add: channel_ok_def)
  let ?r = "store_candidates records r"
  have id: "chr_byID ?r = chr_byID r" "chr_maxCandidates ?r = chr_maxCandidates r" by (simp_all add: store_candidates_def)
  have "length records = length scopes" using issued_length [OF issue] by simp
  with room stored_candidates(3) [of records r] have len: "int (length (chr_candidates ?r)) \<le> chr_maxCandidates r" by linarith
  let ?good = "\<lambda>a. candidate_Validate (cdr_context a) 0 = None \<and> (\<exists>b. get (chr_byID r) (cdr_scope a) = Some b
      \<and> cnd_BindingVersion (cdr_context a) \<le> bnd_Version b \<and> bnd_Channel b = cnd_Channel (cdr_context a))"
  have new: "?good a" if a: "a \<in> set records" for a
  proof -
    from issued [OF issue a] obtain b where b: "get (chr_byID r) (cdr_scope a) = Some b" "cdr_scope a \<in> set scopes"
      and ctxt: "NewCandidateBindingContext channel digest (bnd_Version b) (bnd_ConfigDigest b) PurposeWebhookVerification
         (cnd_CandidateToken (cdr_context a)) now (now + chr_candidateTTL r) = Inr (cdr_context a)"
      by auto
    from on [OF b(2)] b(1) have "bnd_Channel b = channel" by (simp add: on_route_def route_of_def)
    with b(1) issued_valid [OF ctxt] show ?thesis by simp
  qed
  have "candidates_ok ?r"
    unfolding candidates_ok_def id
  proof (intro conjI allI impI)
    show "well_keyed (chr_candidates ?r)" using c by (intro stored_candidates(2)) (simp add: candidates_ok_def)
    show "int (length (chr_candidates ?r)) \<le> chr_maxCandidates r" by (rule len)
  next
    fix t a
    assume "get (chr_candidates ?r) t = Some a"
    from stored_candidates(1) [OF this] have "cnd_CandidateToken (cdr_context a) = t \<and> ?good a"
    proof
      assume "get (chr_candidates r) t = Some a"
      with c show ?thesis by (simp add: candidates_ok_def)
    qed (use new in simp)
    then show "cnd_CandidateToken (cdr_context a) = t" "candidate_Validate (cdr_context a) 0 = None"
      "\<exists>b. get (chr_byID r) (cdr_scope a) = Some b
      \<and> cnd_BindingVersion (cdr_context a) \<le> bnd_Version b \<and> bnd_Channel b = cnd_Channel (cdr_context a)"
      by simp_all
  qed
  with ok show ?thesis by (simp add: channel_ok_def store_candidates_def candidates_frame)
qed

lemma lookup_cases:
  assumes "channel_LookupCandidates look channel digest clock tokens r = (x, r')"
  obtains "r' = r" | "r' = pruneCandidatesLocked (channel_nowUTC clock) r"
  | records scopes where "x = Inr (map cdr_context records)"
      "issue_candidates channel digest (channel_nowUTC clock) tokens (pruneCandidatesLocked (channel_nowUTC clock) r) 0
         (sort_key scope_rank scopes) = Inr records"
      "scopes = filter (active_scope (pruneCandidatesLocked (channel_nowUTC clock) r))
         (route_scopes (pruneCandidatesLocked (channel_nowUTC clock) r) (RouteScope channel digest))"
      "int (length scopes) \<le> chr_maxCandidates r - int (length (chr_candidates (pruneCandidatesLocked (channel_nowUTC clock) r)))"
      "r' = store_candidates records (pruneCandidatesLocked (channel_nowUTC clock) r)"
proof -
  let ?r = "pruneCandidatesLocked (channel_nowUTC clock) r"
  let ?scopes = "filter (active_scope ?r) (route_scopes ?r (RouteScope channel digest))"
  let ?e1 = "first_error
       [channel_checkContext look 0,
        fails (channel_Validate channel \<noteq> None \<or> ValidatePublicRouteKeyDigest digest \<noteq> None) ChErrCandidateUnavailable,
        channel_checkContext look 1, channel_checkContext look 2]"
  let ?e2 = "first_error
        [fails (?scopes = []) ChErrCandidateUnavailable,
         fails (int (length ?scopes) > chr_maxCandidates ?r - int (length (chr_candidates ?r))) ChErrCandidateUnavailable]"
  let ?is = "issue_candidates channel digest (channel_nowUTC clock) tokens ?r 0 (sort_key scope_rank ?scopes)"
  have eq: "check ?e1 r (check ?e2 ?r (proceed ?is ?r (\<lambda>records. check (channel_checkContext look 3) ?r
       (Inr (map cdr_context records), store_candidates records ?r)))) = (x, r')"
    using assms unfolding channel_LookupCandidates_def Let_def by simp
  have max: "chr_maxCandidates ?r = chr_maxCandidates r" by (simp add: pruneCandidatesLocked_def)
  show thesis
  proof (cases "?e1 = None \<and> ?e2 = None \<and> channel_checkContext look 3 = None")
    case True
    then have room: "int (length ?scopes) \<le> chr_maxCandidates r - int (length (chr_candidates ?r))" using max by simp
    show thesis
    proof (cases ?is)
      case (Inl e)
      with eq True have "r' = ?r" by (simp del: first_error_Cons)
      then show thesis by (rule that(2))
    next
      case (Inr records)
      with eq True have "x = Inr (map cdr_context records)" "r' = store_candidates records ?r" by (simp_all del: first_error_Cons)
      then show thesis using that(3) [OF _ Inr refl room] by blast
    qed
  next
    case False
    then have "r' = r \<or> r' = ?r"
      using eq by (cases ?e1; cases ?e2; cases "channel_checkContext look 3"; cases ?is) (simp_all del: first_error_Cons)
    then show thesis using that(1,2) by blast
  qed
qed

lemma lookup_ok:
  assumes "channel_LookupCandidates look channel digest clock tokens r = (x, r')" and ok: "channel_ok cd r"
  shows "channel_ok cd r'"
  using assms(1)
proof (cases rule: lookup_cases)
  case (3 records scopes)
  let ?r = "pruneCandidatesLocked (channel_nowUTC clock) r"
  have p: "channel_ok cd ?r" by (rule prune_ok [OF ok])
  have "routes_ok ?r" using p by (simp add: channel_ok_def)
  then have "on_route ?r (RouteScope channel digest) scope" if "scope \<in> set scopes" for scope
    using that by (simp add: 3(3) routes_ok_def)
  moreover have "chr_maxCandidates ?r = chr_maxCandidates r" by (simp add: pruneCandidatesLocked_def)
  ultimately show ?thesis unfolding 3(5) using 3(4) by (intro store_candidates_ok [OF p 3(2)]) simp_all
qed (use ok prune_ok in simp_all)

lemma consume_cases:
  assumes "channel_ConsumeCandidate look c clock r = (x, r')"
  obtains (kept) e where "x = Inl e" "r' = r"
  | (dropped) e where "x = Inl e" "r' = r\<lparr>chr_candidates := del (cnd_CandidateToken c) (chr_candidates r)\<rparr>"
  | (taken) b scope where "x = Inr b" "r' = r\<lparr>chr_candidates := del (cnd_CandidateToken c) (chr_candidates r)\<rparr>"
      "get (chr_candidates r) (cnd_CandidateToken c) = Some \<lparr>cdr_scope = scope, cdr_context = c\<rparr>"
      "get (chr_byID r) scope = Some b"
      "candidate_current b c" "cnd_IssuedAt c \<le> channel_nowUTC clock" "channel_nowUTC clock < cnd_ExpiresAt c"
proof -
  let ?e = "first_error
       [channel_checkContext look 0,
        fails (cnd_CandidateToken c = []) ChErrCandidateUnavailable,
        fails (candidate_Validate c 0 \<noteq> None) ChErrCandidateUnavailable,
        channel_checkContext look 1,
        channel_checkContext look 2]"
  let ?now = "channel_nowUTC clock"
  let ?r = "r\<lparr>chr_candidates := del (cnd_CandidateToken c) (chr_candidates r)\<rparr>"
  note eq = assms [unfolded channel_ConsumeCandidate_def Let_def]
  show thesis
  proof (cases "?e = None \<and> (\<exists>scope. get (chr_candidates r) (cnd_CandidateToken c) = Some \<lparr>cdr_scope = scope, cdr_context = c\<rparr>)")
    case False
    have "\<exists>e. x = Inl e \<and> r' = r"
    proof (cases ?e)
      case (Some e)
      with eq show ?thesis by (auto simp del: first_error_Cons)
    next
      case None
      show ?thesis
      proof (cases "get (chr_candidates r) (cnd_CandidateToken c)")
        case (Some rec)
        then have "cdr_context rec \<noteq> c" using False None by (cases rec) auto
        with eq Some None show ?thesis by (auto simp del: first_error_Cons)
      qed (use eq None in \<open>auto simp del: first_error_Cons\<close>)
    qed
    then show thesis using kept by blast
  next
    case True
    then obtain scope where e: "?e = None"
      and rec: "get (chr_candidates r) (cnd_CandidateToken c) = Some \<lparr>cdr_scope = scope, cdr_context = c\<rparr>" by blast
    show thesis
    proof (cases "?now < cnd_ExpiresAt c \<and> \<not> ?now < cnd_IssuedAt c \<and> (\<exists>b. get (chr_byID r) scope = Some b \<and> candidate_current b c)")
      case True
      then obtain b where b: "get (chr_byID r) scope = Some b" "candidate_current b c" by blast
      with eq e rec True have "x = Inr b" "r' = ?r" by (simp_all del: first_error_Cons)
      then show thesis using taken [OF _ _ rec b] True by simp
    next
      case False
      with eq e rec have "\<exists>e. x = Inl e \<and> r' = ?r"
        by (cases "get (chr_byID r) scope"; cases "\<not> ?now < cnd_ExpiresAt c \<or> ?now < cnd_IssuedAt c")
          (auto simp del: first_error_Cons)
      then show thesis using dropped by blast
    qed
  qed
qed

lemma consume_ok:
  assumes "channel_ConsumeCandidate look c clock r = (x, r')" and ok: "channel_ok cd r"
  shows "channel_ok cd r'"
proof -
  have "channel_ok cd (r\<lparr>chr_candidates := del t (chr_candidates r)\<rparr>)" for t
  proof -
    have "candidates_ok (r\<lparr>chr_candidates := del t (chr_candidates r)\<rparr>)"
      using ok by (intro candidates_shrink) (auto simp: channel_ok_def candidates_ok_def length_delete_le split: if_splits)
    with ok show ?thesis by (simp add: channel_ok_def candidates_frame)
  qed
  with assms show ?thesis by (cases rule: consume_cases) simp_all
qed

lemma channel_ops_keep:
  "keeps r (channel_Create cd look ci ms random clock r)" "keeps r (channel_UpdateConfiguration cd look ui clock r)"
  "keeps r (channel_TransitionStatus cd look ti clock r)"
  unfolding channel_Create_def channel_UpdateConfiguration_def channel_TransitionStatus_def store_change_def Let_def
  by (auto intro!: keeps_intros split: prod.splits)

lemma channel_step_ok [wf_intros]:
  assumes "channel_step cd T r r'" and ok: "channel_ok cd r"
  shows "channel_ok cd r'"
  using assms(1)
proof cases
  case (create look ci ms random clock x1)
  then show ?thesis using ok create_ok keepsD [OF channel_ops_keep(1)] by (cases x1) metis+
next
  case (update look ui clock x1)
  show ?thesis
  proof (cases x1)
    case (Inl e)
    with update ok keepsD [OF channel_ops_keep(2)] show ?thesis by metis
  next
    case (Inr y)
    with update obtain cur b e where "get (chr_byID r) (BindingScope (bui_TenantID ui) (bui_BindingID ui)) = Some cur"
      and p: "PrepareConfigurationChange cd cur ui (channel_nowUTC clock) = Inr (b, e)"
      and "store_change look (BindingScope (bui_TenantID ui) (bui_BindingID ui)) cur (b, e) r = (Inr y, r')"
      by (auto simp: channel_UpdateConfiguration_def Let_def)
    with store_change_ok [OF ok] PrepareConfigurationChange_follows [OF p] show ?thesis by blast
  qed
next
  case (transition look ti clock x1)
  show ?thesis
  proof (cases x1)
    case (Inl e)
    with transition ok keepsD [OF channel_ops_keep(3)] show ?thesis by metis
  next
    case (Inr y)
    with transition obtain cur b e where "get (chr_byID r) (BindingScope (bti_TenantID ti) (bti_BindingID ti)) = Some cur"
      and p: "PrepareStatusChange cd cur ti (channel_nowUTC clock) = Inr (b, e)"
      and "store_change look (BindingScope (bti_TenantID ti) (bti_BindingID ti)) cur (b, e) r = (Inr y, r')"
      by (auto simp: channel_TransitionStatus_def Let_def)
    with store_change_ok [OF ok] PrepareStatusChange_follows [OF p] show ?thesis by blast
  qed
qed (use ok lookup_ok consume_ok in blast)+

lemma channel_star_ok: "(channel_step cd T)\<^sup>*\<^sup>* r r' \<Longrightarrow> channel_ok cd r \<Longrightarrow> channel_ok cd r'"
  by (induction rule: rtranclp_induct) (auto intro: channel_step_ok)

subsection \<open>Tokens\<close>

lemma token_stays_gone:
  assumes "channel_step cd T r r'" and "t \<notin> T" and gone: "get (chr_candidates r) t = None"
  shows "get (chr_candidates r') t = None"
  using assms(1)
proof cases
  case (create look ci ms random clock x1)
  then have "chr_candidates r' = chr_candidates r"
    by (auto simp: channel_Create_def Let_def check_def proceed_def split: option.splits sum.splits)
  then show ?thesis using gone by simp
next
  case (update look ui clock x1)
  then have "chr_candidates r' = chr_candidates r"
    by (auto simp: channel_UpdateConfiguration_def store_change_def Let_def check_def fetch_def proceed_def
        split: option.splits sum.splits prod.splits)
  then show ?thesis using gone by simp
next
  case (transition look ti clock x1)
  then have "chr_candidates r' = chr_candidates r"
    by (auto simp: channel_TransitionStatus_def store_change_def Let_def check_def fetch_def proceed_def
        split: option.splits sum.splits prod.splits)
  then show ?thesis using gone by simp
next
  case (lookup look channel digest clock tokens x2)
  have pruned: "get (chr_candidates (pruneCandidatesLocked (channel_nowUTC clock) r)) t = None"
    using gone by (auto simp: pruneCandidatesLocked_def map_of_eq_None_iff)
  from lookup(1) show ?thesis
  proof (cases rule: lookup_cases)
    case (3 records scopes)
    show ?thesis
    proof (rule ccontr)
      assume "get (chr_candidates r') t \<noteq> None"
      then obtain c where "get (chr_candidates r') t = Some c" by blast
      from stored_candidates(1) [OF this [unfolded 3(5)]] pruned
      have "c \<in> set records" "t = cnd_CandidateToken (cdr_context c)" by simp_all
      with issued [OF 3(2)] lookup(2) assms(2) show False by blast
    qed
  qed (use gone pruned in simp_all)
next
  case (consume look c clock x3)
  from consume show ?thesis using gone by (cases rule: consume_cases) simp_all
qed

end
