(* ===== verification/Channel_Flow.thy ===== *)
theory Channel_Flow
  imports Channel_Props Agent_Locking
begin

text \<open>
  The way of a message through the Channel Bindings: what every reachable repository
  guarantees, that a candidate is used once, what a resolved routing target names, and that
  runner identities of different conversations differ.
\<close>

declare map_of_eq_Some_iff [simp del] split_paired_All [simp del] split_paired_Ex [simp del]

subsection \<open>A small world\<close>

text \<open>The digest and the encodings of this world are concrete functions.\<close>

definition demo_codec :: channel_codec where
  "demo_codec = \<lparr>cc_digest = (\<lambda>p. Some (replicate 64 CHR ''a'')),
     cc_json = (\<lambda>p. Some (case pc_Telegram p of None \<Rightarrow> ''null'' | Some t \<Rightarrow> tg_WebhookPath t)),
     cc_origin = (\<lambda>u. True)\<rparr>"

definition demo_binding_input :: binding_CreateInput where
  "demo_binding_input = \<lparr>bci_TenantID = demo_tid, bci_BindingKey = ''tg'', bci_Channel = ChannelTelegram,
     bci_ProviderAccountID = ''bot'', bci_PublicRouteKeyDigest = replicate 64 CHR ''b'', bci_AppID = demo_aid,
     bci_SecretRef = ''secret'', bci_Protocol = \<lparr>pc_WeCom = None, pc_Telegram = Some \<lparr>tg_APIBaseURL = [], tg_WebhookPath = ''/w''\<rparr>\<rparr>,
     bci_Status = ch_StatusActive,
     bci_Metadata = \<lparr>chm_ActorType = ''user'', chm_ActorID = ''u'', chm_Reason = ''r'', chm_CorrelationID = ''c''\<rparr>\<rparr>"

definition demo_bid :: string where "demo_bid = ''cb_'' @ ulid 5 demo_bytes"

lemma crockford_digits_numeral:
  "crockford_digits (numeral k) v acc = crockford_digits (pred_numeral k) (v div 32) (crockford ! (v mod 32) # acc)"
  by (simp only: numeral_eq_Suc crockford_digits.simps)

lemma demo_ulid: "ulid 5 demo_bytes = ''00000000050W3GE1R70W3GE1R7''"
proof -
  have "ms_bytes 6 5 [] @ demo_bytes = [0,0,0,0,0,5,7,7,7,7,7,7,7,7,7,7]" by code_simp
  then have "set_bytes (ms_bytes 6 5 [] @ demo_bytes) = 6077815297042959223424775" by (simp add: set_bytes_def)
  then have "ulid 5 demo_bytes = crockford_digits 26 6077815297042959223424775 []" by (simp only: ulid_def)
  also have "\<dots> = map ((!) crockford) [0,0,0,0,0,0,0,0,0,5,0,28,3,16,14,1,24,7,0,28,3,16,14,1,24,7]"
    by (simp add: crockford_digits_numeral)
  also have "\<dots> = ''00000000050W3GE1R70W3GE1R7''" by code_simp
  finally show ?thesis .
qed

lemmas demo_ids_code [code] = demo_tid_def [unfolded demo_ulid] demo_aid_def [unfolded demo_ulid]
  demo_bid_def [unfolded demo_ulid]

definition demo_binding :: binding where
  "demo_binding = \<lparr>bnd_TenantID = demo_tid, bnd_BindingID = demo_bid, bnd_BindingKey = ''tg'',
     bnd_Channel = ChannelTelegram, bnd_ProviderAccountID = ''bot'', bnd_PublicRouteKeyDigest = replicate 64 CHR ''b'',
     bnd_AppID = demo_aid, bnd_SecretRef = ''secret'',
     bnd_Protocol = \<lparr>pc_WeCom = None, pc_Telegram = Some \<lparr>tg_APIBaseURL = [], tg_WebhookPath = ''/w''\<rparr>\<rparr>,
     bnd_Status = ch_StatusActive, bnd_Version = 1, bnd_ConfigDigest = replicate 64 CHR ''a'', bnd_CreatedAt = 1, bnd_UpdatedAt = 1\<rparr>"

definition demo_channels :: channel_repo where
  "demo_channels = snd (channel_Create demo_codec background demo_binding_input 5 (Some demo_bytes) (\<lambda>n. 1) (channel_NewRepository None))"

definition demo_lookup :: "(channel_error + candidate list) \<times> channel_repo" where
  "demo_lookup = channel_LookupCandidates background ChannelTelegram (replicate 64 CHR ''b'') (\<lambda>n. 2)
     (\<lambda>n. Some (replicate 32 CHR ''t'')) demo_channels"

definition demo_candidate :: candidate where "demo_candidate = hd (projr (fst demo_lookup))"

definition demo_target :: routing_target where
  "demo_target = \<lparr>rt_fields = binding_fields demo_binding,
     rt_capability = Some \<lparr>vb_fields = binding_fields demo_binding, vb_proof = Some (binding_fields demo_binding)\<rparr>\<rparr>"

lemma demo_binding_valid: "binding_Validate demo_codec demo_binding = None"
  by code_simp

lemma demo_parts: "ch_validateTenantID demo_tid = None" "ch_validateAppID demo_aid = None"
  "normalizeBindingKey ''tg'' = Inr ''tg''" "normalizeRequiredValue ''bot'' 256 = Inr ''bot''"
  "normalizeRequiredValue ''secret'' 256 = Inr ''secret''"
  "normalizeRouteKeyDigest (replicate 64 CHR ''b'') = Inr (replicate 64 CHR ''b'')"
  "normalizeProtocolConfiguration demo_codec ChannelTelegram (bci_Protocol demo_binding_input)
   = Inr (bci_Protocol demo_binding_input)"
  by code_simp+

lemma demo_NewBinding: "NewBindingAt demo_codec demo_binding_input 5 (Some demo_bytes) 1 = Inr demo_binding"
  using demo_parts
  by (simp add: NewBindingAt_def demo_binding_input_def newBindingID_def demo_bid_def demo_binding_def
      computeConfigDigest_def demo_codec_def channel_Validate_def Let_def ch_StatusActive_def)

lemma demo_binding_change: "\<exists>event. PrepareCreatedChange demo_codec demo_binding (bci_Metadata demo_binding_input) = Inr event"
proof -
  have "\<not> isl (PrepareCreatedChange demo_codec demo_binding (bci_Metadata demo_binding_input))" by code_simp
  then show ?thesis by (cases "PrepareCreatedChange demo_codec demo_binding (bci_Metadata demo_binding_input)") simp_all
qed

lemma demo_channels_code [code]:
  "demo_channels = addIndexesLocked demo_binding ((channel_NewRepository None)
     \<lparr>chr_byID := [(binding_scope_of demo_binding, demo_binding)],
      chr_byKey := [(BindingKeyScope (bnd_TenantID demo_binding) (bnd_BindingKey demo_binding), bnd_BindingID demo_binding)]\<rparr>)"
  using demo_binding_change
  by (auto simp: demo_channels_def channel_Create_def demo_NewBinding channel_nowUTC_def channel_checkContext_def
      background_def channel_NewRepository_def activeAccountInUseLocked_def Let_def)

lemma demo_binding_stored: "get (chr_byID demo_channels) (BindingScope demo_tid demo_bid) = Some demo_binding"
  by code_simp

lemma demo_token: "cnd_CandidateToken demo_candidate = replicate 32 CHR ''t''"
  by code_simp

lemma demo_consumed:
  "fst (channel_ConsumeCandidate background demo_candidate (\<lambda>n. 3) (snd demo_lookup)) = Inr demo_binding"
  by code_simp

lemma demo_steps: "channel_step demo_codec {} (channel_NewRepository None) demo_channels"
  "channel_step demo_codec {replicate 32 CHR ''t''} demo_channels (snd demo_lookup)"
proof -
  show "channel_step demo_codec {} (channel_NewRepository None) demo_channels"
    unfolding demo_channels_def by (rule channel_step.create) (rule prod.collapse [symmetric])
  show "channel_step demo_codec {replicate 32 CHR ''t''} demo_channels (snd demo_lookup)"
    unfolding demo_lookup_def by (rule channel_step.lookup) (rule prod.collapse [symmetric], simp)
qed

lemma demo_answers:
  "tenant_Get (Some background) demo_tid demo_tenants = Inr demo_tenant"
  "NewConfigurationSnapshot (Some demo_tenant) = Inr (Some demo_tenant)"
  "agent_Get background demo_tid demo_aid demo_apps3 = Inr demo_active"
  "app_Validate demo_active = None"
proof -
  have t: "tenant_Validate demo_tenant = None"
    using tenant_repo_okD(2) [OF tenant_reachable_ok [OF demo_tenants_reachable] demo_stored] .
  show "tenant_Get (Some background) demo_tid demo_tenants = Inr demo_tenant"
    using demo_stored by (simp add: tenant_Get_def tenant_checkContext_def demo_tenant_id)
  show "NewConfigurationSnapshot (Some demo_tenant) = Inr (Some demo_tenant)"
    using t demo_tenant_fields(1) by (simp add: NewConfigurationSnapshot_def CanAcceptExecution_def)
  show "agent_Get background demo_tid demo_aid demo_apps3 = Inr demo_active"
    using demo_active_stored
    by (simp add: agent_Get_def agent_getLocked_def agent_enter_def agent_checkContext_def demo_scope_def)
  show "app_Validate demo_active = None"
    using agent_reachable_ok [OF demo_repo3] apps_okD(2) [OF _ demo_active_stored] by (auto simp: agent_repo_ok_def)
qed

lemma demo_fields_valid: "verified_Validate \<lparr>vb_fields = binding_fields demo_binding, vb_proof = Some (binding_fields demo_binding)\<rparr> = None"
  "cnd_Channel demo_candidate \<noteq> []" "CanAcceptInbound demo_binding"
  by code_simp+

lemma demo_target_built: "newVerifiedBinding demo_codec demo_binding = Inr \<lparr>vb_fields = binding_fields demo_binding, vb_proof = Some (binding_fields demo_binding)\<rparr>"
  "NewRoutingTarget demo_codec (Some demo_tenant) (Some demo_binding) (Some demo_active)
     \<lparr>vb_fields = binding_fields demo_binding, vb_proof = Some (binding_fields demo_binding)\<rparr> = Inr demo_target"
  using demo_answers(2,4) demo_fields_valid demo_binding_valid demo_tenant_id
  by (auto simp: newVerifiedBinding_def NewRoutingTarget_def snapshot_Tenant_def NewConfigurationSnapshot_def demo_target_def
      binding_fields_def demo_binding_def demo_active_def demo_app_def app_CanAcceptExecution_def)

lemma demo_binding_names: "bnd_TenantID demo_binding = demo_tid" "bnd_AppID demo_binding = demo_aid"
  by (simp_all add: demo_binding_def)

lemma demo_resolved:
  "fst (ResolveCandidateRoutingTarget demo_codec (\<lambda>i. background) (\<lambda>look b. None) demo_candidate (\<lambda>n. 3)
     demo_tenants demo_apps3 (snd demo_lookup)) = Inr demo_target"
proof -
  obtain r' where "channel_ConsumeCandidate background demo_candidate (\<lambda>n. 3) (snd demo_lookup) = (Inr demo_binding, r')"
    using demo_consumed by (cases "channel_ConsumeCandidate background demo_candidate (\<lambda>n. 3) (snd demo_lookup)") auto
  then show ?thesis
    using demo_answers demo_fields_valid(2) demo_target_built
    by (simp add: ResolveCandidateRoutingTarget_def channel_checkContext_def demo_binding_names)
qed

subsection \<open>Reachable repositories\<close>

text \<open>
  In every reachable state of the Channel Binding repository the stored bindings are valid
  and stand under their own identity, keys are unique within a tenant, the index of a public
  route lists exactly the active bindings of that route, no account of a messenger is served
  by two active bindings, and the retained candidates stay within their bound.
\<close>

theorem channel_indexes_exact:
  assumes "(channel_step cd T)\<^sup>*\<^sup>* (channel_NewRepository options) r"
  shows "(\<forall>k b. get (chr_byID r) k = Some b \<longrightarrow> k = BindingScope (bnd_TenantID b) (bnd_BindingID b) \<and> binding_Validate cd b = None)
    \<and> (\<forall>k b k' b'. get (chr_byID r) k = Some b \<and> get (chr_byID r) k' = Some b' \<and> bnd_TenantID b = bnd_TenantID b'
         \<and> bnd_BindingKey b = bnd_BindingKey b' \<longrightarrow> k = k')
    \<and> (\<forall>k b k' b'. get (chr_byID r) k = Some b \<and> get (chr_byID r) k' = Some b' \<and> bnd_Status b = ch_StatusActive
         \<and> bnd_Status b' = ch_StatusActive \<and> bnd_Channel b = bnd_Channel b'
         \<and> bnd_ProviderAccountID b = bnd_ProviderAccountID b' \<longrightarrow> k = k')
    \<and> (\<forall>channel digest. distinct (route_scopes r (RouteScope channel digest))
         \<and> set (route_scopes r (RouteScope channel digest))
           = {k. \<exists>b. get (chr_byID r) k = Some b \<and> bnd_Status b = ch_StatusActive \<and> bnd_Channel b = channel
                   \<and> bnd_PublicRouteKeyDigest b = digest})
    \<and> int (length (chr_candidates r)) \<le> chr_maxCandidates r"
proof (intro conjI)
  have ok: "channel_ok cd r" by (rule channel_star_ok [OF assms channel_new_ok])
  have scope: "k = BindingScope (bnd_TenantID b) (bnd_BindingID b) \<and> binding_Validate cd b = None"
    if "get (chr_byID r) k = Some b" for k b
    using ok that by (auto simp: channel_ok_def bindings_ok_def binding_scope_of_def)
  then show "\<forall>k b. get (chr_byID r) k = Some b \<longrightarrow> k = BindingScope (bnd_TenantID b) (bnd_BindingID b) \<and> binding_Validate cd b = None"
    by blast
  have key: "get (chr_byKey r) (BindingKeyScope (bnd_TenantID b) (bnd_BindingKey b)) = Some (bnd_BindingID b)"
    if "get (chr_byID r) k = Some b" for k b
    using ok that scope [OF that] by (auto simp: channel_ok_def bkeys_ok_def)
  show "\<forall>k b k' b'. get (chr_byID r) k = Some b \<and> get (chr_byID r) k' = Some b' \<and> bnd_TenantID b = bnd_TenantID b'
         \<and> bnd_BindingKey b = bnd_BindingKey b' \<longrightarrow> k = k'"
  proof (intro allI impI, elim conjE)
    fix k b k' b'
    assume a: "get (chr_byID r) k = Some b" "get (chr_byID r) k' = Some b'" "bnd_TenantID b = bnd_TenantID b'"
      "bnd_BindingKey b = bnd_BindingKey b'"
    from key [OF a(1)] key [OF a(2)] a(3,4) have "bnd_BindingID b = bnd_BindingID b'" by simp
    with scope [OF a(1)] scope [OF a(2)] a(3) show "k = k'" by simp
  qed
  have account: "get (chr_activeAccounts r) (AccountScope (bnd_Channel b) (bnd_ProviderAccountID b)) = Some k"
    if "get (chr_byID r) k = Some b" "bnd_Status b = ch_StatusActive" for k b
    using ok that by (simp add: channel_ok_def accounts_ok_def account_owner_def account_of_def)
  show "\<forall>k b k' b'. get (chr_byID r) k = Some b \<and> get (chr_byID r) k' = Some b' \<and> bnd_Status b = ch_StatusActive
         \<and> bnd_Status b' = ch_StatusActive \<and> bnd_Channel b = bnd_Channel b'
         \<and> bnd_ProviderAccountID b = bnd_ProviderAccountID b' \<longrightarrow> k = k'"
    using account by (metis option.inject)
  show "\<forall>channel digest. distinct (route_scopes r (RouteScope channel digest))
         \<and> set (route_scopes r (RouteScope channel digest))
           = {k. \<exists>b. get (chr_byID r) k = Some b \<and> bnd_Status b = ch_StatusActive \<and> bnd_Channel b = channel
                   \<and> bnd_PublicRouteKeyDigest b = digest}"
    using ok by (auto simp: channel_ok_def routes_ok_def on_route_def route_of_def)
  show "int (length (chr_candidates r)) \<le> chr_maxCandidates r" using ok by (simp add: channel_ok_def candidates_ok_def)
qed

theorem channel_indexes_exact_witness:
  "(channel_step demo_codec {})\<^sup>*\<^sup>* (channel_NewRepository None) demo_channels
   \<and> BindingScope demo_tid demo_bid \<in> set (route_scopes demo_channels (RouteScope ChannelTelegram (replicate 64 CHR ''b'')))"
proof
  show r: "(channel_step demo_codec {})\<^sup>*\<^sup>* (channel_NewRepository None) demo_channels"
    using demo_steps(1) by (rule r_into_rtranclp)
  show "BindingScope demo_tid demo_bid \<in> set (route_scopes demo_channels (RouteScope ChannelTelegram (replicate 64 CHR ''b'')))"
    using channel_indexes_exact [OF r] demo_binding_stored by (auto simp: demo_binding_def)
qed

text \<open>
  C31: a candidate is a capability for one use. After a candidate was consumed, no later
  operation consumes it or any other candidate with its token again, unless the random source
  draws the token a second time; whatever the caller presents is answered as unavailable.
\<close>

theorem channel_candidate_once:
  assumes "channel_ConsumeCandidate look c clock r = (Inr b, r1)"
    and "(channel_step cd T)\<^sup>*\<^sup>* r1 r2" and "cnd_CandidateToken c \<notin> T"
    and "cnd_CandidateToken c' = cnd_CandidateToken c"
  shows "\<exists>e. channel_ConsumeCandidate look' c' clock' r2 = (Inl e, r2)"
proof -
  from assms(1) have "get (chr_candidates r1) (cnd_CandidateToken c) = None" by (cases rule: consume_cases) auto
  with assms(2) have gone: "get (chr_candidates r2) (cnd_CandidateToken c') = None"
    unfolding assms(4)
    by (induction rule: rtranclp_induct) (use token_stays_gone [OF _ assms(3)] in blast)+
  obtain x r3 where "channel_ConsumeCandidate look' c' clock' r2 = (x, r3)" by fastforce
  then show ?thesis
  proof (cases rule: consume_cases)
    case (dropped e)
    moreover have "del (cnd_CandidateToken c') (chr_candidates r2) = chr_candidates r2"
      using gone by (simp add: delete_idem map_of_eq_None_iff)
    ultimately show ?thesis using \<open>channel_ConsumeCandidate look' c' clock' r2 = (x, r3)\<close> by simp
  qed (use gone \<open>channel_ConsumeCandidate look' c' clock' r2 = (x, r3)\<close> in auto)
qed

theorem channel_candidate_once_witness:
  "\<exists>r e. channel_ConsumeCandidate background demo_candidate (\<lambda>n. 3) (snd demo_lookup) = (Inr demo_binding, r)
     \<and> channel_ConsumeCandidate background demo_candidate (\<lambda>n. 4) r = (Inl e, r)"
proof -
  obtain r where r: "channel_ConsumeCandidate background demo_candidate (\<lambda>n. 3) (snd demo_lookup) = (Inr demo_binding, r)"
    using demo_consumed by (cases "channel_ConsumeCandidate background demo_candidate (\<lambda>n. 3) (snd demo_lookup)") auto
  from channel_candidate_once [OF r, of demo_codec "{}" r demo_candidate background "\<lambda>n. 4"] r show ?thesis by auto
qed

subsection \<open>Resolving a candidate\<close>

lemma tenant_Get_stored: "tenant_Get look i r = Inr t \<Longrightarrow> get (tr_byID r) i = Some t"
  by (auto simp: tenant_Get_def split: option.splits)

lemma agent_Get_stored: "agent_Get look i j r = Inr a \<Longrightarrow> get (ar_apps r) (AppScope i j) = Some a"
  by (auto simp: agent_Get_def agent_getLocked_def split: option.splits)

lemma resolve_cases:
  assumes "ResolveCandidateRoutingTarget cd looks verify c clock tenants apps r = (Inr target, r')"
  obtains b verified t snapshot a where "channel_ConsumeCandidate (looks 1) c clock r = (Inr b, r')"
    "verify (looks 2) b = None" "newVerifiedBinding cd b = Inr verified"
    "tenant_Get (Some (looks 3)) (bnd_TenantID b) tenants = Inr t" "NewConfigurationSnapshot (Some t) = Inr snapshot"
    "agent_Get (looks 4) (bnd_TenantID b) (bnd_AppID b) apps = Inr a"
    "NewRoutingTarget cd snapshot (Some b) (Some a) verified = Inr target"
  using assms unfolding ResolveCandidateRoutingTarget_def
  by (auto split: option.splits sum.splits prod.splits if_splits)

text \<open>
  C32: a candidate resolves only into the route of the binding it was issued for. When the
  resolution succeeds, the presented candidate is the one the repository issued, within its
  lifetime; its binding is still active in the issued version and passed the verification of
  the adapter; tenant and application of the binding are stored and accept executions; the
  target names exactly this binding, is valid, and the candidate is used up.
\<close>

theorem channel_resolution_sound:
  assumes "ResolveCandidateRoutingTarget cd looks verify c clock tenants apps r = (Inr target, r')"
  shows "\<exists>scope b t a. get (chr_candidates r) (cnd_CandidateToken c) = Some \<lparr>cdr_scope = scope, cdr_context = c\<rparr>
    \<and> cnd_IssuedAt c \<le> channel_nowUTC clock \<and> channel_nowUTC clock < cnd_ExpiresAt c
    \<and> get (chr_byID r) scope = Some b \<and> bnd_Status b = ch_StatusActive \<and> bnd_Version b = cnd_BindingVersion c
    \<and> bnd_Channel b = cnd_Channel c \<and> bnd_PublicRouteKeyDigest b = cnd_PublicRouteKeyDigest c
    \<and> verify (looks 2) b = None
    \<and> get (tr_byID tenants) (bnd_TenantID b) = Some t \<and> tnt_TenantID t = bnd_TenantID b \<and> CanAcceptExecution t
    \<and> get (ar_apps apps) (AppScope (bnd_TenantID b) (bnd_AppID b)) = Some a \<and> app_AppID a = bnd_AppID b
    \<and> app_CanAcceptExecution a
    \<and> rt_fields target = binding_fields b \<and> target_Validate target = None
    \<and> get (chr_candidates r') (cnd_CandidateToken c) = None"
  using assms
proof (cases rule: resolve_cases)
  case (1 b verified t snapshot a)
  have sn: "snapshot = Some t" using 1(5) by (auto simp: NewConfigurationSnapshot_def)
  have ver: "verified = \<lparr>vb_fields = binding_fields b, vb_proof = Some (binding_fields b)\<rparr>"
    using 1(3) by (auto simp: newVerifiedBinding_def)
  have acc: "CanAcceptExecution t" "app_CanAcceptExecution a" "tnt_TenantID t = bnd_TenantID b" "app_AppID a = bnd_AppID b"
    "verified_Validate verified = None"
    "target = \<lparr>rt_fields = (binding_fields b)\<lparr>rf_TenantID := tnt_TenantID t, rf_AppID := app_AppID a\<rparr>, rt_capability = Some verified\<rparr>"
    using 1(7) unfolding NewRoutingTarget_def sn ver by (auto simp: snapshot_Tenant_def binding_fields_def Let_def)
  have f: "rt_fields target = binding_fields b" using acc(3,4,6) by (simp add: binding_fields_def)
  have "target_Validate target = None" using acc(5,6) f ver by (simp add: target_Validate_def)
  with 1(1) show ?thesis
  proof (cases rule: consume_cases)
    case (taken b' scope)
    then show ?thesis using 1(2) tenant_Get_stored [OF 1(4)] agent_Get_stored [OF 1(6)] acc(1-4) f \<open>target_Validate target = None\<close>
      by (intro exI [of _ scope] exI [of _ b] exI [of _ t] exI [of _ a]) (simp add: candidate_current_def)
  qed simp_all
qed

theorem channel_resolution_sound_witness:
  "\<exists>r. ResolveCandidateRoutingTarget demo_codec (\<lambda>i. background) (\<lambda>look b. None) demo_candidate (\<lambda>n. 3)
       demo_tenants demo_apps3 (snd demo_lookup) = (Inr demo_target, r)
     \<and> target_Validate demo_target = None \<and> get (chr_candidates r) (cnd_CandidateToken demo_candidate) = None"
proof -
  obtain r where r: "ResolveCandidateRoutingTarget demo_codec (\<lambda>i. background) (\<lambda>look b. None) demo_candidate (\<lambda>n. 3)
      demo_tenants demo_apps3 (snd demo_lookup) = (Inr demo_target, r)"
    using demo_resolved by (metis prod.collapse)
  with channel_resolution_sound [OF r] show ?thesis by blast
qed

subsection \<open>Runner identities\<close>

text \<open>
  The identities under which runners keep memories and sessions do not mix. Two messages get
  the same runner user exactly when tenant, channel, binding and external user agree, and the
  same session exactly when tenant, channel, binding, kind of conversation, conversation
  and thread agree.
\<close>

theorem channel_identity_injective:
  assumes "target_RunnerIdentity target input = Inr x" and "target_RunnerIdentity target' input' = Inr y"
  shows "(rid_UserID x = rid_UserID y \<longleftrightarrow>
            rf_TenantID (rt_fields target) = rf_TenantID (rt_fields target')
            \<and> rf_Channel (rt_fields target) = rf_Channel (rt_fields target')
            \<and> rf_BindingID (rt_fields target) = rf_BindingID (rt_fields target')
            \<and> idi_ExternalUserID input = idi_ExternalUserID input')
    \<and> (rid_SessionID x = rid_SessionID y \<longleftrightarrow>
            rf_TenantID (rt_fields target) = rf_TenantID (rt_fields target')
            \<and> rf_Channel (rt_fields target) = rf_Channel (rt_fields target')
            \<and> rf_BindingID (rt_fields target) = rf_BindingID (rt_fields target')
            \<and> idi_Kind input = idi_Kind input' \<and> conversation_id input = conversation_id input'
            \<and> idi_ExternalThreadID input = idi_ExternalThreadID input')"
proof -
  have parts: "\<exists>conv. conversation_id i = Inr conv
      \<and> namespacedID (rf_TenantID (rt_fields t)) (key [rf_Channel (rt_fields t), rf_BindingID (rt_fields t), idi_ExternalUserID i])
        = Inr (rid_UserID z)
      \<and> namespacedID (rf_TenantID (rt_fields t)) (key [rf_Channel (rt_fields t), rf_BindingID (rt_fields t), idi_Kind i, conv,
          idi_ExternalThreadID i]) = Inr (rid_SessionID z)"
    if "target_RunnerIdentity t i = Inr z" for t i z
    using that by (auto simp: target_RunnerIdentity_def NewRunnerIdentity_def requiredExternalID_def encodeIdentityParts_key
        Let_def split: sum.splits)
  from parts [OF assms(1)] parts [OF assms(2)] show ?thesis
    by (auto dest: namespacedID_inj)
qed

definition demo_inbound :: "string \<Rightarrow> identity_input" where
  "demo_inbound thread = \<lparr>idi_ExternalUserID = ''u'', idi_Kind = ConversationGroup, idi_ExternalPeerID = [],
     idi_ExternalChatID = ''c'', idi_ExternalThreadID = thread\<rparr>"

theorem channel_identity_injective_witness:
  "\<exists>x y. target_RunnerIdentity demo_target (demo_inbound []) = Inr x
     \<and> target_RunnerIdentity demo_target (demo_inbound ''1'') = Inr y
     \<and> rid_UserID x = rid_UserID y \<and> rid_SessionID x \<noteq> rid_SessionID y"
proof -
  have "\<not> isl (target_RunnerIdentity demo_target (demo_inbound []))"
    "\<not> isl (target_RunnerIdentity demo_target (demo_inbound ''1''))" by code_simp+
  then obtain x y where xy: "target_RunnerIdentity demo_target (demo_inbound []) = Inr x"
    "target_RunnerIdentity demo_target (demo_inbound ''1'') = Inr y"
    by (cases "target_RunnerIdentity demo_target (demo_inbound [])";
        cases "target_RunnerIdentity demo_target (demo_inbound ''1'')") auto
  with channel_identity_injective [OF xy] show ?thesis by (auto simp: demo_inbound_def)
qed

end
