(* ===== verification/Gateway.thy ===== *)
theory Gateway
  imports Channel_Routing
begin

text \<open>
  The boundary of the execution gateway (\<^verbatim>\<open>gateway/gateway.go\<close>, \<^verbatim>\<open>gateway/auth.go\<close>) and the
  identities that \<^verbatim>\<open>gateway/dispatch.go\<close> derives from it: principals that carry the proof of
  their authentication, inbound messages, the static authenticator and the runner identity of
  a request.

  A proof is a pointer to a copy of the authenticated identity; two principals never share
  one, so it is that copy, \<open>None\<close> where the pointer is nil. Generated identifiers are an
  argument.
\<close>

declare map_of_eq_Some_iff [simp del] split_paired_All [simp del] split_paired_Ex [simp del]

text \<open>The number of elements with a property, when one element is replaced.\<close>

lemma filter_list_update:
  "i < length xs \<Longrightarrow> length (filter P (xs[i := y])) + (if P (xs ! i) then 1 else 0) = length (filter P xs) + (if P y then 1 else 0)"
proof (induction xs arbitrary: i)
  case (Cons x xs)
  then show ?case by (cases i) auto
qed simp

subsection \<open>Errors and constants\<close>

datatype gateway_error =
    GwErrInvalid
  | GwErrUnauthenticated
  | GwErrPlanUnavailable
  | GwErrNotReady
  | GwErrClosed
  | GwErrRateLimited
  | GwErrDuplicateMessage
  | GwErrIdempotencyCapacity
  | GwErrRunnerCapacity
  | GwErrRunnerUnavailable
  | GwErrExecution
  | GwErrChannel channel_error
  | GwErrTenant tenant_error
  | GwErrCtx ctx_error

definition PrincipalAPI :: string where "PrincipalAPI = ''api''"

definition PrincipalChannel :: string where "PrincipalChannel = ''channel''"

definition ContentTypeText :: string where "ContentTypeText = ''text''"

definition ContentTypeMedia :: string where "ContentTypeMedia = ''media''"

definition ContentTypeRich :: string where "ContentTypeRich = ''rich''"

definition gw_contextErr :: "goctx \<Rightarrow> nat \<Rightarrow> gateway_error option" where
  "gw_contextErr c i = (case c of None \<Rightarrow> Some GwErrInvalid | Some look \<Rightarrow> map_option GwErrCtx (look i))"

subsection \<open>Validation of identifiers\<close>

definition gw_hasControl :: "string \<Rightarrow> bool" where
  "gw_hasControl value \<longleftrightarrow> list_ex (\<lambda>r. r < 0x20 \<or> r = 0x7f) (runes value)"

definition validateExternalID :: "string \<Rightarrow> gateway_error option" where
  "validateExternalID value =
     fails (trim_space value = [] \<or> gw_hasControl value \<or> rune_count value > 1024) GwErrInvalid"

definition validateScopedID :: "string \<Rightarrow> string \<Rightarrow> gateway_error option" where
  "validateScopedID value p =
     first_error
       [fails (length value \<noteq> length p + 26 \<or> take (length p) value \<noteq> p) GwErrInvalid,
        fails (\<not> list_all (\<lambda>r. r \<in> set (map byte crockford)) (runes (trim_prefix p value))) GwErrInvalid]"

definition validateCredential :: "string \<Rightarrow> gateway_error option" where
  "validateCredential credential =
     fails (trim_space credential = [] \<or> gw_hasControl credential \<or> rune_count credential > 256) GwErrInvalid"

subsection \<open>Authentication\<close>

record api_identity =
  aid_TenantID :: string
  aid_AppID :: string
  aid_SubjectID :: string

record authenticated_api =
  aua_identity :: api_identity
  aua_proof :: "api_identity option"

definition proof_validate :: "api_identity option \<Rightarrow> gateway_error option" where
  "proof_validate p =
     (case p of
        None \<Rightarrow> Some GwErrUnauthenticated
      | Some i \<Rightarrow>
          first_error
            [validateScopedID (aid_TenantID i) ''t_'',
             validateScopedID (aid_AppID i) ''app_'',
             validateExternalID (aid_SubjectID i)])"

definition authenticated_Validate :: "authenticated_api \<Rightarrow> gateway_error option" where
  "authenticated_Validate result =
     (case aua_proof result of
        None \<Rightarrow> Some GwErrUnauthenticated
      | Some p \<Rightarrow> first_error [fails (aua_identity result \<noteq> p) GwErrUnauthenticated, proof_validate (Some p)])"

definition authenticated_Identity :: "authenticated_api \<Rightarrow> gateway_error + api_identity" where
  "authenticated_Identity result = ensure (authenticated_Validate result) (Inr (aua_identity result))"

definition newAuthenticatedAPI :: "api_identity \<Rightarrow> gateway_error + authenticated_api" where
  "newAuthenticatedAPI identity =
     ensure (proof_validate (Some identity)) (Inr \<lparr>aua_identity = identity, aua_proof = Some identity\<rparr>)"

record static_authenticator =
  sta_credentials :: "(string, api_identity) gomap"

text \<open>The credentials are visited in an unspecified order; every failure is the same error.\<close>

definition NewStaticAPIAuthenticator :: "(string, api_identity) gomap \<Rightarrow> gateway_error + static_authenticator" where
  "NewStaticAPIAuthenticator credentials =
     ensure (fails (\<exists>(credential, identity) \<in> set credentials.
               validateCredential credential \<noteq> None \<or> error_of (newAuthenticatedAPI identity) \<noteq> None) GwErrInvalid)
     (Inr \<lparr>sta_credentials = credentials\<rparr>)"

text \<open>\<open>header\<close> is the Authorization header of the request, \<open>None\<close> without a request.\<close>

definition static_Authenticate ::
  "static_authenticator option \<Rightarrow> goctx \<Rightarrow> string option \<Rightarrow> gateway_error + authenticated_api" where
  "static_Authenticate authenticator c header =
     require c GwErrUnauthenticated (\<lambda>look.
     ensure (map_option GwErrCtx (look 0))
     (require authenticator GwErrUnauthenticated (\<lambda>a.
      require header GwErrUnauthenticated (\<lambda>h.
      ensure (fails (take 7 h \<noteq> ''Bearer '') GwErrUnauthenticated)
      (require (get (sta_credentials a) (trim_space (trim_prefix ''Bearer '' h))) GwErrUnauthenticated newAuthenticatedAPI)))))"

subsection \<open>Principals\<close>

record principal =
  pr_kind :: string
  pr_tenantID :: string
  pr_appID :: string
  pr_subjectID :: string
  pr_apiProof :: "api_identity option"
  pr_routingTarget :: routing_target

definition zero_target :: routing_target where
  "zero_target = \<lparr>rt_fields = \<lparr>rf_TenantID = [], rf_BindingID = [], rf_BindingVersion = 0, rf_AppID = [], rf_Channel = [],
     rf_ProviderAccountID = [], rf_ConfigDigest = []\<rparr>, rt_capability = None\<rparr>"

definition newAPIPrincipal :: "authenticated_api \<Rightarrow> gateway_error + principal" where
  "newAPIPrincipal authenticated =
     ensure (map_option (\<lambda>_. GwErrUnauthenticated) (authenticated_Validate authenticated))
     (let i = aua_identity authenticated in
      Inr \<lparr>pr_kind = PrincipalAPI, pr_tenantID = aid_TenantID i, pr_appID = aid_AppID i, pr_subjectID = aid_SubjectID i,
           pr_apiProof = aua_proof authenticated, pr_routingTarget = zero_target\<rparr>)"

definition NewChannelPrincipal :: "routing_target \<Rightarrow> gateway_error + principal" where
  "NewChannelPrincipal target =
     ensure (map_option (\<lambda>_. GwErrInvalid) (target_Validate target))
     (Inr \<lparr>pr_kind = PrincipalChannel, pr_tenantID = rf_TenantID (rt_fields target), pr_appID = rf_AppID (rt_fields target),
           pr_subjectID = [], pr_apiProof = None, pr_routingTarget = target\<rparr>)"

definition principal_Validate :: "principal \<Rightarrow> gateway_error option" where
  "principal_Validate p =
     (if pr_kind p = PrincipalAPI then
        (case pr_apiProof p of
           None \<Rightarrow> Some GwErrInvalid
         | Some i \<Rightarrow>
             first_error
               [fails (aid_TenantID i \<noteq> pr_tenantID p \<or> aid_AppID i \<noteq> pr_appID p \<or> aid_SubjectID i \<noteq> pr_subjectID p)
                  GwErrInvalid,
                proof_validate (Some i)])
      else if pr_kind p = PrincipalChannel then
        first_error
          [map_option (\<lambda>_. GwErrInvalid) (target_Validate (pr_routingTarget p)),
           fails (pr_tenantID p \<noteq> rf_TenantID (rt_fields (pr_routingTarget p))
                  \<or> pr_appID p \<noteq> rf_AppID (rt_fields (pr_routingTarget p))) GwErrInvalid]
      else Some GwErrInvalid)"

definition principal_RoutingTarget :: "principal \<Rightarrow> routing_target \<times> bool" where
  "principal_RoutingTarget p = (if pr_kind p \<noteq> PrincipalChannel then (zero_target, False) else (pr_routingTarget p, True))"

subsection \<open>Messages\<close>

record inbound_message =
  im_Content :: string
  im_ContentType :: string
  im_ExternalMessageID :: string
  im_ExternalUserID :: string
  im_ConversationKind :: string
  im_ExternalPeerID :: string
  im_ExternalChatID :: string
  im_ExternalThreadID :: string

definition message_Normalize :: "inbound_message \<Rightarrow> gateway_error + inbound_message" where
  "message_Normalize m =
     (let m = m\<lparr>im_Content := trim_space (im_Content m)\<rparr>;
          m = (if im_ContentType m = [] then m\<lparr>im_ContentType := ContentTypeText\<rparr> else m)
      in
      ensure (first_error
        [fails (im_ContentType m \<noteq> ContentTypeText \<and> im_ContentType m \<noteq> ContentTypeMedia
                \<and> im_ContentType m \<noteq> ContentTypeRich) GwErrInvalid,
         fails (rune_count (im_Content m) < 1 \<or> rune_count (im_Content m) > 64 * 1024) GwErrInvalid,
         (if im_ExternalMessageID m \<noteq> [] then validateExternalID (im_ExternalMessageID m) else None),
         validateExternalID (im_ExternalUserID m),
         (if im_ConversationKind m = ConversationDirect then validateExternalID (im_ExternalPeerID m)
          else if im_ConversationKind m = ConversationGroup then validateExternalID (im_ExternalChatID m)
          else Some GwErrInvalid),
         (if im_ExternalThreadID m \<noteq> [] then validateExternalID (im_ExternalThreadID m) else None)])
      (Inr m))"

subsection \<open>Requests\<close>

definition normalizeCorrelationID :: "string \<Rightarrow> string \<Rightarrow> bool \<Rightarrow> gateway_error + string" where
  "normalizeCorrelationID uuid value generate =
     (if value = [] \<and> generate then Inr uuid
      else if value = [] then Inr []
      else ensure (fails (trim_space value = [] \<or> gw_hasControl value \<or> rune_count value > 256) GwErrInvalid) (Inr value))"

record dispatch_request =
  dr_Principal :: principal
  dr_Message :: inbound_message
  dr_RequestID :: string
  dr_TraceID :: string

definition normalizeDispatchRequest ::
  "string \<Rightarrow> goctx \<Rightarrow> dispatch_request \<Rightarrow> gateway_error + inbound_message \<times> string \<times> string" where
  "normalizeDispatchRequest uuid c request =
     ensure (first_error
       [gw_contextErr c 0,
        map_option (\<lambda>_. GwErrUnauthenticated) (principal_Validate (dr_Principal request))])
     (andthen (message_Normalize (dr_Message request)) (\<lambda>m.
      andthen (normalizeCorrelationID uuid (dr_RequestID request) True) (\<lambda>requestID.
      andthen (normalizeCorrelationID uuid (dr_TraceID request) False) (\<lambda>traceID.
      Inr (m, requestID, traceID)))))"

definition encodeDispatchIdentity :: "string list \<Rightarrow> string" where
  "encodeDispatchIdentity parts = concat (map (\<lambda>part. itoa (int (length part)) @ '':'' @ part) parts)"

definition dispatchRunnerIdentity :: "principal \<Rightarrow> inbound_message \<Rightarrow> gateway_error + runner_identity" where
  "dispatchRunnerIdentity p m =
     (if pr_kind p = PrincipalChannel then
        map_error GwErrChannel (target_RunnerIdentity (pr_routingTarget p)
          \<lparr>idi_ExternalUserID = im_ExternalUserID m, idi_Kind = im_ConversationKind m,
           idi_ExternalPeerID = im_ExternalPeerID m, idi_ExternalChatID = im_ExternalChatID m,
           idi_ExternalThreadID = im_ExternalThreadID m\<rparr>)
      else if pr_kind p = PrincipalAPI then
        (let conversation = (if im_ConversationKind m = ConversationGroup then im_ExternalChatID m else im_ExternalPeerID m);
             sessionID = encodeDispatchIdentity
               [''api'', pr_appID p, im_ConversationKind m, conversation, im_ExternalThreadID m];
             userID = encodeDispatchIdentity [''api'', pr_appID p, pr_subjectID p]
         in map_error GwErrTenant (NewRunnerIdentity (pr_tenantID p) userID sessionID))
      else Inl GwErrUnauthenticated)"

subsection \<open>What the boundary guarantees\<close>

lemma encodeDispatchIdentity_key: "encodeDispatchIdentity = key"
proof
  show "encodeDispatchIdentity ps = key ps" for ps
    by (induction ps) (simp_all add: encodeDispatchIdentity_def key.simps key_part_def)
qed

lemma principal_kinds [simp]: "PrincipalAPI \<noteq> PrincipalChannel" "PrincipalChannel \<noteq> PrincipalAPI"
  by (simp_all add: PrincipalAPI_def PrincipalChannel_def)

lemma conversation_kinds [simp]: "ConversationDirect \<noteq> ConversationGroup" "ConversationGroup \<noteq> ConversationDirect"
  by (simp_all add: ConversationDirect_def ConversationGroup_def)

text \<open>Every way to a principal yields one that passes its validation.\<close>

lemma static_Authenticate_valid:
  assumes "static_Authenticate a c h = Inr x"
  shows "authenticated_Validate x = None \<and> (\<exists>p. newAPIPrincipal x = Inr p \<and> principal_Validate p = None)"
  using assms
  by (auto simp: static_Authenticate_def newAuthenticatedAPI_def authenticated_Validate_def newAPIPrincipal_def
      principal_Validate_def Let_def split: option.splits)

lemma NewChannelPrincipal_valid:
  "NewChannelPrincipal target = Inr p \<Longrightarrow> principal_Validate p = None"
  by (auto simp: NewChannelPrincipal_def principal_Validate_def)

lemma message_Normalize_fixed:
  assumes "message_Normalize m = Inr n"
  shows "im_Content n = trim_space (im_Content m)" "im_ExternalUserID n = im_ExternalUserID m"
    "im_ConversationKind n = im_ConversationKind m" "im_ExternalPeerID n = im_ExternalPeerID m"
    "im_ExternalChatID n = im_ExternalChatID m" "im_ExternalThreadID n = im_ExternalThreadID m"
    "im_ExternalMessageID n = im_ExternalMessageID m"
  using assms by (auto simp: message_Normalize_def Let_def split: if_splits)

end
