(* ===== verification/Gateway_Limits.thy ===== *)
theory Gateway_Limits
  imports Gateway
begin

text \<open>
  The admission limiter of the gateway (\<^verbatim>\<open>gateway/limits.go\<close>): per tenant a number of
  executions in flight and a number of admissions in a fixed window.

  A lease is a record with the state of its \<^verbatim>\<open>sync.Once\<close>. \<open>clock\<close> is what successive calls of
  the configured clock and of \<^verbatim>\<open>time.Now\<close> return during one call. The world of the limiter adds
  what no component stores: the leases that were handed out, and a log of the admissions, each
  with its tenant, the window it was counted in and the time that the caller read.
\<close>

declare map_of_eq_Some_iff [simp del] split_paired_All [simp del] split_paired_Ex [simp del]

subsection \<open>The limiter\<close>

record limiter_config =
  lmc_MaxConcurrent :: int
  lmc_MaxRequests :: int
  lmc_Window :: duration

record tenant_limit_entry =
  tle_windowStart :: instant
  tle_requests :: int
  tle_active :: int

record tenant_limiter =
  lim_maxConcurrent :: int
  lim_maxRequests :: int
  lim_window :: duration
  lim_entries :: "(string, tenant_limit_entry) gomap"
  lim_closed :: bool

record tenant_limit_lease =
  tll_tenant :: string
  tll_done :: bool

definition defaultTenantMaxConcurrent :: int where "defaultTenantMaxConcurrent = 8"

definition defaultTenantMaxRequests :: int where "defaultTenantMaxRequests = 60"

definition defaultTenantWindow :: duration where "defaultTenantWindow = 60 * 10 ^ 9"

definition NewTenantLimiter :: "limiter_config \<Rightarrow> gateway_error + tenant_limiter" where
  "NewTenantLimiter config =
     (let concurrent = (if lmc_MaxConcurrent config = 0 then defaultTenantMaxConcurrent else lmc_MaxConcurrent config);
          requests = (if lmc_MaxRequests config = 0 then defaultTenantMaxRequests else lmc_MaxRequests config);
          window = (if lmc_Window config = 0 then defaultTenantWindow else lmc_Window config)
      in ensure (first_error
           [fails (concurrent < 1) GwErrInvalid,
            fails (requests < 1) GwErrInvalid,
            fails (window < 0) GwErrInvalid])
         (Inr \<lparr>lim_maxConcurrent = concurrent, lim_maxRequests = requests, lim_window = window, lim_entries = [],
               lim_closed = False\<rparr>))"

definition limiter_Ready :: "tenant_limiter option \<Rightarrow> bool" where
  "limiter_Ready l = (case l of None \<Rightarrow> False | Some l \<Rightarrow> \<not> lim_closed l)"

definition limiter_now :: "(nat \<Rightarrow> instant) \<Rightarrow> instant" where
  "limiter_now clock = (if clock 0 = 0 then clock 1 else clock 0)"

text \<open>The entry of a tenant when an admission begins: its window starts over once it has run out.\<close>

definition current_entry :: "instant \<Rightarrow> string \<Rightarrow> tenant_limiter \<Rightarrow> tenant_limit_entry" where
  "current_entry now tenantID l =
     (case get (lim_entries l) tenantID of
        None \<Rightarrow> \<lparr>tle_windowStart = now, tle_requests = 0, tle_active = 0\<rparr>
      | Some entry \<Rightarrow>
          if \<not> now < tle_windowStart entry + lim_window l then entry\<lparr>tle_windowStart := now, tle_requests := 0\<rparr>
          else entry)"

definition limiter_Acquire ::
  "goctx \<Rightarrow> string \<Rightarrow> (nat \<Rightarrow> instant) \<Rightarrow> tenant_limiter \<Rightarrow> (gateway_error + tenant_limit_lease) \<times> tenant_limiter" where
  "limiter_Acquire c tenantID clock l =
     check (first_error
       [gw_contextErr c 0,
        validateScopedID tenantID ''t_'',
        fails (lim_closed l) GwErrClosed]) l
     (let entry = current_entry (limiter_now clock) tenantID l;
          stored = (\<lambda>e. l\<lparr>lim_entries := put tenantID e (lim_entries l)\<rparr>)
      in check (fails (tle_requests entry \<ge> lim_maxRequests l \<or> tle_active entry \<ge> lim_maxConcurrent l) GwErrRateLimited)
           (stored entry)
         (Inr \<lparr>tll_tenant = tenantID, tll_done = False\<rparr>,
          stored (entry\<lparr>tle_requests := tle_requests entry + 1, tle_active := tle_active entry + 1\<rparr>)))"

definition lease_Release :: "tenant_limit_lease \<Rightarrow> tenant_limiter \<Rightarrow> tenant_limit_lease \<times> tenant_limiter" where
  "lease_Release lease l =
     (if tll_done lease then (lease, l)
      else (lease\<lparr>tll_done := True\<rparr>,
            case get (lim_entries l) (tll_tenant lease) of
              None \<Rightarrow> l
            | Some entry \<Rightarrow>
                if tle_active entry > 0
                then l\<lparr>lim_entries := put (tll_tenant lease) (entry\<lparr>tle_active := tle_active entry - 1\<rparr>) (lim_entries l)\<rparr>
                else l))"

definition limiter_Close :: "tenant_limiter \<Rightarrow> tenant_limiter" where
  "limiter_Close l = l\<lparr>lim_closed := True, lim_entries := []\<rparr>"

subsection \<open>The limiter among its callers\<close>

record limiter_world =
  lmw_limiter :: tenant_limiter
  lmw_leases :: "tenant_limit_lease list"
  lmw_log :: "(string \<times> instant \<times> instant) list"

definition window_of :: "string \<Rightarrow> tenant_limiter \<Rightarrow> instant" where
  "window_of tenantID l = (case get (lim_entries l) tenantID of None \<Rightarrow> 0 | Some e \<Rightarrow> tle_windowStart e)"

inductive limiter_step :: "limiter_world \<Rightarrow> limiter_world \<Rightarrow> bool" where
  admitted: "limiter_Acquire c tenantID clock (lmw_limiter w) = (Inr lease, l) \<Longrightarrow>
    limiter_step w \<lparr>lmw_limiter = l, lmw_leases = lease # lmw_leases w,
      lmw_log = (tenantID, window_of tenantID l, limiter_now clock) # lmw_log w\<rparr>"
| refused: "limiter_Acquire c tenantID clock (lmw_limiter w) = (Inl e, l) \<Longrightarrow> limiter_step w (w\<lparr>lmw_limiter := l\<rparr>)"
| release: "i < length (lmw_leases w) \<Longrightarrow> lease_Release (lmw_leases w ! i) (lmw_limiter w) = (lease, l) \<Longrightarrow>
    limiter_step w (w\<lparr>lmw_limiter := l, lmw_leases := (lmw_leases w)[i := lease]\<rparr>)"
| closed: "limiter_step w (w\<lparr>lmw_limiter := limiter_Close (lmw_limiter w)\<rparr>)"

definition limiter_start :: "tenant_limiter \<Rightarrow> limiter_world" where
  "limiter_start l = \<lparr>lmw_limiter = l, lmw_leases = [], lmw_log = []\<rparr>"

definition holds :: "string \<Rightarrow> tenant_limit_lease \<Rightarrow> bool" where
  "holds t lease \<longleftrightarrow> tll_tenant lease = t \<and> \<not> tll_done lease"

definition in_flight :: "string \<Rightarrow> limiter_world \<Rightarrow> nat" where
  "in_flight t w = length (filter (holds t) (lmw_leases w))"

definition counted :: "string \<Rightarrow> instant \<Rightarrow> limiter_world \<Rightarrow> nat" where
  "counted t s w = length (filter (\<lambda>(t', s', n). t' = t \<and> s' = s) (lmw_log w))"

subsection \<open>The invariant\<close>

definition limits_ok :: "tenant_limiter \<Rightarrow> bool" where
  "limits_ok l \<longleftrightarrow> 1 \<le> lim_maxConcurrent l \<and> 1 \<le> lim_maxRequests l \<and> 1 \<le> lim_window l"

definition active_of :: "string \<Rightarrow> tenant_limiter \<Rightarrow> int" where
  "active_of t l = (case get (lim_entries l) t of None \<Rightarrow> 0 | Some e \<Rightarrow> tle_active e)"

definition flights_ok :: "limiter_world \<Rightarrow> bool" where
  "flights_ok w \<longleftrightarrow> (\<forall>t. int (in_flight t w) \<le> lim_maxConcurrent (lmw_limiter w)
     \<and> (\<not> lim_closed (lmw_limiter w) \<longrightarrow> int (in_flight t w) = active_of t (lmw_limiter w)))"

text \<open>
  The windows of a tenant: they do not overlap, none of them admits more than its budget, and
  the open one is the last.
\<close>

definition window_open :: "limiter_world \<Rightarrow> string \<Rightarrow> tenant_limit_entry \<Rightarrow> bool" where
  "window_open w t e \<longleftrightarrow> int (counted t (tle_windowStart e) w) = tle_requests e
     \<and> (\<forall>s n. (t, s, n) \<in> set (lmw_log w) \<longrightarrow>
          s = tle_windowStart e \<or> s + lim_window (lmw_limiter w) \<le> tle_windowStart e)"

definition windows_ok :: "limiter_world \<Rightarrow> bool" where
  "windows_ok w \<longleftrightarrow>
     (\<forall>t s n. (t, s, n) \<in> set (lmw_log w) \<longrightarrow> n < s + lim_window (lmw_limiter w))
     \<and> (\<forall>t s n s' n'. (t, s, n) \<in> set (lmw_log w) \<and> (t, s', n') \<in> set (lmw_log w) \<longrightarrow>
          s = s' \<or> s + lim_window (lmw_limiter w) \<le> s' \<or> s' + lim_window (lmw_limiter w) \<le> s)
     \<and> (\<forall>t s. int (counted t s w) \<le> lim_maxRequests (lmw_limiter w))
     \<and> (\<not> lim_closed (lmw_limiter w) \<longrightarrow> (\<forall>t.
          (get (lim_entries (lmw_limiter w)) t = None \<longrightarrow> (\<forall>s n. (t, s, n) \<notin> set (lmw_log w)))
          \<and> (\<forall>e. get (lim_entries (lmw_limiter w)) t = Some e \<longrightarrow> window_open w t e)))"

definition limiter_ok :: "limiter_world \<Rightarrow> bool" where
  "limiter_ok w \<longleftrightarrow> limits_ok (lmw_limiter w) \<and> flights_ok w \<and> windows_ok w"

lemma windows_okD:
  assumes "windows_ok w"
  shows "(t, s, n) \<in> set (lmw_log w) \<Longrightarrow> n < s + lim_window (lmw_limiter w)"
    "(t, s, n) \<in> set (lmw_log w) \<Longrightarrow> (t, s', n') \<in> set (lmw_log w) \<Longrightarrow>
       s = s' \<or> s + lim_window (lmw_limiter w) \<le> s' \<or> s' + lim_window (lmw_limiter w) \<le> s"
    "int (counted t s w) \<le> lim_maxRequests (lmw_limiter w)"
    "\<not> lim_closed (lmw_limiter w) \<Longrightarrow> get (lim_entries (lmw_limiter w)) t = None \<Longrightarrow> (t, s, n) \<notin> set (lmw_log w)"
    "\<not> lim_closed (lmw_limiter w) \<Longrightarrow> get (lim_entries (lmw_limiter w)) t = Some e \<Longrightarrow> window_open w t e"
  using assms unfolding windows_ok_def by blast+

lemma window_openD:
  "window_open w t e \<Longrightarrow> (t, s, n) \<in> set (lmw_log w) \<Longrightarrow>
    s = tle_windowStart e \<or> s + lim_window (lmw_limiter w) \<le> tle_windowStart e"
  unfolding window_open_def by blast

lemma NewTenantLimiter_ok: "NewTenantLimiter config = Inr l \<Longrightarrow> limits_ok l \<and> lim_entries l = [] \<and> \<not> lim_closed l"
  by (auto simp: NewTenantLimiter_def Let_def limits_ok_def defaultTenantMaxConcurrent_def defaultTenantMaxRequests_def
      defaultTenantWindow_def split: if_splits)

lemma limiter_start_ok:
  assumes "NewTenantLimiter config = Inr l"
  shows "limiter_ok (limiter_start l)"
  using NewTenantLimiter_ok [OF assms]
  by (auto simp: limiter_ok_def flights_ok_def windows_ok_def limiter_start_def in_flight_def counted_def active_of_def
      limits_ok_def)

lemma counted_none: "(\<And>n. (t, s, n) \<notin> set (lmw_log w)) \<Longrightarrow> counted t s w = 0"
  by (auto simp: counted_def filter_empty_conv)

lemma current_entry_open:
  assumes ok: "limiter_ok w" "\<not> lim_closed (lmw_limiter w)"
    and e_def: "e = current_entry now t (lmw_limiter w)"
  shows "window_open w t e" "now < tle_windowStart e + lim_window (lmw_limiter w)" "tle_active e = active_of t (lmw_limiter w)"
proof -
  let ?l = "lmw_limiter w"
  have pos: "0 < lim_window ?l" and wok: "windows_ok w" using ok by (auto simp: limiter_ok_def limits_ok_def)
  show "tle_active e = active_of t ?l"
    by (auto simp: e_def current_entry_def active_of_def split: option.splits)
  show "now < tle_windowStart e + lim_window ?l"
    using pos by (auto simp: e_def current_entry_def split: option.splits)
  show "window_open w t e"
  proof (cases "get (lim_entries ?l) t")
    case None
    then have "\<And>s n. (t, s, n) \<notin> set (lmw_log w)" using wok ok(2) by (simp add: windows_ok_def)
    with None show ?thesis by (simp add: e_def current_entry_def window_open_def counted_none)
  next
    case (Some e0)
    then have open0: "window_open w t e0" using wok ok(2) by (simp add: windows_ok_def)
    show ?thesis
    proof (cases "now < tle_windowStart e0 + lim_window ?l")
      case True
      with Some open0 show ?thesis by (simp add: e_def current_entry_def)
    next
      case False
      have past: "s + lim_window ?l \<le> now" if "(t, s, n) \<in> set (lmw_log w)" for s n
        using open0 that False pos by (auto simp: window_open_def)
      then have "(t, now, n) \<notin> set (lmw_log w)" for n using pos by force
      with Some False past show ?thesis by (simp add: e_def current_entry_def window_open_def counted_none)
    qed
  qed
qed

lemma acquire_cases:
  assumes "limiter_Acquire c t clock l = (x, l')"
  obtains (kept) e where "x = Inl e" "l' = l"
  | (refused) e where "x = Inl e" "\<not> lim_closed l"
      "l' = l\<lparr>lim_entries := put t (current_entry (limiter_now clock) t l) (lim_entries l)\<rparr>"
  | (admitted) e where "e = current_entry (limiter_now clock) t l" "x = Inr \<lparr>tll_tenant = t, tll_done = False\<rparr>"
      "\<not> lim_closed l" "tle_requests e < lim_maxRequests l" "tle_active e < lim_maxConcurrent l"
      "l' = l\<lparr>lim_entries := put t (e\<lparr>tle_requests := tle_requests e + 1, tle_active := tle_active e + 1\<rparr>) (lim_entries l)\<rparr>"
proof -
  let ?e = "first_error [gw_contextErr c 0, validateScopedID t ''t_'', fails (lim_closed l) GwErrClosed]"
  note eq = assms [unfolded limiter_Acquire_def Let_def]
  show thesis
  proof (cases ?e)
    case (Some err)
    with eq show thesis using kept by (auto simp del: first_error_Cons)
  next
    case None
    then have open_l: "\<not> lim_closed l" by simp
    let ?c = "current_entry (limiter_now clock) t l"
    show thesis
    proof (cases "tle_requests ?c \<ge> lim_maxRequests l \<or> tle_active ?c \<ge> lim_maxConcurrent l")
      case True
      with eq None have "x = Inl GwErrRateLimited" "l' = l\<lparr>lim_entries := put t ?c (lim_entries l)\<rparr>"
        by (auto simp del: first_error_Cons)
      then show thesis using refused open_l by blast
    next
      case False
      with eq None have "x = Inr \<lparr>tll_tenant = t, tll_done = False\<rparr>"
        "l' = l\<lparr>lim_entries := put t (?c\<lparr>tle_requests := tle_requests ?c + 1, tle_active := tle_active ?c + 1\<rparr>) (lim_entries l)\<rparr>"
        by (auto simp del: first_error_Cons)
      then show thesis using admitted [OF refl] open_l False by simp
    qed
  qed
qed

lemma window_open_frame:
  "window_open (w\<lparr>lmw_limiter := l\<rparr>) t e \<longleftrightarrow> window_open w t e" if "lim_window l = lim_window (lmw_limiter w)"
  using that by (simp add: window_open_def counted_def)

lemma limiter_frame [simp]: "counted t s (w\<lparr>lmw_limiter := l\<rparr>) = counted t s w" "counted t s (w\<lparr>lmw_leases := ls\<rparr>) = counted t s w"
  "in_flight t (w\<lparr>lmw_limiter := l\<rparr>) = in_flight t w"
  by (simp_all add: counted_def in_flight_def)

lemma refused_ok:
  assumes ok: "limiter_ok w" and open_l: "\<not> lim_closed (lmw_limiter w)"
  shows "limiter_ok (w\<lparr>lmw_limiter := (lmw_limiter w)
    \<lparr>lim_entries := put t (current_entry now t (lmw_limiter w)) (lim_entries (lmw_limiter w))\<rparr>\<rparr>)"
proof -
  let ?l = "(lmw_limiter w)
    \<lparr>lim_entries := put t (current_entry now t (lmw_limiter w)) (lim_entries (lmw_limiter w))\<rparr>"
  note cur = current_entry_open [OF ok open_l refl [of "current_entry now t (lmw_limiter w)"]]
  have "windows_ok (w\<lparr>lmw_limiter := ?l\<rparr>)"
    using ok cur(1) open_l unfolding limiter_ok_def windows_ok_def
    by (auto simp: window_open_def update_conv' split: if_splits)
  moreover have "flights_ok (w\<lparr>lmw_limiter := ?l\<rparr>)"
  proof (unfold flights_ok_def, intro allI conjI impI)
    fix t'
    have eq: "int (in_flight t' w) = active_of t' (lmw_limiter w)" "int (in_flight t' w) \<le> lim_maxConcurrent (lmw_limiter w)"
      using ok open_l unfolding limiter_ok_def flights_ok_def by blast+
    from eq(2) show "int (in_flight t' (w\<lparr>lmw_limiter := ?l\<rparr>)) \<le> lim_maxConcurrent (lmw_limiter (w\<lparr>lmw_limiter := ?l\<rparr>))" by simp
    from eq(1) cur(3) show "int (in_flight t' (w\<lparr>lmw_limiter := ?l\<rparr>)) = active_of t' (lmw_limiter (w\<lparr>lmw_limiter := ?l\<rparr>))"
      by (simp add: active_of_def update_conv')
  qed
  ultimately show ?thesis using ok by (simp add: limiter_ok_def limits_ok_def)
qed

lemma admitted_ok:
  assumes ok: "limiter_ok w" and open_l: "\<not> lim_closed (lmw_limiter w)" and e: "e = current_entry now t (lmw_limiter w)"
    and room: "tle_requests e < lim_maxRequests (lmw_limiter w)" "tle_active e < lim_maxConcurrent (lmw_limiter w)"
    and l: "l = (lmw_limiter w)\<lparr>lim_entries := put t (e\<lparr>tle_requests := tle_requests e + 1, tle_active := tle_active e + 1\<rparr>)
      (lim_entries (lmw_limiter w))\<rparr>"
  shows "limiter_ok \<lparr>lmw_limiter = l, lmw_leases = \<lparr>tll_tenant = t, tll_done = False\<rparr> # lmw_leases w,
    lmw_log = (t, window_of t l, now) # lmw_log w\<rparr>"
proof -
  let ?w = "\<lparr>lmw_limiter = l, lmw_leases = \<lparr>tll_tenant = t, tll_done = False\<rparr> # lmw_leases w,
    lmw_log = (t, window_of t l, now) # lmw_log w\<rparr>"
  note cur = current_entry_open [OF ok open_l e]
  have wl: "window_of t l = tle_windowStart e" by (simp add: l window_of_def)
  have lf: "lim_window l = lim_window (lmw_limiter w)" "lim_maxRequests l = lim_maxRequests (lmw_limiter w)"
    "lim_closed l = lim_closed (lmw_limiter w)" "lim_maxConcurrent l = lim_maxConcurrent (lmw_limiter w)"
    and le: "get (lim_entries l) t' = (if t' = t
      then Some (e\<lparr>tle_requests := tle_requests e + 1, tle_active := tle_active e + 1\<rparr>)
      else get (lim_entries (lmw_limiter w)) t')" for t'
    by (simp_all add: l update_conv')
  have count: "counted t' s ?w = counted t' s w + (if t' = t \<and> s = tle_windowStart e then 1 else 0)" for t' s
    by (simp add: counted_def wl)
  have fl: "in_flight t' ?w = in_flight t' w + (if t' = t then 1 else 0)" for t'
    by (simp add: in_flight_def holds_def)
  have flw: "flights_ok w" and ww: "windows_ok w" using ok by (simp_all add: limiter_ok_def)
  have "flights_ok ?w"
    unfolding flights_ok_def
  proof (intro allI conjI impI)
    fix t'
    have eq: "int (in_flight t' w) = active_of t' (lmw_limiter w)" "int (in_flight t' w) \<le> lim_maxConcurrent (lmw_limiter w)"
      using flw open_l unfolding flights_ok_def by blast+
    show "int (in_flight t' ?w) \<le> lim_maxConcurrent (lmw_limiter ?w)"
      using eq room(2) cur(3) by (simp only: fl) (simp add: lf)
    show "int (in_flight t' ?w) = active_of t' (lmw_limiter ?w)"
      using eq cur(3) by (simp only: fl) (simp add: le active_of_def)
  qed
  moreover have "windows_ok ?w"
    unfolding windows_ok_def
  proof (intro conjI allI impI)
    show "n < s + lim_window (lmw_limiter ?w)" if "(t', s, n) \<in> set (lmw_log ?w)" for t' s n
      using that ww cur(2) by (auto simp: windows_ok_def wl lf)
    show "s = s' \<or> s + lim_window (lmw_limiter ?w) \<le> s' \<or> s' + lim_window (lmw_limiter ?w) \<le> s"
      if "(t', s, n) \<in> set (lmw_log ?w) \<and> (t', s', n') \<in> set (lmw_log ?w)" for t' s n s' n'
      using that windows_okD(2) [OF ww, of t' s n s' n'] window_openD [OF cur(1)] by (auto simp: wl lf)
    show "int (counted t' s ?w) \<le> lim_maxRequests (lmw_limiter ?w)" for t' s
      using ww cur(1) room(1) by (simp only: count) (auto simp: windows_ok_def window_open_def lf)
    show "(t', s, n) \<notin> set (lmw_log ?w)" if "\<not> lim_closed (lmw_limiter ?w)" "get (lim_entries (lmw_limiter ?w)) t' = None" for t' s n
      using that ww open_l by (auto simp: windows_ok_def le split: if_splits)
    show "window_open ?w t' e'" if "\<not> lim_closed (lmw_limiter ?w)" "get (lim_entries (lmw_limiter ?w)) t' = Some e'" for t' e'
    proof (cases "t' = t")
      case True
      with that(2) have "e' = e\<lparr>tle_requests := tle_requests e + 1, tle_active := tle_active e + 1\<rparr>" by (simp add: le)
      with True cur(1) show ?thesis unfolding window_open_def by (simp only: count) (auto simp: wl lf)
    next
      case False
      with that(2) have "get (lim_entries (lmw_limiter w)) t' = Some e'" by (simp add: le)
      with ww open_l have "window_open w t' e'" by (simp add: windows_ok_def)
      with False show ?thesis unfolding window_open_def by (simp only: count) (auto simp: lf)
    qed
  qed
  moreover have "limits_ok l" using ok by (simp add: limiter_ok_def limits_ok_def lf)
  ultimately show ?thesis by (simp add: limiter_ok_def)
qed

lemma release_ok:
  assumes ok: "limiter_ok w" and i: "i < length (lmw_leases w)"
    and rel: "lease_Release (lmw_leases w ! i) (lmw_limiter w) = (lease, l)"
  shows "limiter_ok (w\<lparr>lmw_limiter := l, lmw_leases := (lmw_leases w)[i := lease]\<rparr>)"
proof (cases "tll_done (lmw_leases w ! i)")
  case True
  with rel have "lease = lmw_leases w ! i" "l = lmw_limiter w" by (auto simp: lease_Release_def)
  with ok show ?thesis by simp
next
  case False
  let ?w = "w\<lparr>lmw_limiter := l, lmw_leases := (lmw_leases w)[i := lease]\<rparr>"
  define t where "t = tll_tenant (lmw_leases w ! i)"
  have flw: "flights_ok w" and ww: "windows_ok w" using ok by (simp_all add: limiter_ok_def)
  have lease: "lease = (lmw_leases w ! i)\<lparr>tll_done := True\<rparr>" using rel False by (auto simp: lease_Release_def)
  have fl: "in_flight t' ?w + (if t' = t then 1 else 0) = in_flight t' w" for t'
    using filter_list_update [OF i, of "holds t'" lease] False by (auto simp: in_flight_def lease holds_def t_def)
  have same: "lim_closed l = lim_closed (lmw_limiter w)" "lim_window l = lim_window (lmw_limiter w)"
    "lim_maxRequests l = lim_maxRequests (lmw_limiter w)" "lim_maxConcurrent l = lim_maxConcurrent (lmw_limiter w)"
    using rel False by (auto simp: lease_Release_def split: option.splits if_splits)
  have entries: "get (lim_entries l) t' = (if t' = t then map_option (\<lambda>e. if tle_active e > 0 then e\<lparr>tle_active := tle_active e - 1\<rparr> else e)
      (get (lim_entries (lmw_limiter w)) t) else get (lim_entries (lmw_limiter w)) t')" for t'
    using rel False by (auto simp: lease_Release_def t_def update_conv' split: option.splits if_splits)
  have "flights_ok ?w"
    unfolding flights_ok_def
  proof (intro allI conjI impI)
    fix t'
    from fl [of t'] have less: "in_flight t' ?w \<le> in_flight t' w" by linarith
    with flw show "int (in_flight t' ?w) \<le> lim_maxConcurrent (lmw_limiter ?w)"
      using same(4) unfolding flights_ok_def by (metis limiter_world.select_convs(1) limiter_world.surjective limiter_world.update_convs(1,2) of_nat_mono order_trans)
    assume "\<not> lim_closed (lmw_limiter ?w)"
    with flw same(1) have "int (in_flight t' w) = active_of t' (lmw_limiter w)" by (simp add: flights_ok_def)
    with fl [of t'] show "int (in_flight t' ?w) = active_of t' (lmw_limiter ?w)"
      by (auto simp: active_of_def entries split: option.splits)
  qed
  moreover have "windows_ok ?w"
    unfolding windows_ok_def
  proof (intro conjI allI impI)
    show "s = s' \<or> s + lim_window (lmw_limiter ?w) \<le> s' \<or> s' + lim_window (lmw_limiter ?w) \<le> s"
      if "(t', s, n) \<in> set (lmw_log ?w) \<and> (t', s', n') \<in> set (lmw_log ?w)" for t' s n s' n'
      using that windows_okD(2) [OF ww, of t' s n s' n'] by (simp add: same)
    show "window_open ?w t' e'" if "\<not> lim_closed (lmw_limiter ?w)" "get (lim_entries (lmw_limiter ?w)) t' = Some e'" for t' e'
    proof -
      from that obtain e where "get (lim_entries (lmw_limiter w)) t' = Some e" "tle_windowStart e' = tle_windowStart e"
        "tle_requests e' = tle_requests e" by (auto simp: entries split: if_splits)
      with windows_okD(5) [OF ww, of t' e] that(1) show ?thesis by (simp add: window_open_def same counted_def)
    qed
  qed (use windows_okD [OF ww] in \<open>auto simp: same entries counted_def split: if_splits\<close>)
  moreover have "limits_ok l" using ok same by (simp add: limiter_ok_def limits_ok_def)
  ultimately show ?thesis by (simp add: limiter_ok_def)
qed

lemma limiter_step_ok [wf_intros]: "limiter_step w w' \<Longrightarrow> limiter_ok w \<Longrightarrow> limiter_ok w'"
proof (induction rule: limiter_step.induct)
  case (admitted c t clock w lease l)
  from admitted(1) show ?case
  proof (cases rule: acquire_cases)
    case (admitted e)
    then show ?thesis using admitted_ok [OF \<open>limiter_ok w\<close> admitted(3,1,4,5,6)] by simp
  qed simp_all
next
  case (refused c t clock w e l)
  from refused(1) show ?case
    by (cases rule: acquire_cases) (use refused(2) refused_ok in auto)
next
  case (release i w lease l)
  then show ?case by (intro release_ok)
next
  case (closed w)
  then show ?case
    by (auto simp: limiter_ok_def limits_ok_def flights_ok_def windows_ok_def limiter_Close_def)
qed

lemma limiter_star_ok: "limiter_step\<^sup>*\<^sup>* w w' \<Longrightarrow> limiter_ok w \<Longrightarrow> limiter_ok w'"
  by (induction rule: rtranclp_induct) (auto intro: limiter_step_ok)

subsection \<open>What the limiter guarantees\<close>

text \<open>
  C39: in every history of the limiter no tenant ever has more executions in flight than the
  configured number, also across window boundaries, double releases and a close; while the
  limiter is open its counter is exact.
\<close>

theorem limiter_concurrency:
  assumes "NewTenantLimiter config = Inr l" and "limiter_step\<^sup>*\<^sup>* (limiter_start l) w"
  shows "int (in_flight t w) \<le> lim_maxConcurrent l
    \<and> (\<not> lim_closed (lmw_limiter w) \<longrightarrow> int (in_flight t w) = active_of t (lmw_limiter w))"
proof -
  have "lim_maxConcurrent (lmw_limiter w) = lim_maxConcurrent l" using assms(2)
  proof (induction rule: rtranclp_induct)
    case (step w1 w2)
    have "lim_maxConcurrent (lmw_limiter w2) = lim_maxConcurrent (lmw_limiter w1)"
      using step(2)
    proof cases
      case (admitted c tenantID clock lease l2)
      from admitted(2) show ?thesis by (cases rule: acquire_cases) (simp_all add: admitted(1))
    next
      case (refused c tenantID clock e l2)
      from refused(2) show ?thesis by (cases rule: acquire_cases) (simp_all add: refused(1))
    next
      case (release i lease l2)
      then show ?thesis by (auto simp: lease_Release_def split: option.splits if_splits)
    qed (simp add: limiter_Close_def)
    with step show ?case by simp
  qed (simp add: limiter_start_def)
  then show ?thesis using limiter_star_ok [OF assms(2) limiter_start_ok [OF assms(1)]]
    unfolding limiter_ok_def flights_ok_def by metis
qed

definition demo_limiter :: tenant_limiter where
  "demo_limiter = projr (NewTenantLimiter \<lparr>lmc_MaxConcurrent = 1, lmc_MaxRequests = 2, lmc_Window = 10\<rparr>)"

definition demo_customer :: string where "demo_customer = ''t_00000000000000000000000000''"

definition demo_admitted :: limiter_world where
  "demo_admitted = \<lparr>lmw_limiter = snd (limiter_Acquire (Some background) demo_customer (\<lambda>_. 5) demo_limiter),
     lmw_leases = [\<lparr>tll_tenant = demo_customer, tll_done = False\<rparr>], lmw_log = [(demo_customer, 5, 5)]\<rparr>"

lemma demo_limiter_new: "NewTenantLimiter \<lparr>lmc_MaxConcurrent = 1, lmc_MaxRequests = 2, lmc_Window = 10\<rparr> = Inr demo_limiter"
  by code_simp

lemma demo_admitted_step: "limiter_step (limiter_start demo_limiter) demo_admitted"
proof -
  have "limiter_Acquire (Some background) demo_customer (\<lambda>_. 5) (lmw_limiter (limiter_start demo_limiter))
      = (Inr \<lparr>tll_tenant = demo_customer, tll_done = False\<rparr>, lmw_limiter demo_admitted)"
    and w: "window_of demo_customer (lmw_limiter demo_admitted) = 5" "limiter_now (\<lambda>_. 5) = 5"
    by code_simp+
  from limiter_step.admitted [OF this(1)] show ?thesis
    by (simp add: w) (simp add: limiter_start_def demo_admitted_def)
qed

theorem limiter_concurrency_witness:
  "in_flight demo_customer demo_admitted = 1 \<and> int (in_flight demo_customer demo_admitted) \<le> lim_maxConcurrent demo_limiter"
proof
  show "in_flight demo_customer demo_admitted = 1" by (simp add: in_flight_def demo_admitted_def holds_def)
  show "int (in_flight demo_customer demo_admitted) \<le> lim_maxConcurrent demo_limiter"
    using limiter_concurrency [OF demo_limiter_new r_into_rtranclp [of limiter_step, OF demo_admitted_step]] by blast
qed

text \<open>The admissions of a tenant at times of an interval.\<close>

definition admissions :: "string \<Rightarrow> instant \<Rightarrow> instant \<Rightarrow> limiter_world \<Rightarrow> nat" where
  "admissions t a b w = length (filter (\<lambda>(t', s, n). t' = t \<and> a \<le> n \<and> n < b) (lmw_log w))"

text \<open>The clock did not run backwards between the start of a window and its admissions.\<close>

definition clock_forward :: "limiter_world \<Rightarrow> bool" where
  "clock_forward w \<longleftrightarrow> (\<forall>(t, s, n) \<in> set (lmw_log w). s \<le> n)"

lemma two_windows:
  assumes "finite S" and "\<And>s s'. s \<in> S \<Longrightarrow> s' \<in> S \<Longrightarrow> s \<noteq> s' \<Longrightarrow> s + d \<le> s' \<or> s' + d \<le> s"
    and "\<And>s. s \<in> S \<Longrightarrow> a - d < s \<and> s < a + d" and "0 < (d :: int)"
  shows "card S \<le> 2"
proof (rule ccontr)
  assume "\<not> card S \<le> 2"
  then obtain T where "T \<subseteq> S" "card T = 3" by (metis obtain_subset_with_card_n not_less_eq_eq numeral_2_eq_2 numeral_3_eq_3)
  then obtain x y z where "{x, y, z} \<subseteq> S" "x \<noteq> y" "y \<noteq> z" "x \<noteq> z" by (auto simp: card_3_iff)
  with assms(2) [of x y] assms(2) [of y z] assms(2) [of x z] assms(3) [of x] assms(3) [of y] assms(3) [of z] assms(4)
  show False by auto
qed

lemma filter_length_mono: "(\<And>x. P x \<Longrightarrow> Q x) \<Longrightarrow> length (filter P xs) \<le> length (filter Q xs)"
  by (induction xs) (auto simp: le_Suc_eq)

lemma filter_count_le:
  assumes "finite S" and "\<And>x. x \<in> set xs \<Longrightarrow> P x \<Longrightarrow> f x \<in> S"
  shows "length (filter P xs) \<le> (\<Sum>s \<in> S. length (filter (\<lambda>x. P x \<and> f x = s) xs))"
  using assms(2)
proof (induction xs)
  case (Cons x xs)
  then have ih: "length (filter P xs) \<le> (\<Sum>s \<in> S. length (filter (\<lambda>x. P x \<and> f x = s) xs))" by simp
  show ?case
  proof (cases "P x")
    case True
    with Cons(2) have "f x \<in> S" by simp
    have "(\<Sum>s \<in> S. length (filter (\<lambda>y. P y \<and> f y = s) (x # xs)))
        = (\<Sum>s \<in> S. length (filter (\<lambda>y. P y \<and> f y = s) xs) + (if s = f x then 1 else 0))"
      using True by (intro sum.cong) auto
    also have "\<dots> = (\<Sum>s \<in> S. length (filter (\<lambda>y. P y \<and> f y = s) xs)) + 1"
      using assms(1) \<open>f x \<in> S\<close> by (simp add: sum.distrib)
    finally show ?thesis using ih True by simp
  qed (use ih in simp)
qed simp

text \<open>
  C40: the burst of a tenant is bounded. When the clock of the callers does not run backwards,
  any interval as long as the window holds at most twice as many admissions of a tenant as
  a window admits, whatever the requests, releases and refusals between them.
\<close>

theorem limiter_burst:
  assumes "NewTenantLimiter config = Inr l" and "limiter_step\<^sup>*\<^sup>* (limiter_start l) w" and "clock_forward w"
  shows "int (admissions t a (a + lim_window (lmw_limiter w)) w) \<le> 2 * lim_maxRequests (lmw_limiter w)"
proof -
  let ?d = "lim_window (lmw_limiter w)" and ?max = "lim_maxRequests (lmw_limiter w)"
  let ?P = "\<lambda>(t', s, n). t' = t \<and> a \<le> n \<and> n < a + ?d"
  let ?f = "\<lambda>(t' :: string, s :: instant, n :: instant). s"
  define S where "S = ?f ` {x \<in> set (lmw_log w). ?P x}"
  have ok: "limiter_ok w" by (rule limiter_star_ok [OF assms(2) limiter_start_ok [OF assms(1)]])
  then have ww: "windows_ok w" and d: "0 < ?d" and m: "0 \<le> ?max" by (auto simp: limiter_ok_def limits_ok_def)
  have "card S \<le> 2"
  proof (rule two_windows [where d = ?d and a = a])
    show "finite S" by (simp add: S_def)
    show "0 < ?d" by (rule d)
    show "s + ?d \<le> s' \<or> s' + ?d \<le> s" if "s \<in> S" "s' \<in> S" "s \<noteq> s'" for s s'
    proof -
      from that(1,2) obtain n n' where "(t, s, n) \<in> set (lmw_log w)" "(t, s', n') \<in> set (lmw_log w)" by (auto simp: S_def)
      from windows_okD(2) [OF ww this] that(3) show ?thesis by simp
    qed
    show "a - ?d < s \<and> s < a + ?d" if "s \<in> S" for s
      using that windows_okD(1) [OF ww] assms(3) by (fastforce simp: S_def clock_forward_def)
  qed
  have "int (admissions t a (a + ?d) w) \<le> int (\<Sum>s \<in> S. length (filter (\<lambda>x. ?P x \<and> ?f x = s) (lmw_log w)))"
    unfolding admissions_def by (rule of_nat_mono, rule filter_count_le) (auto simp: S_def)
  also have "\<dots> = (\<Sum>s \<in> S. int (length (filter (\<lambda>x. ?P x \<and> ?f x = s) (lmw_log w))))" by simp
  also have "\<dots> \<le> (\<Sum>s \<in> S. ?max)"
  proof (rule sum_mono)
    fix s
    have "length (filter (\<lambda>x. ?P x \<and> ?f x = s) (lmw_log w)) \<le> counted t s w"
      unfolding counted_def by (rule filter_length_mono) auto
    with windows_okD(3) [OF ww, of t s] show "int (length (filter (\<lambda>x. ?P x \<and> ?f x = s) (lmw_log w))) \<le> ?max" by linarith
  qed
  also have "\<dots> \<le> 2 * ?max" using \<open>card S \<le> 2\<close> m by (simp add: mult_right_mono)
  finally show ?thesis .
qed

theorem limiter_burst_witness:
  "admissions demo_customer 5 15 demo_admitted = 1 \<and> int (admissions demo_customer 5 15 demo_admitted) \<le> 4"
proof
  show "admissions demo_customer 5 15 demo_admitted = 1" by (simp add: admissions_def demo_admitted_def)
  have "lim_window (lmw_limiter demo_admitted) = 10" "lim_maxRequests (lmw_limiter demo_admitted) = 2" by code_simp+
  moreover have "clock_forward demo_admitted" by (simp add: clock_forward_def demo_admitted_def)
  ultimately show "int (admissions demo_customer 5 15 demo_admitted) \<le> 4"
    using limiter_burst [OF demo_limiter_new r_into_rtranclp [of limiter_step, OF demo_admitted_step], of demo_customer 5] by simp
qed

end
