(* ===== verification/Gateway_Idempotency.thy ===== *)
theory Gateway_Idempotency
  imports Gateway
begin

text \<open>
  The store that keeps the gateway from executing a message twice
  (\<^verbatim>\<open>gateway/idempotency.go\<close>) and the events it replays (\<^verbatim>\<open>DispatchEvent\<close> of
  \<^verbatim>\<open>gateway/dispatch.go\<close>).

  Events of duplicates are copies, so they are values. \<open>clock\<close> is what successive calls of the
  configured clock and of \<^verbatim>\<open>time.Now\<close> return during one call. A claim is a record with the state
  of its \<^verbatim>\<open>sync.Once\<close>; the world of the store adds the claims that were handed out, each with
  the time it was issued.
\<close>

declare map_of_eq_Some_iff [simp del] split_paired_All [simp del] split_paired_Ex [simp del]

subsection \<open>Events\<close>

definition DispatchEventMessage :: string where "DispatchEventMessage = ''message''"

definition DispatchEventStatus :: string where "DispatchEventStatus = ''status''"

definition DispatchEventError :: string where "DispatchEventError = ''error''"

definition DispatchEventDone :: string where "DispatchEventDone = ''done''"

record dispatch_event =
  dev_Type :: string
  dev_RequestID :: string
  dev_TraceID :: string
  dev_Text :: string
  dev_Status :: string
  dev_Error :: string
  dev_Done :: bool

subsection \<open>The store\<close>

definition IdempotencyPending :: string where "IdempotencyPending = ''pending''"

definition IdempotencyCompleted :: string where "IdempotencyCompleted = ''completed''"

definition IdempotencyFailed :: string where "IdempotencyFailed = ''failed''"

record idempotency_config =
  ipc_TTL :: duration
  ipc_MaxEntries :: int

record idempotency_entry =
  ipe_state :: string
  ipe_events :: "dispatch_event list"
  ipe_expiresAt :: instant

record idempotency_store =
  ips_ttl :: duration
  ips_maxEntries :: int
  ips_entries :: "(string, idempotency_entry) gomap"
  ips_closed :: bool

record idempotency_claim =
  icl_key :: string
  icl_done :: bool

datatype begin_result = Claimed idempotency_claim | Replayed "dispatch_event list"

definition defaultIdempotencyTTL :: duration where "defaultIdempotencyTTL = 10 * 60 * 10 ^ 9"

definition defaultIdempotencyMaxEntries :: int where "defaultIdempotencyMaxEntries = 4096"

definition NewIdempotencyStore :: "idempotency_config \<Rightarrow> gateway_error + idempotency_store" where
  "NewIdempotencyStore config =
     (let ttl = (if ipc_TTL config = 0 then defaultIdempotencyTTL else ipc_TTL config);
          maximum = (if ipc_MaxEntries config = 0 then defaultIdempotencyMaxEntries else ipc_MaxEntries config)
      in ensure (first_error [fails (ttl < 0) GwErrInvalid, fails (maximum < 1) GwErrInvalid])
         (Inr \<lparr>ips_ttl = ttl, ips_maxEntries = maximum, ips_entries = [], ips_closed = False\<rparr>))"

definition store_Ready :: "idempotency_store option \<Rightarrow> bool" where
  "store_Ready s = (case s of None \<Rightarrow> False | Some s \<Rightarrow> \<not> ips_closed s)"

definition ips_now :: "(nat \<Rightarrow> instant) \<Rightarrow> instant" where
  "ips_now clock = (if clock 0 = 0 then clock 1 else clock 0)"

definition pruneLocked :: "instant \<Rightarrow> idempotency_store \<Rightarrow> idempotency_store" where
  "pruneLocked now s = s\<lparr>ips_entries := filter (\<lambda>(k, e). now < ipe_expiresAt e) (ips_entries s)\<rparr>"

text \<open>What identifies a message: the parts of its key, in the order of the code.\<close>

definition key_parts :: "principal \<Rightarrow> inbound_message \<Rightarrow> string list" where
  "key_parts p m =
     [pr_kind p, pr_tenantID p, pr_appID p, pr_subjectID p, im_ConversationKind m, im_ExternalUserID m,
      im_ExternalPeerID m, im_ExternalChatID m, im_ExternalThreadID m, im_ExternalMessageID m]
     @ (if pr_kind p = PrincipalChannel
        then (let f = rt_fields (pr_routingTarget p) in [rf_Channel f, rf_BindingID f, itoa (rf_BindingVersion f)])
        else [])"

definition makeIdempotencyKey :: "principal \<Rightarrow> inbound_message \<Rightarrow> gateway_error + string" where
  "makeIdempotencyKey p m =
     ensure (map_option (\<lambda>_. GwErrUnauthenticated) (principal_Validate p))
     (Inr (concat (map (\<lambda>part. itoa (int (length part)) @ '':'' @ part) (key_parts p m))))"

text \<open>The section of \<^verbatim>\<open>Begin\<close> under the lock, and the whole call.\<close>

definition admit_locked ::
  "string \<Rightarrow> instant \<Rightarrow> idempotency_store \<Rightarrow> (gateway_error + begin_result) \<times> idempotency_store" where
  "admit_locked k now s =
     check (fails (int (length (ips_entries s)) \<ge> ips_maxEntries s) GwErrIdempotencyCapacity) s
     (Inr (Claimed \<lparr>icl_key = k, icl_done = False\<rparr>),
      s\<lparr>ips_entries := put k \<lparr>ipe_state = IdempotencyPending, ipe_events = [], ipe_expiresAt = now + ips_ttl s\<rparr> (ips_entries s)\<rparr>)"

definition begin_locked ::
  "string \<Rightarrow> instant \<Rightarrow> idempotency_store \<Rightarrow> (gateway_error + begin_result) \<times> idempotency_store" where
  "begin_locked k now s =
     check (fails (ips_closed s) GwErrClosed) s
     (let s1 = pruneLocked now s in
      case get (ips_entries s1) k of
        None \<Rightarrow> admit_locked k now s1
      | Some entry \<Rightarrow>
          if ipe_state entry = IdempotencyPending then (Inl GwErrDuplicateMessage, s1)
          else if ipe_state entry = IdempotencyCompleted then (Inr (Replayed (ipe_events entry)), s1)
          else if ipe_state entry = IdempotencyFailed then admit_locked k now (s1\<lparr>ips_entries := del k (ips_entries s1)\<rparr>)
          else admit_locked k now s1)"

definition store_Begin ::
  "goctx \<Rightarrow> principal \<Rightarrow> inbound_message \<Rightarrow> (nat \<Rightarrow> instant) \<Rightarrow> idempotency_store
   \<Rightarrow> (gateway_error + begin_result) \<times> idempotency_store" where
  "store_Begin c p m clock s =
     check (first_error
       [gw_contextErr c 0,
        map_option (\<lambda>_. GwErrUnauthenticated) (principal_Validate p)]) s
     (proceed (message_Normalize m) s (\<lambda>normalized.
      check (fails (im_ExternalMessageID normalized = []) GwErrInvalid) s
      (proceed (makeIdempotencyKey p normalized) s (\<lambda>k.
       begin_locked k (ips_now clock) s))))"

text \<open>The two ways to settle a claim differ in the state and the events they store.\<close>

definition settle_entry ::
  "string \<Rightarrow> dispatch_event list \<Rightarrow> idempotency_claim \<Rightarrow> (nat \<Rightarrow> instant) \<Rightarrow> idempotency_store
   \<Rightarrow> idempotency_claim \<times> idempotency_store" where
  "settle_entry state events claim clock s =
     (if icl_done claim then (claim, s)
      else (claim\<lparr>icl_done := True\<rparr>,
            case get (ips_entries s) (icl_key claim) of
              None \<Rightarrow> s
            | Some entry \<Rightarrow>
                if ipe_state entry = IdempotencyPending
                then s\<lparr>ips_entries := put (icl_key claim)
                         \<lparr>ipe_state = state, ipe_events = events, ipe_expiresAt = ips_now clock + ips_ttl s\<rparr> (ips_entries s)\<rparr>
                else s))"

definition claim_Complete ::
  "dispatch_event list \<Rightarrow> idempotency_claim \<Rightarrow> (nat \<Rightarrow> instant) \<Rightarrow> idempotency_store
   \<Rightarrow> idempotency_claim \<times> idempotency_store" where
  "claim_Complete events = settle_entry IdempotencyCompleted events"

definition claim_Fail ::
  "idempotency_claim \<Rightarrow> (nat \<Rightarrow> instant) \<Rightarrow> idempotency_store \<Rightarrow> idempotency_claim \<times> idempotency_store" where
  "claim_Fail = settle_entry IdempotencyFailed []"

definition store_Close :: "idempotency_store \<Rightarrow> idempotency_store" where
  "store_Close s = s\<lparr>ips_closed := True, ips_entries := []\<rparr>"

subsection \<open>The store among its callers\<close>

record idempotency_world =
  ipw_store :: idempotency_store
  ipw_claims :: "(idempotency_claim \<times> instant) list"

text \<open>
  \<open>ready now w\<close> is what the callers have to keep to: a message is presented while every claim
  that is still open is younger than the lifetime of an entry.
\<close>

definition ready :: "instant \<Rightarrow> idempotency_world \<Rightarrow> bool" where
  "ready now w \<longleftrightarrow> list_all (\<lambda>(c, issued). icl_done c \<or> now < issued + ips_ttl (ipw_store w)) (ipw_claims w)"

inductive idempotency_step :: "(instant \<Rightarrow> idempotency_world \<Rightarrow> bool) \<Rightarrow> idempotency_world \<Rightarrow> idempotency_world \<Rightarrow> bool" for R where
  claimed: "R (ips_now clock) w \<Longrightarrow> store_Begin c p m clock (ipw_store w) = (Inr (Claimed claim), s) \<Longrightarrow>
    idempotency_step R w \<lparr>ipw_store = s, ipw_claims = (claim, ips_now clock) # ipw_claims w\<rparr>"
| refused: "R (ips_now clock) w \<Longrightarrow> store_Begin c p m clock (ipw_store w) = (x, s) \<Longrightarrow> (\<nexists>claim. x = Inr (Claimed claim)) \<Longrightarrow>
    idempotency_step R w (w\<lparr>ipw_store := s\<rparr>)"
| complete: "i < length (ipw_claims w) \<Longrightarrow> claim_Complete events (fst (ipw_claims w ! i)) clock (ipw_store w) = (claim, s) \<Longrightarrow>
    idempotency_step R w \<lparr>ipw_store = s, ipw_claims = (ipw_claims w)[i := (claim, snd (ipw_claims w ! i))]\<rparr>"
| fail: "i < length (ipw_claims w) \<Longrightarrow> claim_Fail (fst (ipw_claims w ! i)) clock (ipw_store w) = (claim, s) \<Longrightarrow>
    idempotency_step R w \<lparr>ipw_store = s, ipw_claims = (ipw_claims w)[i := (claim, snd (ipw_claims w ! i))]\<rparr>"
| closed: "idempotency_step R w (w\<lparr>ipw_store := store_Close (ipw_store w)\<rparr>)"

definition idempotency_start :: "idempotency_store \<Rightarrow> idempotency_world" where
  "idempotency_start s = \<lparr>ipw_store = s, ipw_claims = []\<rparr>"

definition open_claims :: "string \<Rightarrow> idempotency_world \<Rightarrow> nat" where
  "open_claims k w = length (filter (\<lambda>(c, issued). icl_key c = k \<and> \<not> icl_done c) (ipw_claims w))"

subsection \<open>Claims\<close>

lemma idempotency_states [simp]: "IdempotencyPending \<noteq> IdempotencyCompleted" "IdempotencyPending \<noteq> IdempotencyFailed"
  "IdempotencyCompleted \<noteq> IdempotencyPending" "IdempotencyCompleted \<noteq> IdempotencyFailed"
  "IdempotencyFailed \<noteq> IdempotencyPending" "IdempotencyFailed \<noteq> IdempotencyCompleted"
  by (simp_all add: IdempotencyPending_def IdempotencyCompleted_def IdempotencyFailed_def)

lemma makeIdempotencyKey_key: "principal_Validate p = None \<Longrightarrow> makeIdempotencyKey p m = Inr (key (key_parts p m))"
proof -
  have "concat (map (\<lambda>part. itoa (int (length part)) @ '':'' @ part) ps) = key ps" for ps
    by (induction ps) (simp_all add: key.simps key_part_def)
  then show "principal_Validate p = None \<Longrightarrow> makeIdempotencyKey p m = Inr (key (key_parts p m))"
    by (simp add: makeIdempotencyKey_def)
qed

lemma key_parts_normalized:
  "message_Normalize m = Inr n \<Longrightarrow> key_parts p n = key_parts p m"
  using message_Normalize_fixed [of m n] by (simp add: key_parts_def)

lemma begin_cases:
  assumes "store_Begin c p m clock s = (x, s')"
  obtains (kept) e where "x = Inl e" "s' = s"
  | (locked) "begin_locked (key (key_parts p m)) (ips_now clock) s = (x, s')"
proof -
  let ?e = "first_error [gw_contextErr c 0, map_option (\<lambda>_. GwErrUnauthenticated) (principal_Validate p)]"
  show thesis
  proof (cases ?e)
    case (Some e)
    with assms show thesis using kept by (auto simp: store_Begin_def simp del: first_error_Cons)
  next
    case None
    then have valid: "principal_Validate p = None" by simp
    show thesis
    proof (cases "message_Normalize m")
      case (Inl e)
      with assms None show thesis using kept by (auto simp: store_Begin_def simp del: first_error_Cons)
    next
      case (Inr n)
      show thesis
      proof (cases "im_ExternalMessageID n = []")
        case True
        with assms None Inr show thesis using kept by (auto simp: store_Begin_def simp del: first_error_Cons)
      next
        case False
        with assms None Inr valid show thesis
          using locked by (auto simp: store_Begin_def makeIdempotencyKey_key key_parts_normalized simp del: first_error_Cons)
      qed
    qed
  qed
qed

lemma begin_reaches_lock:
  assumes "gw_contextErr c 0 = None" "principal_Validate p = None" "message_Normalize m = Inr n" "im_ExternalMessageID m \<noteq> []"
  shows "store_Begin c p m clock s = begin_locked (key (key_parts p m)) (ips_now clock) s"
  using assms message_Normalize_fixed(7) [OF assms(3)]
  by (simp add: store_Begin_def makeIdempotencyKey_key key_parts_normalized)

lemma admit_cases:
  assumes "admit_locked k now s = (x, s')"
  obtains (full) "x = Inl GwErrIdempotencyCapacity" "s' = s"
  | (admitted) "x = Inr (Claimed \<lparr>icl_key = k, icl_done = False\<rparr>)"
      "s' = s\<lparr>ips_entries := put k \<lparr>ipe_state = IdempotencyPending, ipe_events = [], ipe_expiresAt = now + ips_ttl s\<rparr> (ips_entries s)\<rparr>"
proof (cases "int (length (ips_entries s)) \<ge> ips_maxEntries s")
  case True
  with assms show thesis using full by (auto simp: admit_locked_def)
next
  case False
  with assms show thesis using admitted by (auto simp: admit_locked_def)
qed

lemma locked_cases:
  assumes "begin_locked k now s = (x, s')"
  obtains (closed) "ips_closed s" "x = Inl GwErrClosed" "s' = s"
  | (duplicate) e where "\<not> ips_closed s" "get (ips_entries (pruneLocked now s)) k = Some e" "ipe_state e = IdempotencyPending"
      "x = Inl GwErrDuplicateMessage" "s' = pruneLocked now s"
  | (replay) e where "\<not> ips_closed s" "get (ips_entries (pruneLocked now s)) k = Some e" "ipe_state e = IdempotencyCompleted"
      "x = Inr (Replayed (ipe_events e))" "s' = pruneLocked now s"
  | (admit) s2 where "\<not> ips_closed s" "s2 = pruneLocked now s \<or> s2 = (pruneLocked now s)\<lparr>ips_entries := del k (ips_entries (pruneLocked now s))\<rparr>"
      "\<And>e. get (ips_entries (pruneLocked now s)) k = Some e \<Longrightarrow> ipe_state e \<noteq> IdempotencyPending \<and> ipe_state e \<noteq> IdempotencyCompleted"
      "admit_locked k now s2 = (x, s')"
proof (cases "ips_closed s")
  case True
  with assms have "x = Inl GwErrClosed" "s' = s" by (simp_all add: begin_locked_def)
  from closed [OF True this] show thesis .
next
  case open_s: False
  let ?p = "pruneLocked now s"
  show thesis
  proof (cases "get (ips_entries ?p) k")
    case None
    with assms open_s have "admit_locked k now ?p = (x, s')" by (simp add: begin_locked_def)
    from admit [OF open_s disjI1 [OF refl] _ this] None show thesis by simp
  next
    case (Some e)
    consider "ipe_state e = IdempotencyPending" | "ipe_state e = IdempotencyCompleted"
      | "ipe_state e = IdempotencyFailed" | "ipe_state e \<notin> {IdempotencyPending, IdempotencyCompleted, IdempotencyFailed}"
      by blast
    then show thesis
    proof cases
      case 1
      with assms open_s Some have "x = Inl GwErrDuplicateMessage" "s' = ?p" by (simp_all add: begin_locked_def)
      from duplicate [OF open_s Some 1 this] show thesis .
    next
      case 2
      with assms open_s Some have "x = Inr (Replayed (ipe_events e))" "s' = ?p" by (simp_all add: begin_locked_def)
      from replay [OF open_s Some 2 this] show thesis .
    next
      case 3
      with assms open_s Some have "admit_locked k now (?p\<lparr>ips_entries := del k (ips_entries ?p)\<rparr>) = (x, s')"
        by (simp add: begin_locked_def Let_def)
      from admit [OF open_s disjI2 [OF refl] _ this] 3 Some show thesis by simp
    next
      case 4
      with assms open_s Some have "admit_locked k now ?p = (x, s')" by (simp add: begin_locked_def)
      from admit [OF open_s disjI1 [OF refl] _ this] 4 Some show thesis by simp
    qed
  qed
qed

subsection \<open>One claim per message\<close>

definition claims_ok :: "idempotency_world \<Rightarrow> bool" where
  "claims_ok w \<longleftrightarrow> 0 < ips_ttl (ipw_store w)
     \<and> (\<forall>c issued. (c, issued) \<in> set (ipw_claims w) \<and> \<not> icl_done c \<and> \<not> ips_closed (ipw_store w) \<longrightarrow>
          (\<exists>e. get (ips_entries (ipw_store w)) (icl_key c) = Some e \<and> ipe_state e = IdempotencyPending
             \<and> ipe_expiresAt e = issued + ips_ttl (ipw_store w)))
     \<and> (\<forall>k. open_claims k w \<le> 1) \<and> well_keyed (ips_entries (ipw_store w))"

lemma claims_okD:
  assumes "claims_ok w"
  shows "0 < ips_ttl (ipw_store w)" "open_claims k w \<le> 1" "well_keyed (ips_entries (ipw_store w))"
    "(c, issued) \<in> set (ipw_claims w) \<Longrightarrow> \<not> icl_done c \<Longrightarrow> \<not> ips_closed (ipw_store w) \<Longrightarrow>
      \<exists>e. get (ips_entries (ipw_store w)) (icl_key c) = Some e \<and> ipe_state e = IdempotencyPending
        \<and> ipe_expiresAt e = issued + ips_ttl (ipw_store w)"
  using assms unfolding claims_ok_def by blast+

lemma get_prune: "well_keyed (ips_entries s) \<Longrightarrow>
  get (ips_entries (pruneLocked now s)) k = (case get (ips_entries s) k of None \<Rightarrow> None | Some e \<Rightarrow> if now < ipe_expiresAt e then Some e else None)"
  by (simp add: pruneLocked_def get_filter split: option.splits)

lemma open_claim_counted:
  assumes "(c, issued) \<in> set (ipw_claims w)" "\<not> icl_done c"
  shows "0 < open_claims (icl_key c) w"
  using assms by (auto simp: open_claims_def filter_empty_conv)

text \<open>Claims that are open when a message is presented in time keep their entries.\<close>

lemma prune_keeps:
  assumes ok: "claims_ok w" and in_time: "ready now w" and c: "(c, issued) \<in> set (ipw_claims w)" "\<not> icl_done c"
    and open_s: "\<not> ips_closed (ipw_store w)"
  shows "\<exists>e. get (ips_entries (pruneLocked now (ipw_store w))) (icl_key c) = Some e \<and> ipe_state e = IdempotencyPending
    \<and> ipe_expiresAt e = issued + ips_ttl (ipw_store w)"
proof -
  from claims_okD(4) [OF ok c open_s] obtain e where e: "get (ips_entries (ipw_store w)) (icl_key c) = Some e"
    "ipe_state e = IdempotencyPending" "ipe_expiresAt e = issued + ips_ttl (ipw_store w)" by blast
  moreover have "now < issued + ips_ttl (ipw_store w)"
    using in_time c by (auto simp: ready_def list_all_iff)
  ultimately show ?thesis by (simp add: get_prune [OF claims_okD(3) [OF ok]])
qed

lemma begin_keeps_claims:
  assumes ok: "claims_ok w" and in_time: "ready (ips_now clock) w"
    and b: "store_Begin cx p m clock (ipw_store w) = (x, s)"
  shows "ips_ttl s = ips_ttl (ipw_store w)" "ips_closed s = ips_closed (ipw_store w)" "well_keyed (ips_entries s)"
    "(c, issued) \<in> set (ipw_claims w) \<Longrightarrow> \<not> icl_done c \<Longrightarrow> \<not> ips_closed s \<Longrightarrow>
      (\<exists>e. get (ips_entries s) (icl_key c) = Some e \<and> ipe_state e = IdempotencyPending \<and> ipe_expiresAt e = issued + ips_ttl s)
      \<and> (\<forall>claim. x = Inr (Claimed claim) \<longrightarrow> icl_key claim \<noteq> icl_key c) \<and> (icl_key c = key (key_parts p m) \<longrightarrow> isl x)"
    "x = Inr (Claimed claim) \<Longrightarrow> \<not> icl_done claim \<and> \<not> ips_closed s \<and>
      (\<exists>e. get (ips_entries s) (icl_key claim) = Some e \<and> ipe_state e = IdempotencyPending
         \<and> ipe_expiresAt e = ips_now clock + ips_ttl s)"
proof -
  let ?s = "ipw_store w" and ?k = "key (key_parts p m)" and ?now = "ips_now clock"
  let ?p = "pruneLocked ?now ?s"
  have wk: "well_keyed (ips_entries ?p)" using claims_okD(3) [OF ok] by (simp add: pruneLocked_def)
  have pr: "ips_ttl ?p = ips_ttl ?s" "ips_closed ?p = ips_closed ?s" by (simp_all add: pruneLocked_def)
  have "ips_ttl s = ips_ttl ?s \<and> ips_closed s = ips_closed ?s \<and> well_keyed (ips_entries s)
    \<and> ((c, issued) \<in> set (ipw_claims w) \<longrightarrow> \<not> icl_done c \<longrightarrow> \<not> ips_closed s \<longrightarrow>
      (\<exists>e. get (ips_entries s) (icl_key c) = Some e \<and> ipe_state e = IdempotencyPending \<and> ipe_expiresAt e = issued + ips_ttl s)
      \<and> (\<forall>claim. x = Inr (Claimed claim) \<longrightarrow> icl_key claim \<noteq> icl_key c) \<and> (icl_key c = ?k \<longrightarrow> isl x))
    \<and> (\<forall>claim. x = Inr (Claimed claim) \<longrightarrow> \<not> icl_done claim \<and> \<not> ips_closed s \<and>
      (\<exists>e. get (ips_entries s) (icl_key claim) = Some e \<and> ipe_state e = IdempotencyPending
         \<and> ipe_expiresAt e = ?now + ips_ttl s))"
    using b
  proof (cases rule: begin_cases)
    case (kept e)
    then show ?thesis using claims_okD(3) [OF ok] claims_okD(4) [OF ok, of c issued] by simp
  next
    case locked
    then show ?thesis
    proof (cases rule: locked_cases)
      case closed
      then show ?thesis using claims_okD(3) [OF ok] by simp
    next
      case (duplicate e)
      then show ?thesis using wk pr prune_keeps [OF ok in_time, of c issued] by simp
    next
      case (replay e)
      then show ?thesis using wk pr prune_keeps [OF ok in_time, of c issued] by fastforce
    next
      case (admit s2)
      have s2: "ips_ttl s2 = ips_ttl ?s" "ips_closed s2 = ips_closed ?s" "well_keyed (ips_entries s2)"
        and get2: "k' \<noteq> ?k \<Longrightarrow> get (ips_entries s2) k' = get (ips_entries ?p) k'" for k'
        using admit(2) wk pr by auto
      have other: "icl_key c \<noteq> ?k" if "(c, issued) \<in> set (ipw_claims w)" "\<not> icl_done c"
        using prune_keeps [OF ok in_time that admit(1)] admit(3) by force
      from admit(4) show ?thesis
        by (cases rule: admit_cases)
          (use s2 get2 other prune_keeps [OF ok in_time, of c issued] admit(1) in \<open>auto\<close>)
    qed
  qed
  then show "ips_ttl s = ips_ttl (ipw_store w)" "ips_closed s = ips_closed (ipw_store w)" "well_keyed (ips_entries s)"
    "(c, issued) \<in> set (ipw_claims w) \<Longrightarrow> \<not> icl_done c \<Longrightarrow> \<not> ips_closed s \<Longrightarrow>
      (\<exists>e. get (ips_entries s) (icl_key c) = Some e \<and> ipe_state e = IdempotencyPending \<and> ipe_expiresAt e = issued + ips_ttl s)
      \<and> (\<forall>claim. x = Inr (Claimed claim) \<longrightarrow> icl_key claim \<noteq> icl_key c) \<and> (icl_key c = key (key_parts p m) \<longrightarrow> isl x)"
    "x = Inr (Claimed claim) \<Longrightarrow> \<not> icl_done claim \<and> \<not> ips_closed s \<and>
      (\<exists>e. get (ips_entries s) (icl_key claim) = Some e \<and> ipe_state e = IdempotencyPending
         \<and> ipe_expiresAt e = ips_now clock + ips_ttl s)"
    by blast+
qed

lemma settle_keeps_claims:
  assumes ok: "claims_ok w" and i: "i < length (ipw_claims w)"
    and e: "settle_entry state events (fst (ipw_claims w ! i)) clock (ipw_store w) = (claim, s)"
  shows "claims_ok \<lparr>ipw_store = s, ipw_claims = (ipw_claims w)[i := (claim, snd (ipw_claims w ! i))]\<rparr>"
proof (cases "icl_done (fst (ipw_claims w ! i))")
  case True
  with e have "claim = fst (ipw_claims w ! i)" "s = ipw_store w" by (auto simp: settle_entry_def)
  then have "\<lparr>ipw_store = s, ipw_claims = (ipw_claims w)[i := (claim, snd (ipw_claims w ! i))]\<rparr> = w" by simp
  with ok show ?thesis by (simp only:)
next
  case False
  let ?w = "\<lparr>ipw_store = s, ipw_claims = (ipw_claims w)[i := (claim, snd (ipw_claims w ! i))]\<rparr>"
  let ?k = "icl_key (fst (ipw_claims w ! i))"
  have claim: "icl_done claim" "icl_key claim = ?k" using e False by (auto simp: settle_entry_def)
  have frame: "ips_ttl s = ips_ttl (ipw_store w)" "ips_closed s = ips_closed (ipw_store w)" "well_keyed (ips_entries s)"
    and same: "k' \<noteq> ?k \<Longrightarrow> get (ips_entries s) k' = get (ips_entries (ipw_store w)) k'" for k'
    using e False claims_okD(3) [OF ok] by (auto simp: settle_entry_def split: option.splits if_splits)
  have count: "open_claims k ?w + (if k = ?k then 1 else 0) = open_claims k w" for k
    using filter_list_update [OF i, of "\<lambda>(c, issued). icl_key c = k \<and> \<not> icl_done c" "(claim, snd (ipw_claims w ! i))"] claim False
    by (auto simp: open_claims_def split: prod.splits if_splits)
  have others: "icl_key c \<noteq> ?k \<and> (c, issued) \<in> set (ipw_claims w)" if "(c, issued) \<in> set (ipw_claims ?w)" "\<not> icl_done c" for c issued
  proof
    show "icl_key c \<noteq> ?k"
      using open_claim_counted [OF that] count [of ?k] claims_okD(2) [OF ok, of ?k] by force
    show "(c, issued) \<in> set (ipw_claims w)"
      using that claim set_update_subset_insert [of "ipw_claims w" i "(claim, snd (ipw_claims w ! i))"] by auto
  qed
  have "open_claims k ?w \<le> 1" for k using count [of k] claims_okD(2) [OF ok, of k] by linarith
  then show ?thesis
    unfolding claims_ok_def using others same frame claims_okD(1,4) [OF ok] by fastforce
qed

lemma claims_step_ok [wf_intros]: "idempotency_step ready w w' \<Longrightarrow> claims_ok w \<Longrightarrow> claims_ok w'"
proof (induction rule: idempotency_step.induct)
  case (claimed clock w c p m claim s)
  note b = begin_keeps_claims [OF claimed(3,1,2)]
  let ?w = "\<lparr>ipw_store = s, ipw_claims = (claim, ips_now clock) # ipw_claims w\<rparr>"
  have open_s: "\<not> ips_closed s" using b(5) by blast
  have none: "open_claims (icl_key claim) w = 0"
  proof -
    have "icl_key c \<noteq> icl_key claim" if "(c, issued) \<in> set (ipw_claims w)" "\<not> icl_done c" for c issued
      using b(4) [OF that open_s] by metis
    then show ?thesis by (auto simp: open_claims_def filter_empty_conv)
  qed
  have "open_claims k ?w \<le> 1" for k
    using none claims_okD(2) [OF claimed(3), of k] by (auto simp: open_claims_def)
  then show ?case
    unfolding claims_ok_def using b(1,3,5) b(4) [OF _ _ open_s] claims_okD(1) [OF claimed(3)] by auto
next
  case (refused clock w c p m x s)
  note b = begin_keeps_claims [OF refused(4,1,2)]
  show ?case
    unfolding claims_ok_def using b(1,3) b(4) claims_okD(1,2) [OF refused(4)] by (auto simp: open_claims_def)
next
  case (complete i w events clock claim s)
  then show ?case using settle_keeps_claims by (simp add: claim_Complete_def)
next
  case (fail i w clock claim s)
  then show ?case using settle_keeps_claims by (simp add: claim_Fail_def)
next
  case (closed w)
  then show ?case by (auto simp: claims_ok_def store_Close_def open_claims_def)
qed

lemma claims_star_ok: "(idempotency_step ready)\<^sup>*\<^sup>* w w' \<Longrightarrow> claims_ok w \<Longrightarrow> claims_ok w'"
  by (induction rule: rtranclp_induct) (auto intro: claims_step_ok)

lemma idempotency_start_ok: "NewIdempotencyStore config = Inr s \<Longrightarrow> claims_ok (idempotency_start s)"
  by (auto simp: NewIdempotencyStore_def Let_def claims_ok_def idempotency_start_def open_claims_def
      defaultIdempotencyTTL_def split: if_splits)

text \<open>
  C37: a message is executed by one caller at a time. As long as messages are presented while
  every open claim is younger than the lifetime of an entry, no message ever has two open
  claims, and presenting a message whose claim is open is answered by an error.
\<close>

theorem idempotency_exclusive:
  assumes "NewIdempotencyStore config = Inr s0" and "(idempotency_step ready)\<^sup>*\<^sup>* (idempotency_start s0) w"
  shows "open_claims k w \<le> 1
    \<and> (\<forall>c issued. (c, issued) \<in> set (ipw_claims w) \<and> \<not> icl_done c \<and> icl_key c = key (key_parts p m)
         \<and> ready (ips_now clock) w \<longrightarrow> isl (fst (store_Begin cx p m clock (ipw_store w))))"
proof (intro conjI allI impI)
  have ok: "claims_ok w" by (rule claims_star_ok [OF assms(2) idempotency_start_ok [OF assms(1)]])
  then show "open_claims k w \<le> 1" by (rule claims_okD(2))
  fix c issued
  assume c: "(c, issued) \<in> set (ipw_claims w) \<and> \<not> icl_done c \<and> icl_key c = key (key_parts p m) \<and> ready (ips_now clock) w"
  obtain x s where b: "store_Begin cx p m clock (ipw_store w) = (x, s)" by fastforce
  show "isl (fst (store_Begin cx p m clock (ipw_store w)))"
  proof (cases "ips_closed s")
    case False
    with begin_keeps_claims(4) [OF ok _ b _ _ False, of c issued] c b show ?thesis by simp
  next
    case True
    from b show ?thesis
    proof (cases rule: begin_cases)
      case (kept e)
      with b show ?thesis by simp
    next
      case locked
      have "ips_closed (ipw_store w)" using begin_keeps_claims(2) [OF ok _ b] c True by simp
      with locked b show ?thesis by (auto simp: begin_locked_def)
    qed
  qed
qed

subsection \<open>A small world\<close>

definition demo_caller :: principal where
  "demo_caller = \<lparr>pr_kind = PrincipalAPI, pr_tenantID = ''t_00000000000000000000000000'',
     pr_appID = ''app_00000000000000000000000000'', pr_subjectID = ''s'',
     pr_apiProof = Some \<lparr>aid_TenantID = ''t_00000000000000000000000000'', aid_AppID = ''app_00000000000000000000000000'',
       aid_SubjectID = ''s''\<rparr>, pr_routingTarget = zero_target\<rparr>"

definition demo_text :: inbound_message where
  "demo_text = \<lparr>im_Content = ''hi'', im_ContentType = [], im_ExternalMessageID = ''m'', im_ExternalUserID = ''u'',
     im_ConversationKind = ConversationDirect, im_ExternalPeerID = ''p'', im_ExternalChatID = [], im_ExternalThreadID = []\<rparr>"

definition demo_keys :: idempotency_store where
  "demo_keys = \<lparr>ips_ttl = 10, ips_maxEntries = 2, ips_entries = [], ips_closed = False\<rparr>"

definition demo_claim :: idempotency_claim where
  "demo_claim = \<lparr>icl_key = key (key_parts demo_caller demo_text), icl_done = False\<rparr>"

definition demo_claimed :: idempotency_world where
  "demo_claimed = \<lparr>ipw_store = snd (store_Begin (Some background) demo_caller demo_text (\<lambda>_. 1) demo_keys),
     ipw_claims = [(demo_claim, 1)]\<rparr>"

lemma demo_keys_new: "NewIdempotencyStore \<lparr>ipc_TTL = 10, ipc_MaxEntries = 2\<rparr> = Inr demo_keys"
  by code_simp

lemma demo_claimed_step: "R 1 (idempotency_start demo_keys) \<Longrightarrow> idempotency_step R (idempotency_start demo_keys) demo_claimed"
proof -
  assume r: "R 1 (idempotency_start demo_keys)"
  have now: "ips_now (\<lambda>_. 1) = 1" by (simp add: ips_now_def)
  have "store_Begin (Some background) demo_caller demo_text (\<lambda>_. 1) (ipw_store (idempotency_start demo_keys))
      = (Inr (Claimed demo_claim), ipw_store demo_claimed)"
    by code_simp
  from idempotency_step.claimed [of R "\<lambda>_. 1", unfolded now, OF r this] show ?thesis
    by (simp add: demo_claimed_def idempotency_start_def)
qed

theorem idempotency_exclusive_witness:
  "open_claims (icl_key demo_claim) demo_claimed = 1
   \<and> isl (fst (store_Begin (Some background) demo_caller demo_text (\<lambda>_. 2) (ipw_store demo_claimed)))"
proof
  show "open_claims (icl_key demo_claim) demo_claimed = 1"
    by (simp add: open_claims_def demo_claimed_def demo_claim_def)
  have "ready 1 (idempotency_start demo_keys)" by (simp add: ready_def idempotency_start_def)
  from r_into_rtranclp [of "idempotency_step ready", OF demo_claimed_step [of ready, OF this]]
  have "(idempotency_step ready)\<^sup>*\<^sup>* (idempotency_start demo_keys) demo_claimed" .
  moreover have "ready (ips_now (\<lambda>_. 2)) demo_claimed" by code_simp
  ultimately show "isl (fst (store_Begin (Some background) demo_caller demo_text (\<lambda>_. 2) (ipw_store demo_claimed)))"
    using idempotency_exclusive [OF demo_keys_new, of demo_claimed "[]" demo_caller demo_text "\<lambda>_. 2" "Some background"]
    by (simp add: demo_claimed_def demo_claim_def)
qed

text \<open>
  The lifetime matters. When an execution outlives its entry, the message is claimed a second
  time while the first execution goes on, and the first one then settles the claim of the second.
\<close>

definition demo_reclaimed :: idempotency_world where
  "demo_reclaimed = \<lparr>ipw_store = snd (store_Begin (Some background) demo_caller demo_text (\<lambda>_. 12) (ipw_store demo_claimed)),
     ipw_claims = [(demo_claim, 12), (demo_claim, 1)]\<rparr>"

theorem idempotency_outlived_claim:
  "(idempotency_step (\<lambda>_ _. True))\<^sup>*\<^sup>* (idempotency_start demo_keys) demo_reclaimed
   \<and> open_claims (icl_key demo_claim) demo_reclaimed = 2
   \<and> fst (store_Begin (Some background) demo_caller demo_text (\<lambda>_. 14)
        (snd (claim_Complete [] (fst (ipw_claims demo_reclaimed ! 1)) (\<lambda>_. 13) (ipw_store demo_reclaimed)))) = Inr (Replayed [])"
proof (intro conjI)
  have "store_Begin (Some background) demo_caller demo_text (\<lambda>_. 12) (ipw_store demo_claimed)
      = (Inr (Claimed demo_claim), ipw_store demo_reclaimed)" by code_simp
  from idempotency_step.claimed [of "\<lambda>_ _. True", OF TrueI this]
  have "idempotency_step (\<lambda>_ _. True) demo_claimed demo_reclaimed"
    by (simp add: demo_reclaimed_def demo_claimed_def ips_now_def)
  then show "(idempotency_step (\<lambda>_ _. True))\<^sup>*\<^sup>* (idempotency_start demo_keys) demo_reclaimed"
    using demo_claimed_step [of "\<lambda>_ _. True", OF TrueI] by (meson rtranclp.simps)
  show "open_claims (icl_key demo_claim) demo_reclaimed = 2"
    by (simp add: open_claims_def demo_reclaimed_def demo_claim_def)
  show "fst (store_Begin (Some background) demo_caller demo_text (\<lambda>_. 14)
        (snd (claim_Complete [] (fst (ipw_claims demo_reclaimed ! 1)) (\<lambda>_. 13) (ipw_store demo_reclaimed)))) = Inr (Replayed [])"
    by code_simp
qed

subsection \<open>The store implements a map of messages\<close>

text \<open>
  What the store promises: a finite map from the identifying parts of a message to the state of
  its execution. Keys are not mentioned; the size of the map is the number of its messages.
\<close>

type_synonym idempotency_spec = "string list \<rightharpoonup> idempotency_entry"

definition spec_prune :: "instant \<Rightarrow> idempotency_spec \<Rightarrow> idempotency_spec" where
  "spec_prune now M = (\<lambda>ps. case M ps of None \<Rightarrow> None | Some e \<Rightarrow> if now < ipe_expiresAt e then Some e else None)"

definition spec_admit ::
  "instant \<Rightarrow> duration \<Rightarrow> int \<Rightarrow> string list \<Rightarrow> idempotency_spec \<Rightarrow> (gateway_error + begin_result) \<times> idempotency_spec" where
  "spec_admit now ttl maximum ps M =
     (if int (card (dom M)) \<ge> maximum then (Inl GwErrIdempotencyCapacity, M)
      else (Inr (Claimed \<lparr>icl_key = key ps, icl_done = False\<rparr>),
            M(ps \<mapsto> \<lparr>ipe_state = IdempotencyPending, ipe_events = [], ipe_expiresAt = now + ttl\<rparr>)))"

definition spec_begin ::
  "instant \<Rightarrow> duration \<Rightarrow> int \<Rightarrow> string list \<Rightarrow> idempotency_spec \<Rightarrow> (gateway_error + begin_result) \<times> idempotency_spec" where
  "spec_begin now ttl maximum ps M =
     (let M1 = spec_prune now M in
      case M1 ps of
        None \<Rightarrow> spec_admit now ttl maximum ps M1
      | Some e \<Rightarrow>
          if ipe_state e = IdempotencyPending then (Inl GwErrDuplicateMessage, M1)
          else if ipe_state e = IdempotencyCompleted then (Inr (Replayed (ipe_events e)), M1)
          else spec_admit now ttl maximum ps (M1(ps := None)))"

definition spec_settle :: "string \<Rightarrow> dispatch_event list \<Rightarrow> instant \<Rightarrow> string list \<Rightarrow> idempotency_spec \<Rightarrow> idempotency_spec" where
  "spec_settle state events expires ps M =
     (case M ps of
        None \<Rightarrow> M
      | Some e \<Rightarrow> if ipe_state e = IdempotencyPending
                  then M(ps \<mapsto> \<lparr>ipe_state = state, ipe_events = events, ipe_expiresAt = expires\<rparr>) else M)"

definition messages :: "idempotency_store \<Rightarrow> idempotency_spec" where
  "messages s = (\<lambda>ps. get (ips_entries s) (key ps))"

definition coded :: "idempotency_store \<Rightarrow> bool" where
  "coded s \<longleftrightarrow> well_keyed (ips_entries s)
     \<and> (\<forall>k e. get (ips_entries s) k = Some e \<longrightarrow>
          k \<in> range key \<and> ipe_state e \<in> {IdempotencyPending, IdempotencyCompleted, IdempotencyFailed})"

lemma codedD: "coded s \<Longrightarrow> well_keyed (ips_entries s)"
  "coded s \<Longrightarrow> get (ips_entries s) k = Some e \<Longrightarrow>
    k \<in> range key \<and> ipe_state e \<in> {IdempotencyPending, IdempotencyCompleted, IdempotencyFailed}"
  unfolding coded_def by blast+

lemma messages_card:
  assumes "coded s"
  shows "card (dom (messages s)) = length (ips_entries s)"
proof -
  have "key ` dom (messages s) = fst ` set (ips_entries s)"
    using codedD(2) [OF assms] by (force simp: messages_def dom_def image_iff map_of_eq_None_iff [symmetric] simp flip: dom_map_of_conv_image_fst)
  moreover have "inj_on key (dom (messages s))" by (simp add: inj_on_def)
  ultimately have "card (dom (messages s)) = card (fst ` set (ips_entries s))" by (metis card_image)
  also have "\<dots> = length (ips_entries s)" using codedD(1) [OF assms] by (metis distinct_card length_map set_map)
  finally show ?thesis .
qed

lemma messages_prune: "coded s \<Longrightarrow> messages (pruneLocked now s) = spec_prune now (messages s)"
  by (rule ext) (simp add: messages_def spec_prune_def get_prune codedD(1))

lemma coded_prune: "coded s \<Longrightarrow> coded (pruneLocked now s)"
  unfolding coded_def by (auto simp: get_prune split: option.splits if_splits) (simp add: pruneLocked_def)

lemma messages_put: "messages (s\<lparr>ips_entries := put (key ps) e (ips_entries s)\<rparr>) = (messages s)(ps \<mapsto> e)"
  by (rule ext) (simp add: messages_def)

lemma messages_del: "messages (s\<lparr>ips_entries := del (key ps) (ips_entries s)\<rparr>) = (messages s)(ps := None)"
  by (rule ext) (simp add: messages_def)

lemma coded_put: "coded s \<Longrightarrow> ipe_state e \<in> {IdempotencyPending, IdempotencyCompleted, IdempotencyFailed} \<Longrightarrow>
  coded (s\<lparr>ips_entries := put (key ps) e (ips_entries s)\<rparr>)"
  by (auto simp: coded_def)

lemma coded_del: "coded s \<Longrightarrow> coded (s\<lparr>ips_entries := del k (ips_entries s)\<rparr>)"
  by (auto simp: coded_def)

lemma admit_refines:
  assumes "coded s"
  shows "fst (admit_locked (key ps) now s) = fst (spec_admit now (ips_ttl s) (ips_maxEntries s) ps (messages s))"
    "messages (snd (admit_locked (key ps) now s)) = snd (spec_admit now (ips_ttl s) (ips_maxEntries s) ps (messages s))"
    "coded (snd (admit_locked (key ps) now s))"
  using assms
  by (cases "int (length (ips_entries s)) \<ge> ips_maxEntries s";
      simp add: admit_locked_def spec_admit_def messages_card messages_put coded_put)+

text \<open>
  C38: the store refines the map of messages. Seen through the map that reads the entries
  under the keys of messages, presenting an accepted message and settling a claim have the
  answer and the effect that the specification says; this rests on the keys being injective,
  and every operation keeps the store in the shape in which it does.
\<close>

theorem idempotency_refines:
  assumes "coded s" and "\<not> ips_closed s"
    and "gw_contextErr c 0 = None" "principal_Validate p = None" "message_Normalize m = Inr n" "im_ExternalMessageID m \<noteq> []"
    and "icl_key claim = key ps" "\<not> icl_done claim" and "state \<in> {IdempotencyCompleted, IdempotencyFailed}"
  shows "(fst (store_Begin c p m clock s), messages (snd (store_Begin c p m clock s)))
      = spec_begin (ips_now clock) (ips_ttl s) (ips_maxEntries s) (key_parts p m) (messages s)
    \<and> messages (snd (settle_entry state events claim clock s))
      = spec_settle state events (ips_now clock + ips_ttl s) ps (messages s)
    \<and> coded (snd (store_Begin c p m clock s)) \<and> coded (snd (settle_entry state events claim clock s))"
proof -
  let ?q = "key_parts p m" and ?now = "ips_now clock"
  let ?p = "pruneLocked ?now s"
  note b = begin_reaches_lock [OF assms(3-6), of clock s]
  have cp: "coded ?p" and mp: "messages ?p = spec_prune ?now (messages s)"
    and pf: "ips_ttl ?p = ips_ttl s" "ips_maxEntries ?p = ips_maxEntries s"
    using coded_prune [OF assms(1)] messages_prune [OF assms(1)] by (simp_all add: pruneLocked_def)
  have look: "get (ips_entries ?p) (key ?q) = spec_prune ?now (messages s) ?q"
    using fun_cong [OF mp, of ?q] by (simp only: messages_def)
  have beg: "(fst (begin_locked (key ?q) ?now s), messages (snd (begin_locked (key ?q) ?now s)))
      = spec_begin ?now (ips_ttl s) (ips_maxEntries s) ?q (messages s)
    \<and> coded (snd (begin_locked (key ?q) ?now s))"
  proof (cases "spec_prune ?now (messages s) ?q")
    case None
    then show ?thesis
      using assms(2) look admit_refines [OF cp, of ?q ?now] cp by (simp add: begin_locked_def spec_begin_def Let_def mp pf prod_eq_iff)
  next
    case (Some e)
    with codedD(2) [OF cp] look have "ipe_state e \<in> {IdempotencyPending, IdempotencyCompleted, IdempotencyFailed}" by metis
    moreover note cd = coded_del [OF cp, of "key ?q"]
    ultimately show ?thesis
      using assms(2) look Some admit_refines [OF cd, of ?q ?now] cp
      by (auto simp: begin_locked_def spec_begin_def Let_def mp pf prod_eq_iff messages_del)
  qed
  have "messages (snd (settle_entry state events claim clock s)) = spec_settle state events (?now + ips_ttl s) ps (messages s)
    \<and> coded (snd (settle_entry state events claim clock s))"
    using assms(1,7-9) by (auto simp: settle_entry_def spec_settle_def messages_put coded_put split: option.splits) (simp_all add: messages_def)
  with b beg show ?thesis by simp
qed

theorem idempotency_refines_witness:
  "(fst (store_Begin (Some background) demo_caller demo_text (\<lambda>_. 1) demo_keys), messages (ipw_store demo_claimed))
   = spec_begin 1 10 2 (key_parts demo_caller demo_text) Map.empty"
proof -
  have "coded demo_keys" by (simp add: coded_def demo_keys_def)
  moreover have "\<not> ips_closed demo_keys" "gw_contextErr (Some background) 0 = None" "principal_Validate demo_caller = None"
    "message_Normalize demo_text = Inr (demo_text\<lparr>im_ContentType := ContentTypeText\<rparr>)" "im_ExternalMessageID demo_text \<noteq> []"
    by code_simp+
  moreover have "icl_key demo_claim = key (key_parts demo_caller demo_text)" "\<not> icl_done demo_claim"
    by (simp_all add: demo_claim_def)
  moreover have "IdempotencyFailed \<in> {IdempotencyCompleted, IdempotencyFailed}" by simp
  ultimately have "(fst (store_Begin (Some background) demo_caller demo_text (\<lambda>_. 1) demo_keys),
      messages (snd (store_Begin (Some background) demo_caller demo_text (\<lambda>_. 1) demo_keys)))
    = spec_begin (ips_now (\<lambda>_. 1)) (ips_ttl demo_keys) (ips_maxEntries demo_keys) (key_parts demo_caller demo_text) (messages demo_keys)"
    by (blast dest: idempotency_refines)
  then show ?thesis by (simp add: demo_claimed_def) (simp add: demo_keys_def ips_now_def messages_def)
qed

end
