(* ===== verification/Runner_Registry.thy ===== *)
theory Runner_Registry
  imports Gateway
begin

text \<open>
  The registry of runners (\<^verbatim>\<open>gateway/registry.go\<close>): a cache of reference-counted runners under
  the complete key of an execution plan, which merges concurrent constructions, evicts what is
  idle and closes a runner only after its last lease.

  Entries and constructions are shared by pointer, so they live in two heaps, lists whose
  indices are the addresses. A channel that is only ever closed is the fact that it is closed.
  Every operation is a sequence of sections: what it does under the lock of the registry is one
  function of the state, what it does afterwards is a step of its own, and steps of other
  callers may come between. The clock is read once in each section. Go visits a map in an
  unspecified order: where the order matters it is an argument.
\<close>

declare map_of_eq_Some_iff [simp del] split_paired_All [simp del] split_paired_Ex [simp del]

subsection \<open>State\<close>

record plan_key =
  pk_TenantID :: string
  pk_TenantVersion :: int
  pk_AppID :: string
  pk_AppVersion :: int
  pk_Revision :: int
  pk_AgentContentDigest :: string
  pk_ModelProfileID :: string
  pk_ModelProfileVersion :: int
  pk_ModelContentDigest :: string
  pk_BackendProfileID :: string
  pk_BackendProfileVersion :: int
  pk_BackendContentDigest :: string

text \<open>A runner is an object with an identity and a \<^verbatim>\<open>Close\<close> method.\<close>

type_synonym runner = nat

record runner_entry =
  rne_runner :: runner
  rne_refs :: int
  rne_lastUsed :: instant
  rne_invalidated :: bool
  rne_zero :: bool
  rne_closed :: bool
  rne_closeErr :: bool

record runner_build =
  rnb_done :: bool
  rnb_invalidated :: bool

record registry_config =
  rgc_MaxEntries :: int
  rgc_IdleTTL :: duration
  rgc_CloseTimeout :: duration

record runner_registry =
  rrg_maxEntries :: int
  rrg_idleTTL :: duration
  rrg_closeTimeout :: duration
  rrg_entries :: "(plan_key, nat) gomap"
  rrg_pending :: "(plan_key, nat) gomap"
  rrg_closed :: bool
  rrg_closeStarted :: bool
  rrg_heap :: "runner_entry list"
  rrg_builds :: "runner_build list"

definition defaultRunnerRegistryMaxEntries :: int where "defaultRunnerRegistryMaxEntries = 128"

definition defaultRunnerRegistryIdleTTL :: duration where "defaultRunnerRegistryIdleTTL = 10 * 60 * 10 ^ 9"

definition defaultRunnerRegistryCloseWait :: duration where "defaultRunnerRegistryCloseWait = 5 * 10 ^ 9"

text \<open>\<open>factory\<close> tells whether a factory is configured.\<close>

definition NewRunnerRegistry :: "bool \<Rightarrow> registry_config \<Rightarrow> gateway_error + runner_registry" where
  "NewRunnerRegistry factory config =
     (let maximum = (if rgc_MaxEntries config = 0 then defaultRunnerRegistryMaxEntries else rgc_MaxEntries config);
          idle = (if rgc_IdleTTL config = 0 then defaultRunnerRegistryIdleTTL else rgc_IdleTTL config);
          wait = (if rgc_CloseTimeout config = 0 then defaultRunnerRegistryCloseWait else rgc_CloseTimeout config)
      in ensure (first_error
           [fails (\<not> factory) GwErrInvalid,
            fails (maximum < 1) GwErrInvalid,
            fails (idle < 0) GwErrInvalid,
            fails (wait < 0) GwErrInvalid])
         (Inr \<lparr>rrg_maxEntries = maximum, rrg_idleTTL = idle, rrg_closeTimeout = wait, rrg_entries = [], rrg_pending = [],
               rrg_closed = False, rrg_closeStarted = False, rrg_heap = [], rrg_builds = []\<rparr>))"

definition registry_Ready :: "runner_registry option \<Rightarrow> bool" where
  "registry_Ready g = (case g of None \<Rightarrow> False | Some g \<Rightarrow> \<not> rrg_closed g)"

definition set_entry :: "nat \<Rightarrow> (runner_entry \<Rightarrow> runner_entry) \<Rightarrow> runner_registry \<Rightarrow> runner_registry" where
  "set_entry a f g = g\<lparr>rrg_heap := (rrg_heap g)[a := f (rrg_heap g ! a)]\<rparr>"

definition set_build :: "nat \<Rightarrow> (runner_build \<Rightarrow> runner_build) \<Rightarrow> runner_registry \<Rightarrow> runner_registry" where
  "set_build b f g = g\<lparr>rrg_builds := (rrg_builds g)[b := f (rrg_builds g ! b)]\<rparr>"

subsection \<open>Helpers under the lock\<close>

definition slotCountLocked :: "runner_registry \<Rightarrow> int" where
  "slotCountLocked g = int (length (rrg_entries g) + length (rrg_pending g))"

definition retainLocked :: "nat \<Rightarrow> instant \<Rightarrow> runner_registry \<Rightarrow> runner_registry" where
  "retainLocked a now g =
     set_entry a (\<lambda>e. (if rne_refs e = 0 then e\<lparr>rne_zero := False\<rparr> else e)
                       \<lparr>rne_refs := rne_refs e + 1, rne_lastUsed := now\<rparr>) g"

definition forget :: "plan_key \<times> nat \<Rightarrow> runner_registry \<Rightarrow> runner_registry" where
  "forget x g = set_entry (snd x) (\<lambda>e. e\<lparr>rne_invalidated := True\<rparr>) (g\<lparr>rrg_entries := del (fst x) (rrg_entries g)\<rparr>)"

definition idle_entry :: "instant \<Rightarrow> runner_registry \<Rightarrow> plan_key \<times> nat \<Rightarrow> bool" where
  "idle_entry now g x =
     (let e = rrg_heap g ! snd x in rne_refs e = 0 \<and> \<not> now < rne_lastUsed e + rrg_idleTTL g)"

definition evictIdleLocked :: "instant \<Rightarrow> runner_registry \<Rightarrow> nat list \<times> runner_registry" where
  "evictIdleLocked now g =
     (if rrg_idleTTL g \<le> 0 then ([], g)
      else (let gone = filter (idle_entry now g) (rrg_entries g) in (map snd gone, fold forget gone g)))"

fun oldest_entry :: "runner_entry list \<Rightarrow> (plan_key \<times> nat) list \<Rightarrow> (plan_key \<times> nat) option \<Rightarrow> (plan_key \<times> nat) option" where
  "oldest_entry heap [] oldest = oldest"
| "oldest_entry heap (x # xs) oldest =
     (if rne_refs (heap ! snd x) \<noteq> 0 then oldest_entry heap xs oldest
      else oldest_entry heap xs
        (case oldest of
           None \<Rightarrow> Some x
         | Some y \<Rightarrow> if rne_lastUsed (heap ! snd x) < rne_lastUsed (heap ! snd y) then Some x else Some y))"

definition evictCapacityLocked ::
  "((plan_key \<times> nat) list \<Rightarrow> (plan_key \<times> nat) list) \<Rightarrow> runner_registry \<Rightarrow> nat list \<times> runner_registry" where
  "evictCapacityLocked order g =
     (case oldest_entry (rrg_heap g) (order (rrg_entries g)) None of
        None \<Rightarrow> ([], g)
      | Some x \<Rightarrow> ([snd x], forget x g))"

subsection \<open>Sections\<close>

text \<open>
  The section of \<^verbatim>\<open>acquireOnce\<close>: the entries it leaves to be closed, and whether it failed, has
  a lease, waits for a construction or begins one.
\<close>

datatype acquire_outcome = AcquireError gateway_error | AcquireLease nat | AcquireWait nat | AcquireBuild nat

definition cached :: "plan_key \<Rightarrow> runner_registry \<Rightarrow> nat option" where
  "cached k g =
     (case get (rrg_entries g) k of
        None \<Rightarrow> None
      | Some a \<Rightarrow> if rne_invalidated (rrg_heap g ! a) then None else Some a)"

definition begin_build ::
  "((plan_key \<times> nat) list \<Rightarrow> (plan_key \<times> nat) list) \<Rightarrow> plan_key \<Rightarrow> instant \<Rightarrow> runner_registry
   \<Rightarrow> acquire_outcome \<times> nat list \<times> runner_registry" where
  "begin_build order k now g =
     (let (idle, g1) = evictIdleLocked now g;
          (oldest, g2) = (if slotCountLocked g1 \<ge> rrg_maxEntries g1 then evictCapacityLocked order g1 else ([], g1))
      in if slotCountLocked g2 \<ge> rrg_maxEntries g2 then (AcquireError GwErrRunnerCapacity, idle @ oldest, g2)
         else (AcquireBuild (length (rrg_builds g2)), idle @ oldest,
               g2\<lparr>rrg_builds := rrg_builds g2 @ [\<lparr>rnb_done = False, rnb_invalidated = False\<rparr>],
                  rrg_pending := put k (length (rrg_builds g2)) (rrg_pending g2)\<rparr>))"

definition acquireOnce ::
  "((plan_key \<times> nat) list \<Rightarrow> (plan_key \<times> nat) list) \<Rightarrow> plan_key \<Rightarrow> instant \<Rightarrow> runner_registry
   \<Rightarrow> acquire_outcome \<times> nat list \<times> runner_registry" where
  "acquireOnce order k now g =
     (if rrg_closed g then (AcquireError GwErrClosed, [], g)
      else case cached k g of
        Some a \<Rightarrow> (AcquireLease a, [], retainLocked a now g)
      | None \<Rightarrow>
          (case get (rrg_pending g) k of
             Some b \<Rightarrow> (AcquireWait b, [], g)
           | None \<Rightarrow> begin_build order k now g))"

text \<open>
  The end of a construction. \<open>made\<close> and \<open>failed\<close> are what the factory returned, \<open>cancelled\<close> what
  the context says under the lock. The second component is the runner that is left to be closed.
\<close>

datatype finish_outcome = FinishLease nat | FinishRetry | FinishError gateway_error

definition normalizeRunnerFactoryError :: "gateway_error option \<Rightarrow> gateway_error option" where
  "normalizeRunnerFactoryError e =
     (case e of
        None \<Rightarrow> None
      | Some err \<Rightarrow> (case err of GwErrCtx c \<Rightarrow> Some (GwErrCtx c) | _ \<Rightarrow> Some GwErrRunnerUnavailable))"

definition factory_error :: "runner option \<Rightarrow> gateway_error option \<Rightarrow> ctx_error option \<Rightarrow> gateway_error option" where
  "factory_error made failed cancelled =
     first_error
       [normalizeRunnerFactoryError failed,
        fails (made = None) GwErrRunnerUnavailable,
        map_option GwErrCtx cancelled]"

definition finishRunnerBuild ::
  "plan_key \<Rightarrow> nat \<Rightarrow> runner option \<Rightarrow> gateway_error option \<Rightarrow> ctx_error option \<Rightarrow> instant \<Rightarrow> runner_registry
   \<Rightarrow> finish_outcome \<times> runner option \<times> runner_registry" where
  "finishRunnerBuild k b made failed cancelled now g =
     (let g1 = set_build b (\<lambda>build. build\<lparr>rnb_done := True\<rparr>) (g\<lparr>rrg_pending := del k (rrg_pending g)\<rparr>) in
      case factory_error made failed cancelled of
        Some e \<Rightarrow> (FinishError e, made, g1)
      | None \<Rightarrow>
          if rrg_closed g then (FinishError GwErrClosed, made, g1)
          else if rnb_invalidated (rrg_builds g ! b) then (FinishRetry, made, g1)
          else (FinishLease (length (rrg_heap g)), None,
                g1\<lparr>rrg_heap := rrg_heap g1 @ [\<lparr>rne_runner = the made, rne_refs = 1, rne_lastUsed = now, rne_invalidated = False,
                                              rne_zero = False, rne_closed = False, rne_closeErr = False\<rparr>],
                   rrg_entries := put k (length (rrg_heap g)) (rrg_entries g1)\<rparr>))"

text \<open>Invalidation of one key and of all keys with a property.\<close>

definition registry_Invalidate :: "plan_key \<Rightarrow> runner_registry \<Rightarrow> (gateway_error + nat list) \<times> runner_registry" where
  "registry_Invalidate k g =
     (if rrg_closed g then (Inl GwErrClosed, g)
      else (let g1 = (case get (rrg_pending g) k of
                        None \<Rightarrow> g
                      | Some b \<Rightarrow> set_build b (\<lambda>build. build\<lparr>rnb_invalidated := True\<rparr>) g)
            in case get (rrg_entries g1) k of
                 None \<Rightarrow> (Inr [], g1)
               | Some a \<Rightarrow> (Inr (if rne_refs (rrg_heap g1 ! a) = 0 then [a] else []), forget (k, a) g1)))"

definition drop_builds :: "(plan_key \<times> nat) list \<Rightarrow> runner_registry \<Rightarrow> runner_registry" where
  "drop_builds bs g = fold (\<lambda>x. set_build (snd x) (\<lambda>build. build\<lparr>rnb_invalidated := True\<rparr>)) bs g"

definition unreferenced :: "runner_registry \<Rightarrow> plan_key \<times> nat \<Rightarrow> bool" where
  "unreferenced g x \<longleftrightarrow> rne_refs (rrg_heap g ! snd x) = 0"

definition registry_InvalidateMatching ::
  "(plan_key \<Rightarrow> bool) \<Rightarrow> runner_registry \<Rightarrow> (gateway_error + nat list) \<times> runner_registry" where
  "registry_InvalidateMatching predicate g =
     (if rrg_closed g then (Inl GwErrClosed, g)
      else (let g1 = drop_builds (filter (\<lambda>x. predicate (fst x)) (rrg_pending g)) g;
                gone = filter (\<lambda>x. predicate (fst x)) (rrg_entries g1)
            in (Inr (map snd (filter (unreferenced g1) gone)), fold forget gone g1)))"

definition registry_InvalidateTenant :: "string \<Rightarrow> runner_registry \<Rightarrow> (gateway_error + nat list) \<times> runner_registry" where
  "registry_InvalidateTenant tenantID = registry_InvalidateMatching (\<lambda>k. pk_TenantID k = tenantID)"

definition registry_InvalidateApp ::
  "string \<Rightarrow> string \<Rightarrow> runner_registry \<Rightarrow> (gateway_error + nat list) \<times> runner_registry" where
  "registry_InvalidateApp tenantID appID =
     registry_InvalidateMatching (\<lambda>k. pk_TenantID k = tenantID \<and> pk_AppID k = appID)"

definition registry_InvalidateModelProfile ::
  "string \<Rightarrow> string \<Rightarrow> runner_registry \<Rightarrow> (gateway_error + nat list) \<times> runner_registry" where
  "registry_InvalidateModelProfile tenantID profileID =
     registry_InvalidateMatching (\<lambda>k. pk_TenantID k = tenantID \<and> pk_ModelProfileID k = profileID)"

definition registry_InvalidateBackendProfile ::
  "string \<Rightarrow> string \<Rightarrow> runner_registry \<Rightarrow> (gateway_error + nat list) \<times> runner_registry" where
  "registry_InvalidateBackendProfile tenantID profileID =
     registry_InvalidateMatching (\<lambda>k. pk_TenantID k = tenantID \<and> pk_BackendProfileID k = profileID)"

text \<open>The first section of \<^verbatim>\<open>Close\<close>: the entries to wait for and those to be closed at once.\<close>

definition registry_Close :: "runner_registry \<Rightarrow> nat list \<times> nat list \<times> runner_registry" where
  "registry_Close g =
     (if rrg_closeStarted g then ([], [], g)
      else (let gone = rrg_entries g;
                g1 = drop_builds (rrg_pending g) (fold forget gone (g\<lparr>rrg_closeStarted := True, rrg_closed := True\<rparr>))
            in (map snd (filter (\<lambda>x. \<not> unreferenced g x) gone), map snd (filter (unreferenced g) gone), g1)))"

text \<open>The end of a lease; the flag tells whether the caller closes the entry.\<close>

definition lease_release :: "nat \<Rightarrow> instant \<Rightarrow> runner_registry \<Rightarrow> bool \<times> runner_registry" where
  "lease_release a now g =
     (let e = rrg_heap g ! a in
      if rne_refs e < 1 then (False, g)
      else if rne_refs e - 1 \<noteq> 0 then (False, set_entry a (\<lambda>e. e\<lparr>rne_refs := rne_refs e - 1\<rparr>) g)
      else (let shouldClose = (rne_invalidated e \<or> rrg_closed g)
            in (shouldClose,
                set_entry a (\<lambda>e. e\<lparr>rne_refs := rne_refs e - 1, rne_lastUsed := now, rne_zero := rne_zero e \<or> shouldClose\<rparr>) g)))"

text \<open>\<^verbatim>\<open>close\<close> of an entry, with the outcome of closing its runner; it runs once.\<close>

definition entry_close :: "bool \<Rightarrow> nat \<Rightarrow> runner_registry \<Rightarrow> runner_registry" where
  "entry_close failed a g =
     (if rne_closed (rrg_heap g ! a) then g
      else set_entry a (\<lambda>e. e\<lparr>rne_closed := True, rne_closeErr := failed\<rparr>) g)"

subsection \<open>The registry among its callers\<close>

text \<open>
  Beside the registry the world has what its callers hold: leases with the state of their
  \<^verbatim>\<open>sync.Once\<close>, constructions in progress, entries and runners that a caller is about to close,
  and entries that \<^verbatim>\<open>Close\<close> waits for. An invalidation closes its entries one after the other and
  returns at the first that fails: its entries are a batch, and what it leaves behind is lost.
  \<open>rgw_made\<close> are the runners that the factory made and
  \<open>rgw_stopped\<close> those whose \<^verbatim>\<open>Close\<close> was called, each as often as it was.
\<close>

record registry_world =
  rgw_registry :: runner_registry
  rgw_leases :: "(nat \<times> bool) list"
  rgw_building :: "(plan_key \<times> nat) list"
  rgw_todo :: "nat list"
  rgw_batches :: "nat list list"
  rgw_lost :: "nat list"
  rgw_loose :: "runner list"
  rgw_await :: "nat list"
  rgw_made :: "runner list"
  rgw_stopped :: "runner list"

definition close_call :: "bool \<Rightarrow> nat \<Rightarrow> registry_world \<Rightarrow> registry_world" where
  "close_call failed a w =
     w\<lparr>rgw_registry := entry_close failed a (rgw_registry w),
       rgw_stopped := (let e = rrg_heap (rgw_registry w) ! a in
         if rne_closed e then rgw_stopped w else rne_runner e # rgw_stopped w)\<rparr>"

inductive registry_step :: "registry_world \<Rightarrow> registry_world \<Rightarrow> bool" where
  acquire: "acquireOnce order k now (rgw_registry w) = (outcome, gone, g) \<Longrightarrow> (\<And>m. set (order m) = set m) \<Longrightarrow>
    registry_step w (w\<lparr>rgw_registry := g, rgw_todo := gone @ rgw_todo w,
      rgw_leases := (case outcome of AcquireLease a \<Rightarrow> (a, False) # rgw_leases w | _ \<Rightarrow> rgw_leases w),
      rgw_building := (case outcome of AcquireBuild b \<Rightarrow> (k, b) # rgw_building w | _ \<Rightarrow> rgw_building w)\<rparr>)"
| finish: "(k, b) \<in> set (rgw_building w) \<Longrightarrow> set_option made \<inter> set (rgw_made w) = {} \<Longrightarrow>
    finishRunnerBuild k b made failed cancelled now (rgw_registry w) = (outcome, loose, g) \<Longrightarrow>
    registry_step w (w\<lparr>rgw_registry := g, rgw_building := removeAll (k, b) (rgw_building w),
      rgw_leases := (case outcome of FinishLease a \<Rightarrow> (a, False) # rgw_leases w | _ \<Rightarrow> rgw_leases w),
      rgw_loose := (case loose of None \<Rightarrow> rgw_loose w | Some r \<Rightarrow> r # rgw_loose w),
      rgw_made := (case made of None \<Rightarrow> rgw_made w | Some r \<Rightarrow> r # rgw_made w)\<rparr>)"
| invalidate: "registry_InvalidateMatching predicate (rgw_registry w) = (Inr gone, g) \<Longrightarrow>
    registry_step w (w\<lparr>rgw_registry := g, rgw_batches := gone # rgw_batches w\<rparr>)"
| invalidate_key: "registry_Invalidate k (rgw_registry w) = (Inr gone, g) \<Longrightarrow>
    registry_step w (w\<lparr>rgw_registry := g, rgw_todo := gone @ rgw_todo w\<rparr>)"
| release: "i < length (rgw_leases w) \<Longrightarrow> rgw_leases w ! i = (a, False) \<Longrightarrow>
    lease_release a now (rgw_registry w) = (shouldClose, g) \<Longrightarrow>
    registry_step w (w\<lparr>rgw_registry := g, rgw_leases := (rgw_leases w)[i := (a, True)],
      rgw_todo := (if shouldClose then a # rgw_todo w else rgw_todo w)\<rparr>)"
| shut: "registry_Close (rgw_registry w) = (wait, gone, g) \<Longrightarrow>
    registry_step w (w\<lparr>rgw_registry := g, rgw_todo := gone @ rgw_todo w, rgw_await := wait @ rgw_await w\<rparr>)"
| close_entry: "rgw_todo w = as @ a # bs \<Longrightarrow> registry_step w (close_call failed a (w\<lparr>rgw_todo := as @ bs\<rparr>))"
| close_batch: "rgw_batches w = xs @ (a # as) # ys \<Longrightarrow>
    w' = close_call failed a (w\<lparr>rgw_batches := xs @ ys\<rparr>) \<Longrightarrow>
    registry_step w (if rne_closeErr (rrg_heap (rgw_registry w') ! a) then w'\<lparr>rgw_lost := as @ rgw_lost w'\<rparr>
                     else w'\<lparr>rgw_batches := xs @ as # ys\<rparr>)"
| close_loose: "rgw_loose w = rs @ r # ts \<Longrightarrow>
    registry_step w (w\<lparr>rgw_loose := rs @ ts, rgw_stopped := r # rgw_stopped w\<rparr>)"
| awaited: "rgw_await w = as @ a # bs \<Longrightarrow> rne_zero (rrg_heap (rgw_registry w) ! a) \<Longrightarrow>
    registry_step w (close_call failed a (w\<lparr>rgw_await := as @ bs\<rparr>))"
| timed_out: "registry_step w (w\<lparr>rgw_await := []\<rparr>)"

definition registry_start :: "runner_registry \<Rightarrow> registry_world" where
  "registry_start g = \<lparr>rgw_registry = g, rgw_leases = [], rgw_building = [], rgw_todo = [], rgw_batches = [], rgw_lost = [], rgw_loose = [], rgw_await = [],
     rgw_made = [], rgw_stopped = []\<rparr>"

end
