(* ===== verification/Registry_Invariant.thy ===== *)
theory Registry_Invariant
  imports Runner_Registry
begin

text \<open>
  The invariant of the registry of runners, kept by every step of the world of its callers:
  reference counts are exact, cached entries are those that are not invalidated, exactly the
  invalidated entries without leases are closed or about to be, constructions in progress are
  the pending ones, slots stay within the configured number, and every runner that the factory
  made is held by one entry, about to be closed, or closed once.
\<close>

declare map_of_eq_Some_iff [simp del] split_paired_All [simp del] split_paired_Ex [simp del]

subsection \<open>The sections\<close>

lemma set_entry_simps [simp]:
  "rrg_entries (set_entry a f g) = rrg_entries g" "rrg_pending (set_entry a f g) = rrg_pending g"
  "rrg_builds (set_entry a f g) = rrg_builds g" "rrg_closed (set_entry a f g) = rrg_closed g"
  "rrg_closeStarted (set_entry a f g) = rrg_closeStarted g" "rrg_maxEntries (set_entry a f g) = rrg_maxEntries g"
  "rrg_idleTTL (set_entry a f g) = rrg_idleTTL g" "length (rrg_heap (set_entry a f g)) = length (rrg_heap g)"
  by (simp_all add: set_entry_def)

lemma set_entry_nth: "b < length (rrg_heap g) \<Longrightarrow>
  rrg_heap (set_entry a f g) ! b = (if b = a then f (rrg_heap g ! b) else rrg_heap g ! b)"
  by (simp add: set_entry_def nth_list_update)

lemma set_build_simps [simp]:
  "rrg_entries (set_build b f g) = rrg_entries g" "rrg_pending (set_build b f g) = rrg_pending g"
  "rrg_heap (set_build b f g) = rrg_heap g" "rrg_closed (set_build b f g) = rrg_closed g"
  "rrg_closeStarted (set_build b f g) = rrg_closeStarted g" "rrg_maxEntries (set_build b f g) = rrg_maxEntries g"
  "rrg_idleTTL (set_build b f g) = rrg_idleTTL g" "length (rrg_builds (set_build b f g)) = length (rrg_builds g)"
  by (simp_all add: set_build_def)

lemma set_build_nth: "c < length (rrg_builds g) \<Longrightarrow>
  rrg_builds (set_build b f g) ! c = (if c = b then f (rrg_builds g ! c) else rrg_builds g ! c)"
  by (simp add: set_build_def nth_list_update)

lemma forget_simps [simp]:
  "rrg_pending (fold forget xs g) = rrg_pending g" "rrg_builds (fold forget xs g) = rrg_builds g"
  "rrg_closed (fold forget xs g) = rrg_closed g" "rrg_closeStarted (fold forget xs g) = rrg_closeStarted g"
  "rrg_maxEntries (fold forget xs g) = rrg_maxEntries g" "rrg_idleTTL (fold forget xs g) = rrg_idleTTL g"
  "length (rrg_heap (fold forget xs g)) = length (rrg_heap g)"
  by (induction xs arbitrary: g) (simp_all add: forget_def)

lemma forget_entries:
  "get (rrg_entries (fold forget xs g)) k = (if k \<in> fst ` set xs then None else get (rrg_entries g) k)"
  "well_keyed (rrg_entries g) \<Longrightarrow> well_keyed (rrg_entries (fold forget xs g))"
  "length (rrg_entries (fold forget xs g)) \<le> length (rrg_entries g)"
proof (induction xs arbitrary: g)
  case (Cons x xs)
  { case 1 then show ?case using Cons.IH(1) [of "forget x g"] by (auto simp: forget_def) }
  { case 2 then show ?case using Cons.IH(2) [of "forget x g"] by (simp add: forget_def) }
  { case 3 show ?case using Cons.IH(3) [of "forget x g"] length_delete_le [of "fst x" "rrg_entries g"] by (simp add: forget_def) }
qed simp_all

lemma forget_heap:
  "a < length (rrg_heap g) \<Longrightarrow> rrg_heap (fold forget xs g) ! a
    = (if a \<in> snd ` set xs then (rrg_heap g ! a)\<lparr>rne_invalidated := True\<rparr> else rrg_heap g ! a)"
proof (induction xs arbitrary: g)
  case (Cons x xs)
  have "length (rrg_heap (forget x g)) = length (rrg_heap g)" by (simp add: forget_def)
  with Cons show ?case by (auto simp: forget_def set_entry_nth)
qed simp

lemma drop_builds_simps [simp]:
  "rrg_entries (drop_builds bs g) = rrg_entries g" "rrg_pending (drop_builds bs g) = rrg_pending g"
  "rrg_heap (drop_builds bs g) = rrg_heap g" "rrg_closed (drop_builds bs g) = rrg_closed g"
  "rrg_closeStarted (drop_builds bs g) = rrg_closeStarted g" "rrg_maxEntries (drop_builds bs g) = rrg_maxEntries g"
  "rrg_idleTTL (drop_builds bs g) = rrg_idleTTL g" "length (rrg_builds (drop_builds bs g)) = length (rrg_builds g)"
  unfolding drop_builds_def by (induction bs arbitrary: g) simp_all

lemma drop_builds_nth: "c < length (rrg_builds g) \<Longrightarrow> rrg_builds (drop_builds bs g) ! c
    = (if c \<in> snd ` set bs then (rrg_builds g ! c)\<lparr>rnb_invalidated := True\<rparr> else rrg_builds g ! c)"
  unfolding drop_builds_def
proof (induction bs arbitrary: g)
  case (Cons x bs)
  then show ?case by (auto simp: set_build_nth)
qed simp

text \<open>Both evictions forget unreferenced entries and leave them to be closed.\<close>

definition evicts :: "(plan_key \<times> nat) list \<Rightarrow> runner_registry \<Rightarrow> bool" where
  "evicts xs g \<longleftrightarrow> set xs \<subseteq> set (rrg_entries g) \<and> (\<forall>x \<in> set xs. rne_refs (rrg_heap g ! snd x) = 0)"

lemma evictIdle_evicts:
  "evictIdleLocked now g = (gone, g') \<Longrightarrow> \<exists>xs. evicts xs g \<and> gone = map snd xs \<and> g' = fold forget xs g"
  by (rule exI [of _ "if rrg_idleTTL g \<le> 0 then [] else filter (idle_entry now g) (rrg_entries g)"])
    (auto simp: evictIdleLocked_def evicts_def idle_entry_def Let_def)

lemma oldest_entry_unreferenced:
  assumes "oldest_entry heap xs acc = Some x" and "\<And>y. acc = Some y \<Longrightarrow> y \<in> S \<and> rne_refs (heap ! snd y) = 0" and "set xs \<subseteq> S"
  shows "x \<in> S \<and> rne_refs (heap ! snd x) = 0"
  using assms
proof (induction heap xs acc rule: oldest_entry.induct)
  case (2 heap y ys oldest)
  show ?case
  proof (cases "rne_refs (heap ! snd y) \<noteq> 0")
    case True
    with 2 show ?thesis by simp
  next
    case False
    show ?thesis using False 2(3-5) by (intro 2(2)) (auto split: option.splits if_splits)
  qed
qed simp

lemma evictCapacity_evicts:
  assumes "evictCapacityLocked order g = (gone, g')" and "\<And>m. set (order m) = set m"
  shows "\<exists>xs. evicts xs g \<and> gone = map snd xs \<and> g' = fold forget xs g"
proof (cases "oldest_entry (rrg_heap g) (order (rrg_entries g)) None")
  case None
  with assms show ?thesis by (intro exI [of _ "[]"]) (simp add: evictCapacityLocked_def evicts_def)
next
  case (Some x)
  from oldest_entry_unreferenced [OF this, of "set (rrg_entries g)"] assms(2)
  have "x \<in> set (rrg_entries g) \<and> rne_refs (rrg_heap g ! snd x) = 0" by simp
  with assms Some show ?thesis by (intro exI [of _ "[x]"]) (auto simp: evictCapacityLocked_def evicts_def)
qed

lemma evicts_append:
  assumes "evicts xs g" and "evicts ys (fold forget xs g)" and "well_keyed (rrg_entries g)"
    and "\<forall>x \<in> set (rrg_entries g). snd x < length (rrg_heap g)"
  shows "evicts (xs @ ys) g"
proof -
  have "x \<in> set (rrg_entries g) \<and> rne_refs (rrg_heap g ! snd x) = 0" if "x \<in> set ys" for x
  proof -
    have "x \<in> set (rrg_entries (fold forget xs g))" and r: "rne_refs (rrg_heap (fold forget xs g) ! snd x) = 0"
      using assms(2) that by (auto simp: evicts_def)
    then have "get (rrg_entries (fold forget xs g)) (fst x) = Some (snd x)"
      using forget_entries(2) [OF assms(3)] by (simp add: well_keyed_get_iff)
    then have "get (rrg_entries g) (fst x) = Some (snd x)" by (simp add: forget_entries(1) split: if_splits)
    then have x: "x \<in> set (rrg_entries g)" using assms(3) by (simp add: well_keyed_get_iff)
    with r assms(4) forget_heap [of "snd x" g xs] show ?thesis by (auto split: if_splits)
  qed
  with assms(1) show ?thesis by (auto simp: evicts_def)
qed

lemma begin_build_cases:
  assumes "begin_build order k now g = (outcome, gone, g')" and "\<And>m. set (order m) = set m"
    and "well_keyed (rrg_entries g)" and "\<forall>x \<in> set (rrg_entries g). snd x < length (rrg_heap g)"
  obtains (full) xs where "evicts xs g" "gone = map snd xs" "g' = fold forget xs g" "outcome = AcquireError GwErrRunnerCapacity"
  | (building) xs where "evicts xs g" "gone = map snd xs" "outcome = AcquireBuild (length (rrg_builds g))"
      "slotCountLocked (fold forget xs g) < rrg_maxEntries g"
      "g' = (fold forget xs g)\<lparr>rrg_builds := rrg_builds g @ [\<lparr>rnb_done = False, rnb_invalidated = False\<rparr>],
              rrg_pending := put k (length (rrg_builds g)) (rrg_pending g)\<rparr>"
proof -
  obtain idle g1 where e1: "evictIdleLocked now g = (idle, g1)" by fastforce
  obtain oldest g2 where e2: "(if slotCountLocked g1 \<ge> rrg_maxEntries g1 then evictCapacityLocked order g1 else ([], g1)) = (oldest, g2)"
    by fastforce
  from evictIdle_evicts [OF e1] obtain xs where xs: "evicts xs g" "idle = map snd xs" "g1 = fold forget xs g" by blast
  have "\<exists>ys. evicts ys g1 \<and> oldest = map snd ys \<and> g2 = fold forget ys g1"
  proof (cases "slotCountLocked g1 \<ge> rrg_maxEntries g1")
    case True
    with e2 evictCapacity_evicts [OF _ assms(2)] show ?thesis by simp
  next
    case False
    with e2 show ?thesis by (intro exI [of _ "[]"]) (simp add: evicts_def)
  qed
  then obtain ys where ys: "evicts ys g1" "oldest = map snd ys" "g2 = fold forget ys g1" by blast
  have ev: "evicts (xs @ ys) g" using evicts_append [OF xs(1) _ assms(3,4)] ys(1) xs(3) by simp
  have g2: "g2 = fold forget (xs @ ys) g" and gone: "idle @ oldest = map snd (xs @ ys)" using xs ys by simp_all
  have eq: "(outcome, gone, g') = (if slotCountLocked g2 \<ge> rrg_maxEntries g2 then (AcquireError GwErrRunnerCapacity, idle @ oldest, g2)
         else (AcquireBuild (length (rrg_builds g2)), idle @ oldest,
               g2\<lparr>rrg_builds := rrg_builds g2 @ [\<lparr>rnb_done = False, rnb_invalidated = False\<rparr>],
                  rrg_pending := put k (length (rrg_builds g2)) (rrg_pending g2)\<rparr>))"
    using assms(1) unfolding begin_build_def e1 Let_def split e2 by simp
  show thesis
  proof (cases "slotCountLocked g2 \<ge> rrg_maxEntries g2")
    case True
    with eq have "outcome = AcquireError GwErrRunnerCapacity" "gone = idle @ oldest" "g' = g2" by simp_all
    from full [OF ev this(2) [unfolded gone] this(3) [unfolded g2] this(1)] show thesis .
  next
    case False
    with eq have o: "outcome = AcquireBuild (length (rrg_builds g2))" "gone = idle @ oldest"
      "g' = g2\<lparr>rrg_builds := rrg_builds g2 @ [\<lparr>rnb_done = False, rnb_invalidated = False\<rparr>],
              rrg_pending := put k (length (rrg_builds g2)) (rrg_pending g2)\<rparr>" by simp_all
    from False have room: "slotCountLocked (fold forget (xs @ ys) g) < rrg_maxEntries g" unfolding g2 by simp
    show thesis
      by (rule building [OF ev o(2) [unfolded gone] _ room]) (simp_all only: o(1,3) g2 forget_simps)
  qed
qed

subsection \<open>The invariants\<close>

definition borrowed :: "nat \<Rightarrow> registry_world \<Rightarrow> nat" where
  "borrowed a w = length (filter (\<lambda>x. x = (a, False)) (rgw_leases w))"

definition closing :: "registry_world \<Rightarrow> nat set" where
  "closing w = set (rgw_todo w) \<union> \<Union> (set ` set (rgw_batches w)) \<union> set (rgw_lost w)"

text \<open>The reference count of an entry is the number of its leases.\<close>

definition refs_ok :: "registry_world \<Rightarrow> bool" where
  "refs_ok w \<longleftrightarrow> (\<forall>a. int (borrowed a w)
     = (if a < length (rrg_heap (rgw_registry w)) then rne_refs (rrg_heap (rgw_registry w) ! a) else 0))"

text \<open>The entries that are not invalidated are the cached ones, each under one key.\<close>

definition entries_ok :: "registry_world \<Rightarrow> bool" where
  "entries_ok w \<longleftrightarrow>
     (let g = rgw_registry w in
      well_keyed (rrg_entries g)
      \<and> (\<forall>k a. get (rrg_entries g) k = Some a \<longrightarrow> a < length (rrg_heap g) \<and> \<not> rne_invalidated (rrg_heap g ! a))
      \<and> (\<forall>k k' a. get (rrg_entries g) k = Some a \<and> get (rrg_entries g) k' = Some a \<longrightarrow> k = k')
      \<and> (\<forall>a < length (rrg_heap g). \<not> rne_invalidated (rrg_heap g ! a) \<longrightarrow> (\<exists>k. get (rrg_entries g) k = Some a))
      \<and> (rrg_closed g \<longrightarrow> rrg_entries g = []))"

text \<open>Exactly the invalidated entries without leases are closed or about to be.\<close>

definition closing_ok :: "registry_world \<Rightarrow> bool" where
  "closing_ok w \<longleftrightarrow>
     (let g = rgw_registry w in
      (\<forall>a \<in> closing w. a < length (rrg_heap g))
      \<and> (\<forall>a \<in> set (rgw_await w). a < length (rrg_heap g))
      \<and> (\<forall>a < length (rrg_heap g).
           (rne_closed (rrg_heap g ! a) \<or> rne_zero (rrg_heap g ! a) \<or> a \<in> closing w \<longrightarrow>
              rne_invalidated (rrg_heap g ! a) \<and> rne_refs (rrg_heap g ! a) = 0)
           \<and> (rne_invalidated (rrg_heap g ! a) \<and> rne_refs (rrg_heap g ! a) = 0 \<longrightarrow>
              rne_closed (rrg_heap g ! a) \<or> a \<in> closing w))
      \<and> (set (rgw_lost w) \<noteq> {} \<longrightarrow> (\<exists>a < length (rrg_heap g). rne_closed (rrg_heap g ! a) \<and> rne_closeErr (rrg_heap g ! a))))"

text \<open>The constructions in progress are the pending ones, one for each key.\<close>

definition builds_ok :: "registry_world \<Rightarrow> bool" where
  "builds_ok w \<longleftrightarrow>
     (let g = rgw_registry w in
      well_keyed (rrg_pending g)
      \<and> (\<forall>k b. get (rrg_pending g) k = Some b \<longleftrightarrow> (k, b) \<in> set (rgw_building w))
      \<and> distinct (rgw_building w)
      \<and> (\<forall>k b. (k, b) \<in> set (rgw_building w) \<longrightarrow> b < length (rrg_builds g) \<and> \<not> rnb_done (rrg_builds g ! b))
      \<and> (\<forall>k k' b. (k, b) \<in> set (rgw_building w) \<and> (k', b) \<in> set (rgw_building w) \<longrightarrow> k = k')
      \<and> (\<forall>k b. (k, b) \<in> set (rgw_building w) \<longrightarrow> get (rrg_entries g) k = None))"

definition slots_ok :: "registry_world \<Rightarrow> bool" where
  "slots_ok w \<longleftrightarrow> slotCountLocked (rgw_registry w) \<le> rrg_maxEntries (rgw_registry w)"

text \<open>Every runner that was made belongs to one entry, is about to be closed, or was closed once.\<close>

definition runners_ok :: "registry_world \<Rightarrow> bool" where
  "runners_ok w \<longleftrightarrow>
     (let rs = map rne_runner (rrg_heap (rgw_registry w)) in
      distinct rs \<and> distinct (rgw_loose w) \<and> distinct (rgw_stopped w)
      \<and> set rs \<inter> set (rgw_loose w) = {} \<and> set (rgw_loose w) \<inter> set (rgw_stopped w) = {}
      \<and> set (rgw_made w) = set rs \<union> set (rgw_loose w) \<union> set (rgw_stopped w)
      \<and> (\<forall>a < length rs. rs ! a \<in> set (rgw_stopped w) \<longleftrightarrow> rne_closed (rrg_heap (rgw_registry w) ! a)))"

definition registry_ok :: "registry_world \<Rightarrow> bool" where
  "registry_ok w \<longleftrightarrow> refs_ok w \<and> entries_ok w \<and> closing_ok w \<and> builds_ok w \<and> slots_ok w \<and> runners_ok w"

lemma registry_start_ok:
  assumes "NewRunnerRegistry factory config = Inr g"
  shows "registry_ok (registry_start g)"
proof -
  have "rrg_entries g = []" "rrg_pending g = []" "rrg_heap g = []" "1 \<le> rrg_maxEntries g"
    using assms by (auto simp: NewRunnerRegistry_def Let_def defaultRunnerRegistryMaxEntries_def split: if_splits)
  then show ?thesis
    by (simp add: registry_ok_def registry_start_def refs_ok_def entries_ok_def closing_ok_def builds_ok_def slots_ok_def
        runners_ok_def borrowed_def closing_def slotCountLocked_def)
qed

lemma entries_okD:
  assumes "entries_ok w" and "g = rgw_registry w"
  shows "well_keyed (rrg_entries g)" "get (rrg_entries g) k = Some a \<Longrightarrow> a < length (rrg_heap g)"
    "get (rrg_entries g) k = Some a \<Longrightarrow> \<not> rne_invalidated (rrg_heap g ! a)"
    "get (rrg_entries g) k = Some a \<Longrightarrow> get (rrg_entries g) k' = Some a \<Longrightarrow> k = k'"
    "a < length (rrg_heap g) \<Longrightarrow> \<not> rne_invalidated (rrg_heap g ! a) \<Longrightarrow> \<exists>k. get (rrg_entries g) k = Some a"
    "rrg_closed g \<Longrightarrow> rrg_entries g = []"
  using assms unfolding entries_ok_def Let_def by blast+

lemma closing_okD:
  assumes "closing_ok w" and "g = rgw_registry w"
  shows "a \<in> closing w \<Longrightarrow> a < length (rrg_heap g)" "a \<in> set (rgw_await w) \<Longrightarrow> a < length (rrg_heap g)"
    "a < length (rrg_heap g) \<Longrightarrow> rne_closed (rrg_heap g ! a) \<or> rne_zero (rrg_heap g ! a) \<or> a \<in> closing w \<Longrightarrow>
      rne_invalidated (rrg_heap g ! a) \<and> rne_refs (rrg_heap g ! a) = 0"
    "a < length (rrg_heap g) \<Longrightarrow> rne_invalidated (rrg_heap g ! a) \<Longrightarrow> rne_refs (rrg_heap g ! a) = 0 \<Longrightarrow>
      rne_closed (rrg_heap g ! a) \<or> a \<in> closing w"
    "rgw_lost w \<noteq> [] \<Longrightarrow> \<exists>a < length (rrg_heap g). rne_closed (rrg_heap g ! a) \<and> rne_closeErr (rrg_heap g ! a)"
proof -
  note c = assms(1) [unfolded closing_ok_def Let_def assms(2) [symmetric]]
  note c1 = conjunct1 [OF c] and c2 = conjunct1 [OF conjunct2 [OF c]]
    and c3 = conjunct1 [OF conjunct2 [OF conjunct2 [OF c]]] and c4 = conjunct2 [OF conjunct2 [OF conjunct2 [OF c]]]
  show "a \<in> closing w \<Longrightarrow> a < length (rrg_heap g)" using c1 by blast
  show "a \<in> set (rgw_await w) \<Longrightarrow> a < length (rrg_heap g)" using c2 by blast
  show "a < length (rrg_heap g) \<Longrightarrow> rne_closed (rrg_heap g ! a) \<or> rne_zero (rrg_heap g ! a) \<or> a \<in> closing w \<Longrightarrow>
      rne_invalidated (rrg_heap g ! a) \<and> rne_refs (rrg_heap g ! a) = 0"
    "a < length (rrg_heap g) \<Longrightarrow> rne_invalidated (rrg_heap g ! a) \<Longrightarrow> rne_refs (rrg_heap g ! a) = 0 \<Longrightarrow>
      rne_closed (rrg_heap g ! a) \<or> a \<in> closing w"
    using c3 [rule_format, of a] by simp_all
  show "rgw_lost w \<noteq> [] \<Longrightarrow> \<exists>a < length (rrg_heap g). rne_closed (rrg_heap g ! a) \<and> rne_closeErr (rrg_heap g ! a)" using c4 by simp
qed

lemma builds_okD:
  assumes "builds_ok w" and "g = rgw_registry w"
  shows "well_keyed (rrg_pending g)" "get (rrg_pending g) k = Some b \<longleftrightarrow> (k, b) \<in> set (rgw_building w)"
    "distinct (rgw_building w)" "(k, b) \<in> set (rgw_building w) \<Longrightarrow> b < length (rrg_builds g) \<and> \<not> rnb_done (rrg_builds g ! b)"
    "(k, b) \<in> set (rgw_building w) \<Longrightarrow> (k', b) \<in> set (rgw_building w) \<Longrightarrow> k = k'"
    "(k, b) \<in> set (rgw_building w) \<Longrightarrow> get (rrg_entries g) k = None"
  using assms unfolding builds_ok_def Let_def by (simp, simp, simp, simp, metis, metis)

lemma registry_okD:
  "registry_ok w \<Longrightarrow> refs_ok w" "registry_ok w \<Longrightarrow> entries_ok w" "registry_ok w \<Longrightarrow> closing_ok w"
  "registry_ok w \<Longrightarrow> builds_ok w" "registry_ok w \<Longrightarrow> slots_ok w" "registry_ok w \<Longrightarrow> runners_ok w"
  by (simp_all add: registry_ok_def)

lemma refs_okD: "refs_ok w \<Longrightarrow> a < length (rrg_heap (rgw_registry w)) \<Longrightarrow> rne_refs (rrg_heap (rgw_registry w) ! a) = int (borrowed a w)"
  "refs_ok w \<Longrightarrow> (a, False) \<in> set (rgw_leases w) \<Longrightarrow> a < length (rrg_heap (rgw_registry w)) \<and> 0 < borrowed a w"
proof -
  show "refs_ok w \<Longrightarrow> a < length (rrg_heap (rgw_registry w)) \<Longrightarrow> rne_refs (rrg_heap (rgw_registry w) ! a) = int (borrowed a w)"
    by (simp add: refs_ok_def)
  show "refs_ok w \<Longrightarrow> (a, False) \<in> set (rgw_leases w) \<Longrightarrow> a < length (rrg_heap (rgw_registry w)) \<and> 0 < borrowed a w"
  proof -
    assume r: "refs_ok w" and m: "(a, False) \<in> set (rgw_leases w)"
    have "0 < borrowed a w" using m by (auto simp: borrowed_def filter_empty_conv)
    moreover from r have "int (borrowed a w)
        = (if a < length (rrg_heap (rgw_registry w)) then rne_refs (rrg_heap (rgw_registry w) ! a) else 0)"
      by (simp add: refs_ok_def)
    ultimately show ?thesis by (simp split: if_splits)
  qed
qed

subsection \<open>Forgetting entries\<close>

text \<open>What eviction, invalidation and the close of the registry have in common.\<close>

lemma forget_ok:
  assumes ok: "registry_ok w" and g: "g = rgw_registry w" and xs: "set xs \<subseteq> set (rrg_entries g)"
    and h: "rrg_heap (rgw_registry w') = rrg_heap (fold forget xs g)"
    and e: "rrg_entries (rgw_registry w') = rrg_entries (fold forget xs g)"
    and c: "rrg_closed (rgw_registry w') \<Longrightarrow> rrg_closed g \<or> set xs = set (rrg_entries g)"
    and l: "rgw_leases w' = rgw_leases w"
    and cl: "closing w' = closing w \<union> {a \<in> snd ` set xs. rne_refs (rrg_heap g ! a) = 0}"
    and aw: "set (rgw_await w') \<subseteq> set (rgw_await w) \<union> snd ` set xs" and lo: "rgw_lost w' = rgw_lost w"
    and r: "rgw_made w' = rgw_made w" "rgw_loose w' = rgw_loose w" "rgw_stopped w' = rgw_stopped w"
  shows "refs_ok w'" "entries_ok w'" "closing_ok w'" "runners_ok w'"
proof -
  note E = entries_okD [OF registry_okD(2) [OF ok] g] and C = closing_okD [OF registry_okD(3) [OF ok] g]
  let ?h = "rrg_heap g" and ?h' = "rrg_heap (rgw_registry w')" and ?e = "rrg_entries g" and ?e' = "rrg_entries (rgw_registry w')"
  have len: "length ?h' = length ?h" by (simp add: h)
  have nth: "?h' ! a = (if a \<in> snd ` set xs then (?h ! a)\<lparr>rne_invalidated := True\<rparr> else ?h ! a)" if "a < length ?h" for a
    using forget_heap [OF that] by (simp add: h)
  have get': "get ?e' k = (if k \<in> fst ` set xs then None else get ?e k)" for k by (simp add: e forget_entries(1))
  have mem: "get ?e (fst x) = Some (snd x)" if "x \<in> set xs" for x
    using that xs E(1) by (auto simp: well_keyed_get_iff)
  have gone: "a \<in> snd ` set xs \<longleftrightarrow> (\<exists>k. k \<in> fst ` set xs \<and> get ?e k = Some a)" for a
    using mem by (force simp: image_iff)
  have fresh: "a < length ?h \<and> \<not> rne_invalidated (?h ! a)" if "a \<in> snd ` set xs" for a
    using that E(2,3) gone by blast
  show "refs_ok w'" using registry_okD(1) [OF ok] nth len by (simp add: refs_ok_def borrowed_def l g)
  show "entries_ok w'"
    unfolding entries_ok_def Let_def
  proof (intro conjI allI impI)
    show "well_keyed ?e'" using forget_entries(2) [OF E(1)] by (simp add: e)
    fix k a
    assume k: "get ?e' k = Some a"
    then have k0: "get ?e k = Some a" "k \<notin> fst ` set xs" by (simp_all add: get' split: if_splits)
    show "a < length ?h'" using E(2) [OF k0(1)] len by simp
    have "a \<notin> snd ` set xs" using gone E(4) [OF k0(1)] k0(2) by blast
    then show "\<not> rne_invalidated (?h' ! a)" using E(2,3) [OF k0(1)] nth by simp
  next
    fix k k' a
    assume "get ?e' k = Some a \<and> get ?e' k' = Some a"
    then have "get ?e k = Some a" "get ?e k' = Some a" by (simp_all add: get' split: if_splits)
    then show "k = k'" by (rule E(4))
  next
    fix a
    assume a: "a < length ?h'" "\<not> rne_invalidated (?h' ! a)"
    then have a0: "a < length ?h" "a \<notin> snd ` set xs" "\<not> rne_invalidated (?h ! a)" using nth len by (auto split: if_splits)
    from E(5) [OF a0(1,3)] obtain k where "get ?e k = Some a" by blast
    then show "\<exists>k. get ?e' k = Some a" using a0(2) gone get' by metis
  next
    assume "rrg_closed (rgw_registry w')"
    from c [OF this] have "get ?e' k = None" for k
    proof
      assume "rrg_closed g"
      then show ?thesis using E(6) get' by simp
    next
      assume all: "set xs = set ?e"
      show ?thesis
      proof (cases "get ?e k")
        case (Some a)
        then have "(k, a) \<in> set xs" using all E(1) by (simp add: well_keyed_get_iff)
        then show ?thesis by (force simp: get')
      qed (simp add: get')
    qed
    then show "?e' = []" by (metis map_of_eq_empty_iff ext)
  qed
  show "closing_ok w'"
    unfolding closing_ok_def Let_def
  proof (intro conjI ballI allI impI)
    show "a < length ?h'" if "a \<in> closing w'" for a using that C(1) fresh len by (auto simp: cl)
    show "a < length ?h'" if "a \<in> set (rgw_await w')" for a
    proof -
      from that aw have "a \<in> set (rgw_await w) \<or> a \<in> snd ` set xs" by blast
      then show ?thesis using C(2) [of a] fresh [of a] len by auto
    qed
  next
    fix a
    assume a: "a < length ?h'" and x: "rne_closed (?h' ! a) \<or> rne_zero (?h' ! a) \<or> a \<in> closing w'"
    then have al: "a < length ?h" using len by simp
    have "rne_invalidated (?h' ! a) \<and> rne_refs (?h' ! a) = 0"
    proof (cases "a \<in> snd ` set xs")
      case True
      then have eq: "?h' ! a = (?h ! a)\<lparr>rne_invalidated := True\<rparr>" using nth [OF al] by simp
      have "\<not> (rne_closed (?h ! a) \<or> rne_zero (?h ! a) \<or> a \<in> closing w)" using C(3) [OF al] fresh [OF True] by blast
      with x have "rne_refs (?h ! a) = 0" unfolding eq cl by simp
      with eq show ?thesis by simp
    next
      case False
      then have eq: "?h' ! a = ?h ! a" using nth [OF al] by simp
      have "rne_closed (?h ! a) \<or> rne_zero (?h ! a) \<or> a \<in> closing w" using x False unfolding eq cl by blast
      from C(3) [OF al this] eq show ?thesis by simp
    qed
    then show "rne_invalidated (?h' ! a)" "rne_refs (?h' ! a) = 0" by simp_all
  next
    fix a
    assume a: "a < length ?h'" and x: "rne_invalidated (?h' ! a) \<and> rne_refs (?h' ! a) = 0"
    then have al: "a < length ?h" using len by simp
    show "rne_closed (?h' ! a) \<or> a \<in> closing w'"
    proof (cases "a \<in> snd ` set xs")
      case True
      then have "rne_refs (?h ! a) = 0" using x nth [OF al] by simp
      with True show ?thesis by (simp add: cl)
    next
      case False
      then have eq: "?h' ! a = ?h ! a" using nth [OF al] by simp
      from x C(4) [OF al] show ?thesis unfolding eq cl by blast
    qed
  next
    assume "set (rgw_lost w') \<noteq> {}"
    then have "rgw_lost w \<noteq> []" by (simp add: lo)
    from C(5) [OF this] obtain a where "a < length ?h" "rne_closed (?h ! a)" "rne_closeErr (?h ! a)" by blast
    then show "\<exists>a < length ?h'. rne_closed (?h' ! a) \<and> rne_closeErr (?h' ! a)" using nth len by (intro exI [of _ a]) simp
  qed
  have "map rne_runner ?h' = map rne_runner ?h" by (rule nth_equalityI) (use nth len in simp_all)
  then show "runners_ok w'" using registry_okD(6) [OF ok] nth len
    unfolding runners_ok_def Let_def r by (simp add: g)
qed

lemma builds_frame:
  assumes ok: "builds_ok w" and "rgw_building w' = rgw_building w"
    and "rrg_pending (rgw_registry w') = rrg_pending (rgw_registry w)"
    and "length (rrg_builds (rgw_registry w')) = length (rrg_builds (rgw_registry w))"
    and "\<And>b. b < length (rrg_builds (rgw_registry w)) \<Longrightarrow>
      rnb_done (rrg_builds (rgw_registry w') ! b) = rnb_done (rrg_builds (rgw_registry w) ! b)"
    and "\<And>k. get (rrg_entries (rgw_registry w)) k = None \<Longrightarrow> get (rrg_entries (rgw_registry w')) k = None"
  shows "builds_ok w'"
  unfolding builds_ok_def Let_def
proof (intro conjI allI impI)
  fix k b
  assume "(k, b) \<in> set (rgw_building w')"
  with builds_okD(4,6) [OF ok refl] assms(2,4-6)
  show "b < length (rrg_builds (rgw_registry w'))" "\<not> rnb_done (rrg_builds (rgw_registry w') ! b)"
    "get (rrg_entries (rgw_registry w')) k = None" by (simp, fastforce, fastforce)
next
  show "well_keyed (rrg_pending (rgw_registry w'))" using builds_okD(1) [OF ok refl] assms(3) by simp
  show "get (rrg_pending (rgw_registry w')) k = Some b \<longleftrightarrow> (k, b) \<in> set (rgw_building w')" for k b
    using builds_okD(2) [OF ok refl] assms(2,3) by simp
  show "distinct (rgw_building w')" using builds_okD(3) [OF ok refl] assms(2) by simp
  show "k = k'" if "(k, b) \<in> set (rgw_building w') \<and> (k', b) \<in> set (rgw_building w')" for k k' b
    using builds_okD(5) [OF ok refl, of k b k'] that assms(2) by simp
qed

lemma slots_frame:
  assumes "slots_ok w" and "length (rrg_entries (rgw_registry w')) \<le> length (rrg_entries (rgw_registry w))"
    and "rrg_pending (rgw_registry w') = rrg_pending (rgw_registry w)"
    and "rrg_maxEntries (rgw_registry w') = rrg_maxEntries (rgw_registry w)"
  shows "slots_ok w'"
  using assms by (simp add: slots_ok_def slotCountLocked_def)

subsection \<open>Acquiring a lease\<close>

lemma retain_ok:
  assumes ok: "registry_ok w" and k: "get (rrg_entries (rgw_registry w)) k = Some a"
  shows "registry_ok (w\<lparr>rgw_registry := retainLocked a now (rgw_registry w), rgw_leases := (a, False) # rgw_leases w\<rparr>)"
    (is "registry_ok ?w")
proof -
  let ?g = "rgw_registry w"
  let ?h = "rrg_heap ?g" and ?h' = "rrg_heap (retainLocked a now ?g)"
  note E = entries_okD [OF registry_okD(2) [OF ok] refl] and C = closing_okD [OF registry_okD(3) [OF ok] refl]
  have al: "a < length ?h" and valid: "\<not> rne_invalidated (?h ! a)" using E(2,3) [OF k] by auto
  have calm: "\<not> rne_closed (?h ! a)" "\<not> rne_zero (?h ! a)" "a \<notin> closing w" using C(3) [OF al] valid by blast+
  have len: "length ?h' = length ?h" by (simp add: retainLocked_def)
  have other: "?h' ! b = ?h ! b" if "b \<noteq> a" "b < length ?h" for b
    using that by (simp add: retainLocked_def set_entry_nth)
  have this_entry: "rne_refs (?h' ! a) = rne_refs (?h ! a) + 1" "rne_invalidated (?h' ! a) = rne_invalidated (?h ! a)"
    "rne_closed (?h' ! a) = rne_closed (?h ! a)" "rne_closeErr (?h' ! a) = rne_closeErr (?h ! a)"
    "rne_runner (?h' ! a) = rne_runner (?h ! a)" "\<not> rne_zero (?h' ! a)"
    using al calm by (simp_all add: retainLocked_def set_entry_nth)
  have same: "rne_invalidated (?h' ! b) = rne_invalidated (?h ! b)" "rne_closed (?h' ! b) = rne_closed (?h ! b)"
    "rne_closeErr (?h' ! b) = rne_closeErr (?h ! b)" "rne_runner (?h' ! b) = rne_runner (?h ! b)" if "b < length ?h" for b
    using that other this_entry by (cases "b = a"; simp)+
  have cl: "closing ?w = closing w" by (simp add: closing_def)
  have "refs_ok ?w"
    unfolding refs_ok_def
  proof
    fix b
    show "int (borrowed b ?w) = (if b < length (rrg_heap (rgw_registry ?w)) then rne_refs (rrg_heap (rgw_registry ?w) ! b) else 0)"
      using registry_okD(1) [OF ok, unfolded refs_ok_def, rule_format, of b] al other [of b] this_entry(1) len
      by (cases "b = a") (auto simp: borrowed_def)
  qed
  moreover have "entries_ok ?w"
    using registry_okD(2) [OF ok] same(1) len E(2) unfolding entries_ok_def Let_def by (simp add: retainLocked_def)
  moreover have "closing_ok ?w"
    unfolding closing_ok_def Let_def cl
  proof (intro conjI ballI allI impI)
    fix b
    assume b: "b < length (rrg_heap (rgw_registry ?w))"
      and x: "rne_closed (rrg_heap (rgw_registry ?w) ! b) \<or> rne_zero (rrg_heap (rgw_registry ?w) ! b) \<or> b \<in> closing w"
    have ba: "b \<noteq> a" using x this_entry(3,6) calm by auto
    with b x other C(3) [of b] len show "rne_invalidated (rrg_heap (rgw_registry ?w) ! b)" "rne_refs (rrg_heap (rgw_registry ?w) ! b) = 0"
      by auto
  next
    fix b
    assume b: "b < length (rrg_heap (rgw_registry ?w))"
      and x: "rne_invalidated (rrg_heap (rgw_registry ?w) ! b) \<and> rne_refs (rrg_heap (rgw_registry ?w) ! b) = 0"
    have "b \<noteq> a" using x this_entry(2) valid by auto
    with b x other C(4) [of b] len show "rne_closed (rrg_heap (rgw_registry ?w) ! b) \<or> b \<in> closing w" by auto
  qed (use C(1,2,5) len same(2,3) in \<open>auto\<close>)
  moreover have "builds_ok ?w"
    by (rule builds_frame [OF registry_okD(4) [OF ok]]) (simp_all add: retainLocked_def)
  moreover have "slots_ok ?w" by (rule slots_frame [OF registry_okD(5) [OF ok]]) (simp_all add: retainLocked_def)
  moreover have "runners_ok ?w"
  proof -
    have "map rne_runner ?h' = map rne_runner ?h" by (rule nth_equalityI) (use same(4) len in simp_all)
    with registry_okD(6) [OF ok] same(2) len show ?thesis unfolding runners_ok_def Let_def by simp
  qed
  ultimately show ?thesis by (simp add: registry_ok_def)
qed

lemma evict_ok:
  assumes ok: "registry_ok w" and ev: "evicts xs (rgw_registry w)"
  shows "registry_ok (w\<lparr>rgw_registry := fold forget xs (rgw_registry w), rgw_todo := map snd xs @ rgw_todo w\<rparr>)" (is "registry_ok ?w")
proof -
  have "closing ?w = closing w \<union> {a \<in> snd ` set xs. rne_refs (rrg_heap (rgw_registry w) ! a) = 0}"
    using ev by (auto simp: closing_def evicts_def)
  then have "refs_ok ?w" "entries_ok ?w" "closing_ok ?w" "runners_ok ?w"
    using ev registry_okD(2) [OF ok] by (intro forget_ok [OF ok refl, of xs]; simp add: evicts_def)+
  moreover have "builds_ok ?w"
    by (rule builds_frame [OF registry_okD(4) [OF ok]]) (simp_all add: forget_entries(1))
  moreover have "slots_ok ?w" by (rule slots_frame [OF registry_okD(5) [OF ok]]) (simp_all add: forget_entries(3))
  ultimately show ?thesis by (simp add: registry_ok_def)
qed

text \<open>A construction that begins takes a free slot and a fresh address.\<close>

lemma length_put_None: "get m k = None \<Longrightarrow> length (put k v m) = length m + 1"
  by (induction m) (auto split: if_splits)

lemma length_del_Some: "well_keyed m \<Longrightarrow> get m k = Some v \<Longrightarrow> length (del k m) + 1 = length m"
  by (induction m) (auto simp: delete_idem split: if_splits)

lemma start_build_ok:
  assumes ok: "registry_ok w" and room: "slotCountLocked (rgw_registry w) < rrg_maxEntries (rgw_registry w)"
    and none: "get (rrg_entries (rgw_registry w)) k = None" "get (rrg_pending (rgw_registry w)) k = None"
    and b: "b = length (rrg_builds (rgw_registry w))"
  shows "registry_ok (w\<lparr>rgw_registry := (rgw_registry w)\<lparr>
      rrg_builds := rrg_builds (rgw_registry w) @ [\<lparr>rnb_done = False, rnb_invalidated = False\<rparr>],
      rrg_pending := put k b (rrg_pending (rgw_registry w))\<rparr>, rgw_building := (k, b) # rgw_building w\<rparr>)" (is "registry_ok ?w")
proof -
  note B = builds_okD [OF registry_okD(4) [OF ok] refl]
  have old: "b' < b" if "(k', b') \<in> set (rgw_building w)" for k' b' using B(4) [OF that] b by simp
  have "builds_ok ?w"
    unfolding builds_ok_def Let_def
  proof (intro conjI allI impI)
    show "well_keyed (rrg_pending (rgw_registry ?w))" using B(1) by simp
    show "get (rrg_pending (rgw_registry ?w)) k' = Some b' \<longleftrightarrow> (k', b') \<in> set (rgw_building ?w)" for k' b'
      using B(2) [of k' b'] B(2) [of k b'] none(2) by (auto split: if_splits)
    show "distinct (rgw_building ?w)" using B(3) old by auto
    show "b' < length (rrg_builds (rgw_registry ?w))" "\<not> rnb_done (rrg_builds (rgw_registry ?w) ! b')"
      if "(k', b') \<in> set (rgw_building ?w)" for k' b'
      using that B(4) b by (auto simp: nth_append less_SucI)
    show "k' = k''" if "(k', b') \<in> set (rgw_building ?w) \<and> (k'', b') \<in> set (rgw_building ?w)" for k' k'' b'
      using that B(5) [of k' b' k''] old [of k' b] old [of k'' b] by auto
    show "get (rrg_entries (rgw_registry ?w)) k' = None" if "(k', b') \<in> set (rgw_building ?w)" for k' b'
      using that B(6) none(1) by auto
  qed
  moreover have "slots_ok ?w"
    using room length_put_None [OF none(2), of b] by (simp add: slots_ok_def slotCountLocked_def)
  moreover have "refs_ok ?w" "entries_ok ?w" "closing_ok ?w" "runners_ok ?w"
    using registry_okD(1,2,3,6) [OF ok]
    unfolding refs_ok_def borrowed_def entries_ok_def closing_ok_def closing_def runners_ok_def Let_def by simp_all
  ultimately show ?thesis by (simp add: registry_ok_def)
qed

lemma acquire_ok:
  assumes ok: "registry_ok w" and a: "acquireOnce order k now (rgw_registry w) = (outcome, gone, g)"
    and order: "\<And>m. set (order m) = set m"
  shows "registry_ok (w\<lparr>rgw_registry := g, rgw_todo := gone @ rgw_todo w,
      rgw_leases := (case outcome of AcquireLease a \<Rightarrow> (a, False) # rgw_leases w | _ \<Rightarrow> rgw_leases w),
      rgw_building := (case outcome of AcquireBuild b \<Rightarrow> (k, b) # rgw_building w | _ \<Rightarrow> rgw_building w)\<rparr>)"
proof -
  let ?g = "rgw_registry w"
  note E = entries_okD [OF registry_okD(2) [OF ok] refl]
  consider "rrg_closed ?g" | (lease) a where "\<not> rrg_closed ?g" "cached k ?g = Some a"
    | (wait) b where "\<not> rrg_closed ?g" "cached k ?g = None" "get (rrg_pending ?g) k = Some b"
    | (build) "\<not> rrg_closed ?g" "cached k ?g = None" "get (rrg_pending ?g) k = None"
    by (cases "cached k ?g"; cases "get (rrg_pending ?g) k") auto
  then show ?thesis
  proof cases
    case 1
    with a have "outcome = AcquireError GwErrClosed" "gone = []" "g = ?g" by (simp_all add: acquireOnce_def)
    with ok show ?thesis by simp
  next
    case lease
    with a have "outcome = AcquireLease a" "gone = []" "g = retainLocked a now ?g" by (simp_all add: acquireOnce_def)
    moreover from lease(2) have "get (rrg_entries ?g) k = Some a" by (simp add: cached_def split: option.splits if_splits)
    ultimately show ?thesis using retain_ok [OF ok] by simp
  next
    case wait
    with a have "outcome = AcquireWait b" "gone = []" "g = ?g" by (simp_all add: acquireOnce_def)
    with ok show ?thesis by simp
  next
    case build
    have none: "get (rrg_entries ?g) k = None"
    proof (cases "get (rrg_entries ?g) k")
      case (Some a)
      with build(2) E(3) show ?thesis by (simp add: cached_def)
    qed
    have addr: "\<forall>x \<in> set (rrg_entries ?g). snd x < length (rrg_heap ?g)"
    proof
      fix x
      assume "x \<in> set (rrg_entries ?g)"
      then have "get (rrg_entries ?g) (fst x) = Some (snd x)" using E(1) by (simp add: well_keyed_get_iff)
      then show "snd x < length (rrg_heap ?g)" by (rule E(2))
    qed
    from a build have bb: "begin_build order k now ?g = (outcome, gone, g)" by (simp add: acquireOnce_def)
    show ?thesis
    proof (cases rule: begin_build_cases [OF bb order E(1) addr, case_names full building])
      case (full xs)
      then show ?thesis using evict_ok [OF ok full(1)] by simp
    next
      case (building xs)
      let ?w = "w\<lparr>rgw_registry := fold forget xs ?g, rgw_todo := map snd xs @ rgw_todo w\<rparr>"
      have "registry_ok (?w\<lparr>rgw_registry := (rgw_registry ?w)\<lparr>
          rrg_builds := rrg_builds (rgw_registry ?w) @ [\<lparr>rnb_done = False, rnb_invalidated = False\<rparr>],
          rrg_pending := put k (length (rrg_builds ?g)) (rrg_pending (rgw_registry ?w))\<rparr>,
          rgw_building := (k, length (rrg_builds ?g)) # rgw_building ?w\<rparr>)"
        by (rule start_build_ok [OF evict_ok [OF ok building(1)]]) (use building(4) none build(3) in \<open>simp_all add: forget_entries(1)\<close>)
      moreover have "w\<lparr>rgw_todo := t, rgw_registry := g', rgw_building := bs\<rparr> = w\<lparr>rgw_registry := g', rgw_todo := t, rgw_building := bs\<rparr>"
        for t g' bs by (cases w) simp
      ultimately show ?thesis using building by simp
    qed
  qed
qed

subsection \<open>The end of a construction\<close>

lemma finished_build_ok:
  assumes ok: "registry_ok w" and kb: "(k, b) \<in> set (rgw_building w)"
    and w': "rgw_building w' = removeAll (k, b) (rgw_building w)"
    and p: "rrg_pending (rgw_registry w') = del k (rrg_pending (rgw_registry w))"
    and bl: "rrg_builds (rgw_registry w') = (rrg_builds (rgw_registry w))[b := (rrg_builds (rgw_registry w) ! b)\<lparr>rnb_done := True\<rparr>]"
    and e: "\<And>k'. k' \<noteq> k \<Longrightarrow> get (rrg_entries (rgw_registry w')) k' = get (rrg_entries (rgw_registry w)) k'"
  shows "builds_ok w'"
proof -
  note B = builds_okD [OF registry_okD(4) [OF ok] refl]
  have mem: "(k', b') \<in> set (rgw_building w') \<longleftrightarrow> (k', b') \<in> set (rgw_building w) \<and> k' \<noteq> k" for k' b'
    using B(2) [of k b'] B(2) [of k b] kb by (auto simp: w')
  have keep: "b' \<noteq> b" if "(k', b') \<in> set (rgw_building w')" for k' b'
    using that B(5) [OF _ kb, of k'] mem by auto
  show ?thesis
    unfolding builds_ok_def Let_def
  proof (intro conjI allI impI)
    show "well_keyed (rrg_pending (rgw_registry w'))" using B(1) by (simp add: p)
    show "get (rrg_pending (rgw_registry w')) k' = Some b' \<longleftrightarrow> (k', b') \<in> set (rgw_building w')" for k' b'
      using B(2) [of k' b'] mem [of k' b'] by (auto simp: p split: if_splits)
    show "distinct (rgw_building w')" using B(3) by (simp add: w' distinct_removeAll)
    show "b' < length (rrg_builds (rgw_registry w'))" "\<not> rnb_done (rrg_builds (rgw_registry w') ! b')"
      if "(k', b') \<in> set (rgw_building w')" for k' b'
      using that B(4) [of k' b'] mem [of k' b'] keep [OF that] by (auto simp: bl)
    show "k' = k''" if "(k', b') \<in> set (rgw_building w') \<and> (k'', b') \<in> set (rgw_building w')" for k' k'' b'
      using that B(5) [of k' b' k''] mem by blast
    show "get (rrg_entries (rgw_registry w')) k' = None" if "(k', b') \<in> set (rgw_building w')" for k' b'
      using that B(6) [of k' b'] mem [of k' b'] e [of k'] by simp
  qed
qed

lemma loose_ok:
  assumes "runners_ok w" and "map rne_runner (rrg_heap (rgw_registry w')) = map rne_runner (rrg_heap (rgw_registry w))"
    and "map rne_closed (rrg_heap (rgw_registry w')) = map rne_closed (rrg_heap (rgw_registry w))"
    and "set_option made \<inter> set (rgw_made w) = {}" "rgw_stopped w' = rgw_stopped w"
    and "rgw_loose w' = (case made of None \<Rightarrow> rgw_loose w | Some r \<Rightarrow> r # rgw_loose w)"
    and "rgw_made w' = (case made of None \<Rightarrow> rgw_made w | Some r \<Rightarrow> r # rgw_made w)"
  shows "runners_ok w'"
proof -
  have c: "rne_closed (rrg_heap (rgw_registry w') ! a) = rne_closed (rrg_heap (rgw_registry w) ! a)"
    if "a < length (rrg_heap (rgw_registry w))" for a
    using assms(3) that by (metis length_map nth_map)
  have "length (rrg_heap (rgw_registry w')) = length (rrg_heap (rgw_registry w))" using assms(2) by (metis length_map)
  with assms(1,4-7) c show ?thesis
    unfolding runners_ok_def Let_def assms(2) by (cases made) auto
qed

lemma heap_frame:
  assumes ok: "registry_ok w" and "rrg_heap (rgw_registry w') = rrg_heap (rgw_registry w)"
    and "rrg_entries (rgw_registry w') = rrg_entries (rgw_registry w)" and "rrg_closed (rgw_registry w') = rrg_closed (rgw_registry w)"
    and "rgw_leases w' = rgw_leases w" and "closing w' = closing w" and "set (rgw_await w') \<subseteq> set (rgw_await w)"
    and "rgw_lost w' = rgw_lost w"
  shows "refs_ok w'" "entries_ok w'" "closing_ok w'"
proof -
  show "refs_ok w'" "entries_ok w'"
    using registry_okD(1,2) [OF ok] assms(2-) unfolding refs_ok_def borrowed_def entries_ok_def Let_def by simp_all
  show "closing_ok w'"
    using registry_okD(3) [OF ok] assms(7) unfolding closing_ok_def Let_def assms(2,6,8) by blast
qed

text \<open>The entry of a runner that was made: a fresh address with one lease.\<close>

lemma new_entry_ok:
  assumes ok: "registry_ok w" and e: "e = \<lparr>rne_runner = r, rne_refs = 1, rne_lastUsed = now, rne_invalidated = False,
      rne_zero = False, rne_closed = False, rne_closeErr = False\<rparr>"
    and h: "rrg_heap (rgw_registry w') = rrg_heap (rgw_registry w) @ [e]"
    and en: "rrg_entries (rgw_registry w') = put k (length (rrg_heap (rgw_registry w))) (rrg_entries (rgw_registry w))"
    and none: "get (rrg_entries (rgw_registry w)) k = None" and nc: "\<not> rrg_closed (rgw_registry w')"
    and l: "rgw_leases w' = (length (rrg_heap (rgw_registry w)), False) # rgw_leases w"
    and c: "closing w' = closing w" "rgw_await w' = rgw_await w" "rgw_lost w' = rgw_lost w"
    and r: "r \<notin> set (rgw_made w)" "rgw_made w' = r # rgw_made w" "rgw_loose w' = rgw_loose w" "rgw_stopped w' = rgw_stopped w"
  shows "refs_ok w'" "entries_ok w'" "closing_ok w'" "runners_ok w'"
proof -
  let ?h = "rrg_heap (rgw_registry w)" and ?h' = "rrg_heap (rgw_registry w')"
  let ?e = "rrg_entries (rgw_registry w)" and ?e' = "rrg_entries (rgw_registry w')"
  note E = entries_okD [OF registry_okD(2) [OF ok] refl] and C = closing_okD [OF registry_okD(3) [OF ok] refl]
  have get': "get ?e' k' = (if k' = k then Some (length ?h) else get ?e k')" for k' by (simp add: en)
  have old: "?h' ! a = ?h ! a" if "a < length ?h" for a using that by (simp add: h nth_append)
  have new: "?h' ! length ?h = e" by (simp add: h)
  have lt: "a < length ?h' \<longleftrightarrow> a < length ?h \<or> a = length ?h" for a by (auto simp: h)
  show "refs_ok w'"
    unfolding refs_ok_def
  proof
    fix a
    show "int (borrowed a w') = (if a < length ?h' then rne_refs (?h' ! a) else 0)"
      using registry_okD(1) [OF ok, unfolded refs_ok_def, rule_format, of a] lt old new
      by (cases "a = length ?h") (auto simp: borrowed_def l e)
  qed
  show "entries_ok w'"
    unfolding entries_ok_def Let_def
  proof (intro conjI allI impI)
    show "well_keyed ?e'" using E(1) by (simp add: en)
    show "a < length ?h'" "\<not> rne_invalidated (?h' ! a)" if "get ?e' k' = Some a" for k' a
      using that E(2,3) [of k' a] lt old [of a] new by (auto simp: get' e split: if_splits)
    show "k' = k''" if "get ?e' k' = Some a \<and> get ?e' k'' = Some a" for k' k'' a
      using that E(2) [of k' a] E(2) [of k'' a] E(4) [of k' a k''] by (auto simp: get' split: if_splits)
    show "\<exists>k'. get ?e' k' = Some a" if "a < length ?h'" "\<not> rne_invalidated (?h' ! a)" for a
    proof (cases "a = length ?h")
      case True
      then show ?thesis by (intro exI [of _ k]) (simp add: get')
    next
      case False
      with that lt old have "a < length ?h" "\<not> rne_invalidated (?h ! a)" by auto
      from E(5) [OF this] obtain k' where "get ?e k' = Some a" by blast
      with none show ?thesis by (intro exI [of _ k']) (auto simp: get')
    qed
  qed (use nc in simp)
  show "closing_ok w'"
    unfolding closing_ok_def Let_def c
  proof (intro conjI ballI allI impI)
    show "a < length ?h'" if "a \<in> closing w" for a using C(1) [OF that] lt by simp
    show "a < length ?h'" if "a \<in> set (rgw_await w)" for a using C(2) [OF that] lt by simp
  next
    fix a
    assume "a < length ?h'" and x: "rne_closed (?h' ! a) \<or> rne_zero (?h' ! a) \<or> a \<in> closing w"
    then have "a < length ?h" using C(1) [of a] new by (auto simp: lt e)
    with C(3) [OF this] x old show "rne_invalidated (?h' ! a)" "rne_refs (?h' ! a) = 0" by auto
  next
    fix a
    assume "a < length ?h'" and x: "rne_invalidated (?h' ! a) \<and> rne_refs (?h' ! a) = 0"
    then have "a < length ?h" using new by (auto simp: lt e)
    with C(4) [OF this] x old show "rne_closed (?h' ! a) \<or> a \<in> closing w" by auto
  next
    assume "set (rgw_lost w) \<noteq> {}"
    with C(5) obtain a where "a < length ?h" "rne_closed (?h ! a)" "rne_closeErr (?h ! a)" by auto
    with lt old show "\<exists>a < length ?h'. rne_closed (?h' ! a) \<and> rne_closeErr (?h' ! a)" by (intro exI [of _ a]) simp
  qed
  show "runners_ok w'"
    using registry_okD(6) [OF ok] r(1) unfolding runners_ok_def Let_def r(2-) h
    by (auto simp: nth_append less_Suc_eq e)
qed

lemma finish_ok:
  assumes ok: "registry_ok w" and kb: "(k, b) \<in> set (rgw_building w)" and fresh: "set_option made \<inter> set (rgw_made w) = {}"
    and f: "finishRunnerBuild k b made failed cancelled now (rgw_registry w) = (outcome, loose, g)"
  shows "registry_ok (w\<lparr>rgw_registry := g, rgw_building := removeAll (k, b) (rgw_building w),
      rgw_leases := (case outcome of FinishLease a \<Rightarrow> (a, False) # rgw_leases w | _ \<Rightarrow> rgw_leases w),
      rgw_loose := (case loose of None \<Rightarrow> rgw_loose w | Some r \<Rightarrow> r # rgw_loose w),
      rgw_made := (case made of None \<Rightarrow> rgw_made w | Some r \<Rightarrow> r # rgw_made w)\<rparr>)" (is "registry_ok ?w")
proof -
  let ?g = "rgw_registry w"
  let ?g1 = "set_build b (\<lambda>build. build\<lparr>rnb_done := True\<rparr>) (?g\<lparr>rrg_pending := del k (rrg_pending ?g)\<rparr>)"
  note B = builds_okD [OF registry_okD(4) [OF ok] refl]
  have pend: "get (rrg_pending ?g) k = Some b" using kb B(2) by simp
  have gone: "length (del k (rrg_pending ?g)) + 1 = length (rrg_pending ?g)" by (rule length_del_Some [OF B(1) pend])
  consider (lease) r where "made = Some r" "outcome = FinishLease (length (rrg_heap ?g))" "loose = None" "\<not> rrg_closed ?g"
      "g = ?g1\<lparr>rrg_heap := rrg_heap ?g1 @ [\<lparr>rne_runner = r, rne_refs = 1, rne_lastUsed = now, rne_invalidated = False,
                                              rne_zero = False, rne_closed = False, rne_closeErr = False\<rparr>],
               rrg_entries := put k (length (rrg_heap ?g)) (rrg_entries ?g1)\<rparr>"
    | (dropped) "g = ?g1" "loose = made" "\<And>a. outcome \<noteq> FinishLease a"
    using f by (cases made) (auto simp: finishRunnerBuild_def factory_error_def Let_def split: option.splits if_splits)
  then show ?thesis
  proof cases
    case lease
    have "refs_ok ?w" "entries_ok ?w" "closing_ok ?w" "runners_ok ?w"
      using lease fresh B(6) [OF kb] by (intro new_entry_ok [OF ok refl, of _ r now k]; simp add: closing_def)+
    moreover have "builds_ok ?w"
      by (rule finished_build_ok [OF ok kb]) (use lease in \<open>simp_all add: set_build_def\<close>)
    moreover have "slots_ok ?w"
      using registry_okD(5) [OF ok] gone length_put_None [OF B(6) [OF kb], of "length (rrg_heap ?g)"] lease
      by (simp add: slots_ok_def slotCountLocked_def)
    ultimately show ?thesis by (simp add: registry_ok_def)
  next
    case dropped
    have "refs_ok ?w" "entries_ok ?w" "closing_ok ?w"
      using dropped by (intro heap_frame [OF ok]; simp add: closing_def split: finish_outcome.split)+
    moreover have "builds_ok ?w"
      by (rule finished_build_ok [OF ok kb]) (use dropped in \<open>simp_all add: set_build_def\<close>)
    moreover have "slots_ok ?w"
      using registry_okD(5) [OF ok] gone dropped by (simp add: slots_ok_def slotCountLocked_def)
    moreover have "runners_ok ?w" by (rule loose_ok [OF registry_okD(6) [OF ok] _ _ fresh]) (use dropped in simp_all)
    ultimately show ?thesis by (simp add: registry_ok_def)
  qed
qed

subsection \<open>Invalidation and the close of the registry\<close>

lemma forget_cong:
  assumes "rrg_heap g = rrg_heap g'" and "rrg_entries g = rrg_entries g'"
  shows "rrg_heap (fold forget xs g) = rrg_heap (fold forget xs g')" "rrg_entries (fold forget xs g) = rrg_entries (fold forget xs g')"
  using assms by (induction xs arbitrary: g g') (simp_all add: forget_def set_entry_def)

lemma forgotten_ok:
  assumes ok: "registry_ok w" and xs: "set xs \<subseteq> set (rrg_entries (rgw_registry w))"
    and g: "rgw_registry w' = fold forget xs g"
    and g0: "rrg_heap g = rrg_heap (rgw_registry w)" "rrg_entries g = rrg_entries (rgw_registry w)"
      "rrg_pending g = rrg_pending (rgw_registry w)" "rrg_maxEntries g = rrg_maxEntries (rgw_registry w)"
      "length (rrg_builds g) = length (rrg_builds (rgw_registry w))"
      "\<And>b. b < length (rrg_builds (rgw_registry w)) \<Longrightarrow> rnb_done (rrg_builds g ! b) = rnb_done (rrg_builds (rgw_registry w) ! b)"
    and c: "rrg_closed g \<Longrightarrow> rrg_closed (rgw_registry w) \<or> set xs = set (rrg_entries (rgw_registry w))"
    and l: "rgw_leases w' = rgw_leases w" "rgw_building w' = rgw_building w"
    and cl: "closing w' = closing w \<union> {a \<in> snd ` set xs. rne_refs (rrg_heap (rgw_registry w) ! a) = 0}"
    and aw: "set (rgw_await w') \<subseteq> set (rgw_await w) \<union> snd ` set xs" and lo: "rgw_lost w' = rgw_lost w"
    and r: "rgw_made w' = rgw_made w" "rgw_loose w' = rgw_loose w" "rgw_stopped w' = rgw_stopped w"
  shows "registry_ok w'"
proof -
  have "refs_ok w'" "entries_ok w'" "closing_ok w'" "runners_ok w'"
    using forget_cong [OF g0(1,2), of xs] c by (intro forget_ok [OF ok refl xs _ _ _ l(1) cl aw lo r]; simp add: g)+
  moreover have "builds_ok w'"
    by (rule builds_frame [OF registry_okD(4) [OF ok] l(2)]) (use g0 in \<open>simp_all add: g forget_entries(1)\<close>)
  moreover have "slots_ok w'"
    by (rule slots_frame [OF registry_okD(5) [OF ok]]) (use g0 forget_entries(3) [of xs g] in \<open>simp_all add: g\<close>)
  ultimately show ?thesis by (simp add: registry_ok_def)
qed

lemma drop_builds_done: "b < length (rrg_builds g) \<Longrightarrow> rnb_done (rrg_builds (drop_builds bs g) ! b) = rnb_done (rrg_builds g ! b)"
  by (simp add: drop_builds_nth)

lemma invalidate_ok:
  assumes ok: "registry_ok w" and i: "registry_InvalidateMatching predicate (rgw_registry w) = (Inr gone, g)"
  shows "registry_ok (w\<lparr>rgw_registry := g, rgw_batches := gone # rgw_batches w\<rparr>)" (is "registry_ok ?w")
proof -
  let ?g = "rgw_registry w"
  let ?xs = "filter (\<lambda>x. predicate (fst x)) (rrg_entries ?g)" and ?bs = "filter (\<lambda>x. predicate (fst x)) (rrg_pending ?g)"
  from i have nc: "\<not> rrg_closed ?g" and g: "g = fold forget ?xs (drop_builds ?bs ?g)"
    and gone: "gone = map snd (filter (unreferenced (drop_builds ?bs ?g)) ?xs)"
    by (simp_all add: registry_InvalidateMatching_def Let_def split: if_splits)
  have cl: "closing ?w = closing w \<union> {a \<in> snd ` set ?xs. rne_refs (rrg_heap ?g ! a) = 0}"
    by (auto simp: closing_def gone unreferenced_def)
  show ?thesis
    by (rule forgotten_ok [OF ok, of ?xs _ "drop_builds ?bs ?g"]) (use g nc cl in \<open>simp_all add: drop_builds_done\<close>)
qed

lemma invalidate_key_ok:
  assumes ok: "registry_ok w" and i: "registry_Invalidate k (rgw_registry w) = (Inr gone, g)"
  shows "registry_ok (w\<lparr>rgw_registry := g, rgw_todo := gone @ rgw_todo w\<rparr>)" (is "registry_ok ?w")
proof -
  let ?g = "rgw_registry w"
  define bs where "bs = (case get (rrg_pending ?g) k of None \<Rightarrow> [] | Some b \<Rightarrow> [(k, b)])"
  define xs where "xs = (case get (rrg_entries ?g) k of None \<Rightarrow> [] | Some a \<Rightarrow> [(k, a)])"
  have nc: "\<not> rrg_closed ?g" and g: "g = fold forget xs (drop_builds bs ?g)"
    and gone: "gone = map snd (filter (unreferenced ?g) xs)"
    using i by (auto simp: registry_Invalidate_def Let_def bs_def xs_def drop_builds_def unreferenced_def split: if_splits option.splits)
  have cl: "closing ?w = closing w \<union> {a \<in> snd ` set xs. rne_refs (rrg_heap ?g ! a) = 0}"
    by (auto simp: closing_def gone unreferenced_def)
  have sub: "set xs \<subseteq> set (rrg_entries ?g)"
    using entries_okD(1) [OF registry_okD(2) [OF ok] refl] by (auto simp: xs_def well_keyed_get_iff split: option.splits)
  show ?thesis
    by (rule forgotten_ok [OF ok sub, of _ "drop_builds bs ?g"]) (use g nc cl in \<open>simp_all add: drop_builds_done\<close>)
qed

lemma drop_forget: "drop_builds bs (fold forget xs g) = fold forget xs (drop_builds bs g)"
proof -
  have two: "set_build b f (forget x g) = forget x (set_build b f g)" for b f x g
    by (cases g) (simp add: forget_def set_entry_def set_build_def)
  have one: "drop_builds bs (forget x g) = forget x (drop_builds bs g)" for x g
    unfolding drop_builds_def by (induction bs arbitrary: g) (simp_all add: two)
  show ?thesis by (induction xs arbitrary: g) (simp_all add: one)
qed

lemma shut_ok:
  assumes ok: "registry_ok w" and s: "registry_Close (rgw_registry w) = (wait, gone, g)"
  shows "registry_ok (w\<lparr>rgw_registry := g, rgw_todo := gone @ rgw_todo w, rgw_await := wait @ rgw_await w\<rparr>)" (is "registry_ok ?w")
proof (cases "rrg_closeStarted (rgw_registry w)")
  case True
  with s have "wait = []" "gone = []" "g = rgw_registry w" by (simp_all add: registry_Close_def)
  with ok show ?thesis by simp
next
  case False
  let ?g = "rgw_registry w" and ?xs = "rrg_entries (rgw_registry w)"
  let ?g1 = "drop_builds (rrg_pending ?g) (?g\<lparr>rrg_closeStarted := True, rrg_closed := True\<rparr>)"
  have g: "g = fold forget ?xs ?g1" and gone: "gone = map snd (filter (unreferenced ?g) ?xs)"
    and wait: "wait = map snd (filter (\<lambda>x. \<not> unreferenced ?g x) ?xs)"
    using False s by (simp_all add: registry_Close_def drop_forget Let_def)
  have cl: "closing ?w = closing w \<union> {a \<in> snd ` set ?xs. rne_refs (rrg_heap ?g ! a) = 0}"
    by (auto simp: closing_def gone unreferenced_def)
  have aw: "set (rgw_await ?w) \<subseteq> set (rgw_await w) \<union> snd ` set ?xs" by (auto simp: wait)
  show ?thesis
    by (rule forgotten_ok [OF ok subset_refl, of _ ?g1]) (use g cl aw in \<open>simp_all add: drop_builds_done\<close>)
qed

subsection \<open>The end of a lease\<close>

lemma lease_release_ok:
  assumes ok: "registry_ok w" and i: "i < length (rgw_leases w)" "rgw_leases w ! i = (a, False)"
    and rel: "lease_release a now (rgw_registry w) = (shouldClose, g)"
  shows "registry_ok (w\<lparr>rgw_registry := g, rgw_leases := (rgw_leases w)[i := (a, True)],
      rgw_todo := (if shouldClose then a # rgw_todo w else rgw_todo w)\<rparr>)" (is "registry_ok ?w")
proof -
  let ?g = "rgw_registry w"
  let ?h = "rrg_heap ?g" and ?h' = "rrg_heap g"
  note E = entries_okD [OF registry_okD(2) [OF ok] refl] and C = closing_okD [OF registry_okD(3) [OF ok] refl]
  have mem: "(a, False) \<in> set (rgw_leases w)" using i nth_mem by metis
  have al: "a < length ?h" and pos: "0 < borrowed a w" using refs_okD(2) [OF registry_okD(1) [OF ok] mem] by auto
  have refs: "rne_refs (?h ! a) = int (borrowed a w)" by (rule refs_okD(1) [OF registry_okD(1) [OF ok] al])
  have calm: "\<not> rne_closed (?h ! a)" "\<not> rne_zero (?h ! a)" "a \<notin> closing w" using C(3) [OF al] refs pos by auto
  have inv: "rne_invalidated (?h ! a)" if "rrg_closed ?g" using E(5) [OF al] E(6) [OF that] by auto
  have g: "\<exists>f. g = set_entry a f ?g" using rel refs pos by (auto simp: lease_release_def Let_def split: if_splits)
  then have same: "rrg_entries g = rrg_entries ?g" "rrg_pending g = rrg_pending ?g" "rrg_builds g = rrg_builds ?g"
    "rrg_closed g = rrg_closed ?g" "rrg_maxEntries g = rrg_maxEntries ?g" and len: "length ?h' = length ?h"
    and other: "\<And>b. b \<noteq> a \<Longrightarrow> b < length ?h \<Longrightarrow> ?h' ! b = ?h ! b"
    by (auto simp: set_entry_nth)
  have this_entry: "rne_refs (?h' ! a) = rne_refs (?h ! a) - 1" "rne_invalidated (?h' ! a) = rne_invalidated (?h ! a)"
    "rne_closed (?h' ! a) = rne_closed (?h ! a)" "rne_closeErr (?h' ! a) = rne_closeErr (?h ! a)"
    "rne_runner (?h' ! a) = rne_runner (?h ! a)" "rne_zero (?h' ! a) = shouldClose"
    "shouldClose \<longleftrightarrow> rne_refs (?h ! a) = 1 \<and> rne_invalidated (?h ! a)"
    using rel refs pos al calm inv by (auto simp: lease_release_def Let_def set_entry_nth split: if_splits)
  have all: "rne_invalidated (?h' ! b) = rne_invalidated (?h ! b)" "rne_closed (?h' ! b) = rne_closed (?h ! b)"
    "rne_closeErr (?h' ! b) = rne_closeErr (?h ! b)" "rne_runner (?h' ! b) = rne_runner (?h ! b)" if "b < length ?h" for b
    using that other this_entry by (cases "b = a"; simp)+
  have cl: "closing ?w = closing w \<union> (if shouldClose then {a} else {})" by (auto simp: closing_def)
  have "refs_ok ?w"
    unfolding refs_ok_def
  proof
    fix b
    have "length (filter (\<lambda>x. x = (b, False)) ((rgw_leases w)[i := (a, True)])) + (if a = b then 1 else 0)
        = length (filter (\<lambda>x. x = (b, False)) (rgw_leases w))"
      using filter_list_update [OF i(1), of "\<lambda>x. x = (b, False)" "(a, True)"] i(2) by simp
    then show "int (borrowed b ?w) = (if b < length (rrg_heap (rgw_registry ?w)) then rne_refs (rrg_heap (rgw_registry ?w) ! b) else 0)"
      using registry_okD(1) [OF ok, unfolded refs_ok_def, rule_format, of b] al other [of b] this_entry(1) len
      by (cases "b = a") (auto simp: borrowed_def)
  qed
  moreover have "entries_ok ?w"
    using registry_okD(2) [OF ok] all(1) len E(2) unfolding entries_ok_def Let_def by (simp add: same)
  moreover have "closing_ok ?w"
    unfolding closing_ok_def Let_def cl
  proof (intro conjI ballI allI impI)
    fix b
    assume b: "b < length (rrg_heap (rgw_registry ?w))"
      and x: "rne_closed (rrg_heap (rgw_registry ?w) ! b) \<or> rne_zero (rrg_heap (rgw_registry ?w) ! b)
        \<or> b \<in> closing w \<union> (if shouldClose then {a} else {})"
    have bl: "b < length ?h" using b len by simp
    have "rne_invalidated (?h' ! b) \<and> rne_refs (?h' ! b) = 0"
    proof (cases "b = a")
      case True
      then have shouldClose using x this_entry(3,6) calm by (auto split: if_splits)
      with True this_entry show ?thesis by simp
    next
      case False
      with x other [OF False bl] C(3) [OF bl] show ?thesis by (auto split: if_splits)
    qed
    then show "rne_invalidated (rrg_heap (rgw_registry ?w) ! b)" "rne_refs (rrg_heap (rgw_registry ?w) ! b) = 0" by simp_all
  next
    fix b
    assume b: "b < length (rrg_heap (rgw_registry ?w))"
      and x: "rne_invalidated (rrg_heap (rgw_registry ?w) ! b) \<and> rne_refs (rrg_heap (rgw_registry ?w) ! b) = 0"
    show "rne_closed (rrg_heap (rgw_registry ?w) ! b) \<or> b \<in> closing w \<union> (if shouldClose then {a} else {})"
      using b x this_entry(1,2,7) other [of b] C(4) [of b] len by (cases "b = a") auto
  qed (use al C(1,2,5) len all(2,3) in \<open>auto split: if_splits\<close>)
  moreover have "builds_ok ?w" by (rule builds_frame [OF registry_okD(4) [OF ok]]) (simp_all add: same)
  moreover have "slots_ok ?w" by (rule slots_frame [OF registry_okD(5) [OF ok]]) (simp_all add: same)
  moreover have "runners_ok ?w"
  proof -
    have "map rne_runner ?h' = map rne_runner ?h" by (rule nth_equalityI) (use all(4) len in simp_all)
    with registry_okD(6) [OF ok] all(2) len show ?thesis unfolding runners_ok_def Let_def by simp
  qed
  ultimately show ?thesis by (simp add: registry_ok_def)
qed

subsection \<open>Closing runners\<close>

lemma closed_ok:
  assumes ok: "registry_ok w" and al: "a < length (rrg_heap (rgw_registry w))"
    and dead: "rne_invalidated (rrg_heap (rgw_registry w) ! a)" "rne_refs (rrg_heap (rgw_registry w) ! a) = 0"
    and g: "rgw_registry w' = entry_close failed a (rgw_registry w)"
    and st: "rgw_stopped w' = (let e = rrg_heap (rgw_registry w) ! a in if rne_closed e then rgw_stopped w else rne_runner e # rgw_stopped w)"
    and l: "rgw_leases w' = rgw_leases w" "rgw_building w' = rgw_building w" "rgw_made w' = rgw_made w" "rgw_loose w' = rgw_loose w"
    and cl: "closing w' \<subseteq> closing w" "closing w \<subseteq> insert a (closing w')" and aw: "set (rgw_await w') \<subseteq> set (rgw_await w)"
    and lo: "rgw_lost w' = rgw_lost w \<or> rne_closeErr (rrg_heap (rgw_registry w') ! a)"
  shows "registry_ok w'"
proof -
  let ?g = "rgw_registry w"
  let ?h = "rrg_heap ?g" and ?h' = "rrg_heap (rgw_registry w')"
  note E = entries_okD [OF registry_okD(2) [OF ok] refl] and C = closing_okD [OF registry_okD(3) [OF ok] refl]
  have same: "rrg_entries (rgw_registry w') = rrg_entries ?g" "rrg_pending (rgw_registry w') = rrg_pending ?g"
    "rrg_builds (rgw_registry w') = rrg_builds ?g" "rrg_closed (rgw_registry w') = rrg_closed ?g"
    "rrg_maxEntries (rgw_registry w') = rrg_maxEntries ?g" and len: "length ?h' = length ?h"
    by (simp_all add: g entry_close_def)
  have fields: "rne_invalidated (?h' ! b) = rne_invalidated (?h ! b)" "rne_refs (?h' ! b) = rne_refs (?h ! b)"
    "rne_zero (?h' ! b) = rne_zero (?h ! b)" "rne_runner (?h' ! b) = rne_runner (?h ! b)"
    "rne_closed (?h' ! b) \<longleftrightarrow> rne_closed (?h ! b) \<or> b = a" if "b < length ?h" for b
    using that by (auto simp: g entry_close_def set_entry_nth)
  have kept: "?h' ! b = ?h ! b" if "b < length ?h" "rne_closed (?h ! b)" for b
    using that by (auto simp: g entry_close_def set_entry_nth)
  have "refs_ok w'" using registry_okD(1) [OF ok] fields(2) len by (simp add: refs_ok_def borrowed_def l)
  moreover have "entries_ok w'"
    using registry_okD(2) [OF ok] fields(1) len E(2) unfolding entries_ok_def Let_def by (simp add: same)
  moreover have "closing_ok w'"
    unfolding closing_ok_def Let_def
  proof (intro conjI ballI allI impI)
    show "b < length ?h'" if "b \<in> closing w'" for b using that C(1) [of b] cl(1) len by auto
    show "b < length ?h'" if "b \<in> set (rgw_await w')" for b using that C(2) [of b] aw len by auto
  next
    fix b
    assume b: "b < length ?h'" and x: "rne_closed (?h' ! b) \<or> rne_zero (?h' ! b) \<or> b \<in> closing w'"
    have bl: "b < length ?h" using b len by simp
    show "rne_invalidated (?h' ! b)" "rne_refs (?h' ! b) = 0"
      using x C(3) [OF bl] fields [OF bl] dead cl(1) by (cases "b = a"; auto)+
  next
    fix b
    assume b: "b < length ?h'" and x: "rne_invalidated (?h' ! b) \<and> rne_refs (?h' ! b) = 0"
    have bl: "b < length ?h" using b len by simp
    show "rne_closed (?h' ! b) \<or> b \<in> closing w'"
      using x C(4) [OF bl] fields [OF bl] cl(2) by auto
  next
    assume lost: "set (rgw_lost w') \<noteq> {}"
    show "\<exists>b < length ?h'. rne_closed (?h' ! b) \<and> rne_closeErr (?h' ! b)"
    proof (cases "rgw_lost w = []")
      case True
      with lost lo have "rne_closeErr (?h' ! a)" by auto
      with al len fields(5) [OF al] show ?thesis by (intro exI [of _ a]) simp
    next
      case False
      from C(5) [OF this] obtain b where b: "b < length ?h" "rne_closed (?h ! b)" "rne_closeErr (?h ! b)" by blast
      with kept [OF b(1,2)] len show ?thesis by (intro exI [of _ b]) simp
    qed
  qed
  moreover have "builds_ok w'" by (rule builds_frame [OF registry_okD(4) [OF ok]]) (simp_all add: same l)
  moreover have "slots_ok w'" by (rule slots_frame [OF registry_okD(5) [OF ok]]) (simp_all add: same)
  moreover have "runners_ok w'"
  proof -
    have rs: "map rne_runner ?h' = map rne_runner ?h" by (rule nth_equalityI) (use fields(4) len in simp_all)
    note R = registry_okD(6) [OF ok, unfolded runners_ok_def Let_def]
    have in_rs: "rne_runner (?h ! a) \<in> set (map rne_runner ?h)" using al by simp
    have inj: "rne_runner (?h ! b) = rne_runner (?h ! a) \<longleftrightarrow> b = a" if "b < length ?h" for b
      using that al R nth_eq_iff_index_eq [of "map rne_runner ?h" b a] by simp
    show ?thesis
    proof (cases "rne_closed (?h ! a)")
      case True
      then show ?thesis using R fields(5) unfolding runners_ok_def Let_def rs l st by (auto simp: len)
    next
      case False
      then have nin: "rne_runner (?h ! a) \<notin> set (rgw_stopped w)" using R al by simp
      have nloose: "rne_runner (?h ! a) \<notin> set (rgw_loose w)" using R in_rs by blast
      have st': "rgw_stopped w' = rne_runner (?h ! a) # rgw_stopped w" using False by (simp add: st)
      have "map rne_runner ?h ! b \<in> set (rgw_stopped w') \<longleftrightarrow> rne_closed (?h' ! b)" if "b < length ?h" for b
        using R that inj [OF that] fields(5) [OF that] by (auto simp: st')
      then show ?thesis using R nin nloose in_rs unfolding runners_ok_def Let_def rs l st' by (simp add: insert_absorb)
    qed
  qed
  ultimately show ?thesis by (simp add: registry_ok_def)
qed

lemma closing_dead:
  assumes "registry_ok w" and "a \<in> closing w"
  shows "a < length (rrg_heap (rgw_registry w))" "rne_invalidated (rrg_heap (rgw_registry w) ! a)" "rne_refs (rrg_heap (rgw_registry w) ! a) = 0"
  using closing_okD(1,3) [OF registry_okD(3) [OF assms(1)] refl, of a] assms(2) by auto

lemma close_entry_ok:
  assumes ok: "registry_ok w" and t: "rgw_todo w = as @ a # bs"
  shows "registry_ok (close_call failed a (w\<lparr>rgw_todo := as @ bs\<rparr>))"
proof -
  have a: "a \<in> closing w" by (simp add: closing_def t)
  show ?thesis
    by (rule closed_ok [OF ok closing_dead [OF ok a]]) (auto simp: close_call_def closing_def Let_def t)
qed

lemma awaited_ok:
  assumes ok: "registry_ok w" and t: "rgw_await w = as @ a # bs" and z: "rne_zero (rrg_heap (rgw_registry w) ! a)"
  shows "registry_ok (close_call failed a (w\<lparr>rgw_await := as @ bs\<rparr>))"
proof -
  note C = closing_okD [OF registry_okD(3) [OF ok] refl]
  have al: "a < length (rrg_heap (rgw_registry w))" by (rule C(2)) (simp add: t)
  have "rne_invalidated (rrg_heap (rgw_registry w) ! a) \<and> rne_refs (rrg_heap (rgw_registry w) ! a) = 0" using C(3) [OF al] z by blast
  then show ?thesis by (elim conjE) (rule closed_ok [OF ok al]; auto simp: close_call_def closing_def Let_def t)
qed

lemma close_batch_ok:
  assumes ok: "registry_ok w" and t: "rgw_batches w = xs @ (a # as) # ys" and w': "w' = close_call failed a (w\<lparr>rgw_batches := xs @ ys\<rparr>)"
  shows "registry_ok (if rne_closeErr (rrg_heap (rgw_registry w') ! a) then w'\<lparr>rgw_lost := as @ rgw_lost w'\<rparr>
                     else w'\<lparr>rgw_batches := xs @ as # ys\<rparr>)"
proof -
  have a: "a \<in> closing w" by (simp add: closing_def t)
  note step = closed_ok [OF ok closing_dead [OF ok a]]
  show ?thesis
  proof (cases "rne_closeErr (rrg_heap (rgw_registry w') ! a)")
    case True
    have "registry_ok (w'\<lparr>rgw_lost := as @ rgw_lost w'\<rparr>)" by (rule step) (use True in \<open>auto simp: w' close_call_def closing_def Let_def t\<close>)
    with True show ?thesis by simp
  next
    case False
    have "registry_ok (w'\<lparr>rgw_batches := xs @ as # ys\<rparr>)" by (rule step) (auto simp: w' close_call_def closing_def Let_def t)
    with False show ?thesis by simp
  qed
qed

lemma close_loose_ok:
  assumes ok: "registry_ok w" and t: "rgw_loose w = rs @ r # ts"
  shows "registry_ok (w\<lparr>rgw_loose := rs @ ts, rgw_stopped := r # rgw_stopped w\<rparr>)" (is "registry_ok ?w")
proof -
  have "refs_ok ?w" "entries_ok ?w" "closing_ok ?w" by (intro heap_frame [OF ok]; simp add: closing_def)+
  moreover have "builds_ok ?w" by (rule builds_frame [OF registry_okD(4) [OF ok]]) simp_all
  moreover have "slots_ok ?w" by (rule slots_frame [OF registry_okD(5) [OF ok]]) simp_all
  moreover have "runners_ok ?w"
  proof -
    note R = registry_okD(6) [OF ok, unfolded runners_ok_def Let_def t]
    have "r \<notin> set (map rne_runner (rrg_heap (rgw_registry w)))" using R by auto
    then have "map rne_runner (rrg_heap (rgw_registry w)) ! b \<noteq> r" if "b < length (rrg_heap (rgw_registry w))" for b
      using that by (metis length_map nth_mem)
    with R show ?thesis unfolding runners_ok_def Let_def by auto
  qed
  ultimately show ?thesis by (simp add: registry_ok_def)
qed

lemma timed_out_ok:
  assumes ok: "registry_ok w"
  shows "registry_ok (w\<lparr>rgw_await := []\<rparr>)" (is "registry_ok ?w")
proof -
  have "refs_ok ?w" "entries_ok ?w" "closing_ok ?w" by (intro heap_frame [OF ok]; simp add: closing_def)+
  moreover have "builds_ok ?w" by (rule builds_frame [OF registry_okD(4) [OF ok]]) simp_all
  moreover have "slots_ok ?w" by (rule slots_frame [OF registry_okD(5) [OF ok]]) simp_all
  moreover have "runners_ok ?w" using registry_okD(6) [OF ok] by (simp add: runners_ok_def)
  ultimately show ?thesis by (simp add: registry_ok_def)
qed

subsection \<open>Every step\<close>

theorem registry_step_ok: "registry_step w w' \<Longrightarrow> registry_ok w \<Longrightarrow> registry_ok w'"
proof (induction rule: registry_step.cases)
  case (acquire order k now w outcome gone g)
  then show ?case using acquire_ok [of w order k now outcome gone g] by simp
next
  case (finish k b w made failed cancelled now outcome loose g)
  then show ?case using finish_ok [of w k b made failed cancelled now outcome loose g] by simp
next
  case (invalidate predicate w gone g)
  then show ?case using invalidate_ok [of w predicate gone g] by simp
next
  case (invalidate_key k w gone g)
  then show ?case using invalidate_key_ok [of w k gone g] by simp
next
  case (release i w a now shouldClose g)
  then show ?case using lease_release_ok [of w i a now shouldClose g] by simp
next
  case (shut w wait gone g)
  then show ?case using shut_ok [of w wait gone g] by simp
next
  case (close_entry w as a bs failed)
  then show ?case using close_entry_ok [of w as a bs failed] by simp
next
  case (close_batch w xs a as ys w' failed)
  then show ?case using close_batch_ok [of w xs a as ys w' failed] by simp
next
  case (close_loose w rs r ts)
  then show ?case using close_loose_ok [of w rs r ts] by simp
next
  case (awaited w as a bs failed)
  then show ?case using awaited_ok [of w as a bs failed] by simp
next
  case (timed_out w)
  then show ?case using timed_out_ok by simp
qed

lemma registry_steps_ok: "registry_step\<^sup>*\<^sup>* w w' \<Longrightarrow> registry_ok w \<Longrightarrow> registry_ok w'"
  by (induction rule: rtranclp_induct) (blast intro: registry_step_ok)+

lemma registry_reachable_ok:
  assumes "NewRunnerRegistry factory config = Inr g" and "registry_step\<^sup>*\<^sup>* (registry_start g) w"
  shows "registry_ok w"
  by (rule registry_steps_ok [OF assms(2) registry_start_ok [OF assms(1)]])

end
