(* ===== verification/Registry_Props.thy ===== *)
theory Registry_Props
  imports Registry_Invariant
begin

text \<open>
  What the registry of runners guarantees to its callers, whatever they do and however their
  sections interleave: a leased runner is never closed and no runner is closed twice, slots and
  constructions are bounded, an invalidation is final for what existed before it, and after
  \<^verbatim>\<open>Close\<close> the remaining work ends with every runner closed, unless closing one failed.
\<close>

declare map_of_eq_Some_iff [simp del] split_paired_All [simp del] split_paired_Ex [simp del]

subsection \<open>Schedules\<close>

text \<open>The steps as functions of the world, for runs on concrete callers.\<close>

definition after_acquire :: "plan_key \<Rightarrow> instant \<Rightarrow> registry_world \<Rightarrow> registry_world" where
  "after_acquire k now w =
     (case acquireOnce id k now (rgw_registry w) of
        (outcome, gone, g) \<Rightarrow> w\<lparr>rgw_registry := g, rgw_todo := gone @ rgw_todo w,
          rgw_leases := (case outcome of AcquireLease a \<Rightarrow> (a, False) # rgw_leases w | _ \<Rightarrow> rgw_leases w),
          rgw_building := (case outcome of AcquireBuild b \<Rightarrow> (k, b) # rgw_building w | _ \<Rightarrow> rgw_building w)\<rparr>)"

definition after_finish :: "runner option \<Rightarrow> instant \<Rightarrow> registry_world \<Rightarrow> registry_world" where
  "after_finish made now w =
     (case rgw_building w of
        [] \<Rightarrow> w
      | (k, b) # rest \<Rightarrow>
          if set_option made \<inter> set (rgw_made w) = {} then
            (case finishRunnerBuild k b made None None now (rgw_registry w) of
               (outcome, loose, g) \<Rightarrow> w\<lparr>rgw_registry := g, rgw_building := removeAll (k, b) (rgw_building w),
                 rgw_leases := (case outcome of FinishLease a \<Rightarrow> (a, False) # rgw_leases w | _ \<Rightarrow> rgw_leases w),
                 rgw_loose := (case loose of None \<Rightarrow> rgw_loose w | Some r \<Rightarrow> r # rgw_loose w),
                 rgw_made := (case made of None \<Rightarrow> rgw_made w | Some r \<Rightarrow> r # rgw_made w)\<rparr>)
          else w)"

definition after_release :: "nat \<Rightarrow> instant \<Rightarrow> registry_world \<Rightarrow> registry_world" where
  "after_release i now w =
     (if i < length (rgw_leases w) \<and> \<not> snd (rgw_leases w ! i) then
        (let a = fst (rgw_leases w ! i) in
         case lease_release a now (rgw_registry w) of
           (shouldClose, g) \<Rightarrow> w\<lparr>rgw_registry := g, rgw_leases := (rgw_leases w)[i := (a, True)],
             rgw_todo := (if shouldClose then a # rgw_todo w else rgw_todo w)\<rparr>)
      else w)"

definition after_invalidate :: "(plan_key \<Rightarrow> bool) \<Rightarrow> registry_world \<Rightarrow> registry_world" where
  "after_invalidate predicate w =
     (case registry_InvalidateMatching predicate (rgw_registry w) of
        (Inl e, g) \<Rightarrow> w
      | (Inr gone, g) \<Rightarrow> w\<lparr>rgw_registry := g, rgw_batches := gone # rgw_batches w\<rparr>)"

definition after_shut :: "registry_world \<Rightarrow> registry_world" where
  "after_shut w =
     (case registry_Close (rgw_registry w) of
        (wait, gone, g) \<Rightarrow> w\<lparr>rgw_registry := g, rgw_todo := gone @ rgw_todo w, rgw_await := wait @ rgw_await w\<rparr>)"

definition after_close :: "registry_world \<Rightarrow> registry_world" where
  "after_close w = (case rgw_todo w of [] \<Rightarrow> w | a # as \<Rightarrow> close_call False a (w\<lparr>rgw_todo := as\<rparr>))"

definition after_batch :: "bool \<Rightarrow> registry_world \<Rightarrow> registry_world" where
  "after_batch failed w =
     (case rgw_batches w of
        (a # as) # ys \<Rightarrow>
          (let w' = close_call failed a (w\<lparr>rgw_batches := ys\<rparr>)
           in if rne_closeErr (rrg_heap (rgw_registry w') ! a) then w'\<lparr>rgw_lost := as @ rgw_lost w'\<rparr>
              else w'\<lparr>rgw_batches := as # ys\<rparr>)
      | _ \<Rightarrow> w)"

lemma after_steps:
  "registry_step\<^sup>*\<^sup>* v w \<Longrightarrow> registry_step\<^sup>*\<^sup>* v (after_acquire k now w)"
  "registry_step\<^sup>*\<^sup>* v w \<Longrightarrow> registry_step\<^sup>*\<^sup>* v (after_finish made now w)"
  "registry_step\<^sup>*\<^sup>* v w \<Longrightarrow> registry_step\<^sup>*\<^sup>* v (after_release i now w)"
  "registry_step\<^sup>*\<^sup>* v w \<Longrightarrow> registry_step\<^sup>*\<^sup>* v (after_invalidate predicate w)"
  "registry_step\<^sup>*\<^sup>* v w \<Longrightarrow> registry_step\<^sup>*\<^sup>* v (after_shut w)"
  "registry_step\<^sup>*\<^sup>* v w \<Longrightarrow> registry_step\<^sup>*\<^sup>* v (after_close w)"
  "registry_step\<^sup>*\<^sup>* v w \<Longrightarrow> registry_step\<^sup>*\<^sup>* v (after_batch failed w)"
proof -
  assume v: "registry_step\<^sup>*\<^sup>* v w"
  note more = rtranclp.rtrancl_into_rtrancl [OF v]
  obtain outcome gone g where a: "acquireOnce id k now (rgw_registry w) = (outcome, gone, g)" by (cases "acquireOnce id k now (rgw_registry w)") auto
  show "registry_step\<^sup>*\<^sup>* v (after_acquire k now w)" unfolding after_acquire_def a split by (rule more [OF registry_step.acquire [OF a]]) simp
  show "registry_step\<^sup>*\<^sup>* v (after_finish made now w)"
  proof (cases "rgw_building w")
    case (Cons x rest)
    obtain k b where x: "x = (k, b)" by fastforce
    obtain outcome loose g where f: "finishRunnerBuild k b made None None now (rgw_registry w) = (outcome, loose, g)"
      by (cases "finishRunnerBuild k b made None None now (rgw_registry w)") auto
    have kb: "(k, b) \<in> set (rgw_building w)" using Cons x by simp
    show ?thesis
    proof (cases "set_option made \<inter> set (rgw_made w) = {}")
      case True
      show ?thesis using more [OF registry_step.finish [OF kb True f]] Cons x True f by (simp add: after_finish_def)
    qed (use v Cons x in \<open>simp add: after_finish_def\<close>)
  qed (use v in \<open>simp add: after_finish_def\<close>)
  show "registry_step\<^sup>*\<^sup>* v (after_release i now w)"
  proof (cases "i < length (rgw_leases w) \<and> \<not> snd (rgw_leases w ! i)")
    case True
    then have l: "i < length (rgw_leases w)" "rgw_leases w ! i = (fst (rgw_leases w ! i), False)" by (auto simp: prod_eq_iff)
    obtain c g where r: "lease_release (fst (rgw_leases w ! i)) now (rgw_registry w) = (c, g)" by fastforce
    show ?thesis using more [OF registry_step.release [OF l r]] True r by (simp add: after_release_def Let_def)
  next
    case False
    then have "after_release i now w = w" unfolding after_release_def by (rule if_not_P)
    with v show ?thesis by simp
  qed
  show "registry_step\<^sup>*\<^sup>* v (after_invalidate predicate w)"
  proof (cases "registry_InvalidateMatching predicate (rgw_registry w)")
    case (Pair r g)
    show ?thesis
    proof (cases r)
      case (Inr gone)
      show ?thesis using more [OF registry_step.invalidate [OF Pair [unfolded Inr]]] Pair Inr by (simp add: after_invalidate_def)
    qed (use v Pair in \<open>simp add: after_invalidate_def\<close>)
  qed
  obtain wait gone' g' where s: "registry_Close (rgw_registry w) = (wait, gone', g')" by (cases "registry_Close (rgw_registry w)") auto
  show "registry_step\<^sup>*\<^sup>* v (after_shut w)" unfolding after_shut_def s split by (rule more [OF registry_step.shut [OF s]])
  show "registry_step\<^sup>*\<^sup>* v (after_close w)"
  proof (cases "rgw_todo w")
    case (Cons a as)
    then show ?thesis using more [OF registry_step.close_entry [of w "[]" a as False]] by (simp add: after_close_def)
  qed (use v in \<open>simp add: after_close_def\<close>)
  show "registry_step\<^sup>*\<^sup>* v (after_batch failed w)"
  proof (cases "rgw_batches w")
    case (Cons b ys)
    show ?thesis
    proof (cases b)
      case (Cons a as)
      then show ?thesis using more [OF registry_step.close_batch [of w "[]" a as ys _ failed, OF _ refl]] \<open>rgw_batches w = b # ys\<close>
        by (simp add: after_batch_def Let_def split: if_splits)
    qed (use v Cons in \<open>simp add: after_batch_def\<close>)
  qed (use v in \<open>simp add: after_batch_def\<close>)
qed

definition demo_config :: registry_config where
  "demo_config = \<lparr>rgc_MaxEntries = 2, rgc_IdleTTL = 0, rgc_CloseTimeout = 0\<rparr>"

definition demo_registry :: runner_registry where
  "demo_registry = \<lparr>rrg_maxEntries = 2, rrg_idleTTL = defaultRunnerRegistryIdleTTL, rrg_closeTimeout = defaultRunnerRegistryCloseWait,
     rrg_entries = [], rrg_pending = [], rrg_closed = False, rrg_closeStarted = False, rrg_heap = [], rrg_builds = []\<rparr>"

definition demo_plan :: "string \<Rightarrow> int \<Rightarrow> plan_key" where
  "demo_plan tenant revision =
     \<lparr>pk_TenantID = tenant, pk_TenantVersion = 1, pk_AppID = ''app'', pk_AppVersion = 1, pk_Revision = revision,
      pk_AgentContentDigest = ''a'', pk_ModelProfileID = ''m'', pk_ModelProfileVersion = 1, pk_ModelContentDigest = ''m'',
      pk_BackendProfileID = ''b'', pk_BackendProfileVersion = 1, pk_BackendContentDigest = ''b''\<rparr>"

lemma demo_registry_new: "NewRunnerRegistry True demo_config = Inr demo_registry"
  by (simp add: NewRunnerRegistry_def demo_config_def demo_registry_def defaultRunnerRegistryIdleTTL_def
      defaultRunnerRegistryCloseWait_def Let_def)

text \<open>One runner, leased twice.\<close>

definition demo_leased :: registry_world where
  "demo_leased = after_acquire (demo_plan ''t'' 1) 2 (after_finish (Some 7) 1 (after_acquire (demo_plan ''t'' 1) 0 (registry_start demo_registry)))"

lemma demo_leased_reachable: "registry_step\<^sup>*\<^sup>* (registry_start demo_registry) demo_leased"
  unfolding demo_leased_def by (intro after_steps rtranclp.rtrancl_refl)

subsection \<open>Leases\<close>

text \<open>
  C33: However acquisitions, constructions, evictions, invalidations, releases and the close of
  the registry interleave, the runner of a lease that was not released is one that the factory
  made and whose \<^verbatim>\<open>Close\<close> was not called; the reference count of an entry is the number of its
  open leases; and no runner is closed twice.
\<close>

theorem registry_lease_usable:
  assumes "NewRunnerRegistry factory config = Inr g" and "registry_step\<^sup>*\<^sup>* (registry_start g) w"
  shows "(\<forall>a. (a, False) \<in> set (rgw_leases w) \<longrightarrow>
            a < length (rrg_heap (rgw_registry w))
            \<and> rne_runner (rrg_heap (rgw_registry w) ! a) \<in> set (rgw_made w)
            \<and> rne_runner (rrg_heap (rgw_registry w) ! a) \<notin> set (rgw_stopped w))
       \<and> (\<forall>a < length (rrg_heap (rgw_registry w)).
            rne_refs (rrg_heap (rgw_registry w) ! a) = int (length (filter (\<lambda>l. l = (a, False)) (rgw_leases w))))
       \<and> distinct (rgw_stopped w)"
proof -
  have ok: "registry_ok w" by (rule registry_reachable_ok [OF assms])
  note R = registry_okD(6) [OF ok, unfolded runners_ok_def Let_def]
  have "a < length (rrg_heap (rgw_registry w)) \<and> rne_runner (rrg_heap (rgw_registry w) ! a) \<in> set (rgw_made w)
      \<and> rne_runner (rrg_heap (rgw_registry w) ! a) \<notin> set (rgw_stopped w)" if "(a, False) \<in> set (rgw_leases w)" for a
  proof -
    have al: "a < length (rrg_heap (rgw_registry w))" and "0 < borrowed a w"
      using refs_okD(2) [OF registry_okD(1) [OF ok] that] by auto
    with refs_okD(1) [OF registry_okD(1) [OF ok] al] closing_okD(3) [OF registry_okD(3) [OF ok] refl al]
    have "\<not> rne_closed (rrg_heap (rgw_registry w) ! a)" by auto
    with R al show ?thesis by auto
  qed
  then show ?thesis using refs_okD(1) [OF registry_okD(1) [OF ok]] R by (simp add: borrowed_def)
qed

theorem registry_lease_usable_witness:
  "rgw_leases demo_leased = [(0, False), (0, False)] \<and> rne_refs (rrg_heap (rgw_registry demo_leased) ! 0) = 2
   \<and> rgw_made demo_leased = [7] \<and> 7 \<notin> set (rgw_stopped demo_leased)"
proof -
  have "rgw_leases demo_leased = [(0, False), (0, False)]" "map rne_runner (rrg_heap (rgw_registry demo_leased)) = [7]"
    "rgw_made demo_leased = [7]" by code_simp+
  with registry_lease_usable [OF demo_registry_new demo_leased_reachable] show ?thesis by auto
qed

subsection \<open>Capacity\<close>

text \<open>
  C36: Cached runners and constructions in progress together never exceed the configured number of
  entries, one key has at most one construction in progress, and none while it is cached.
\<close>

theorem registry_capacity:
  assumes "NewRunnerRegistry factory config = Inr g" and "registry_step\<^sup>*\<^sup>* (registry_start g) w"
  shows "length (rrg_entries (rgw_registry w)) + length (rgw_building w) \<le> nat (rrg_maxEntries (rgw_registry w))
       \<and> distinct (map fst (rgw_building w)) \<and> distinct (map fst (rrg_entries (rgw_registry w)))
       \<and> fst ` set (rgw_building w) \<inter> fst ` set (rrg_entries (rgw_registry w)) = {}"
proof -
  have ok: "registry_ok w" by (rule registry_reachable_ok [OF assms])
  note B = builds_okD [OF registry_okD(4) [OF ok] refl] and E = entries_okD [OF registry_okD(2) [OF ok] refl]
  have "inj_on fst (set (rgw_building w))"
  proof (rule inj_onI)
    fix x y
    assume "x \<in> set (rgw_building w)" "y \<in> set (rgw_building w)" "fst x = fst y"
    then show "x = y" using B(2) by (metis option.inject prod.collapse)
  qed
  then have d: "distinct (map fst (rgw_building w))" using B(3) by (simp add: distinct_map)
  have "set (rgw_building w) = set (rrg_pending (rgw_registry w))"
  proof (rule set_eqI)
    fix x
    show "x \<in> set (rgw_building w) \<longleftrightarrow> x \<in> set (rrg_pending (rgw_registry w))"
      using B(2) [of "fst x" "snd x"] B(1) by (simp add: well_keyed_get_iff)
  qed
  moreover have "distinct (rrg_pending (rgw_registry w))" using B(1) by (simp add: distinct_map)
  ultimately have "length (rgw_building w) = length (rrg_pending (rgw_registry w))" using B(3) by (metis distinct_card)
  with registry_okD(5) [OF ok] have n: "length (rrg_entries (rgw_registry w)) + length (rgw_building w) \<le> nat (rrg_maxEntries (rgw_registry w))"
    by (simp add: slots_ok_def slotCountLocked_def)
  have "k \<notin> fst ` set (rrg_entries (rgw_registry w))" if "(k, b) \<in> set (rgw_building w)" for k b
    using B(6) [OF that] by (simp add: map_of_eq_None_iff)
  then have "fst ` set (rgw_building w) \<inter> fst ` set (rrg_entries (rgw_registry w)) = {}" by force
  with d n E(1) show ?thesis by simp
qed

text \<open>A second plan takes the last slot; a third is refused while the first runner is leased.\<close>

definition demo_full :: registry_world where
  "demo_full = after_acquire (demo_plan ''t'' 3) 4 (after_acquire (demo_plan ''t'' 2) 3 demo_leased)"

lemma demo_full_reachable: "registry_step\<^sup>*\<^sup>* (registry_start demo_registry) demo_full"
  unfolding demo_full_def by (intro after_steps demo_leased_reachable)

theorem registry_capacity_witness:
  "rrg_entries (rgw_registry demo_full) = [(demo_plan ''t'' 1, 0)] \<and> rgw_building demo_full = [(demo_plan ''t'' 2, 1)]
   \<and> length (rrg_entries (rgw_registry demo_full)) + length (rgw_building demo_full) \<le> nat (rrg_maxEntries (rgw_registry demo_full))"
proof -
  have "rrg_entries (rgw_registry demo_full) = [(demo_plan ''t'' 1, 0)]" "rgw_building demo_full = [(demo_plan ''t'' 2, 1)]"
    by code_simp+
  with registry_capacity [OF demo_registry_new demo_full_reachable] show ?thesis by simp
qed

subsection \<open>Invalidation\<close>

text \<open>
  What an invalidation of the keys with a property leaves for good: the entries of such a key
  that exist later are newer than the invalidation, and the constructions that it met are marked.
\<close>

definition renewed :: "(plan_key \<Rightarrow> bool) \<Rightarrow> nat \<Rightarrow> nat \<Rightarrow> registry_world \<Rightarrow> bool" where
  "renewed p n m w \<longleftrightarrow>
     (let g = rgw_registry w in
      n \<le> length (rrg_heap g) \<and> m \<le> length (rrg_builds g)
      \<and> (\<forall>k a. p k \<and> get (rrg_entries g) k = Some a \<longrightarrow> n \<le> a)
      \<and> (\<forall>k b. p k \<and> get (rrg_pending g) k = Some b \<and> b < m \<longrightarrow> rnb_invalidated (rrg_builds g ! b)))"

lemma renewed_frame:
  assumes r: "renewed p n m w" and "length (rrg_heap (rgw_registry w)) \<le> length (rrg_heap (rgw_registry w'))"
    and "length (rrg_builds (rgw_registry w)) \<le> length (rrg_builds (rgw_registry w'))"
    and e: "\<And>k a. get (rrg_entries (rgw_registry w')) k = Some a \<Longrightarrow>
      get (rrg_entries (rgw_registry w)) k = Some a \<or> length (rrg_heap (rgw_registry w)) \<le> a"
    and b: "\<And>k b. get (rrg_pending (rgw_registry w')) k = Some b \<Longrightarrow>
      get (rrg_pending (rgw_registry w)) k = Some b \<or> length (rrg_builds (rgw_registry w)) \<le> b"
    and i: "\<And>b. b < length (rrg_builds (rgw_registry w)) \<Longrightarrow> rnb_invalidated (rrg_builds (rgw_registry w) ! b) \<Longrightarrow>
      rnb_invalidated (rrg_builds (rgw_registry w') ! b)"
  shows "renewed p n m w'"
  unfolding renewed_def Let_def
proof (intro conjI allI impI)
  note R = r [unfolded renewed_def Let_def]
  show "n \<le> length (rrg_heap (rgw_registry w'))" "m \<le> length (rrg_builds (rgw_registry w'))" using R assms(2,3) by linarith+
  show "n \<le> a" if "p k \<and> get (rrg_entries (rgw_registry w')) k = Some a" for k a
    using e [of k a] that R by fastforce
  show "rnb_invalidated (rrg_builds (rgw_registry w') ! b)" if "p k \<and> get (rrg_pending (rgw_registry w')) k = Some b \<and> b < m" for k b
  proof -
    have "get (rrg_pending (rgw_registry w)) k = Some b" "b < length (rrg_builds (rgw_registry w))"
      using b [of k b] that R by auto
    with R that show ?thesis by (intro i) auto
  qed
qed

lemma begin_build_renewed:
  assumes "begin_build order k now g = (outcome, gone, g')" and "\<And>m. set (order m) = set m"
    and "well_keyed (rrg_entries g)" and "\<forall>x \<in> set (rrg_entries g). snd x < length (rrg_heap g)"
  shows "length (rrg_heap g') = length (rrg_heap g)" "length (rrg_builds g) \<le> length (rrg_builds g')"
    "get (rrg_entries g') k' = Some a \<Longrightarrow> get (rrg_entries g) k' = Some a"
    "get (rrg_pending g') k' = Some b \<Longrightarrow> get (rrg_pending g) k' = Some b \<or> length (rrg_builds g) \<le> b"
    "b < length (rrg_builds g) \<Longrightarrow> rrg_builds g' ! b = rrg_builds g ! b"
  using assms
  by (cases rule: begin_build_cases [OF assms, case_names full building];
      auto simp: forget_entries(1) nth_append split: if_splits)+

lemma acquire_renewed:
  assumes ok: "registry_ok w" and a: "acquireOnce order k now (rgw_registry w) = (outcome, gone, g)"
    and order: "\<And>m. set (order m) = set m" and g: "rgw_registry w' = g" and r: "renewed p n m w"
  shows "renewed p n m w'"
proof -
  let ?g = "rgw_registry w"
  note E = entries_okD [OF registry_okD(2) [OF ok] refl]
  have addr: "\<forall>x \<in> set (rrg_entries ?g). snd x < length (rrg_heap ?g)"
    using E(1,2) by (metis prod.collapse well_keyed_get_iff)
  consider "g = ?g" | b where "g = retainLocked b now ?g" | "begin_build order k now ?g = (outcome, gone, g)"
    using a by (auto simp: acquireOnce_def split: if_splits option.splits)
  then show ?thesis
  proof cases
    case 3
    note N = begin_build_renewed [OF 3 order E(1) addr]
    show ?thesis by (rule renewed_frame [OF r]) (use N in \<open>auto simp: g\<close>)
  qed (rule renewed_frame [OF r]; simp add: g retainLocked_def)+
qed

lemma renewed_close: "renewed p n m w \<Longrightarrow> rgw_registry w' = entry_close failed a (rgw_registry w) \<Longrightarrow> renewed p n m w'"
  by (rule renewed_frame [of p n m w]) (simp_all add: entry_close_def split: if_splits)

lemma renewed_step: "registry_step w w' \<Longrightarrow> registry_ok w \<Longrightarrow> renewed p n m w \<Longrightarrow> renewed p n m w'"
proof (induction rule: registry_step.cases)
  case (acquire order k now w outcome gone g)
  then show ?case using acquire_renewed [of w order k now outcome gone g] by simp
next
  case (finish k b w made failed cancelled now outcome loose g)
  show ?case
    unfolding finish(2)
    by (rule renewed_frame [OF finish(7) [unfolded finish(1)]])
      (use finish(5) in \<open>auto simp: finishRunnerBuild_def set_build_nth Let_def split: option.splits if_splits\<close>)
next
  case (invalidate predicate w gone g)
  show ?case
    unfolding invalidate(2)
    by (rule renewed_frame [OF invalidate(5) [unfolded invalidate(1)]])
      (use invalidate(3) in \<open>auto simp: registry_InvalidateMatching_def forget_entries(1) drop_builds_nth Let_def split: if_splits\<close>)
next
  case (invalidate_key k w gone g)
  show ?case
    unfolding invalidate_key(2)
    by (rule renewed_frame [OF invalidate_key(5) [unfolded invalidate_key(1)]])
      (use invalidate_key(3) in \<open>auto simp: registry_Invalidate_def forget_def set_build_nth Let_def split: option.splits if_splits\<close>)
next
  case (release i w a now shouldClose g)
  show ?case
    unfolding release(2)
    by (rule renewed_frame [OF release(7) [unfolded release(1)]])
      (use release(5) in \<open>auto simp: lease_release_def Let_def split: if_splits\<close>)
next
  case (shut w wait gone g)
  show ?case
    unfolding shut(2)
    by (rule renewed_frame [OF shut(5) [unfolded shut(1)]])
      (use shut(3) in \<open>auto simp: registry_Close_def forget_entries(1) drop_builds_nth Let_def split: if_splits\<close>)
next
  case (close_entry w as a bs failed)
  then show ?case using renewed_close [of p n m w _ failed a] by (simp add: close_call_def)
next
  case (close_batch w xs a as ys w' failed)
  then show ?case using renewed_close [of p n m w _ failed a] by (simp add: close_call_def)
next
  case (awaited w as a bs failed)
  then show ?case using renewed_close [of p n m w _ failed a] by (simp add: close_call_def)
qed (simp_all add: renewed_def)

lemma renewed_steps: "registry_step\<^sup>*\<^sup>* w w' \<Longrightarrow> registry_ok w \<Longrightarrow> renewed p n m w \<Longrightarrow> renewed p n m w'"
proof (induction rule: rtranclp_induct)
  case (step v v')
  then show ?case using renewed_step registry_steps_ok by blast
qed

text \<open>
  C34: After \<^verbatim>\<open>InvalidateMatching\<close> has marked what it met, no matching key is served by anything
  older, whatever happens next: an entry that is cached under such a key later was created after the
  invalidation, and a construction that was in progress at the invalidation never ends in a lease.
\<close>

theorem registry_invalidated_renewed:
  assumes "NewRunnerRegistry factory config = Inr g" and "registry_step\<^sup>*\<^sup>* (registry_start g) w"
    and "registry_InvalidateMatching predicate (rgw_registry w) = (Inr gone, g')"
    and "registry_step\<^sup>*\<^sup>* (w\<lparr>rgw_registry := g', rgw_batches := gone # rgw_batches w\<rparr>) w'" and "predicate k"
  shows "(case cached k (rgw_registry w') of None \<Rightarrow> True | Some a \<Rightarrow> length (rrg_heap (rgw_registry w)) \<le> a)
       \<and> (\<forall>b made failed cancelled now. (k, b) \<in> set (rgw_building w') \<and> b < length (rrg_builds (rgw_registry w)) \<longrightarrow>
            (case finishRunnerBuild k b made failed cancelled now (rgw_registry w') of
               (FinishLease a, _) \<Rightarrow> False | _ \<Rightarrow> True))"
proof -
  let ?g = "rgw_registry w" and ?w = "w\<lparr>rgw_registry := g', rgw_batches := gone # rgw_batches w\<rparr>"
  have ok: "registry_ok w" by (rule registry_reachable_ok [OF assms(1,2)])
  note B = builds_okD [OF registry_okD(4) [OF ok] refl]
  have ok': "registry_ok w'" by (rule registry_steps_ok [OF assms(4) invalidate_ok [OF ok assms(3)]])
  let ?bs = "filter (\<lambda>x. predicate (fst x)) (rrg_pending ?g)" and ?xs = "filter (\<lambda>x. predicate (fst x)) (rrg_entries ?g)"
  have g': "g' = fold forget ?xs (drop_builds ?bs ?g)"
    using assms(3) by (simp add: registry_InvalidateMatching_def Let_def split: if_splits)
  have "renewed predicate (length (rrg_heap ?g)) (length (rrg_builds ?g)) ?w"
    unfolding renewed_def Let_def
  proof (intro conjI allI impI)
    fix k a
    assume k: "predicate k \<and> get (rrg_entries (rgw_registry ?w)) k = Some a"
    then have "get (rrg_entries ?g) k = Some a" "k \<notin> fst ` set ?xs" by (simp_all add: g' forget_entries(1) split: if_splits)
    moreover from this(1) have "(k, a) \<in> set (rrg_entries ?g)" by (rule map_of_SomeD)
    ultimately show "length (rrg_heap ?g) \<le> a" using k by force
  next
    fix k b
    assume k: "predicate k \<and> get (rrg_pending (rgw_registry ?w)) k = Some b \<and> b < length (rrg_builds ?g)"
    then have "(k, b) \<in> set ?bs" by (auto simp: g' dest: map_of_SomeD)
    with k show "rnb_invalidated (rrg_builds (rgw_registry ?w) ! b)" by (force simp: g' drop_builds_nth)
  qed (simp_all add: g')
  from renewed_steps [OF assms(4) invalidate_ok [OF ok assms(3)] this]
  have R: "renewed predicate (length (rrg_heap ?g)) (length (rrg_builds ?g)) w'" .
  have "rnb_invalidated (rrg_builds (rgw_registry w') ! b)" if "(k, b) \<in> set (rgw_building w')" "b < length (rrg_builds ?g)" for b
    using R that assms(5) builds_okD(2) [OF registry_okD(4) [OF ok'] refl, of k b] unfolding renewed_def Let_def by blast
  moreover have "length (rrg_heap ?g) \<le> a" if "cached k (rgw_registry w') = Some a" for a
    using R that assms(5) unfolding renewed_def Let_def by (auto simp: cached_def split: option.splits if_splits)
  ultimately show ?thesis by (auto simp: finishRunnerBuild_def Let_def split: option.splits if_splits)
qed

text \<open>
  The application of the tenant is invalidated while its first runner is leased and a second one is
  under construction; the construction ends in a retry and the next acquisition begins a new one.
\<close>

definition demo_stale :: registry_world where
  "demo_stale = after_acquire (demo_plan ''t'' 1) 6 (after_finish (Some 8) 5 (after_invalidate (\<lambda>k. pk_TenantID k = ''t'') demo_full))"

theorem registry_invalidated_renewed_witness:
  "cached (demo_plan ''t'' 1) (rgw_registry demo_full) = Some 0
   \<and> cached (demo_plan ''t'' 1) (rgw_registry (after_finish (Some 9) 7 demo_stale)) = Some 1
   \<and> length (rrg_heap (rgw_registry demo_full)) \<le> 1 \<and> rgw_loose demo_stale = [8]
   \<and> (\<not> (case finishRunnerBuild (demo_plan ''t'' 2) 1 (Some 8) None None 5
             (rgw_registry (after_invalidate (\<lambda>k. pk_TenantID k = ''t'') demo_full)) of (FinishLease a, _) \<Rightarrow> True | _ \<Rightarrow> False))"
proof -
  let ?p = "\<lambda>k. pk_TenantID k = ''t''"
  obtain gone g' where i: "registry_InvalidateMatching ?p (rgw_registry demo_full) = (Inr gone, g')"
  proof -
    have "(case registry_InvalidateMatching ?p (rgw_registry demo_full) of (Inr gone, g') \<Rightarrow> True | _ \<Rightarrow> False)" by code_simp
    then show thesis using that by (auto split: prod.splits sum.splits)
  qed
  have w: "after_invalidate ?p demo_full = demo_full\<lparr>rgw_registry := g', rgw_batches := gone # rgw_batches demo_full\<rparr>"
    by (simp add: after_invalidate_def i)
  have s: "registry_step\<^sup>*\<^sup>* (demo_full\<lparr>rgw_registry := g', rgw_batches := gone # rgw_batches demo_full\<rparr>) (after_finish (Some 9) 7 demo_stale)"
    unfolding demo_stale_def w by (intro after_steps rtranclp.rtrancl_refl)
  have c: "cached (demo_plan ''t'' 1) (rgw_registry demo_full) = Some 0"
    "cached (demo_plan ''t'' 1) (rgw_registry (after_finish (Some 9) 7 demo_stale)) = Some 1" "rgw_loose demo_stale = [8]"
    by code_simp+
  have b: "(demo_plan ''t'' 2, 1) \<in> set (rgw_building (after_invalidate ?p demo_full))" "1 < length (rrg_builds (rgw_registry demo_full))"
    by code_simp+
  have t: "pk_TenantID (demo_plan ''t'' n) = ''t''" for n by (simp add: demo_plan_def)
  have "\<not> (case finishRunnerBuild (demo_plan ''t'' 2) 1 (Some 8) None None 5 (rgw_registry (after_invalidate ?p demo_full)) of
      (FinishLease a, _) \<Rightarrow> True | _ \<Rightarrow> False)"
    using registry_invalidated_renewed [OF demo_registry_new demo_full_reachable i rtranclp.rtrancl_refl t [of 2], folded w] b
    by (fastforce split: prod.splits finish_outcome.splits)
  with registry_invalidated_renewed [OF demo_registry_new demo_full_reachable i s t [of 1]] c show ?thesis by simp
qed

subsection \<open>The end of the registry\<close>

definition registry_work :: "registry_world \<Rightarrow> nat" where
  "registry_work w = 2 * length (rgw_building w) + 2 * length (filter (\<lambda>l. \<not> snd l) (rgw_leases w)) + length (rgw_todo w)
     + sum_list (map length (rgw_batches w)) + length (rgw_loose w) + length (rgw_await w)"

lemma close_call_simps [simp]:
  "rgw_leases (close_call failed a w) = rgw_leases w" "rgw_building (close_call failed a w) = rgw_building w"
  "rgw_todo (close_call failed a w) = rgw_todo w" "rgw_batches (close_call failed a w) = rgw_batches w"
  "rgw_lost (close_call failed a w) = rgw_lost w" "rgw_loose (close_call failed a w) = rgw_loose w"
  "rgw_await (close_call failed a w) = rgw_await w" "rgw_made (close_call failed a w) = rgw_made w"
  "rrg_closed (rgw_registry (close_call failed a w)) = rrg_closed (rgw_registry w)"
  "rrg_closeStarted (rgw_registry (close_call failed a w)) = rrg_closeStarted (rgw_registry w)"
  by (simp_all add: close_call_def entry_close_def)

lemma acquire_closed_flags:
  assumes "acquireOnce order k now g = (outcome, gone, g')"
  shows "rrg_closed g' = rrg_closed g" "rrg_closeStarted g' = rrg_closeStarted g"
  using assms
  by (auto simp: acquireOnce_def begin_build_def evictIdleLocked_def evictCapacityLocked_def retainLocked_def forget_def Let_def
      split: if_splits option.splits prod.splits)

text \<open>\<^verbatim>\<open>closed\<close> is set with \<^verbatim>\<open>closeStarted\<close>, and neither is reset.\<close>

lemma registry_step_flags:
  "registry_step w w' \<Longrightarrow> rrg_closed (rgw_registry w) = rrg_closeStarted (rgw_registry w) \<Longrightarrow>
   rrg_closed (rgw_registry w') = rrg_closeStarted (rgw_registry w') \<and> (rrg_closed (rgw_registry w) \<longrightarrow> rrg_closed (rgw_registry w'))"
proof (induction rule: registry_step.cases)
  case (acquire order k now w outcome gone g)
  with acquire_closed_flags [OF acquire(3)] show ?case by simp
qed (auto simp: finishRunnerBuild_def registry_InvalidateMatching_def registry_Invalidate_def lease_release_def registry_Close_def
      forget_def Let_def split: if_splits option.splits)

lemma registry_reachable_flags:
  assumes "NewRunnerRegistry factory config = Inr g" and "registry_step\<^sup>*\<^sup>* (registry_start g) w"
  shows "rrg_closed (rgw_registry w) = rrg_closeStarted (rgw_registry w)"
  using assms(2)
proof (induction rule: rtranclp_induct)
  case base
  show ?case using assms(1) by (auto simp: NewRunnerRegistry_def registry_start_def Let_def split: if_splits)
next
  case (step v v')
  then show ?case using registry_step_flags by blast
qed

lemma registry_step_work:
  assumes "registry_step w w'" and "rrg_closed (rgw_registry w)" and "rrg_closeStarted (rgw_registry w)"
  shows "w' = w \<or> registry_work w' < registry_work w"
  using assms
proof (induction rule: registry_step.cases)
  case (acquire order k now w outcome gone g)
  then have "outcome = AcquireError GwErrClosed" "gone = []" "g = rgw_registry w" by (simp_all add: acquireOnce_def)
  then show ?case by (simp add: acquire(1,2))
next
  case (finish k b w made failed cancelled now outcome loose g)
  then have "\<And>a. outcome \<noteq> FinishLease a"
    by (auto simp: finishRunnerBuild_def Let_def split: option.splits)
  moreover have "length (removeAll (k, b) (rgw_building w)) < length (rgw_building w)"
    using finish(3) by (rule length_removeAll_less)
  ultimately show ?case by (cases loose) (auto simp: finish(1,2) registry_work_def split: finish_outcome.split)
next
  case (release i w a now shouldClose g)
  have "length (filter (\<lambda>l. \<not> snd l) ((rgw_leases w)[i := (a, True)])) + 1 = length (filter (\<lambda>l. \<not> snd l) (rgw_leases w))"
    using filter_list_update [OF release(3), of "\<lambda>l. \<not> snd l" "(a, True)"] release(4) by simp
  then show ?case by (simp add: release(1,2) registry_work_def)
next
  case (shut w wait gone g)
  then have "wait = []" "gone = []" "g = rgw_registry w" by (simp_all add: registry_Close_def)
  then show ?case by (simp add: shut(1,2))
next
  case (timed_out w)
  then show ?case by (cases "rgw_await w = []") (simp_all add: registry_work_def)
qed (auto simp: registry_InvalidateMatching_def registry_Invalidate_def registry_work_def split: if_splits)

text \<open>What has stopped has nothing left to do.\<close>

lemma quiescent_empty:
  assumes quiet: "\<And>w'. registry_step w w' \<Longrightarrow> w' = w"
  shows "rgw_building w = []" "rgw_todo w = []" "\<Union> (set ` set (rgw_batches w)) = {}" "rgw_loose w = []" "(a, False) \<notin> set (rgw_leases w)"
proof -
  show "rgw_building w = []"
  proof (rule ccontr)
    assume "rgw_building w \<noteq> []"
    then obtain k b where kb: "(k, b) \<in> set (rgw_building w)" by (cases "rgw_building w") auto
    obtain outcome loose g where f: "finishRunnerBuild k b None None None 0 (rgw_registry w) = (outcome, loose, g)"
      by (cases "finishRunnerBuild k b None None None 0 (rgw_registry w)") auto
    from quiet [OF registry_step.finish [OF kb _ f]] have "rgw_building w = removeAll (k, b) (rgw_building w)"
      by (auto dest: arg_cong [of _ _ rgw_building])
    with kb length_removeAll_less [OF kb] show False by simp
  qed
  show "rgw_todo w = []"
  proof (cases "rgw_todo w")
    case (Cons a as)
    with quiet [OF registry_step.close_entry [of w "[]" a as False]] show ?thesis by (auto dest: arg_cong [of _ _ rgw_todo])
  qed
  show "\<Union> (set ` set (rgw_batches w)) = {}"
  proof (rule ccontr)
    assume "\<Union> (set ` set (rgw_batches w)) \<noteq> {}"
    then obtain b where b: "b \<in> set (rgw_batches w)" "b \<noteq> []" by auto
    from b(2) obtain a as where a: "b = a # as" by (meson neq_Nil_conv)
    from b(1) obtain xs ys where t: "rgw_batches w = xs @ (a # as) # ys" unfolding a by (meson split_list)
    from quiet [OF registry_step.close_batch [OF t refl, of False]]
    have "rgw_batches w = xs @ ys \<or> rgw_batches w = xs @ as # ys"
      by (auto dest!: arg_cong [of _ _ rgw_batches] split: if_splits)
    with t show False by (auto dest: arg_cong [of _ _ length])
  qed
  show "rgw_loose w = []"
  proof (cases "rgw_loose w")
    case (Cons r rs)
    with quiet [OF registry_step.close_loose [of w "[]" r rs]] show ?thesis by (auto dest: arg_cong [of _ _ rgw_loose])
  qed
  show "(a, False) \<notin> set (rgw_leases w)"
  proof
    assume "(a, False) \<in> set (rgw_leases w)"
    then obtain i where i: "i < length (rgw_leases w)" "rgw_leases w ! i = (a, False)" by (auto simp: in_set_conv_nth)
    obtain c g where r: "lease_release a 0 (rgw_registry w) = (c, g)" by fastforce
    from quiet [OF registry_step.release [OF i r]] have "(rgw_leases w)[i := (a, True)] = rgw_leases w"
      by (auto dest: arg_cong [of _ _ rgw_leases])
    then have "(rgw_leases w)[i := (a, True)] ! i = rgw_leases w ! i" by simp
    with i show False by simp
  qed
qed

text \<open>
  C35: Once the registry is closed, the work of its callers ends: there is no infinite sequence of
  steps that change the world, whoever takes them in whatever order. When nothing changes any more,
  every runner that the factory ever made was closed, except those whose closing an invalidation
  gave up after an earlier one of its runners had failed to close.
\<close>

theorem registry_drains:
  assumes "NewRunnerRegistry factory config = Inr g" and "registry_step\<^sup>*\<^sup>* (registry_start g) w" and "rrg_closed (rgw_registry w)"
  shows "\<not> (\<exists>run. run 0 = w \<and> (\<forall>i. registry_step (run i) (run (Suc i)) \<and> run (Suc i) \<noteq> run i))
       \<and> ((\<forall>w'. registry_step w w' \<longrightarrow> w' = w) \<longrightarrow>
            set (rgw_made w) = set (rgw_stopped w) \<union> (\<lambda>a. rne_runner (rrg_heap (rgw_registry w) ! a)) ` set (rgw_lost w)
            \<and> (rgw_lost w = [] \<or> (\<exists>e \<in> set (rrg_heap (rgw_registry w)). rne_closeErr e)))"
proof (intro conjI impI)
  show "\<not> (\<exists>run. run 0 = w \<and> (\<forall>i. registry_step (run i) (run (Suc i)) \<and> run (Suc i) \<noteq> run i))"
  proof
    assume "\<exists>run. run 0 = w \<and> (\<forall>i. registry_step (run i) (run (Suc i)) \<and> run (Suc i) \<noteq> run i)"
    then obtain run where run: "run 0 = w" "\<And>i. registry_step (run i) (run (Suc i))" "\<And>i. run (Suc i) \<noteq> run i" by blast
    have flags: "rrg_closed (rgw_registry (run i)) \<and> rrg_closeStarted (rgw_registry (run i))" for i
    proof (induction i)
      case 0
      show ?case using run(1) assms(3) registry_reachable_flags [OF assms(1,2)] by simp
    next
      case (Suc i)
      then show ?case using registry_step_flags [OF run(2) [of i]] by auto
    qed
    have "registry_work (run i) + i \<le> registry_work w" for i
    proof (induction i)
      case (Suc i)
      with registry_step_work [OF run(2) [of i]] flags [of i] run(3) [of i] show ?case by simp
    qed (simp add: run(1))
    from this [of "Suc (registry_work w)"] show False by simp
  qed
next
  assume "\<forall>w'. registry_step w w' \<longrightarrow> w' = w"
  then have quiet: "\<And>w'. registry_step w w' \<Longrightarrow> w' = w" by blast
  have ok: "registry_ok w" by (rule registry_reachable_ok [OF assms(1,2)])
  let ?h = "rrg_heap (rgw_registry w)"
  note E = entries_okD [OF registry_okD(2) [OF ok] refl] and C = closing_okD [OF registry_okD(3) [OF ok] refl]
  have Q: "rgw_todo w = []" "\<Union> (set ` set (rgw_batches w)) = {}" "rgw_loose w = []" "(a, False) \<notin> set (rgw_leases w)" for a
    by (rule quiescent_empty, erule quiet)+
  note R = registry_okD(6) [OF ok, unfolded runners_ok_def Let_def]
  have lost: "closing w = set (rgw_lost w)" unfolding closing_def Q(1,2) by simp
  have ended: "rne_closed (?h ! a) \<or> a \<in> set (rgw_lost w)" if "a < length ?h" for a
  proof -
    have "rne_invalidated (?h ! a)" using E(5) [OF that] E(6) [OF assms(3)] by auto
    moreover have "borrowed a w = 0" using Q(4) [of a] by (auto simp: borrowed_def filter_empty_conv)
    ultimately show ?thesis using C(4) [OF that] refs_okD(1) [OF registry_okD(1) [OF ok] that] lost by simp
  qed
  show "set (rgw_made w) = set (rgw_stopped w) \<union> (\<lambda>a. rne_runner (?h ! a)) ` set (rgw_lost w)"
  proof (intro equalityI subsetI)
    fix r
    assume "r \<in> set (rgw_made w)"
    then consider "r \<in> set (rgw_stopped w)" | a where "a < length ?h" "r = rne_runner (?h ! a)"
      using R Q(3) by (auto simp: in_set_conv_nth)
    then show "r \<in> set (rgw_stopped w) \<union> (\<lambda>a. rne_runner (?h ! a)) ` set (rgw_lost w)"
    proof cases
      case 2
      then show ?thesis using ended [of a] R by auto
    qed simp
  next
    fix r
    assume "r \<in> set (rgw_stopped w) \<union> (\<lambda>a. rne_runner (?h ! a)) ` set (rgw_lost w)"
    then show "r \<in> set (rgw_made w)" using R C(1) lost by auto
  qed
  show "rgw_lost w = [] \<or> (\<exists>e \<in> set ?h. rne_closeErr e)" using C(5) by (metis nth_mem)
qed

lemma quiescent_work:
  assumes "NewRunnerRegistry factory config = Inr g" and "registry_step\<^sup>*\<^sup>* (registry_start g) w" and "rrg_closed (rgw_registry w)"
    and "registry_work w = 0"
  shows "\<forall>w'. registry_step w w' \<longrightarrow> w' = w"
  using registry_step_work [of w] registry_reachable_flags [OF assms(1,2)] assms(3,4) by auto

text \<open>The registry is closed while a runner is leased; its last release hands it to be closed.\<close>

definition demo_drained :: registry_world where
  "demo_drained = (after_close (after_release 1 9 (after_release 0 8 (after_shut demo_leased))))\<lparr>rgw_await := []\<rparr>"

lemma demo_drained_reachable: "registry_step\<^sup>*\<^sup>* (registry_start demo_registry) demo_drained"
proof -
  have "registry_step\<^sup>*\<^sup>* (registry_start demo_registry) (after_close (after_release 1 9 (after_release 0 8 (after_shut demo_leased))))"
    by (intro after_steps demo_leased_reachable)
  then show ?thesis unfolding demo_drained_def by (rule rtranclp.rtrancl_into_rtrancl) (rule registry_step.timed_out)
qed

theorem registry_drains_witness:
  "registry_work demo_drained = 0 \<and> set (rgw_made demo_drained) = {7} \<and> set (rgw_stopped demo_drained) = {7}"
proof -
  have c: "rrg_closed (rgw_registry demo_drained)" "registry_work demo_drained = 0" "rgw_lost demo_drained = []" "rgw_made demo_drained = [7]"
    by code_simp+
  have "\<forall>w'. registry_step demo_drained w' \<longrightarrow> w' = demo_drained"
    by (rule quiescent_work [OF demo_registry_new demo_drained_reachable c(1,2)])
  with registry_drains [OF demo_registry_new demo_drained_reachable c(1)] c(2-4) show ?thesis by simp
qed

text \<open>
  \<^verbatim>\<open>InvalidateMatching\<close> returns at the first runner that fails to close. The others were taken out of
  the cache before, so nobody closes them: two idle runners are invalidated, closing the first fails,
  and the second is still open when the registry is closed and nothing is left to do.
\<close>

definition demo_leak :: registry_world where
  "demo_leak = after_shut (after_batch True (after_invalidate (\<lambda>k. pk_TenantID k = ''t'')
     (after_release 0 5 (after_finish (Some 8) 4 (after_acquire (demo_plan ''t'' 2) 3
       (after_release 0 2 (after_finish (Some 7) 1 (after_acquire (demo_plan ''t'' 1) 0 (registry_start demo_registry)))))))))"

lemma demo_leak_reachable: "registry_step\<^sup>*\<^sup>* (registry_start demo_registry) demo_leak"
  unfolding demo_leak_def by (intro after_steps rtranclp.rtrancl_refl)

theorem registry_invalidation_leak:
  "\<exists>w. registry_step\<^sup>*\<^sup>* (registry_start demo_registry) w \<and> rrg_closed (rgw_registry w)
     \<and> (\<forall>w'. registry_step w w' \<longrightarrow> w' = w) \<and> \<not> set (rgw_made w) \<subseteq> set (rgw_stopped w)"
proof (intro exI [of _ demo_leak] conjI)
  have c: "rrg_closed (rgw_registry demo_leak)" "registry_work demo_leak = 0" "\<not> set (rgw_made demo_leak) \<subseteq> set (rgw_stopped demo_leak)"
    by code_simp+
  show "\<forall>w'. registry_step demo_leak w' \<longrightarrow> w' = demo_leak"
    by (rule quiescent_work [OF demo_registry_new demo_leak_reachable c(1,2)])
  show "rrg_closed (rgw_registry demo_leak)" "\<not> set (rgw_made demo_leak) \<subseteq> set (rgw_stopped demo_leak)" using c by simp_all
qed (rule demo_leak_reachable)

end
