(* ===== verification/Spec2Isabelle.thy ===== *)
theory Spec2Isabelle
  imports Queue_Worker RW_Mutex Agent_Runtime Outbox_Props Channel_Flow
    Gateway_Limits Gateway_Idempotency Registry_Props
begin

text \<open>
  A verification development of the agent service platform under \<^verbatim>\<open>src/trpcservice\<close>: a
  multi-tenant service that receives messages from messengers, executes agents for them and
  delivers their replies. Paths below are relative to that directory.

  \<^bold>\<open>The program.\<close> A tenant owns Agent Apps; an app has revisions, drafts that become immutable when they
  are published. A Channel Binding connects an account of a messenger to an app. A message that
  arrives at a public route finds a candidate, its binding verifies the message, and the verified
  binding with tenant and app becomes a routing target. The gateway admits the message under the
  limits of the tenant, claims it in the idempotency store or records it in the runtime store,
  borrows the runner of the execution plan from the registry and executes it. The reply is split
  into segments and stored in the outbox; the delivery worker claims the segments, hands them to the
  messenger and marks the event as replied. The execution queue hands tenant-scoped tasks to its
  workers. Everything that matters for accounting becomes an audit event.
  The platform keeps its state in repositories, of which the in-memory ones are modelled here.

  \<^bold>\<open>How Go is modelled\<close> (\<^verbatim>\<open>Prelude\<close>, \<^verbatim>\<open>Go_Text\<close>, \<^verbatim>\<open>Ident\<close>, \<^verbatim>\<open>Contracts\<close>). A struct is a record, a method that changes
  its receiver takes the state and returns it updated, an error is the left value of a sum. The
  sentinel errors are kept, their messages are not. A map is an association list with distinct
  keys. A time is the number of nanoseconds of an instant in UTC, zero for the zero time, so that
  checks for another location have no counterpart, except in audit events, which carry a flag.
  The 64-bit integers wrap around in the tokens and attempts of the runtime store, in the totals
  and version changes of the audit log, in the backoff of the queue and in the capacity that the
  materializer computes. The other counters are integers without a bound: the versions of
  stored records, the numbers of events and revisions, the tokens and attempts of the queue and
  the counts of the gateway start at zero or one in the code and grow by one per operation, so
  that they differ from the 64-bit counters only after 2 to the 63 operations. Sums of times and durations have no bound either. Clock readings, random bytes and the
  answers of a context are arguments: a context tells at every point where the code looks whether
  it is cancelled. Code from outside of the repository is an argument as well: SHA-256 over
  canonical JSON, the JSON codec of payloads, the URL parser, the provider of a messenger, the
  handler of a task. An operation that holds a lock throughout is one function; where it gives
  the lock up, each section is a function and an inductive relation interleaves the sections of
  all callers. \<^verbatim>\<open>Contracts\<close> has the locales of what components share: \<open>evolving\<close> for states whose
  counters only grow, \<open>versioned\<close> for optimistic locking, \<open>fenced\<close> for leases with a fencing token.

  \<^bold>\<open>Tenants\<close> (\<^verbatim>\<open>Tenant\<close>, \<^verbatim>\<open>Tenant_Repo\<close>; \<^verbatim>\<open>tenant/tenant.go\<close>, \<^verbatim>\<open>tenant/runtime.go\<close>, \<^verbatim>\<open>tenant/inmemory/inmemory.go\<close>).
  Validation, construction, lifecycle, execution snapshots, and the repository with its two
  indexes. The repository is consistent and all that it stores is valid; \<open>tenants\<close> interprets
  \<open>versioned\<close>; a disabled tenant never changes and never executes.

  \<^bold>\<open>The lock\<close> (\<^verbatim>\<open>RW_Mutex\<close>; \<^verbatim>\<open>tenant/inmemory/rwmutex.go\<close> and its copies). The atomic sections of a
  cancellable reader/writer lock and the threads between them: mutual exclusion, exact counts,
  and no lost wake-up.

  \<^bold>\<open>Agent Apps\<close> (\<^verbatim>\<open>Agent_App\<close>, \<^verbatim>\<open>Agent_Revision\<close>, \<^verbatim>\<open>Agent_Repo\<close>, \<^verbatim>\<open>Agent_Locking\<close>, \<^verbatim>\<open>Agent_Runtime\<close>; \<^verbatim>\<open>agent/app.go\<close>,
  \<^verbatim>\<open>agent/revision.go\<close>, \<^verbatim>\<open>agent/repository.go\<close>, \<^verbatim>\<open>agent/inmemory/inmemory.go\<close>, \<^verbatim>\<open>agent/runtime.go\<close>). Consistency of the
  repository, two interpretations of \<open>versioned\<close> (apps and drafts), immutability of published
  revisions, canonical content, publication when its preconditions hold, availability of execution
  snapshots, and that equal cache keys mean equal construction inputs.

  \<^bold>\<open>The execution queue\<close> (\<^verbatim>\<open>Exec_Queue\<close>, \<^verbatim>\<open>Queue_Worker\<close>; \<^verbatim>\<open>runtime/queue/queue.go\<close>). The store of tasks
  interprets \<open>fenced\<close>: a worker that lost its lease cannot commit. Claims take the oldest eligible
  task, leases are exclusive until they run out, finished tasks are final, enqueueing is
  idempotent, tenants are isolated when identifiers have no NUL byte, and not otherwise. The worker
  is verified against the locale \<open>task_store\<close>, which the in-memory store interprets: a successful run
  commits the task that it claimed; its backoff stays within its bounds at 64 bits. The polling loop is a sequence of turns, so no fuel is needed.

  \<^bold>\<open>The runtime store\<close> (\<^verbatim>\<open>Runtime_Types\<close>, \<^verbatim>\<open>Runtime_Store\<close>, \<^verbatim>\<open>Runtime_Capabilities\<close>, \<^verbatim>\<open>Runtime_Steps\<close>,
  \<^verbatim>\<open>Runtime_Invariant\<close>, \<^verbatim>\<open>Runtime_Contracts\<close>, \<^verbatim>\<open>Runtime_Props\<close>; \<^verbatim>\<open>runtime/storage/storage.go\<close>,
  \<^verbatim>\<open>runtime/storage/capabilities.go\<close>, \<^verbatim>\<open>runtime/storage/inmemory\<close>). Sessions, messages, histories, reply segments and
  capabilities, all operations as steps, an invariant of every reachable store, two interpretations
  of \<open>fenced\<close> (executions and deliveries) and one of \<open>versioned\<close> (sessions). Until its session is
  deleted, a message is recorded once, an execution or delivery that lost its lease cannot settle
  and a history only grows, while other sessions may be deleted: such paths are sequences of
  \<open>kept_step\<close>. Fencing holds while the token of the record stays between 0 and 2 to the 63 minus 2,
  which \<open>execution_step\<close> and \<open>delivery_step\<close> say; the first token of a segment is the caller's.
  Batches of replies are atomic, tenants are isolated.

  \<^bold>\<open>Replies\<close> (\<^verbatim>\<open>Outbox_Materializer\<close>, \<^verbatim>\<open>Outbox_Worker\<close>, \<^verbatim>\<open>Outbox_Props\<close>; \<^verbatim>\<open>runtime/outbox\<close>). Splitting a reply by runes
  and putting the stored segments together gives the reply back, with invalid bytes as U+FFFD. A
  run of the delivery worker, with other users of the store between any two of its operations,
  leaves a segment that was not sent before as sent only if the provider accepted it, provided that
  nobody else settles segments as sent (\<open>no_sender\<close>). It keeps that a replied event has only sent
  segments, provided that the others keep to the same discipline (\<open>friendly\<close>, \<open>orderly\<close>): they delete
  no session, add no segment to an event whose segments are all sent and mark no other event as
  replied; \<open>outbox_replied_race\<close> shows what happens otherwise.

  \<^bold>\<open>Audit\<close> (\<^verbatim>\<open>Audit_Log\<close>, \<^verbatim>\<open>Audit_Props\<close>; \<^verbatim>\<open>audit/audit.go\<close>, \<^verbatim>\<open>audit/producer.go\<close>, \<^verbatim>\<open>audit/handoff.go\<close>). Events are
  appended once and never change; usage totals are the sums of the events of their group.

  \<^bold>\<open>Channels\<close> (\<^verbatim>\<open>Channel_Binding\<close>, \<^verbatim>\<open>Channel_Routing\<close>, \<^verbatim>\<open>Channel_Repo\<close>, \<^verbatim>\<open>Channel_Props\<close>, \<^verbatim>\<open>Channel_Flow\<close>;
  \<^verbatim>\<open>channels/channels.go\<close>, \<^verbatim>\<open>channels/repository.go\<close>, \<^verbatim>\<open>channels/routing.go\<close>, \<^verbatim>\<open>channels/inmemory/inmemory.go\<close>). The indexes
  describe exactly the active bindings, a candidate is consumed once, a resolved target names an
  active binding that was verified in the version the candidate was issued for, with active tenant
  and app, and different conversations have different runner identities.

  \<^bold>\<open>The gateway\<close> (\<^verbatim>\<open>Gateway\<close>, \<^verbatim>\<open>Gateway_Limits\<close>, \<^verbatim>\<open>Gateway_Idempotency\<close>; \<^verbatim>\<open>gateway/gateway.go\<close>, \<^verbatim>\<open>gateway/auth.go\<close>,
  \<^verbatim>\<open>gateway/limits.go\<close>, \<^verbatim>\<open>gateway/idempotency.go\<close>, parts of \<^verbatim>\<open>gateway/dispatch.go\<close>). Principals, requests and
  identities; the limiter keeps executions in flight within the limit and a burst within twice the
  limit of a window; the idempotency store refines a finite map from messages to the state of their
  execution and never has two open claims for a message while claims are younger than the
  lifetime of an entry, and it can have two when they are older.

  \<^bold>\<open>The registry of runners\<close> (\<^verbatim>\<open>Runner_Registry\<close>, \<^verbatim>\<open>Registry_Invariant\<close>, \<^verbatim>\<open>Registry_Props\<close>; \<^verbatim>\<open>gateway/registry.go\<close>). Entries
  and constructions live in heaps; the relation \<open>registry_step\<close> interleaves the sections of all callers
  and records what they hold. The runner of an open lease is never closed, no runner is closed
  twice, slots are bounded and constructions are merged, an invalidation is final for all that
  existed before it, and after \<^verbatim>\<open>Close\<close> the work ends, measured by \<open>registry_work\<close>, with every runner
  closed; the exception, an invalidation that stops at a runner that fails to close, is shown to occur.

  \<^bold>\<open>Not modelled.\<close> The SQL repositories and their migrations, whose behaviour is that of the database;
  the protocols of the messengers, the HTTP surfaces and the command line, which are input and
  output; models, backends and their profiles; the assembly of runners from the agent library; the
  orchestration in \<^verbatim>\<open>gateway/dispatch.go\<close> beyond identities and requests; configuration, bootstrap,
  metrics, tracing and logging. The similarity searches of the runtime store are left out: they
  only read, and they rank by floating point scores.
\<close>

end
